(* ===== verification/SA_Base.thy ===== *)
theory SA_Base
  imports Main "HOL-Library.Word"
begin

text \<open>
  The vocabulary every other theory of the development shares: machine integers, status codes
  (\<^verbatim>\<open>sa_status\<close> of \<^verbatim>\<open>reference/src/client/include/sa_types.h\<close>), the world an operation runs in,
  the heap its structures live in, and the byte comparison and overflow helpers of
  \<^verbatim>\<open>taimpl/src/porting\<close>.

  Conventions of the model:
  \<^item> a pointer the code compares with NULL is an \<open>option\<close>; an output pointer is a \<open>bool\<close> that
    says whether it is non-NULL, and the value written through it is part of the result;
  \<^item> a library call that can fail (\<open>malloc\<close>, \<open>mtx_init\<close>, \<open>mtx_lock\<close>, \<open>EVP_CIPHER_CTX_new\<close>, ...)
    draws its outcome from the script \<open>w_faults\<close> of the world, so a theorem about every world is a
    theorem about every pattern of failures; \<open>mtx_unlock\<close>, whose failure the code only logs, draws
    nothing;
  \<^item> a void pointer to a heap object is an address, a natural number with 0 for NULL.
\<close>

unbundle bit_operations_syntax

section \<open>Machine integers, bytes, identifiers\<close>

type_synonym u8 = "8 word"
type_synonym u16 = "16 word"
type_synonym u32 = "32 word"
type_synonym u64 = "64 word"
type_synonym addr = nat
type_synonym sa_uuid = "u8 list"
type_synonym mem = "u64 \<Rightarrow> u8"

abbreviation (input) NULL :: addr where "NULL \<equiv> 0"

definition uuid_ok :: "sa_uuid \<Rightarrow> bool" where
  "uuid_ok u \<longleftrightarrow> length u = 16"

named_theorems sa_defs \<open>unfoldings of the small operations of the model\<close>
named_theorems sa_inv \<open>operations that keep an invariant\<close>

section \<open>Status codes\<close>

datatype sa_status =
    SA_STATUS_OK
  | SA_STATUS_NO_AVAILABLE_RESOURCE_SLOT
  | SA_STATUS_INVALID_KEY_FORMAT
  | SA_STATUS_INVALID_KEY_TYPE
  | SA_STATUS_NULL_PARAMETER
  | SA_STATUS_INVALID_PARAMETER
  | SA_STATUS_OPERATION_NOT_ALLOWED
  | SA_STATUS_INVALID_SVP_BUFFER
  | SA_STATUS_OPERATION_NOT_SUPPORTED
  | SA_STATUS_SELF_TEST
  | SA_STATUS_VERIFICATION_FAILED
  | SA_STATUS_INTERNAL_ERROR
  | SA_STATUS_HW_ERROR

text \<open>The integer behind the enumeration: what C sees when a status is used as a truth value.\<close>

fun status_code :: "sa_status \<Rightarrow> nat" where
  "status_code SA_STATUS_OK = 0"
| "status_code SA_STATUS_NO_AVAILABLE_RESOURCE_SLOT = 1"
| "status_code SA_STATUS_INVALID_KEY_FORMAT = 2"
| "status_code SA_STATUS_INVALID_KEY_TYPE = 3"
| "status_code SA_STATUS_NULL_PARAMETER = 4"
| "status_code SA_STATUS_INVALID_PARAMETER = 5"
| "status_code SA_STATUS_OPERATION_NOT_ALLOWED = 6"
| "status_code SA_STATUS_INVALID_SVP_BUFFER = 7"
| "status_code SA_STATUS_OPERATION_NOT_SUPPORTED = 8"
| "status_code SA_STATUS_SELF_TEST = 9"
| "status_code SA_STATUS_VERIFICATION_FAILED = 10"
| "status_code SA_STATUS_INTERNAL_ERROR = 11"
| "status_code SA_STATUS_HW_ERROR = 12"

definition status_as_bool :: "sa_status \<Rightarrow> bool" where
  "status_as_bool s \<longleftrightarrow> status_code s \<noteq> 0"

lemma status_as_bool_iff [simp]: "status_as_bool s \<longleftrightarrow> s \<noteq> SA_STATUS_OK"
  by (cases s) (simp_all add: status_as_bool_def)

section \<open>The world of an operation\<close>

record video_output_state =
  analog_unprotected_count :: int
  analog_cgmsa_count :: int
  digital_unprotected_count :: int
  digital_hdcp14_count :: int
  digital_hdcp22_count :: int
  svp_enabled :: bool

text \<open>
  \<open>w_faults\<close>: outcomes of the fallible library calls in call order, \<open>True\<close> for success; once the
  script is used up every call succeeds. \<open>w_rand\<close>: the bytes the random generator returns next,
  zero once used up. \<open>w_time\<close>: what \<open>time(NULL)\<close> reads during the operation. \<open>w_video\<close>: what
  \<open>video_output_poll\<close> reports, \<open>None\<close> when the poll fails. \<open>w_root_key\<close>,
  \<open>w_common_root_key\<close> and \<open>w_device_id\<close> are the static variables
  of \<open>otp.c\<close>: the cached root keys (empty until they are loaded) and the device id. \<open>w_mem\<close>: the memory
  of the secure video path, bytes at 64-bit addresses.
\<close>

record world =
  w_faults :: "bool list"
  w_rand :: "u8 list"
  w_time :: u64
  w_video :: "video_output_state option"
  w_root_key :: "u8 list"
  w_common_root_key :: "u8 list"
  w_device_id :: u64
  w_mem :: mem

definition draw :: "world \<Rightarrow> bool \<times> world" where
  "draw w = (case w_faults w of [] \<Rightarrow> (True, w) | b # bs \<Rightarrow> (b, w\<lparr>w_faults := bs\<rparr>))"

lemma draw_env [simp]:
  "draw w = (b, w') \<Longrightarrow> w_time w' = w_time w"
  "draw w = (b, w') \<Longrightarrow> w_video w' = w_video w"
  "draw w = (b, w') \<Longrightarrow> w_rand w' = w_rand w"
  "draw w = (b, w') \<Longrightarrow> w_root_key w' = w_root_key w"
  "draw w = (b, w') \<Longrightarrow> w_mem w' = w_mem w"
  by (auto simp: draw_def split: list.splits)

lemma draw_no_faults [simp]: "w_faults w = [] \<Longrightarrow> draw w = (True, w)"
  by (simp add: draw_def)

lemma draw_script [simp]: "draw (w\<lparr>w_faults := b # bs\<rparr>) = (b, w\<lparr>w_faults := bs\<rparr>)"
  by (simp add: draw_def)

text \<open>Calls made one after the other, up to the first that fails.\<close>

fun draws :: "nat \<Rightarrow> world \<Rightarrow> bool \<times> world" where
  "draws 0 w = (True, w)"
| "draws (Suc n) w = (let (ok, w) = draw w in if ok then draws n w else (False, w))"

lemma draws_no_faults [simp]: "w_faults w = [] \<Longrightarrow> draws n w = (True, w)"
  by (induction n) simp_all

text \<open>\<open>rand_bytes\<close> of \<^verbatim>\<open>porting/rand.c\<close>: fails like any library call, else takes the next bytes.\<close>

definition rand_bytes :: "nat \<Rightarrow> world \<Rightarrow> u8 list option \<times> world" where
  "rand_bytes n w =
     (let (ok, w) = draw w in
      if \<not> ok then (None, w)
      else (Some (take n (w_rand w) @ replicate (n - length (w_rand w)) 0), w\<lparr>w_rand := drop n (w_rand w)\<rparr>))"

lemma rand_bytes_length: "rand_bytes n w = (Some bs, w') \<Longrightarrow> length bs = n"
  by (auto simp: rand_bytes_def Let_def split: prod.splits if_splits)

section \<open>Heaps\<close>

text \<open>
  The objects of one C type. Addresses come from a counter, so an address is never handed out
  twice: a dangling pointer never becomes valid again by accident.
\<close>

record 'a heap =
  next_addr :: addr
  cells :: "addr \<Rightarrow> 'a option"

definition heap_ok :: "'a heap \<Rightarrow> bool" where
  "heap_ok h \<longleftrightarrow> 0 < next_addr h \<and> (\<forall>a. cells h a \<noteq> None \<longrightarrow> 0 < a \<and> a < next_addr h)"

definition empty_heap :: "'a heap" where
  "empty_heap = \<lparr>next_addr = 1, cells = (\<lambda>_. None)\<rparr>"

definition heap_alloc :: "'a heap \<Rightarrow> 'a \<Rightarrow> addr \<times> 'a heap" where
  "heap_alloc h v =
     (next_addr h, h\<lparr>next_addr := Suc (next_addr h), cells := (cells h)(next_addr h \<mapsto> v)\<rparr>)"

definition heap_free :: "'a heap \<Rightarrow> addr \<Rightarrow> 'a heap" where
  "heap_free h a = h\<lparr>cells := (cells h)(a := None)\<rparr>"

definition heap_write :: "'a heap \<Rightarrow> addr \<Rightarrow> 'a \<Rightarrow> 'a heap" where
  "heap_write h a v = h\<lparr>cells := (cells h)(a \<mapsto> v)\<rparr>"

lemma heap_ok_empty [simp]: "heap_ok empty_heap"
  by (simp add: heap_ok_def empty_heap_def)

lemma heap_ok_alloc [sa_inv]: "heap_ok h \<Longrightarrow> heap_ok (snd (heap_alloc h v))"
  by (auto simp: heap_ok_def heap_alloc_def less_Suc_eq)

lemma heap_ok_free [sa_inv]: "heap_ok h \<Longrightarrow> heap_ok (heap_free h a)"
  by (auto simp: heap_ok_def heap_free_def)

lemma heap_ok_write [sa_inv]: "heap_ok h \<Longrightarrow> cells h a \<noteq> None \<Longrightarrow> heap_ok (heap_write h a v)"
  by (auto simp: heap_ok_def heap_write_def)

lemma heap_alloc_fresh: "heap_ok h \<Longrightarrow> cells h (next_addr h) = None"
  unfolding heap_ok_def by blast

section \<open>Byte comparison and checked addition (taimpl/src/porting)\<close>

text \<open>\<open>memory_memcmp_constant\<close>: the accumulated difference of the first \<open>len\<close> bytes, in one pass.\<close>

fun memcmp_loop :: "u8 \<Rightarrow> (u8 \<times> u8) list \<Rightarrow> u8" where
  "memcmp_loop result [] = result"
| "memcmp_loop result ((a, b) # rest) = memcmp_loop (result OR (a XOR b)) rest"

definition memory_memcmp_constant :: "u8 list \<Rightarrow> u8 list \<Rightarrow> nat \<Rightarrow> u8" where
  "memory_memcmp_constant in1 in2 len = memcmp_loop 0 (zip (take len in1) (take len in2))"

definition memory_memset_unoptimizable :: "u8 list \<Rightarrow> u8 \<Rightarrow> nat \<Rightarrow> u8 list" where
  "memory_memset_unoptimizable destination v size' = replicate size' v @ drop size' destination"

text \<open>\<open>add_overflow\<close>: the carry flag of \<open>__builtin_uaddl_overflow\<close> and the wrapped sum.\<close>

definition add_overflow :: "u64 \<Rightarrow> u64 \<Rightarrow> bool \<times> u64" where
  "add_overflow a b = (2 ^ 64 \<le> unat a + unat b, a + b)"

lemma word_or_eq_0: "(a OR b) = (0 :: 'a::len word) \<longleftrightarrow> a = 0 \<and> b = 0"
  by (metis or.right_idem or_eq_0_iff)

lemma word_xor_eq_0: "(a XOR b) = (0 :: 'a::len word) \<longleftrightarrow> a = b"
  by (metis bit.xor_cancel_right bit.xor_left_self bit.xor_self)

lemma memcmp_loop_eq_0:
  "memcmp_loop r ps = 0 \<longleftrightarrow> r = 0 \<and> (\<forall>p \<in> set ps. fst p = snd p)"
  by (induction r ps rule: memcmp_loop.induct) (auto simp: word_or_eq_0 word_xor_eq_0)

lemma zip_all_eq: "length xs = length ys \<Longrightarrow> (\<forall>p \<in> set (zip xs ys). fst p = snd p) \<longleftrightarrow> xs = ys"
  by (induction xs ys rule: list_induct2) auto

lemma memcmp_eq_0_iff:
  assumes "n \<le> length a" "n \<le> length b"
  shows "memory_memcmp_constant a b n = 0 \<longleftrightarrow> take n a = take n b"
  using assms by (simp add: memory_memcmp_constant_def memcmp_loop_eq_0 zip_all_eq)

lemma memcmp_uuid [simp]:
  "uuid_ok a \<Longrightarrow> uuid_ok b \<Longrightarrow> memory_memcmp_constant a b 16 = 0 \<longleftrightarrow> a = b"
  by (simp add: memcmp_eq_0_iff uuid_ok_def)

lemma add_overflow_no:
  "add_overflow a b = (False, r) \<Longrightarrow> unat r = unat a + unat b"
  by (auto simp: add_overflow_def unat_word_ariths)

lemma add_overflow_yes: "add_overflow a b = (True, r) \<Longrightarrow> 2 ^ 64 \<le> unat a + unat b"
  by (auto simp: add_overflow_def)

end
