(* ===== verification/SA_Types.thy ===== *)
theory SA_Types
  imports SA_Base
begin

text \<open>
  The public data types of \<^verbatim>\<open>reference/src/client/include/sa_types.h\<close> that the trusted application
  works on: key types, curves, usage flags, rights, headers. An enumeration is a datatype with the
  source's constructors and one more for a value outside the enumeration, since the values come from
  clients; \<open>curve_code\<close> and \<open>key_type_code\<close> are the integers C sees.
\<close>

datatype sa_key_type =
    SA_KEY_TYPE_SYMMETRIC | SA_KEY_TYPE_EC | SA_KEY_TYPE_RSA | SA_KEY_TYPE_DH
  | SA_KEY_TYPE_OTHER nat

definition key_type_of_code :: "nat \<Rightarrow> sa_key_type" where
  "key_type_of_code n =
     (if n = 0 then SA_KEY_TYPE_SYMMETRIC else if n = 1 then SA_KEY_TYPE_EC
      else if n = 2 then SA_KEY_TYPE_RSA else if n = 3 then SA_KEY_TYPE_DH else SA_KEY_TYPE_OTHER n)"

fun key_type_code :: "sa_key_type \<Rightarrow> nat" where
  "key_type_code SA_KEY_TYPE_SYMMETRIC = 0"
| "key_type_code SA_KEY_TYPE_EC = 1"
| "key_type_code SA_KEY_TYPE_RSA = 2"
| "key_type_code SA_KEY_TYPE_DH = 3"
| "key_type_code (SA_KEY_TYPE_OTHER n) = n"

datatype sa_elliptic_curve =
    SA_ELLIPTIC_CURVE_NIST_P256 | SA_ELLIPTIC_CURVE_NIST_P384 | SA_ELLIPTIC_CURVE_NIST_P521
  | SA_ELLIPTIC_CURVE_ED25519 | SA_ELLIPTIC_CURVE_X25519 | SA_ELLIPTIC_CURVE_ED448
  | SA_ELLIPTIC_CURVE_X448 | SA_ELLIPTIC_CURVE_NIST_P192 | SA_ELLIPTIC_CURVE_NIST_P224
  | SA_ELLIPTIC_CURVE_OTHER u32

fun curve_code :: "sa_elliptic_curve \<Rightarrow> u32" where
  "curve_code SA_ELLIPTIC_CURVE_NIST_P256 = 0"
| "curve_code SA_ELLIPTIC_CURVE_NIST_P384 = 1"
| "curve_code SA_ELLIPTIC_CURVE_NIST_P521 = 2"
| "curve_code SA_ELLIPTIC_CURVE_ED25519 = 3"
| "curve_code SA_ELLIPTIC_CURVE_X25519 = 4"
| "curve_code SA_ELLIPTIC_CURVE_ED448 = 5"
| "curve_code SA_ELLIPTIC_CURVE_X448 = 6"
| "curve_code SA_ELLIPTIC_CURVE_NIST_P192 = 7"
| "curve_code SA_ELLIPTIC_CURVE_NIST_P224 = 8"
| "curve_code (SA_ELLIPTIC_CURVE_OTHER n) = n"

definition curve_of_code :: "u32 \<Rightarrow> sa_elliptic_curve" where
  "curve_of_code n =
     (if n = 0 then SA_ELLIPTIC_CURVE_NIST_P256 else if n = 1 then SA_ELLIPTIC_CURVE_NIST_P384
      else if n = 2 then SA_ELLIPTIC_CURVE_NIST_P521 else if n = 3 then SA_ELLIPTIC_CURVE_ED25519
      else if n = 4 then SA_ELLIPTIC_CURVE_X25519 else if n = 5 then SA_ELLIPTIC_CURVE_ED448
      else if n = 6 then SA_ELLIPTIC_CURVE_X448 else if n = 7 then SA_ELLIPTIC_CURVE_NIST_P192
      else if n = 8 then SA_ELLIPTIC_CURVE_NIST_P224 else SA_ELLIPTIC_CURVE_OTHER n)"

datatype sa_digest_algorithm =
    SA_DIGEST_ALGORITHM_SHA1 | SA_DIGEST_ALGORITHM_SHA256 | SA_DIGEST_ALGORITHM_SHA384
  | SA_DIGEST_ALGORITHM_SHA512 | SA_DIGEST_ALGORITHM_OTHER nat

datatype sa_cipher_algorithm =
    SA_CIPHER_ALGORITHM_AES_ECB | SA_CIPHER_ALGORITHM_AES_ECB_PKCS7
  | SA_CIPHER_ALGORITHM_AES_CBC | SA_CIPHER_ALGORITHM_AES_CBC_PKCS7
  | SA_CIPHER_ALGORITHM_AES_CTR | SA_CIPHER_ALGORITHM_AES_GCM
  | SA_CIPHER_ALGORITHM_RSA_PKCS1V15 | SA_CIPHER_ALGORITHM_RSA_OAEP
  | SA_CIPHER_ALGORITHM_EC_ELGAMAL | SA_CIPHER_ALGORITHM_CHACHA20
  | SA_CIPHER_ALGORITHM_CHACHA20_POLY1305 | SA_CIPHER_ALGORITHM_OTHER nat

datatype sa_cipher_mode =
    SA_CIPHER_MODE_DECRYPT | SA_CIPHER_MODE_ENCRYPT | SA_CIPHER_MODE_OTHER nat

datatype sa_mac_algorithm = SA_MAC_ALGORITHM_CMAC | SA_MAC_ALGORITHM_HMAC | SA_MAC_ALGORITHM_OTHER nat

section \<open>Usage flags\<close>

datatype sa_usage_flag =
    SA_USAGE_FLAG_KEY_EXCHANGE | SA_USAGE_FLAG_DERIVE | SA_USAGE_FLAG_UNWRAP
  | SA_USAGE_FLAG_ENCRYPT | SA_USAGE_FLAG_DECRYPT | SA_USAGE_FLAG_SIGN
  | SA_USAGE_FLAG_ALLOWED_ANALOG_UNPROTECTED | SA_USAGE_FLAG_ALLOWED_ANALOG_CGMSA
  | SA_USAGE_FLAG_ALLOWED_DIGITAL_UNPROTECTED | SA_USAGE_FLAG_ALLOWED_DIGITAL_HDCP14
  | SA_USAGE_FLAG_ALLOWED_DIGITAL_HDCP22 | SA_USAGE_FLAG_ALLOWED_DIGITAL_DTCP
  | SA_USAGE_FLAG_SVP_OPTIONAL | SA_USAGE_FLAG_CACHEABLE

fun flag_code :: "sa_usage_flag \<Rightarrow> nat" where
  "flag_code SA_USAGE_FLAG_KEY_EXCHANGE = 0"
| "flag_code SA_USAGE_FLAG_DERIVE = 1"
| "flag_code SA_USAGE_FLAG_UNWRAP = 2"
| "flag_code SA_USAGE_FLAG_ENCRYPT = 3"
| "flag_code SA_USAGE_FLAG_DECRYPT = 4"
| "flag_code SA_USAGE_FLAG_SIGN = 5"
| "flag_code SA_USAGE_FLAG_ALLOWED_ANALOG_UNPROTECTED = 6"
| "flag_code SA_USAGE_FLAG_ALLOWED_ANALOG_CGMSA = 7"
| "flag_code SA_USAGE_FLAG_ALLOWED_DIGITAL_UNPROTECTED = 8"
| "flag_code SA_USAGE_FLAG_ALLOWED_DIGITAL_HDCP14 = 9"
| "flag_code SA_USAGE_FLAG_ALLOWED_DIGITAL_HDCP22 = 10"
| "flag_code SA_USAGE_FLAG_ALLOWED_DIGITAL_DTCP = 11"
| "flag_code SA_USAGE_FLAG_SVP_OPTIONAL = 12"
| "flag_code SA_USAGE_FLAG_CACHEABLE = 13"

definition SA_USAGE_BIT_MASK :: "sa_usage_flag \<Rightarrow> u64" where
  "SA_USAGE_BIT_MASK b = push_bit (flag_code b mod (8 * 8)) 1"

definition SA_USAGE_BIT_SET :: "u64 \<Rightarrow> sa_usage_flag \<Rightarrow> u64" where
  "SA_USAGE_BIT_SET a b = a OR SA_USAGE_BIT_MASK b"

definition SA_USAGE_BIT_CLEAR :: "u64 \<Rightarrow> sa_usage_flag \<Rightarrow> u64" where
  "SA_USAGE_BIT_CLEAR a b = a AND NOT (SA_USAGE_BIT_MASK b)"

definition SA_USAGE_BIT_TEST :: "u64 \<Rightarrow> sa_usage_flag \<Rightarrow> bool" where
  "SA_USAGE_BIT_TEST a b \<longleftrightarrow> a AND SA_USAGE_BIT_MASK b \<noteq> 0"

definition SA_USAGE_OUTPUT_PROTECTIONS_MASK :: u64 where
  "SA_USAGE_OUTPUT_PROTECTIONS_MASK =
     SA_USAGE_BIT_MASK SA_USAGE_FLAG_ALLOWED_ANALOG_UNPROTECTED OR
     SA_USAGE_BIT_MASK SA_USAGE_FLAG_ALLOWED_ANALOG_CGMSA OR
     SA_USAGE_BIT_MASK SA_USAGE_FLAG_ALLOWED_DIGITAL_UNPROTECTED OR
     SA_USAGE_BIT_MASK SA_USAGE_FLAG_ALLOWED_DIGITAL_HDCP14 OR
     SA_USAGE_BIT_MASK SA_USAGE_FLAG_ALLOWED_DIGITAL_HDCP22 OR
     SA_USAGE_BIT_MASK SA_USAGE_FLAG_ALLOWED_DIGITAL_DTCP OR
     SA_USAGE_BIT_MASK SA_USAGE_FLAG_SVP_OPTIONAL"

definition SA_KEY_USAGE_MASK :: u64 where
  "SA_KEY_USAGE_MASK =
     SA_USAGE_BIT_MASK SA_USAGE_FLAG_KEY_EXCHANGE OR SA_USAGE_BIT_MASK SA_USAGE_FLAG_DERIVE OR
     SA_USAGE_BIT_MASK SA_USAGE_FLAG_UNWRAP OR SA_USAGE_BIT_MASK SA_USAGE_FLAG_ENCRYPT OR
     SA_USAGE_BIT_MASK SA_USAGE_FLAG_DECRYPT OR SA_USAGE_BIT_MASK SA_USAGE_FLAG_SIGN"

section \<open>Rights and headers\<close>

record sa_rights =
  rights_id :: "u8 list"
  usage_flags :: u64
  child_usage_flags :: u64
  not_before :: u64
  not_on_or_after :: u64
  allowed_tas :: "sa_uuid list"

text \<open>
  Little-endian integers in memory. The union \<open>sa_type_parameters\<close> is its 1040 bytes: the curve is
  read from the first four, the Diffie-Hellman group is the two 512-byte numbers with their lengths.
\<close>

fun le_bytes :: "nat \<Rightarrow> nat \<Rightarrow> u8 list" where
  "le_bytes 0 x = []"
| "le_bytes (Suc n) x = of_nat x # le_bytes n (x div 256)"

fun le_value :: "u8 list \<Rightarrow> nat" where
  "le_value [] = 0"
| "le_value (b # bs) = unat b + 256 * le_value bs"

type_synonym sa_type_parameters = "u8 list"

definition TYPE_PARAMETERS_SIZE :: nat where
  "TYPE_PARAMETERS_SIZE = 1040"

definition tp_curve :: "sa_type_parameters \<Rightarrow> sa_elliptic_curve" where
  "tp_curve tp = curve_of_code (of_nat (le_value (take 4 tp)))"

record dh_parameters =
  dh_p :: "u8 list"
  dh_p_length :: u64
  dh_g :: "u8 list"
  dh_g_length :: u64

definition tp_dh_parameters :: "sa_type_parameters \<Rightarrow> dh_parameters" where
  "tp_dh_parameters tp = \<lparr>dh_p = take 512 tp, dh_p_length = of_nat (le_value (take 8 (drop 512 tp))),
     dh_g = take 512 (drop 520 tp), dh_g_length = of_nat (le_value (take 8 (drop 1032 tp)))\<rparr>"

text \<open>The zeroed union, and the zeroed union with its curve set.\<close>

definition no_parameters :: sa_type_parameters where
  "no_parameters = replicate TYPE_PARAMETERS_SIZE 0"

definition curve_parameters :: "sa_elliptic_curve \<Rightarrow> sa_type_parameters" where
  "curve_parameters c = le_bytes 4 (unat (curve_code c)) @ replicate (TYPE_PARAMETERS_SIZE - 4) 0"

lemma length_le_bytes [simp]: "length (le_bytes n x) = n"
  by (induction n arbitrary: x) simp_all

lemma le_value_bytes: "x < 256 ^ n \<Longrightarrow> le_value (le_bytes n x) = x"
proof (induction n arbitrary: x)
  case (Suc n)
  then have "x div 256 < 256 ^ n" by (simp add: div_less_iff_less_mult mult.commute)
  with Suc.IH show ?case by (simp add: unat_of_nat take_bit_eq_mod)
qed simp

lemma le_value_bytes_word [simp]:
  fixes x :: "'a::len word"
  assumes "LENGTH('a) \<le> 8 * n"
  shows "of_nat (le_value (le_bytes n (unat x))) = x"
proof -
  have "unat x < 2 ^ LENGTH('a)" by simp
  also have "(2::nat) ^ LENGTH('a) \<le> 2 ^ (8 * n)" using assms by (intro power_increasing) simp_all
  also have "(2::nat) ^ (8 * n) = 256 ^ n" by (simp add: power_mult)
  finally show ?thesis by (simp add: le_value_bytes)
qed

lemma le_value_bound: "le_value bs < 256 ^ length bs"
proof (induction bs)
  case (Cons b bs)
  have "unat b < 256" using unsigned_less [where 'a = nat, of b] by simp
  with Cons show ?case by simp
qed simp

lemma curve_of_code_code [simp]: "curve_of_code (curve_code c) = c \<or> (\<exists>n. c = SA_ELLIPTIC_CURVE_OTHER n)"
  by (cases c) (simp_all add: curve_of_code_def)

record sa_header =
  hdr_magic :: "u8 list"
  hdr_rights :: sa_rights
  hdr_type :: sa_key_type
  hdr_type_parameters :: sa_type_parameters
  hdr_size :: u16

text \<open>\<open>{'s', 'a', 'k', '0'}\<close>\<close>

definition MAGIC :: "u8 list" where
  "MAGIC = [0x73, 0x61, 0x6B, 0x30]"

section \<open>Flags as bits\<close>

definition usage_flag_set :: "u64 \<Rightarrow> sa_usage_flag set" where
  "usage_flag_set a = {b. bit a (flag_code b)}"

definition output_protection :: "sa_usage_flag \<Rightarrow> bool" where
  "output_protection b \<longleftrightarrow> 6 \<le> flag_code b \<and> flag_code b \<le> 12"

definition key_usage_flag :: "sa_usage_flag \<Rightarrow> bool" where
  "key_usage_flag b \<longleftrightarrow> flag_code b \<le> 5"

lemma flag_code_lt [simp]: "flag_code b < 64"
  by (cases b) simp_all

lemma flag_code_inj [simp]: "flag_code a = flag_code b \<longleftrightarrow> a = b"
  by (cases a; cases b) simp_all

lemma bit_mask_exp: "SA_USAGE_BIT_MASK b = 2 ^ flag_code b"
  by (simp add: SA_USAGE_BIT_MASK_def)

lemma bit_mask [simp]: "bit (SA_USAGE_BIT_MASK b) n \<longleftrightarrow> n = flag_code b"
  by (auto simp: bit_mask_exp bit_exp_iff possible_bit_def)

lemma bit_test [simp]: "SA_USAGE_BIT_TEST a b \<longleftrightarrow> bit a (flag_code b)"
proof -
  have "a AND SA_USAGE_BIT_MASK b = 0 \<longleftrightarrow> (\<forall>n. \<not> (bit a n \<and> n = flag_code b))"
    by (simp add: bit_eq_iff [where 'a = u64] bit_and_iff) (metis flag_code_lt)
  then show ?thesis by (auto simp: SA_USAGE_BIT_TEST_def)
qed

lemma bit_set [simp]: "bit (SA_USAGE_BIT_SET a b) n \<longleftrightarrow> bit a n \<or> n = flag_code b"
  by (simp add: SA_USAGE_BIT_SET_def bit_or_iff)

lemma bit_clear [simp]: "bit (SA_USAGE_BIT_CLEAR a b) n \<longleftrightarrow> bit a n \<and> n \<noteq> flag_code b"
  by (auto simp: SA_USAGE_BIT_CLEAR_def bit_and_iff bit_not_iff possible_bit_def dest: bit_imp_le_length)

lemma bit_output_mask [simp]:
  "bit SA_USAGE_OUTPUT_PROTECTIONS_MASK n \<longleftrightarrow> 6 \<le> n \<and> n \<le> 12"
  by (auto simp: SA_USAGE_OUTPUT_PROTECTIONS_MASK_def bit_or_iff)

lemma bit_key_usage_mask [simp]: "bit SA_KEY_USAGE_MASK n \<longleftrightarrow> n \<le> 5"
  by (auto simp: SA_KEY_USAGE_MASK_def bit_or_iff)

lemma usage_flag_set_iff [simp]: "b \<in> usage_flag_set a \<longleftrightarrow> bit a (flag_code b)"
  by (simp add: usage_flag_set_def)

end
