(* ===== verification/Key_Type.thy ===== *)
theory Key_Type
  imports SA_Types
begin

text \<open>
  Which sizes each key type supports, \<^verbatim>\<open>reference/src/taimpl/src/internal/key_type.c\<close>, with the key
  sizes of the elliptic curves (\<open>ec_key_size_from_curve\<close> of \<^verbatim>\<open>ec.c\<close>), the constants of
  \<^verbatim>\<open>util/include/common.h\<close>, and the digest lengths and names of \<^verbatim>\<open>util/src/digest_util.c\<close>.
\<close>

section \<open>Constants\<close>

definition SYM_128_KEY_SIZE :: u64 where "SYM_128_KEY_SIZE = 16"
definition SYM_256_KEY_SIZE :: u64 where "SYM_256_KEY_SIZE = 32"
definition SYM_MAX_KEY_SIZE :: u64 where "SYM_MAX_KEY_SIZE = 512"
definition DH_MAX_MOD_SIZE :: u64 where "DH_MAX_MOD_SIZE = 512"
definition AES_BLOCK_SIZE :: nat where "AES_BLOCK_SIZE = 16"
definition SHA256_DIGEST_LENGTH :: nat where "SHA256_DIGEST_LENGTH = 32"

section \<open>The checks\<close>

fun ec_key_size_from_curve :: "sa_elliptic_curve \<Rightarrow> u64" where
  "ec_key_size_from_curve SA_ELLIPTIC_CURVE_NIST_P192 = 24"
| "ec_key_size_from_curve SA_ELLIPTIC_CURVE_NIST_P224 = 28"
| "ec_key_size_from_curve SA_ELLIPTIC_CURVE_NIST_P256 = 32"
| "ec_key_size_from_curve SA_ELLIPTIC_CURVE_NIST_P384 = 48"
| "ec_key_size_from_curve SA_ELLIPTIC_CURVE_NIST_P521 = 66"
| "ec_key_size_from_curve SA_ELLIPTIC_CURVE_ED25519 = 32"
| "ec_key_size_from_curve SA_ELLIPTIC_CURVE_X25519 = 32"
| "ec_key_size_from_curve SA_ELLIPTIC_CURVE_ED448 = 57"
| "ec_key_size_from_curve SA_ELLIPTIC_CURVE_X448 = 56"
| "ec_key_size_from_curve (SA_ELLIPTIC_CURVE_OTHER _) = 0"

definition valid_aes_size :: "u64 \<Rightarrow> bool" where
  "valid_aes_size size' \<longleftrightarrow> size' = SYM_128_KEY_SIZE \<or> size' = SYM_256_KEY_SIZE"

definition valid_hmac_size :: "u64 \<Rightarrow> bool" where
  "valid_hmac_size size' \<longleftrightarrow> size' \<ge> SYM_128_KEY_SIZE \<and> size' \<le> SYM_MAX_KEY_SIZE"

definition valid_rsa_size :: "u64 \<Rightarrow> bool" where
  "valid_rsa_size size' \<longleftrightarrow> size' = 128 \<or> size' = 256 \<or> size' = 384 \<or> size' = 512"

definition valid_ec_size :: "sa_elliptic_curve \<Rightarrow> u64 \<Rightarrow> bool" where
  "valid_ec_size curve size' \<longleftrightarrow>
     (curve = SA_ELLIPTIC_CURVE_NIST_P192 \<and> size' = ec_key_size_from_curve SA_ELLIPTIC_CURVE_NIST_P192) \<or>
     (curve = SA_ELLIPTIC_CURVE_NIST_P224 \<and> size' = ec_key_size_from_curve SA_ELLIPTIC_CURVE_NIST_P224) \<or>
     (curve = SA_ELLIPTIC_CURVE_NIST_P256 \<and> size' = ec_key_size_from_curve SA_ELLIPTIC_CURVE_NIST_P256) \<or>
     (curve = SA_ELLIPTIC_CURVE_NIST_P384 \<and> size' = ec_key_size_from_curve SA_ELLIPTIC_CURVE_NIST_P384) \<or>
     (curve = SA_ELLIPTIC_CURVE_NIST_P521 \<and> size' = ec_key_size_from_curve SA_ELLIPTIC_CURVE_NIST_P521) \<or>
     (curve = SA_ELLIPTIC_CURVE_ED25519 \<and> size' = ec_key_size_from_curve SA_ELLIPTIC_CURVE_ED25519) \<or>
     (curve = SA_ELLIPTIC_CURVE_X25519 \<and> size' = ec_key_size_from_curve SA_ELLIPTIC_CURVE_X25519) \<or>
     (curve = SA_ELLIPTIC_CURVE_ED448 \<and> size' = ec_key_size_from_curve SA_ELLIPTIC_CURVE_ED448) \<or>
     (curve = SA_ELLIPTIC_CURVE_X448 \<and> size' = ec_key_size_from_curve SA_ELLIPTIC_CURVE_X448)"

definition valid_dh_size :: "u64 \<Rightarrow> bool" where
  "valid_dh_size size' \<longleftrightarrow> size' \<le> DH_MAX_MOD_SIZE \<and> size' > 0"

definition key_type_supports_aes :: "sa_key_type \<Rightarrow> u64 \<Rightarrow> bool" where
  "key_type_supports_aes key_type size' \<longleftrightarrow> key_type = SA_KEY_TYPE_SYMMETRIC \<and> valid_aes_size size'"

definition key_type_supports_hmac :: "sa_key_type \<Rightarrow> u64 \<Rightarrow> bool" where
  "key_type_supports_hmac key_type size' \<longleftrightarrow> key_type = SA_KEY_TYPE_SYMMETRIC \<and> valid_hmac_size size'"

definition key_type_supports_rsa :: "sa_key_type \<Rightarrow> u64 \<Rightarrow> bool" where
  "key_type_supports_rsa key_type size' \<longleftrightarrow> key_type = SA_KEY_TYPE_RSA \<and> valid_rsa_size size'"

definition key_type_supports_ec :: "sa_key_type \<Rightarrow> sa_elliptic_curve \<Rightarrow> u64 \<Rightarrow> bool" where
  "key_type_supports_ec key_type curve size' \<longleftrightarrow> key_type = SA_KEY_TYPE_EC \<and> valid_ec_size curve size'"

definition key_type_supports_dh :: "sa_key_type \<Rightarrow> u64 \<Rightarrow> bool" where
  "key_type_supports_dh key_type size' \<longleftrightarrow> key_type = SA_KEY_TYPE_DH \<and> valid_dh_size size'"

text \<open>\<open>key_type_supports_any\<close> takes the curve as a \<open>uint8_t\<close>: its callers' 32-bit value is truncated.\<close>

definition key_type_supports_any :: "sa_key_type \<Rightarrow> u8 \<Rightarrow> u64 \<Rightarrow> bool" where
  "key_type_supports_any key_type ec_curve size' \<longleftrightarrow>
     key_type_supports_aes key_type size' \<or> key_type_supports_hmac key_type size' \<or>
     key_type_supports_rsa key_type size' \<or>
     key_type_supports_ec key_type (curve_of_code (ucast ec_curve)) size' \<or>
     key_type_supports_dh key_type size'"

definition key_type_supports_chacha20 :: "sa_key_type \<Rightarrow> u64 \<Rightarrow> bool" where
  "key_type_supports_chacha20 key_type size' \<longleftrightarrow>
     key_type = SA_KEY_TYPE_SYMMETRIC \<and> size' = SYM_256_KEY_SIZE"

section \<open>Digests\<close>

fun digest_length :: "sa_digest_algorithm \<Rightarrow> u64" where
  "digest_length SA_DIGEST_ALGORITHM_SHA1 = 20"
| "digest_length SA_DIGEST_ALGORITHM_SHA256 = 32"
| "digest_length SA_DIGEST_ALGORITHM_SHA384 = 48"
| "digest_length SA_DIGEST_ALGORITHM_SHA512 = 64"
| "digest_length (SA_DIGEST_ALGORITHM_OTHER _) = - 1"

fun digest_string :: "sa_digest_algorithm \<Rightarrow> string option" where
  "digest_string SA_DIGEST_ALGORITHM_SHA1 = Some ''sha1''"
| "digest_string SA_DIGEST_ALGORITHM_SHA256 = Some ''sha256''"
| "digest_string SA_DIGEST_ALGORITHM_SHA384 = Some ''sha384''"
| "digest_string SA_DIGEST_ALGORITHM_SHA512 = Some ''sha512''"
| "digest_string (SA_DIGEST_ALGORITHM_OTHER _) = None"

text \<open>\<open>strncmp (name, s, n) == 0\<close> on NUL-terminated strings, where \<open>s\<close> has at least \<open>n\<close> characters.\<close>

definition strn_eq :: "string \<Rightarrow> string \<Rightarrow> nat \<Rightarrow> bool" where
  "strn_eq name s n \<longleftrightarrow> take n name = take n s"

definition digest_algorithm_from_name :: "string \<Rightarrow> sa_digest_algorithm" where
  "digest_algorithm_from_name name =
     (if strn_eq name ''SHA1'' 4 \<or> strn_eq name ''SHA-1'' 5 then SA_DIGEST_ALGORITHM_SHA1
      else if strn_eq name ''SHA256'' 6 \<or> strn_eq name ''SHA2-256'' 7 \<or> strn_eq name ''SHA-256'' 7
      then SA_DIGEST_ALGORITHM_SHA256
      else if strn_eq name ''SHA384'' 6 \<or> strn_eq name ''SHA2-384'' 7 \<or> strn_eq name ''SHA-384'' 7
      then SA_DIGEST_ALGORITHM_SHA384
      else if strn_eq name ''SHA512'' 6 \<or> strn_eq name ''SHA2-512'' 7 \<or> strn_eq name ''SHA-512'' 7
      then SA_DIGEST_ALGORITHM_SHA512
      else SA_DIGEST_ALGORITHM_OTHER (2 ^ 32 - 1))"

section \<open>What is supported\<close>

lemma curve_of_code_inverse: "curve_code (curve_of_code n) = n"
  by (simp add: curve_of_code_def)

lemma valid_ec_size_iff: "valid_ec_size c s \<longleftrightarrow> s = ec_key_size_from_curve c \<and> s \<noteq> 0"
  by (cases c) (auto simp: valid_ec_size_def)

text \<open>The size a type promises, over the types: symmetric keys 16 to 512 bytes, and so on.\<close>

fun supported :: "sa_key_type \<Rightarrow> sa_elliptic_curve \<Rightarrow> nat \<Rightarrow> bool" where
  "supported SA_KEY_TYPE_SYMMETRIC c n \<longleftrightarrow> 16 \<le> n \<and> n \<le> 512"
| "supported SA_KEY_TYPE_EC c n \<longleftrightarrow> n = unat (ec_key_size_from_curve c) \<and> 0 < n"
| "supported SA_KEY_TYPE_RSA c n \<longleftrightarrow> n \<in> {128, 256, 384, 512}"
| "supported SA_KEY_TYPE_DH c n \<longleftrightarrow> 0 < n \<and> n \<le> 512"
| "supported (SA_KEY_TYPE_OTHER _) c n \<longleftrightarrow> False"

lemma valid_rsa_size_unat: "valid_rsa_size s \<longleftrightarrow> unat s \<in> {128, 256, 384, 512}"
proof -
  have "s = n \<longleftrightarrow> unat s = unat n" for n by (simp add: word_unat_eq_iff)
  then show ?thesis by (simp add: valid_rsa_size_def)
qed

lemma valid_hmac_size_unat: "valid_hmac_size s \<longleftrightarrow> 16 \<le> unat s \<and> unat s \<le> 512"
  by (simp add: valid_hmac_size_def SYM_128_KEY_SIZE_def SYM_MAX_KEY_SIZE_def word_le_nat_alt)

lemma valid_aes_size_hmac: "valid_aes_size s \<Longrightarrow> valid_hmac_size s"
  by (auto simp: valid_aes_size_def valid_hmac_size_def SYM_128_KEY_SIZE_def SYM_256_KEY_SIZE_def
      SYM_MAX_KEY_SIZE_def)

lemma valid_dh_size_unat: "valid_dh_size s \<longleftrightarrow> 0 < unat s \<and> unat s \<le> 512"
  by (auto simp: valid_dh_size_def DH_MAX_MOD_SIZE_def word_le_nat_alt word_less_nat_alt)

lemma valid_ec_size_unat: "valid_ec_size c s \<longleftrightarrow> unat s = unat (ec_key_size_from_curve c) \<and> 0 < unat s"
  unfolding valid_ec_size_iff by (metis unat_gt_0 unsigned_word_eqI word_unat_eq_iff)

lemma supports_any_iff:
  "key_type_supports_any kt n s \<longleftrightarrow> supported kt (curve_of_code (ucast n)) (unat s)"
  unfolding key_type_supports_any_def key_type_supports_aes_def key_type_supports_hmac_def
    key_type_supports_rsa_def key_type_supports_ec_def key_type_supports_dh_def
  by (cases kt) (use valid_aes_size_hmac [of s] in
    \<open>auto simp: valid_hmac_size_unat valid_rsa_size_unat valid_ec_size_unat valid_dh_size_unat\<close>)

text \<open>
  For a curve of the enumeration, \<open>key_type_supports_any\<close> accepts exactly the advertised sizes of
  each key type: 16 to 512 bytes for symmetric keys, the curve's own size for elliptic-curve keys, 128,
  256, 384 or 512 bytes for RSA, 1 to 512 bytes for Diffie-Hellman, and no size for any other type.
\<close>

theorem key_type_supports_any_iff:
  assumes "\<forall>n. curve \<noteq> SA_ELLIPTIC_CURVE_OTHER n"
  shows "key_type_supports_any key_type (ucast (curve_code curve)) size' \<longleftrightarrow>
    supported key_type curve (unat size')"
proof -
  have "curve_of_code (ucast (ucast (curve_code curve) :: u8)) = curve"
    using assms by (cases curve) (auto simp: curve_of_code_def)
  then show ?thesis by (simp add: supports_any_iff)
qed

text \<open>
  Because the curve is passed as one byte, a curve value of 256 (no curve of the enumeration) is
  taken for P-256: an elliptic-curve key of 32 bytes with that curve passes the format check, although
  the unabridged check \<open>key_type_supports_ec\<close> refuses it.
\<close>

theorem curve_truncation:
  "key_type_supports_any SA_KEY_TYPE_EC (ucast (curve_code (SA_ELLIPTIC_CURVE_OTHER 256))) 32 \<and>
   \<not> key_type_supports_ec SA_KEY_TYPE_EC (SA_ELLIPTIC_CURVE_OTHER 256) 32"
  by (simp add: key_type_supports_any_def key_type_supports_ec_def valid_ec_size_def curve_of_code_def)

end
