(* ===== verification/Rights.thy ===== *)
theory Rights
  imports SA_Types
begin

text \<open>
  Key rights, \<^verbatim>\<open>reference/src/taimpl/src/internal/rights.c\<close>: what a key may be used for, when, by
  whom and with which video outputs connected; the translation of a key container's usage into
  rights; and the parser of textual UUIDs.
\<close>

section \<open>Checks\<close>

definition NO_MATCH :: sa_uuid where
  "NO_MATCH = replicate 16 0"

definition ALL_MATCH :: sa_uuid where
  "ALL_MATCH = replicate 16 0xFF"

definition MAX_NUM_ALLOWED_TA_IDS :: nat where
  "MAX_NUM_ALLOWED_TA_IDS = 32"

definition strnlen :: "u8 list \<Rightarrow> nat \<Rightarrow> nat" where
  "strnlen s n = length (takeWhile (\<lambda>c. c \<noteq> 0) (take n s))"

definition rights_validate_format :: "sa_rights option \<Rightarrow> bool" where
  "rights_validate_format rights = (case rights of None \<Rightarrow> False
     | Some r \<Rightarrow> if strnlen (rights_id r) 64 = 64 then False else True)"

definition rights_allowed_time :: "sa_rights option \<Rightarrow> u64 \<Rightarrow> bool" where
  "rights_allowed_time rights time = (case rights of None \<Rightarrow> False
     | Some r \<Rightarrow> if time < not_before r then False
                 else if time \<ge> not_on_or_after r then False else True)"

definition rights_allowed_video_output_state ::
  "sa_rights option \<Rightarrow> video_output_state option \<Rightarrow> bool" where
  "rights_allowed_video_output_state rights video = (case rights of None \<Rightarrow> False
     | Some r \<Rightarrow> (case video of None \<Rightarrow> False
       | Some v \<Rightarrow>
          if \<not> SA_USAGE_BIT_TEST (usage_flags r) SA_USAGE_FLAG_SVP_OPTIONAL \<and> \<not> svp_enabled v
          then False
          else if \<not> SA_USAGE_BIT_TEST (usage_flags r) SA_USAGE_FLAG_ALLOWED_ANALOG_UNPROTECTED \<and>
            analog_unprotected_count v > 0 then False
          else if \<not> SA_USAGE_BIT_TEST (usage_flags r) SA_USAGE_FLAG_ALLOWED_ANALOG_CGMSA \<and>
            analog_cgmsa_count v > 0 then False
          else if \<not> SA_USAGE_BIT_TEST (usage_flags r) SA_USAGE_FLAG_ALLOWED_DIGITAL_UNPROTECTED \<and>
            digital_unprotected_count v > 0 then False
          else if \<not> SA_USAGE_BIT_TEST (usage_flags r) SA_USAGE_FLAG_ALLOWED_DIGITAL_HDCP14 \<and>
            digital_hdcp14_count v > 0 then False
          else if \<not> SA_USAGE_BIT_TEST (usage_flags r) SA_USAGE_FLAG_ALLOWED_DIGITAL_HDCP22 \<and>
            digital_hdcp22_count v > 0 then False
          else True))"

definition validate_video_output_state :: "sa_rights option \<Rightarrow> world \<Rightarrow> bool" where
  "validate_video_output_state rights w = (case rights of None \<Rightarrow> False
     | Some r \<Rightarrow> (case w_video w of None \<Rightarrow> False
       | Some v \<Rightarrow> if \<not> rights_allowed_video_output_state (Some r) (Some v) then False else True))"

definition rights_allowed_derive :: "sa_rights option \<Rightarrow> world \<Rightarrow> bool" where
  "rights_allowed_derive rights w = (case rights of None \<Rightarrow> False
     | Some r \<Rightarrow> if \<not> SA_USAGE_BIT_TEST (usage_flags r) SA_USAGE_FLAG_DERIVE then False
                 else if \<not> rights_allowed_time (Some r) (w_time w) then False else True)"

definition rights_allowed_exchange :: "sa_rights option \<Rightarrow> world \<Rightarrow> bool" where
  "rights_allowed_exchange rights w = (case rights of None \<Rightarrow> False
     | Some r \<Rightarrow> if \<not> SA_USAGE_BIT_TEST (usage_flags r) SA_USAGE_FLAG_KEY_EXCHANGE then False
                 else if \<not> rights_allowed_time (Some r) (w_time w) then False else True)"

definition rights_allowed_unwrap :: "sa_rights option \<Rightarrow> world \<Rightarrow> bool" where
  "rights_allowed_unwrap rights w = (case rights of None \<Rightarrow> False
     | Some r \<Rightarrow> if \<not> SA_USAGE_BIT_TEST (usage_flags r) SA_USAGE_FLAG_UNWRAP then False
                 else if \<not> rights_allowed_time (Some r) (w_time w) then False else True)"

definition rights_allowed_decrypt :: "sa_rights option \<Rightarrow> sa_key_type \<Rightarrow> world \<Rightarrow> bool" where
  "rights_allowed_decrypt rights key_type w = (case rights of None \<Rightarrow> False
     | Some r \<Rightarrow> if \<not> SA_USAGE_BIT_TEST (usage_flags r) SA_USAGE_FLAG_DECRYPT then False
                 else if \<not> rights_allowed_time (Some r) (w_time w) then False
                 else if key_type = SA_KEY_TYPE_SYMMETRIC \<and> \<not> validate_video_output_state (Some r) w
                 then False else True)"

definition rights_allowed_encrypt :: "sa_rights option \<Rightarrow> sa_key_type \<Rightarrow> world \<Rightarrow> bool" where
  "rights_allowed_encrypt rights key_type w = (case rights of None \<Rightarrow> False
     | Some r \<Rightarrow> if \<not> SA_USAGE_BIT_TEST (usage_flags r) SA_USAGE_FLAG_ENCRYPT then False
                 else if \<not> rights_allowed_time (Some r) (w_time w) then False
                 else if key_type = SA_KEY_TYPE_SYMMETRIC \<and> \<not> validate_video_output_state (Some r) w
                 then False else True)"

definition rights_allowed_clear :: "sa_rights option \<Rightarrow> bool" where
  "rights_allowed_clear rights = (case rights of None \<Rightarrow> False
     | Some r \<Rightarrow> if \<not> SA_USAGE_BIT_TEST (usage_flags r) SA_USAGE_FLAG_SVP_OPTIONAL then False else True)"

definition rights_allowed_sign :: "sa_rights option \<Rightarrow> world \<Rightarrow> bool" where
  "rights_allowed_sign rights w = (case rights of None \<Rightarrow> False
     | Some r \<Rightarrow> if \<not> SA_USAGE_BIT_TEST (usage_flags r) SA_USAGE_FLAG_SIGN then False
                 else if \<not> rights_allowed_time (Some r) (w_time w) then False else True)"

text \<open>The loop over the allowed TAs; \<open>caller_uuid\<close> and each entry have the size of a UUID.\<close>

fun rights_allowed_uuid_loop :: "sa_uuid list \<Rightarrow> sa_uuid \<Rightarrow> bool" where
  "rights_allowed_uuid_loop [] caller_uuid = False"
| "rights_allowed_uuid_loop (ta # tas) caller_uuid =
     (if memory_memcmp_constant ta NO_MATCH 16 = 0 then rights_allowed_uuid_loop tas caller_uuid
      else if memory_memcmp_constant ta ALL_MATCH 16 = 0 then True
      else if memory_memcmp_constant ta caller_uuid 16 = 0 then True
      else rights_allowed_uuid_loop tas caller_uuid)"

definition rights_allowed_uuid :: "sa_rights option \<Rightarrow> sa_uuid option \<Rightarrow> bool" where
  "rights_allowed_uuid rights caller_uuid = (case rights of None \<Rightarrow> False
     | Some r \<Rightarrow> (case caller_uuid of None \<Rightarrow> False
       | Some u \<Rightarrow> rights_allowed_uuid_loop (take MAX_NUM_ALLOWED_TA_IDS (allowed_tas r)) u))"

section \<open>Usage of a key container\<close>

datatype key_subtype = PRIVATE_SUBTYPE | AES_SUBTYPE | HMAC_SUBTYPE | CHACHA20_SUBTYPE

definition clear_key_usage :: "u64 \<Rightarrow> u64" where
  "clear_key_usage flags =
     SA_USAGE_BIT_CLEAR (SA_USAGE_BIT_CLEAR (SA_USAGE_BIT_CLEAR (SA_USAGE_BIT_CLEAR (SA_USAGE_BIT_CLEAR
       (SA_USAGE_BIT_CLEAR flags SA_USAGE_FLAG_KEY_EXCHANGE) SA_USAGE_FLAG_DERIVE) SA_USAGE_FLAG_UNWRAP)
       SA_USAGE_FLAG_DECRYPT) SA_USAGE_FLAG_ENCRYPT) SA_USAGE_FLAG_SIGN"

text \<open>The usage is 0 or 3 for data and keys (Type J and SoC), 1 for data only, 2 for keys only.\<close>

definition key_usage_to_usage_flags ::
  "u64 option \<Rightarrow> int \<Rightarrow> sa_key_type \<Rightarrow> key_subtype \<Rightarrow> sa_status \<times> u64 option" where
  "key_usage_to_usage_flags flags0 key_usage key_type subtype = (case flags0 of
      None \<Rightarrow> (SA_STATUS_NULL_PARAMETER, None)
    | Some flags \<Rightarrow>
        let flags = clear_key_usage flags;
            exchange = (\<lambda>f. if key_type = SA_KEY_TYPE_DH \<or> key_type = SA_KEY_TYPE_EC
                            then SA_USAGE_BIT_SET f SA_USAGE_FLAG_KEY_EXCHANGE else f) in
        if key_usage = 0 \<or> key_usage = 3 then
          (SA_STATUS_OK, Some (SA_USAGE_BIT_SET (SA_USAGE_BIT_SET (SA_USAGE_BIT_SET (SA_USAGE_BIT_SET
             (SA_USAGE_BIT_SET (exchange flags) SA_USAGE_FLAG_UNWRAP) SA_USAGE_FLAG_DECRYPT)
             SA_USAGE_FLAG_ENCRYPT) SA_USAGE_FLAG_SIGN) SA_USAGE_FLAG_DERIVE))
        else if key_usage = 1 then
          let flags = exchange flags;
              flags = (if subtype \<noteq> HMAC_SUBTYPE
                then SA_USAGE_BIT_SET (SA_USAGE_BIT_SET flags SA_USAGE_FLAG_DECRYPT) SA_USAGE_FLAG_ENCRYPT
                else flags) in
          (SA_STATUS_OK, Some (SA_USAGE_BIT_SET (SA_USAGE_BIT_SET flags SA_USAGE_FLAG_SIGN)
             SA_USAGE_FLAG_DERIVE))
        else if key_usage = 2 then (SA_STATUS_OK, Some (SA_USAGE_BIT_SET flags SA_USAGE_FLAG_UNWRAP))
        else (SA_STATUS_INVALID_KEY_FORMAT, Some flags))"

section \<open>Textual UUIDs\<close>

definition UUID_LENGTH :: nat where
  "UUID_LENGTH = 36"

definition lower_ascii :: "u8 \<Rightarrow> u8" where
  "lower_ascii c = (if 0x41 \<le> c \<and> c \<le> 0x5A then c + 32 else c)"

definition hex_digit :: "u8 \<Rightarrow> bool" where
  "hex_digit c \<longleftrightarrow> \<not> ((c < 0x30 \<or> c > 0x39) \<and> (c < 0x61 \<or> c > 0x66))"

definition hex_value :: "u8 \<Rightarrow> u8" where
  "hex_value c = (if 0x30 \<le> c \<and> c \<le> 0x39 then c - 0x30 else c - 0x61 + 10)"

text \<open>The second part of the result is what the caller's buffer holds then, also after an error.\<close>

function convert_uuid_loop :: "u8 list \<Rightarrow> nat \<Rightarrow> nat \<Rightarrow> sa_uuid \<Rightarrow> bool \<times> sa_uuid" where
  "convert_uuid_loop str i j uuid =
     (if i < length str \<and> j < 16 then
        let i = (if str ! i = 0x2D then i + 1 else i) in
        if i \<ge> length str then (False, uuid)
        else let c1 = lower_ascii (str ! i); i = i + 1 in
          if i \<ge> length str \<or> \<not> hex_digit c1 then (False, uuid)
          else let c2 = lower_ascii (str ! i) in
            if \<not> hex_digit c2 then (False, uuid)
            else convert_uuid_loop str (i + 1) (j + 1) (uuid[j := hex_value c1 * 16 + hex_value c2])
      else (True, uuid))"
  by pat_completeness auto
termination
  by (relation "measure (\<lambda>(str, i, j, uuid). 16 - j)") auto

definition convert_uuid :: "u8 list \<Rightarrow> sa_uuid \<Rightarrow> bool \<times> sa_uuid" where
  "convert_uuid uuid_str uuid =
     (if length uuid_str \<noteq> UUID_LENGTH then (False, uuid) else convert_uuid_loop uuid_str 0 0 uuid)"

declare convert_uuid_loop.simps [simp del]

section \<open>What the checks decide\<close>

definition within_validity :: "sa_rights \<Rightarrow> u64 \<Rightarrow> bool" where
  "within_validity r t \<longleftrightarrow> not_before r \<le> t \<and> t < not_on_or_after r"

lemma rights_allowed_time_iff [simp]: "rights_allowed_time (Some r) t \<longleftrightarrow> within_validity r t"
  by (auto simp: rights_allowed_time_def within_validity_def)

lemma rights_allowed_derive_iff:
  "rights_allowed_derive (Some r) w \<longleftrightarrow>
     SA_USAGE_FLAG_DERIVE \<in> usage_flag_set (usage_flags r) \<and> within_validity r (w_time w)"
  by (simp add: rights_allowed_derive_def)

lemma rights_allowed_exchange_iff:
  "rights_allowed_exchange (Some r) w \<longleftrightarrow>
     SA_USAGE_FLAG_KEY_EXCHANGE \<in> usage_flag_set (usage_flags r) \<and> within_validity r (w_time w)"
  by (simp add: rights_allowed_exchange_def)

lemma rights_allowed_unwrap_iff:
  "rights_allowed_unwrap (Some r) w \<longleftrightarrow>
     SA_USAGE_FLAG_UNWRAP \<in> usage_flag_set (usage_flags r) \<and> within_validity r (w_time w)"
  by (simp add: rights_allowed_unwrap_def)

lemma rights_allowed_sign_iff:
  "rights_allowed_sign (Some r) w \<longleftrightarrow>
     SA_USAGE_FLAG_SIGN \<in> usage_flag_set (usage_flags r) \<and> within_validity r (w_time w)"
  by (simp add: rights_allowed_sign_def)

lemma rights_allowed_uuid_loop_iff:
  assumes "\<forall>ta \<in> set tas. uuid_ok ta" "uuid_ok caller"
  shows "rights_allowed_uuid_loop tas caller \<longleftrightarrow>
    (\<exists>ta \<in> set tas. ta \<noteq> NO_MATCH \<and> (ta = ALL_MATCH \<or> ta = caller))"
proof -
  have [simp]: "uuid_ok NO_MATCH" "uuid_ok ALL_MATCH"
    by (simp_all add: uuid_ok_def NO_MATCH_def ALL_MATCH_def)
  show ?thesis using assms by (induction tas) auto
qed

definition tas_ok :: "sa_rights \<Rightarrow> bool" where
  "tas_ok r \<longleftrightarrow> length (allowed_tas r) = MAX_NUM_ALLOWED_TA_IDS \<and> (\<forall>ta \<in> set (allowed_tas r). uuid_ok ta)"

text \<open>
  A caller may use a key exactly when one of the 32 entries of the key's TA list, other than the
  all-zero entry, is the all-ones wildcard or the caller's own UUID; in particular a caller with the
  all-zero UUID gets in through a wildcard only.
\<close>

theorem rights_allowed_uuid_iff:
  assumes "tas_ok r" "uuid_ok caller"
  shows "rights_allowed_uuid (Some r) (Some caller) \<longleftrightarrow>
    (ALL_MATCH \<in> set (allowed_tas r) \<or> (caller \<noteq> NO_MATCH \<and> caller \<in> set (allowed_tas r)))"
proof -
  have "ALL_MATCH \<noteq> NO_MATCH" by (simp add: ALL_MATCH_def NO_MATCH_def)
  moreover have "rights_allowed_uuid (Some r) (Some caller) \<longleftrightarrow>
      (\<exists>ta \<in> set (allowed_tas r). ta \<noteq> NO_MATCH \<and> (ta = ALL_MATCH \<or> ta = caller))"
    using assms rights_allowed_uuid_loop_iff [of "allowed_tas r" caller]
    by (simp add: rights_allowed_uuid_def tas_ok_def)
  ultimately show ?thesis by blast
qed

section \<open>Fewer rights allow less\<close>

definition outputs_allowed :: "sa_usage_flag set \<Rightarrow> video_output_state \<Rightarrow> bool" where
  "outputs_allowed F v \<longleftrightarrow>
     (svp_enabled v \<or> SA_USAGE_FLAG_SVP_OPTIONAL \<in> F) \<and>
     (0 < analog_unprotected_count v \<longrightarrow> SA_USAGE_FLAG_ALLOWED_ANALOG_UNPROTECTED \<in> F) \<and>
     (0 < analog_cgmsa_count v \<longrightarrow> SA_USAGE_FLAG_ALLOWED_ANALOG_CGMSA \<in> F) \<and>
     (0 < digital_unprotected_count v \<longrightarrow> SA_USAGE_FLAG_ALLOWED_DIGITAL_UNPROTECTED \<in> F) \<and>
     (0 < digital_hdcp14_count v \<longrightarrow> SA_USAGE_FLAG_ALLOWED_DIGITAL_HDCP14 \<in> F) \<and>
     (0 < digital_hdcp22_count v \<longrightarrow> SA_USAGE_FLAG_ALLOWED_DIGITAL_HDCP22 \<in> F)"

lemma if_False_else: "(if P then False else Q) \<longleftrightarrow> \<not> P \<and> Q"
  by simp

lemma rights_allowed_video_output_state_iff:
  "rights_allowed_video_output_state (Some r) (Some v) \<longleftrightarrow> outputs_allowed (usage_flag_set (usage_flags r)) v"
  unfolding rights_allowed_video_output_state_def outputs_allowed_def option.case if_False_else
    bit_test usage_flag_set_iff by blast

text \<open>
  Removing usage flags never opens a video output: if the flags of one set of rights are among
  those of another, every state of the video outputs the smaller rights accept is accepted by the
  larger rights too. This is what makes restricting a child key's flags a restriction.
\<close>

theorem video_rights_monotone:
  assumes "usage_flag_set (usage_flags r') \<subseteq> usage_flag_set (usage_flags r)"
    and "rights_allowed_video_output_state (Some r') video"
  shows "rights_allowed_video_output_state (Some r) video"
proof -
  obtain v where v: "video = Some v"
    using assms(2) by (cases video) (auto simp: rights_allowed_video_output_state_def)
  show ?thesis
    using assms unfolding v rights_allowed_video_output_state_iff outputs_allowed_def by blast
qed

section \<open>Container usage\<close>

definition usage_of_container :: "int \<Rightarrow> sa_key_type \<Rightarrow> key_subtype \<Rightarrow> sa_usage_flag set" where
  "usage_of_container u kt sub =
     (if u = 2 then {SA_USAGE_FLAG_UNWRAP}
      else {SA_USAGE_FLAG_SIGN, SA_USAGE_FLAG_DERIVE} \<union>
        (if kt = SA_KEY_TYPE_DH \<or> kt = SA_KEY_TYPE_EC then {SA_USAGE_FLAG_KEY_EXCHANGE} else {}) \<union>
        (if u = 1 \<and> sub = HMAC_SUBTYPE then {} else {SA_USAGE_FLAG_DECRYPT, SA_USAGE_FLAG_ENCRYPT}) \<union>
        (if u = 1 then {} else {SA_USAGE_FLAG_UNWRAP}))"

lemma bit_clear_key_usage [simp]: "bit (clear_key_usage f) n \<longleftrightarrow> bit f n \<and> 5 < n"
  by (auto simp: clear_key_usage_def)

lemma bit_set_all:
  "bit (foldl SA_USAGE_BIT_SET f bs) n \<longleftrightarrow> bit f n \<or> n \<in> flag_code ` set bs"
  by (induction bs arbitrary: f) auto

lemma key_usage_list:
  assumes "key_usage_to_usage_flags (Some flags) u kt sub = (SA_STATUS_OK, result)"
  shows "\<exists>bs. result = Some (foldl SA_USAGE_BIT_SET (clear_key_usage flags) bs) \<and>
    set bs = usage_of_container u kt sub"
proof -
  let ?x = "if kt = SA_KEY_TYPE_DH \<or> kt = SA_KEY_TYPE_EC then [SA_USAGE_FLAG_KEY_EXCHANGE] else []"
  let ?c = "if sub = HMAC_SUBTYPE then [] else [SA_USAGE_FLAG_DECRYPT, SA_USAGE_FLAG_ENCRYPT]"
  consider "u = 0 \<or> u = 3" | "u = 1" | "u = 2"
    using assms by (auto simp: key_usage_to_usage_flags_def Let_def split: if_splits)
  then show ?thesis
  proof cases
    case 1
    with assms show ?thesis
      by (intro exI [of _ "?x @ [SA_USAGE_FLAG_UNWRAP, SA_USAGE_FLAG_DECRYPT, SA_USAGE_FLAG_ENCRYPT,
            SA_USAGE_FLAG_SIGN, SA_USAGE_FLAG_DERIVE]"])
        (auto simp: key_usage_to_usage_flags_def Let_def usage_of_container_def)
  next
    case 2
    with assms show ?thesis
      by (intro exI [of _ "?x @ ?c @ [SA_USAGE_FLAG_SIGN, SA_USAGE_FLAG_DERIVE]"])
        (auto simp: key_usage_to_usage_flags_def Let_def usage_of_container_def)
  next
    case 3
    with assms show ?thesis
      by (intro exI [of _ "[SA_USAGE_FLAG_UNWRAP]"])
        (auto simp: key_usage_to_usage_flags_def Let_def usage_of_container_def)
  qed
qed

text \<open>
  C34: The usage of a key container decides the six key usage flags completely, whatever they were
  before, and leaves every other bit of the flags (output protection, export) as it was: a key that
  wraps keys only can do nothing but unwrap, an HMAC key for data never encrypts or decrypts, and
  only Diffie-Hellman and elliptic-curve keys get key exchange.
\<close>

theorem key_usage_flags_exact:
  assumes "key_usage_to_usage_flags (Some flags) u kt sub = (SA_STATUS_OK, result)"
  shows "\<exists>flags'. result = Some flags' \<and>
    usage_flag_set flags' \<inter> Collect key_usage_flag = usage_of_container u kt sub \<and>
    (\<forall>n > 5. bit flags' n = bit flags n)"
proof -
  obtain bs where bs: "result = Some (foldl SA_USAGE_BIT_SET (clear_key_usage flags) bs)"
    "set bs = usage_of_container u kt sub" using key_usage_list [OF assms] by blast
  have le: "b \<in> usage_of_container u kt sub \<Longrightarrow> flag_code b \<le> 5" for b
    by (auto simp: usage_of_container_def split: if_splits)
  show ?thesis
    using bs le by (auto simp: bit_set_all key_usage_flag_def) (meson le not_less)+
qed

text \<open>An unknown usage is refused with every key usage flag cleared.\<close>

lemma key_usage_unknown:
  assumes "u < 0 \<or> 3 < u"
  shows "key_usage_to_usage_flags (Some flags) u kt sub =
    (SA_STATUS_INVALID_KEY_FORMAT, Some (clear_key_usage flags))"
  using assms by (auto simp: key_usage_to_usage_flags_def Let_def)

section \<open>UUIDs\<close>

definition hex_char :: "u8 \<Rightarrow> u8" where
  "hex_char v = (if v < 10 then 0x30 + v else 0x61 + (v - 10))"

definition hex_byte :: "u8 \<Rightarrow> u8 list" where
  "hex_byte b = [hex_char (b div 16), hex_char (b mod 16)]"

text \<open>The textual form of a UUID, \<^verbatim>\<open>xxxxxxxx-xxxx-xxxx-xxxx-xxxxxxxxxxxx\<close>.\<close>

definition uuid_text :: "sa_uuid \<Rightarrow> u8 list" where
  "uuid_text u = concat (map hex_byte (take 4 u)) @ [0x2D] @ concat (map hex_byte (take 2 (drop 4 u))) @
     [0x2D] @ concat (map hex_byte (take 2 (drop 6 u))) @ [0x2D] @
     concat (map hex_byte (take 2 (drop 8 u))) @ [0x2D] @ concat (map hex_byte (drop 10 u))"

lemma hex_char_facts:
  assumes "v < 16"
  shows "hex_char v \<noteq> 0x2D" "lower_ascii (hex_char v) = hex_char v" "hex_digit (hex_char v)"
    "hex_value (hex_char v) = v"
proof -
  have "unat v < 16" using assms by (simp add: word_less_nat_alt)
  then have "unat v \<in> {0,1,2,3,4,5,6,7,8,9,10,11,12,13,14,15}" by (simp, presburger)
  moreover have "v = of_nat (unat v)" by simp
  ultimately have "v \<in> {0,1,2,3,4,5,6,7,8,9,10,11,12,13,14,15}" by (auto simp del: of_nat_unat)
  then show "hex_char v \<noteq> 0x2D" "lower_ascii (hex_char v) = hex_char v" "hex_digit (hex_char v)"
    "hex_value (hex_char v) = v"
    by (auto simp: hex_char_def lower_ascii_def hex_digit_def hex_value_def)
qed

lemma nibbles:
  fixes b :: u8
  shows "b div 16 < 16" "b mod 16 < 16" "b div 16 * 16 + b mod 16 = b"
proof -
  show "b div 16 < 16" "b mod 16 < 16"
    using unsigned_less [where 'a = nat, of b] by (auto simp: word_less_nat_alt unat_div unat_mod)
  show "b div 16 * 16 + b mod 16 = b" by (simp add: word_mod_div_equality)
qed

text \<open>One byte is read from the next two characters, after an optional dash.\<close>

lemma convert_uuid_byte:
  assumes "str = pre @ hex_byte b @ post" "j < 16"
  shows "convert_uuid_loop str (length pre) j uuid =
    convert_uuid_loop str (length pre + 2) (Suc j) (uuid[j := b])"
proof -
  note h = hex_char_facts [OF nibbles(1) [of b]] hex_char_facts [OF nibbles(2) [of b]]
  have n: "str ! length pre = hex_char (b div 16)" "str ! Suc (length pre) = hex_char (b mod 16)"
    "length str \<ge> length pre + 2"
    using assms by (simp_all add: hex_byte_def nth_append)
  show ?thesis
    using assms(2) n h nibbles(3) [of b]
    by (subst convert_uuid_loop.simps) (simp add: Let_def)
qed

lemma convert_uuid_dash:
  assumes "str = pre @ 0x2D # hex_byte b @ post" "j < 16"
  shows "convert_uuid_loop str (length pre) j uuid =
    convert_uuid_loop str (length pre + 3) (Suc j) (uuid[j := b])"
proof -
  note h = hex_char_facts [OF nibbles(1) [of b]] hex_char_facts [OF nibbles(2) [of b]]
  have n: "str ! length pre = 0x2D" "str ! Suc (length pre) = hex_char (b div 16)"
    "str ! Suc (Suc (length pre)) = hex_char (b mod 16)" "length str \<ge> length pre + 3"
    using assms by (simp_all add: hex_byte_def nth_append)
  show ?thesis
    using assms(2) n h nibbles(3) [of b]
    by (subst convert_uuid_loop.simps) (simp add: Let_def numeral_3_eq_3)
qed

lemma length_hex_byte [simp]: "length (hex_byte b) = 2"
  by (simp add: hex_byte_def)

lemma hex_bytes_length [simp]: "length (concat (map hex_byte bs)) = 2 * length bs"
  by (induction bs) simp_all

definition overlay :: "sa_uuid \<Rightarrow> nat \<Rightarrow> u8 list \<Rightarrow> sa_uuid" where
  "overlay uuid j bs = take j uuid @ bs @ drop (j + length bs) uuid"

lemma overlay_length [simp]: "j + length bs \<le> length uuid \<Longrightarrow> length (overlay uuid j bs) = length uuid"
  by (simp add: overlay_def)

lemma overlay_Cons:
  "j + Suc (length bs) \<le> length uuid \<Longrightarrow> overlay (uuid[j := b]) (Suc j) bs = overlay uuid j (b # bs)"
  by (simp add: overlay_def take_Suc_conv_app_nth drop_update_cancel)

lemma overlay_overlay:
  "j + length bs \<le> length uuid \<Longrightarrow>
    overlay (overlay uuid j bs) (j + length bs) cs = overlay uuid j (bs @ cs)"
  by (simp add: overlay_def ac_simps)

lemma convert_uuid_bytes:
  assumes "str = pre @ concat (map hex_byte bs) @ post" "j + length bs \<le> 16" "length uuid = 16"
  shows "convert_uuid_loop str (length pre) j uuid =
    convert_uuid_loop str (length pre + 2 * length bs) (j + length bs) (overlay uuid j bs)"
  using assms
proof (induction bs arbitrary: pre j uuid)
  case Nil
  then show ?case by (simp add: overlay_def)
next
  case (Cons b bs)
  have "convert_uuid_loop str (length pre) j uuid =
      convert_uuid_loop str (length (pre @ hex_byte b)) (Suc j) (uuid[j := b])"
    using Cons.prems convert_uuid_byte [of str pre b "concat (map hex_byte bs) @ post" j uuid]
    by simp
  also have "\<dots> = convert_uuid_loop str (length (pre @ hex_byte b) + 2 * length bs) (Suc j + length bs)
      (overlay (uuid[j := b]) (Suc j) bs)"
    using Cons.prems by (intro Cons.IH) simp_all
  finally show ?case using Cons.prems by (simp add: overlay_Cons numeral_3_eq_3)
qed

lemma convert_uuid_group:
  assumes "str = pre @ 0x2D # concat (map hex_byte bs) @ post" "bs \<noteq> []" "j + length bs \<le> 16"
    "length uuid = 16"
  shows "convert_uuid_loop str (length pre) j uuid =
    convert_uuid_loop str (length pre + 1 + 2 * length bs) (j + length bs) (overlay uuid j bs)"
proof -
  obtain b cs where bs: "bs = b # cs" using assms(2) by (cases bs) auto
  have "convert_uuid_loop str (length pre) j uuid =
      convert_uuid_loop str (length (pre @ 0x2D # hex_byte b)) (Suc j) (uuid[j := b])"
    using assms bs convert_uuid_dash [of str pre b "concat (map hex_byte cs) @ post" j uuid]
    by (simp add: numeral_3_eq_3)
  also have "\<dots> = convert_uuid_loop str (length (pre @ 0x2D # hex_byte b) + 2 * length cs) (Suc j + length cs)
      (overlay (uuid[j := b]) (Suc j) cs)"
    using assms bs by (intro convert_uuid_bytes) simp_all
  finally show ?thesis using assms(3,4) bs by (simp add: overlay_Cons numeral_3_eq_3)
qed

text \<open>
  Parsing the textual form of a UUID gives the UUID back, whatever the buffer held before: the
  parser reads the 8-4-4-4-12 form correctly.
\<close>

theorem convert_uuid_roundtrip:
  assumes "uuid_ok u" "length buffer = 16"
  shows "convert_uuid (uuid_text u) buffer = (True, u)"
proof -
  define a b c d e where defs: "a = take 4 u" "b = take 2 (drop 4 u)" "c = take 2 (drop 6 u)"
    "d = take 2 (drop 8 u)" "e = drop 10 u"
  have len: "length a = 4" "length b = 2" "length c = 2" "length d = 2" "length e = 6"
    using assms(1) by (simp_all add: defs uuid_ok_def)
  let ?H = "\<lambda>bs. concat (map hex_byte bs)" and ?t = "uuid_text u"
  have t: "?t = ?H a @ 0x2D # ?H b @ 0x2D # ?H c @ 0x2D # ?H d @ 0x2D # ?H e"
    by (simp add: uuid_text_def defs)
  note sizes = len assms(2) and o = overlay_overlay [of 0 _ buffer]
  have "convert_uuid_loop ?t (length ([] :: u8 list)) 0 buffer =
      convert_uuid_loop ?t (length ([] :: u8 list) + 2 * length a) (0 + length a) (overlay buffer 0 a)"
    by (rule convert_uuid_bytes) (simp_all add: t sizes)
  also have "\<dots> = convert_uuid_loop ?t (length (?H a)) 4 (overlay buffer 0 a)" by (simp add: sizes)
  also have "\<dots> = convert_uuid_loop ?t (length (?H a) + 1 + 2 * length b) (4 + length b)
      (overlay (overlay buffer 0 a) 4 b)"
    by (rule convert_uuid_group) (use sizes in \<open>auto simp: t\<close>)
  also have "\<dots> = convert_uuid_loop ?t (length (?H a @ 0x2D # ?H b)) 6 (overlay buffer 0 (a @ b))"
    using o [of a b] by (simp add: sizes)
  also have "\<dots> = convert_uuid_loop ?t (length (?H a @ 0x2D # ?H b) + 1 + 2 * length c) (6 + length c)
      (overlay (overlay buffer 0 (a @ b)) 6 c)"
    by (rule convert_uuid_group) (use sizes in \<open>auto simp: t\<close>)
  also have "\<dots> = convert_uuid_loop ?t (length (?H a @ 0x2D # ?H b @ 0x2D # ?H c)) 8
      (overlay buffer 0 (a @ b @ c))"
    using o [of "a @ b" c] by (simp add: sizes)
  also have "\<dots> = convert_uuid_loop ?t (length (?H a @ 0x2D # ?H b @ 0x2D # ?H c) + 1 + 2 * length d)
      (8 + length d) (overlay (overlay buffer 0 (a @ b @ c)) 8 d)"
    by (rule convert_uuid_group) (use sizes in \<open>auto simp: t\<close>)
  also have "\<dots> = convert_uuid_loop ?t (length (?H a @ 0x2D # ?H b @ 0x2D # ?H c @ 0x2D # ?H d)) 10
      (overlay buffer 0 (a @ b @ c @ d))"
    using o [of "a @ b @ c" d] by (simp add: sizes)
  also have "\<dots> = convert_uuid_loop ?t (length (?H a @ 0x2D # ?H b @ 0x2D # ?H c @ 0x2D # ?H d) + 1 +
      2 * length e) (10 + length e) (overlay (overlay buffer 0 (a @ b @ c @ d)) 10 e)"
    by (rule convert_uuid_group [where post = "[]"]) (use sizes in \<open>auto simp: t\<close>)
  also have "\<dots> = convert_uuid_loop ?t 36 16 (overlay buffer 0 (a @ b @ c @ d @ e))"
    using o [of "a @ b @ c @ d" e] by (simp add: sizes)
  also have "\<dots> = (True, overlay buffer 0 (a @ b @ c @ d @ e))"
    by (subst convert_uuid_loop.simps) simp
  also have "overlay buffer 0 (a @ b @ c @ d @ e) = a @ b @ c @ d @ e"
    using sizes by (simp add: overlay_def)
  also have "\<dots> = u"
    using append_take_drop_id [of 2 "drop 8 u"] append_take_drop_id [of 2 "drop 6 u"]
      append_take_drop_id [of 2 "drop 4 u"] append_take_drop_id [of 4 u] by (simp add: defs)
  finally show ?thesis using sizes by (simp add: convert_uuid_def UUID_LENGTH_def t)
qed

lemma convert_uuid_dashes:
  assumes "str = pre @ concat (map (\<lambda>b. 0x2D # hex_byte b) bs) @ post" "j + length bs \<le> 16"
    "length uuid = 16"
  shows "convert_uuid_loop str (length pre) j uuid =
    convert_uuid_loop str (length pre + 3 * length bs) (j + length bs) (overlay uuid j bs)"
  using assms
proof (induction bs arbitrary: pre j uuid)
  case Nil
  then show ?case by (simp add: overlay_def)
next
  case (Cons b bs)
  have "convert_uuid_loop str (length pre) j uuid =
      convert_uuid_loop str (length (pre @ 0x2D # hex_byte b)) (Suc j) (uuid[j := b])"
    using Cons.prems convert_uuid_dash [of str pre b "concat (map (\<lambda>b. 0x2D # hex_byte b) bs) @ post" j uuid]
    by (simp add: numeral_3_eq_3)
  also have "\<dots> = convert_uuid_loop str (length (pre @ 0x2D # hex_byte b) + 3 * length bs) (Suc j + length bs)
      (overlay (uuid[j := b]) (Suc j) bs)"
    using Cons.prems by (intro Cons.IH) simp_all
  finally show ?case using Cons.prems by (simp add: overlay_Cons numeral_3_eq_3)
qed

text \<open>
  The parser does not check where the dashes are, nor that it has filled the UUID: any text of
  twelve groups of a dash and two hexadecimal digits has the required 36 characters and is accepted,
  and the last four bytes of the result are whatever the caller's buffer held before the call.
\<close>

theorem convert_uuid_accepts_short:
  assumes "length bs = 12" "length buffer = 16"
  shows "convert_uuid (concat (map (\<lambda>b. 0x2D # hex_byte b) bs)) buffer = (True, bs @ drop 12 buffer)"
proof -
  let ?t = "concat (map (\<lambda>b. 0x2D # hex_byte b) bs)"
  have len: "length (concat (map (\<lambda>b. 0x2D # hex_byte b) bs)) = 3 * length bs" for bs
    by (induction bs) simp_all
  have "convert_uuid_loop ?t (length ([] :: u8 list)) 0 buffer =
      convert_uuid_loop ?t (length ([] :: u8 list) + 3 * length bs) (0 + length bs) (overlay buffer 0 bs)"
    using assms by (intro convert_uuid_dashes [where post = "[]"]) simp_all
  also have "\<dots> = (True, overlay buffer 0 bs)"
    using assms by (subst convert_uuid_loop.simps) (simp add: len)
  finally show ?thesis using assms len [of bs] by (simp add: convert_uuid_def UUID_LENGTH_def overlay_def)
qed

end
