(* ===== verification/Stored_Key.thy ===== *)
theory Stored_Key
  imports Key_Type Rights
begin

text \<open>
  Clear keys inside the trusted application, \<^verbatim>\<open>reference/src/taimpl/src/internal/stored_key.c\<close>: a
  header and the key bytes, created from a parent's rights that restrict the child's. A buffer and
  its length are one list of bytes.
\<close>

section \<open>The code\<close>

record stored_key =
  sk_header :: sa_header
  sk_key :: "u8 list"

definition KEY_ONLY_MASK :: u64 where
  "KEY_ONLY_MASK = NOT (SA_USAGE_BIT_MASK SA_USAGE_FLAG_UNWRAP) AND SA_KEY_USAGE_MASK"

definition restrict_child_rights :: "sa_rights \<Rightarrow> sa_rights option \<Rightarrow> sa_rights" where
  "restrict_child_rights rights rootrights = (case rootrights of None \<Rightarrow> rights
     | Some root \<Rightarrow>
         if usage_flags root AND KEY_ONLY_MASK \<noteq> 0 \<or> child_usage_flags root = 0
         then let disallowed = NOT (usage_flags root) AND SA_USAGE_OUTPUT_PROTECTIONS_MASK
              in rights\<lparr>usage_flags := usage_flags rights AND NOT disallowed\<rparr>
         else let disallowed = NOT (child_usage_flags root) AND SA_KEY_USAGE_MASK
              in rights\<lparr>usage_flags := usage_flags rights AND NOT disallowed\<rparr>)"

definition stored_key_get_key :: "stored_key option \<Rightarrow> u8 list option" where
  "stored_key_get_key stored_key = (case stored_key of None \<Rightarrow> None | Some k \<Rightarrow> Some (sk_key k))"

definition stored_key_get_length :: "stored_key option \<Rightarrow> nat" where
  "stored_key_get_length stored_key = (case stored_key of None \<Rightarrow> 0 | Some k \<Rightarrow> length (sk_key k))"

definition stored_key_get_header :: "stored_key option \<Rightarrow> sa_header option" where
  "stored_key_get_header stored_key = (case stored_key of None \<Rightarrow> None | Some k \<Rightarrow> Some (sk_header k))"

definition stored_key_create ::
  "bool \<Rightarrow> sa_rights option \<Rightarrow> sa_rights option \<Rightarrow> sa_key_type \<Rightarrow> sa_type_parameters \<Rightarrow> u64 \<Rightarrow>
   u8 list option \<Rightarrow> world \<Rightarrow> sa_status \<times> stored_key option \<times> world" where
  "stored_key_create stored_key_given rights parent_rights key_type type_parameters size' input w =
     (if \<not> stored_key_given then (SA_STATUS_NULL_PARAMETER, None, w)
      else (case rights of None \<Rightarrow> (SA_STATUS_NULL_PARAMETER, None, w)
      | Some r \<Rightarrow> (case input of None \<Rightarrow> (SA_STATUS_NULL_PARAMETER, None, w)
      | Some bytes \<Rightarrow>
          if \<not> key_type_supports_any key_type (ucast (curve_code (tp_curve type_parameters))) size'
          then (SA_STATUS_INVALID_PARAMETER, None, w)
          else if \<not> rights_validate_format (Some r) then (SA_STATUS_INVALID_PARAMETER, None, w)
          else let (key_ok, w) = draw w in
            if \<not> key_ok then (SA_STATUS_INTERNAL_ERROR, None, w)
            else let (bytes_ok, w) = draw w in
              if \<not> bytes_ok then (SA_STATUS_INTERNAL_ERROR, None, w)
              else (SA_STATUS_OK, Some \<lparr>
                sk_header = \<lparr>hdr_magic = MAGIC, hdr_rights = restrict_child_rights r parent_rights,
                  hdr_type = key_type, hdr_type_parameters = type_parameters, hdr_size = ucast size'\<rparr>,
                sk_key = bytes\<rparr>, w))))"

definition stored_key_import ::
  "bool \<Rightarrow> sa_rights option \<Rightarrow> sa_key_type \<Rightarrow> sa_type_parameters \<Rightarrow> u64 \<Rightarrow> u8 list option \<Rightarrow> world \<Rightarrow>
   sa_status \<times> stored_key option \<times> world" where
  "stored_key_import stored_key_given rights key_type type_parameters size' input w =
     stored_key_create stored_key_given rights None key_type type_parameters size' input w"

section \<open>Restriction of a child's rights\<close>

text \<open>A parent that wraps keys only, and says what the wrapped keys may do.\<close>

definition key_only_parent :: "sa_rights \<Rightarrow> bool" where
  "key_only_parent p \<longleftrightarrow> (\<forall>b. key_usage_flag b \<longrightarrow> b \<in> usage_flag_set (usage_flags p) \<longrightarrow>
     b = SA_USAGE_FLAG_UNWRAP) \<and> child_usage_flags p \<noteq> 0"

lemma bit_key_only_mask [simp]: "bit KEY_ONLY_MASK n \<longleftrightarrow> n \<le> 5 \<and> n \<noteq> 2"
  by (auto simp: KEY_ONLY_MASK_def bit_and_iff bit_not_iff possible_bit_def)

lemma small_flag:
  assumes "n \<le> 5"
  obtains b where "flag_code b = n"
proof -
  have "n = 0 \<or> n = 1 \<or> n = 2 \<or> n = 3 \<or> n = 4 \<or> n = 5" using assms by arith
  then show ?thesis
    using that [of SA_USAGE_FLAG_KEY_EXCHANGE] that [of SA_USAGE_FLAG_DERIVE] that [of SA_USAGE_FLAG_UNWRAP]
      that [of SA_USAGE_FLAG_ENCRYPT] that [of SA_USAGE_FLAG_DECRYPT] that [of SA_USAGE_FLAG_SIGN] by auto
qed

lemma and_key_only_mask:
  "x AND KEY_ONLY_MASK = 0 \<longleftrightarrow> (\<forall>n \<le> 5. bit x n \<longrightarrow> n = 2)"
proof -
  have lt: "n \<le> 5 \<Longrightarrow> n < 64" for n :: nat by simp
  have "x AND KEY_ONLY_MASK = 0 \<longleftrightarrow> (\<forall>n < 64. n \<le> 5 \<longrightarrow> bit x n \<longrightarrow> n = 2)"
    by (auto simp: bit_eq_iff [where 'a = u64] bit_and_iff)
  then show ?thesis using lt by blast
qed

lemma key_only_parent_iff:
  "key_only_parent p \<longleftrightarrow> usage_flags p AND KEY_ONLY_MASK = 0 \<and> child_usage_flags p \<noteq> 0"
proof -
  have "(\<forall>b. key_usage_flag b \<longrightarrow> b \<in> usage_flag_set (usage_flags p) \<longrightarrow> b = SA_USAGE_FLAG_UNWRAP) \<longleftrightarrow>
      (\<forall>n \<le> 5. bit (usage_flags p) n \<longrightarrow> n = 2)" (is "?L \<longleftrightarrow> ?R")
  proof
    assume l: ?L
    show ?R
    proof (intro allI impI)
      fix n :: nat
      assume "n \<le> 5" "bit (usage_flags p) n"
      moreover from this obtain b where "flag_code b = n" using small_flag by blast
      ultimately show "n = 2" using l by (auto simp: key_usage_flag_def)
    qed
  next
    assume ?R
    then show ?L using flag_code_inj [of _ SA_USAGE_FLAG_UNWRAP]
      by (auto simp: key_usage_flag_def simp del: flag_code_inj)
  qed
  then show ?thesis by (simp add: key_only_parent_def and_key_only_mask)
qed

lemma bit_disallow: "bit (x AND NOT (NOT y AND m)) n \<longleftrightarrow> bit x n \<and> (bit (m :: u64) n \<longrightarrow> bit y n)"
  by (auto simp: bit_and_iff bit_not_iff bit_or_iff possible_bit_def dest: bit_imp_le_length)

lemma restrict_child_bits:
  "bit (usage_flags (restrict_child_rights r (Some p))) n \<longleftrightarrow> bit (usage_flags r) n \<and>
     (if key_only_parent p then n \<le> 5 \<longrightarrow> bit (child_usage_flags p) n
      else 6 \<le> n \<and> n \<le> 12 \<longrightarrow> bit (usage_flags p) n)"
  unfolding restrict_child_rights_def key_only_parent_iff
  by (simp add: Let_def bit_disallow del: bit.conj_disj_distrib bit.de_Morgan_conj)

lemma restrict_child_other:
  "restrict_child_rights r p = r\<lparr>usage_flags := usage_flags (restrict_child_rights r p)\<rparr>"
  by (cases p) (simp_all add: restrict_child_rights_def Let_def)


text \<open>
  A parent that wraps keys only and carries child usage flags limits what its child may be used
  for (a child usage is one that was requested and that the parent's child flags allow), but does not
  limit the outputs: the child's output protection flags are exactly the requested ones, whatever the
  parent's own flags are. The documentation of the flags promises that a child never has an output
  protection flag its parent lacks.
\<close>

theorem key_only_parent_keeps_outputs:
  assumes "key_only_parent p"
  shows "usage_flag_set (usage_flags (restrict_child_rights r (Some p))) \<inter> Collect key_usage_flag =
      usage_flag_set (usage_flags r) \<inter> usage_flag_set (child_usage_flags p) \<inter> Collect key_usage_flag \<and>
    usage_flag_set (usage_flags (restrict_child_rights r (Some p))) \<inter> Collect output_protection =
      usage_flag_set (usage_flags r) \<inter> Collect output_protection"
  using assms by (auto simp: restrict_child_bits key_usage_flag_def output_protection_def)

text \<open>The creation of a key, on every branch.\<close>

definition stored_key_result ::
  "sa_rights \<Rightarrow> sa_rights option \<Rightarrow> sa_key_type \<Rightarrow> sa_type_parameters \<Rightarrow> u64 \<Rightarrow> u8 list \<Rightarrow> stored_key" where
  "stored_key_result r p kt tp s bytes = \<lparr>
     sk_header = \<lparr>hdr_magic = MAGIC, hdr_rights = restrict_child_rights r p, hdr_type = kt,
       hdr_type_parameters = tp, hdr_size = ucast s\<rparr>,
     sk_key = bytes\<rparr>"

lemma stored_key_create_OK:
  assumes "stored_key_create g r p kt tp s input w = (SA_STATUS_OK, sk, w')"
  obtains rights bytes where "r = Some rights" "input = Some bytes"
    "sk = Some (stored_key_result rights p kt tp s bytes)"
    "key_type_supports_any kt (ucast (curve_code (tp_curve tp))) s" "rights_validate_format (Some rights)"
  using assms
  by (auto simp: stored_key_create_def stored_key_result_def Let_def split: option.splits if_splits prod.splits)

lemma stored_key_create_error:
  "stored_key_create g r p kt tp s input w = (status, sk, w') \<Longrightarrow> status \<noteq> SA_STATUS_OK \<Longrightarrow> sk = None"
  by (auto simp: stored_key_create_def Let_def split: option.splits if_splits prod.splits)

lemma restrict_child_format:
  "rights_validate_format (Some (restrict_child_rights r p)) = rights_validate_format (Some r)"
  by (subst restrict_child_other) (simp add: rights_validate_format_def)

lemma supported_size_le: "supported kt c n \<Longrightarrow> n \<le> 512"
  by (cases kt; cases c) auto

lemma supported_size_u16:
  assumes "key_type_supports_any kt c s"
  shows "ucast (ucast s :: u16) = s"
proof -
  have "unat s \<le> 512" using assms supported_size_le by (auto simp: supports_any_iff)
  then show ?thesis by (simp add: word_unat_eq_iff unsigned_ucast_eq unsigned_take_bit_eq take_bit_nat_eq_self)
qed

text \<open>
  C35: A stored key that was created is complete and valid: it has the magic number, the type, the
  parameters and the bytes it was given, rights restricted by the parent's and nothing else changed
  in them, and a size that survives its storage in 16 bits; the header passes the same format checks
  the key store makes later. When creation fails there is no key.
\<close>

theorem stored_key_create_valid:
  assumes "stored_key_create g (Some rights) parent kt tp s (Some bytes) w = (status, result, w')"
  shows "case result of None \<Rightarrow> status \<noteq> SA_STATUS_OK
    | Some k \<Rightarrow> status = SA_STATUS_OK \<and> sk_key k = bytes \<and> hdr_magic (sk_header k) = MAGIC \<and>
      hdr_type (sk_header k) = kt \<and> hdr_type_parameters (sk_header k) = tp \<and>
      ucast (hdr_size (sk_header k)) = s \<and>
      hdr_rights (sk_header k) = rights\<lparr>usage_flags := usage_flags (restrict_child_rights rights parent)\<rparr> \<and>
      rights_validate_format (Some (hdr_rights (sk_header k))) \<and>
      key_type_supports_any (hdr_type (sk_header k)) (ucast (curve_code (tp_curve tp)))
        (ucast (hdr_size (sk_header k)))"
proof (cases "status = SA_STATUS_OK")
  case True
  with assms have "stored_key_create g (Some rights) parent kt tp s (Some bytes) w = (SA_STATUS_OK, result, w')"
    by simp
  then show ?thesis
    by (rule stored_key_create_OK)
      (use True supported_size_u16 restrict_child_format restrict_child_other [of rights parent] in
        \<open>simp add: stored_key_result_def\<close>)
next
  case False
  with stored_key_create_error [OF assms] show ?thesis by simp
qed

end
