(* ===== verification/Otp.thy ===== *)
theory Otp
  imports Stored_Key
begin

text \<open>
  The key ladder and the wrapping of keys, \<^verbatim>\<open>reference/src/taimpl/src/porting/otp.c\<close>, with
  \<open>hmac_internal\<close> and \<open>hmac\<close> of \<^verbatim>\<open>internal/hmac_context.c\<close> (the build with OpenSSL 3).

  OpenSSL is not part of the repository: what it computes is the argument \<open>cr\<close> of every definition,
  a record of functions on bytes, and what its calls report comes from the world's fault script. The
  key container on disk is read by \<open>load_pkcs12_secret_key\<close>, which is OpenSSL's parser with the
  field \<open>pkcs12_secret\<close> for its outcome: success, the key and the name it leaves in its buffers.
  Buffers are shorter than $2^{31}$ bytes, so the casts of their lengths to \<open>int\<close> do not matter.
\<close>

text \<open>
  A cipher context of OpenSSL is what it has been told: the list of the calls made on it. \<open>EVP_Init\<close>
  stands for the calls that choose the cipher, the direction, the key, the IV and the padding;
  \<open>EVP_Failed\<close> marks a call that failed. \<open>evp_output\<close> says what the last of a list of calls delivers,
  \<open>None\<close> when it fails. A private key is its PKCS#8 encoding: \<open>pkcs8_bits\<close> says whether the bytes are a key
  of the given type, and its size, \<open>public_key_der\<close> is the encoded public key, \<open>ec_key_curve\<close> the group of an EC
  key; \<open>ec_difference\<close> is the point \<open>q - k p\<close>, two coordinates for a private key \<open>k\<close>. The functions that make keys and
  signatures get the library's randomness and return what is left of it; \<open>None\<close> is a refusal of the
  arguments. \<open>public_key_type\<close> is the type of an encoded public key, \<open>None\<close> if it is none.
\<close>

datatype evp_cipher = EVP_aes_ecb | EVP_aes_cbc | EVP_aes_ctr | EVP_aes_gcm | EVP_chacha20 | EVP_chacha20_poly1305

datatype evp_call =
    EVP_Init evp_cipher sa_cipher_mode "u8 list" "u8 list" bool
  | EVP_Set_Iv "u8 list"
  | EVP_Aad "u8 list"
  | EVP_Update "u8 list"
  | EVP_Final
  | EVP_Get_Tag
  | EVP_Set_Tag "u8 list"
  | EVP_Failed evp_call

datatype evp_pkey_type = EVP_PKEY_NONE | EVP_PKEY_RSA | EVP_PKEY_DH | EVP_PKEY_EC | EVP_PKEY_ED25519 | EVP_PKEY_X25519
  | EVP_PKEY_ED448 | EVP_PKEY_X448

datatype key_request = Rsa_Key u64 | Ec_Key sa_elliptic_curve | Dh_Key "u8 list" "u8 list"

datatype rsa_scheme = Rsa_Pkcs1v15 sa_digest_algorithm | Rsa_Pss sa_digest_algorithm sa_digest_algorithm u64

record crypto =
  aes_ecb_decrypt :: "u8 list \<Rightarrow> u8 list \<Rightarrow> u8 list"
  aes_cbc_encrypt :: "u8 list \<Rightarrow> u8 list \<Rightarrow> u8 list \<Rightarrow> u8 list"
  aes_cbc_decrypt :: "u8 list \<Rightarrow> u8 list \<Rightarrow> u8 list \<Rightarrow> u8 list"
  aes_gcm_decrypt :: "u8 list \<Rightarrow> u8 list \<Rightarrow> u8 list \<Rightarrow> u8 list \<Rightarrow> u8 list"
  aes_gcm_tag :: "u8 list \<Rightarrow> u8 list \<Rightarrow> u8 list \<Rightarrow> u8 list \<Rightarrow> u8 list"
  hmac_function :: "sa_digest_algorithm \<Rightarrow> u8 list \<Rightarrow> u8 list \<Rightarrow> u8 list"
  cmac_function :: "u8 list \<Rightarrow> u8 list \<Rightarrow> u8 list"
  digest_function :: "sa_digest_algorithm \<Rightarrow> u8 list \<Rightarrow> u8 list"
  evp_output :: "evp_call list \<Rightarrow> u8 list option"
  pkcs8_bits :: "evp_pkey_type \<Rightarrow> u8 list \<Rightarrow> nat option"
  rsa_pkcs1v15_plain :: "u8 list \<Rightarrow> u8 list \<Rightarrow> u8 list option"
  rsa_oaep_plain :: "u8 list \<Rightarrow> sa_digest_algorithm \<Rightarrow> sa_digest_algorithm \<Rightarrow> u8 list \<Rightarrow> u8 list \<Rightarrow> u8 list option"
  public_key_der :: "evp_pkey_type \<Rightarrow> u8 list \<Rightarrow> u8 list"
  ec_key_curve :: "u8 list \<Rightarrow> sa_elliptic_curve"
  ec_point_ok :: "sa_elliptic_curve \<Rightarrow> u8 list \<Rightarrow> bool"
  ec_difference :: "sa_elliptic_curve \<Rightarrow> u8 list \<Rightarrow> u8 list \<Rightarrow> u8 list \<Rightarrow> u8 list"
  generated_key :: "key_request \<Rightarrow> u8 list \<Rightarrow> (u8 list \<times> u8 list) option"
  public_key_type :: "u8 list \<Rightarrow> evp_pkey_type option"
  shared_secret :: "u8 list \<Rightarrow> u8 list \<Rightarrow> u8 list"
  rsa_signature :: "u8 list \<Rightarrow> rsa_scheme \<Rightarrow> bool \<Rightarrow> u8 list \<Rightarrow> u8 list \<Rightarrow> (u8 list \<times> u8 list) option"
  ecdsa_signature :: "u8 list \<Rightarrow> sa_digest_algorithm \<Rightarrow> bool \<Rightarrow> u8 list \<Rightarrow> u8 list \<Rightarrow> ((nat \<times> nat) \<times> u8 list) option"
  eddsa_signature :: "u8 list \<Rightarrow> u8 list \<Rightarrow> u8 list option"
  pkcs12_secret :: "u8 list \<Rightarrow> bool \<times> u8 list \<times> u8 list"

datatype sa_root_key_type = UNDEFINED | UNIQUE | COMMON | ROOT_KEY_OTHER nat

record key_ladder_inputs =
  kl_c1 :: "u8 list"
  kl_c2 :: "u8 list"
  kl_c3 :: "u8 list"

section \<open>The root keys\<close>

text \<open>\<open>convert_str_to_int\<close>: \<open>str\<close> has \<open>str_length\<close> characters.\<close>

fun convert_digit :: "u8 \<Rightarrow> u64 option" where
  "convert_digit c =
     (if 0x30 \<le> lower_ascii c \<and> lower_ascii c \<le> 0x39 then Some (ucast (lower_ascii c) - 0x30)
      else if 0x61 \<le> lower_ascii c \<and> lower_ascii c \<le> 0x66 then Some (ucast (lower_ascii c) - 0x61 + 10)
      else None)"

fun convert_loop :: "u64 \<Rightarrow> u8 list \<Rightarrow> u64" where
  "convert_loop v [] = v"
| "convert_loop v (c # cs) = (case convert_digit c of None \<Rightarrow> 0
     | Some j \<Rightarrow> convert_loop (push_bit 4 v + j) cs)"

definition MAX_DEVICE_NAME_LENGTH :: nat where
  "MAX_DEVICE_NAME_LENGTH = 16"

definition convert_str_to_int :: "u8 list \<Rightarrow> u64" where
  "convert_str_to_int str = (if length str > MAX_DEVICE_NAME_LENGTH then 0 else convert_loop 0 str)"

text \<open>The result is the key written to \<open>root_key\<close>, whose buffer has \<open>capacity\<close> bytes.\<close>

definition get_root_key :: "crypto \<Rightarrow> nat \<Rightarrow> world \<Rightarrow> u8 list option \<times> world" where
  "get_root_key cr capacity w =
     (let (loaded, w) =
        (if w_root_key w = [] then
           (let (ok, key, name) = pkcs12_secret cr []; w = w\<lparr>w_root_key := key\<rparr> in
            if \<not> ok then (False, w)
            else let w = w\<lparr>w_device_id := convert_str_to_int name\<rparr> in
              if w_device_id w = 0 then (False, w) else (True, w))
         else (True, w)) in
      if \<not> loaded then (None, w)
      else if capacity < length (w_root_key w) then (None, w)
      else (Some (w_root_key w), w))"

text \<open>\<open>"commonroot"\<close>\<close>

definition COMMON_ROOT_NAME :: "u8 list" where
  "COMMON_ROOT_NAME = [0x63, 0x6F, 0x6D, 0x6D, 0x6F, 0x6E, 0x72, 0x6F, 0x6F, 0x74]"

definition get_common_root_key :: "crypto \<Rightarrow> nat \<Rightarrow> world \<Rightarrow> u8 list option \<times> world" where
  "get_common_root_key cr capacity w =
     (let (loaded, w) =
        (if w_common_root_key w = [] then
           (let (ok, key, name) = pkcs12_secret cr COMMON_ROOT_NAME; w = w\<lparr>w_common_root_key := key\<rparr> in
            if \<not> ok then (False, w) else (True, w))
         else (True, w)) in
      if \<not> loaded then (None, w)
      else if capacity < length (w_common_root_key w) then (None, w)
      else (Some (w_common_root_key w), w))"

section \<open>Block ciphers\<close>

definition valid_ladder_key :: "u8 list \<Rightarrow> bool" where
  "valid_ladder_key key \<longleftrightarrow> length key = unat SYM_128_KEY_SIZE \<or> length key = unat SYM_256_KEY_SIZE"

text \<open>
  Each function makes a context, looks the cipher up, sets key and padding, and processes the data:
  five calls that can fail.
\<close>

definition wrap_aes_cbc ::
  "crypto \<Rightarrow> bool \<Rightarrow> u8 list option \<Rightarrow> u8 list option \<Rightarrow> u8 list option \<Rightarrow> world \<Rightarrow>
   sa_status \<times> u8 list option \<times> world" where
  "wrap_aes_cbc cr out_given input iv key w =
     (if \<not> out_given then (SA_STATUS_NULL_PARAMETER, None, w)
      else (case input of None \<Rightarrow> (SA_STATUS_NULL_PARAMETER, None, w)
      | Some bytes \<Rightarrow>
          if length bytes mod AES_BLOCK_SIZE \<noteq> 0 then (SA_STATUS_INVALID_PARAMETER, None, w)
          else (case iv of None \<Rightarrow> (SA_STATUS_NULL_PARAMETER, None, w)
          | Some v \<Rightarrow> (case key of None \<Rightarrow> (SA_STATUS_NULL_PARAMETER, None, w)
          | Some k \<Rightarrow>
              if \<not> valid_ladder_key k then (SA_STATUS_INVALID_PARAMETER, None, w)
              else let (ok, w) = draws 5 w in
                if \<not> ok then (SA_STATUS_INTERNAL_ERROR, None, w)
                else (SA_STATUS_OK, Some (aes_cbc_encrypt cr k v bytes), w)))))"

definition unwrap_aes_ecb_internal ::
  "crypto \<Rightarrow> bool \<Rightarrow> u8 list option \<Rightarrow> u8 list option \<Rightarrow> world \<Rightarrow> sa_status \<times> u8 list option \<times> world" where
  "unwrap_aes_ecb_internal cr out_given input key w =
     (if \<not> out_given then (SA_STATUS_NULL_PARAMETER, None, w)
      else (case input of None \<Rightarrow> (SA_STATUS_NULL_PARAMETER, None, w)
      | Some bytes \<Rightarrow>
          if length bytes mod AES_BLOCK_SIZE \<noteq> 0 then (SA_STATUS_INVALID_PARAMETER, None, w)
          else (case key of None \<Rightarrow> (SA_STATUS_NULL_PARAMETER, None, w)
          | Some k \<Rightarrow>
              if \<not> valid_ladder_key k then (SA_STATUS_INVALID_PARAMETER, None, w)
              else let (ok, w) = draws 5 w in
                if \<not> ok then (SA_STATUS_INTERNAL_ERROR, None, w)
                else (SA_STATUS_OK, Some (aes_ecb_decrypt cr k bytes), w))))"

definition unwrap_aes_cbc_internal ::
  "crypto \<Rightarrow> bool \<Rightarrow> u8 list option \<Rightarrow> u8 list option \<Rightarrow> u8 list option \<Rightarrow> world \<Rightarrow>
   sa_status \<times> u8 list option \<times> world" where
  "unwrap_aes_cbc_internal cr out_given input iv key w =
     (if \<not> out_given then (SA_STATUS_NULL_PARAMETER, None, w)
      else (case input of None \<Rightarrow> (SA_STATUS_NULL_PARAMETER, None, w)
      | Some bytes \<Rightarrow>
          if length bytes mod AES_BLOCK_SIZE \<noteq> 0 then (SA_STATUS_INVALID_PARAMETER, None, w)
          else (case iv of None \<Rightarrow> (SA_STATUS_NULL_PARAMETER, None, w)
          | Some v \<Rightarrow> (case key of None \<Rightarrow> (SA_STATUS_NULL_PARAMETER, None, w)
          | Some k \<Rightarrow>
              if \<not> valid_ladder_key k then (SA_STATUS_INVALID_PARAMETER, None, w)
              else let (ok, w) = draws 5 w in
                if \<not> ok then (SA_STATUS_INTERNAL_ERROR, None, w)
                else (SA_STATUS_OK, Some (aes_cbc_decrypt cr k v bytes), w)))))"

text \<open>
  GCM writes the cleartext before it checks the tag: on a wrong tag the status is an error and the
  output buffer holds the unauthenticated cleartext.
\<close>

definition GCM_IV_LENGTH :: nat where
  "GCM_IV_LENGTH = 12"

definition unwrap_aes_gcm_internal ::
  "crypto \<Rightarrow> bool \<Rightarrow> u8 list option \<Rightarrow> u8 list option \<Rightarrow> u8 list option \<Rightarrow> nat \<Rightarrow> u8 list option \<Rightarrow> u8 list option \<Rightarrow>
   world \<Rightarrow> sa_status \<times> u8 list option \<times> world" where
  "unwrap_aes_gcm_internal cr out_given input iv aad aad_length tag key w =
     (if \<not> out_given then (SA_STATUS_NULL_PARAMETER, None, w)
      else (case input of None \<Rightarrow> (SA_STATUS_NULL_PARAMETER, None, w)
      | Some bytes \<Rightarrow> (case iv of None \<Rightarrow> (SA_STATUS_NULL_PARAMETER, None, w)
      | Some v \<Rightarrow>
          if length v \<noteq> GCM_IV_LENGTH then (SA_STATUS_INVALID_PARAMETER, None, w)
          else if aad = None \<and> aad_length > 0 then (SA_STATUS_NULL_PARAMETER, None, w)
          else (case tag of None \<Rightarrow> (SA_STATUS_NULL_PARAMETER, None, w)
          | Some t \<Rightarrow>
              if length t > AES_BLOCK_SIZE then (SA_STATUS_INVALID_PARAMETER, None, w)
              else (case key of None \<Rightarrow> (SA_STATUS_NULL_PARAMETER, None, w)
              | Some k \<Rightarrow>
                  if \<not> valid_ladder_key k then (SA_STATUS_INVALID_PARAMETER, None, w)
                  else let (ok, w) = draws 8 w in
                    if \<not> ok then (SA_STATUS_INTERNAL_ERROR, None, w)
                    else let ad = take aad_length (case aad of None \<Rightarrow> [] | Some a \<Rightarrow> a);
                             clear = aes_gcm_decrypt cr k v ad bytes; (ok, w) = draws 1 w in
                      if \<not> ok then (SA_STATUS_INTERNAL_ERROR, Some clear, w)
                      else if take (length t) (aes_gcm_tag cr k v ad bytes) \<noteq> t
                      then (SA_STATUS_INTERNAL_ERROR, Some clear, w)
                      else (SA_STATUS_OK, Some clear, w))))))"

section \<open>The key ladder\<close>

text \<open>
  The return type is \<open>sa_status\<close>, and the checks for NULL return \<open>false\<close>: the integer 0, which is
  \<open>SA_STATUS_OK\<close>. The two intermediate keys are 16 bytes.
\<close>

definition otp_hw_key_ladder ::
  "crypto \<Rightarrow> bool \<Rightarrow> sa_root_key_type \<Rightarrow> u8 list option \<Rightarrow> u8 list option \<Rightarrow> u8 list option \<Rightarrow> world \<Rightarrow>
   sa_status \<times> u8 list option \<times> world" where
  "otp_hw_key_ladder cr derived_given root_key_type c1 c2 c3 w =
     (if \<not> derived_given then (SA_STATUS_OK, None, w)
      else if c1 = None then (SA_STATUS_OK, None, w)
      else if c2 = None then (SA_STATUS_OK, None, w)
      else if c3 = None then (SA_STATUS_OK, None, w)
      else let (root, status, w) = (case root_key_type of
              UNIQUE \<Rightarrow> (let (root, w) = get_root_key cr (unat SYM_256_KEY_SIZE) w in
                (root, SA_STATUS_INTERNAL_ERROR, w))
            | COMMON \<Rightarrow> (let (root, w) = get_common_root_key cr (unat SYM_256_KEY_SIZE) w in
                (root, SA_STATUS_INTERNAL_ERROR, w))
            | _ \<Rightarrow> (None, SA_STATUS_INVALID_PARAMETER, w)) in
        if root = None then (status, None, w)
        else let (k1_ok, w) = draw w in
          if \<not> k1_ok then (SA_STATUS_INTERNAL_ERROR, None, w)
          else let (k2_ok, w) = draw w in
            if \<not> k2_ok then (SA_STATUS_INTERNAL_ERROR, None, w)
            else let (status, k1, w) = unwrap_aes_ecb_internal cr True c1 root w in
              if status \<noteq> SA_STATUS_OK then (status, None, w)
              else let (status, k2, w) = unwrap_aes_ecb_internal cr True c2 k1 w in
                if status \<noteq> SA_STATUS_OK then (status, None, w)
                else let (status, derived, w) = unwrap_aes_ecb_internal cr True c3 k2 w in
                  if status \<noteq> SA_STATUS_OK then (status, None, w)
                  else (SA_STATUS_OK, derived, w))"

definition otp_device_id :: "crypto \<Rightarrow> bool \<Rightarrow> world \<Rightarrow> sa_status \<times> u64 option \<times> world" where
  "otp_device_id cr id_given w =
     (if \<not> id_given then (SA_STATUS_NULL_PARAMETER, None, w)
      else let w = (if w_device_id w = 0 then snd (get_root_key cr (unat SYM_256_KEY_SIZE) w) else w) in
        (SA_STATUS_OK, Some (w_device_id w), w))"

definition otp_root_key_ladder ::
  "crypto \<Rightarrow> bool \<Rightarrow> sa_rights option \<Rightarrow> sa_root_key_type \<Rightarrow> u8 list option \<Rightarrow> u8 list option \<Rightarrow> u8 list option \<Rightarrow>
   u8 list option \<Rightarrow> world \<Rightarrow> sa_status \<times> stored_key option \<times> world" where
  "otp_root_key_ladder cr stored_key_derived_given rights root_key_type c1 c2 c3 c4 w =
     (if \<not> stored_key_derived_given then (SA_STATUS_NULL_PARAMETER, None, w)
      else if rights = None then (SA_STATUS_NULL_PARAMETER, None, w)
      else if c1 = None then (SA_STATUS_NULL_PARAMETER, None, w)
      else if c2 = None then (SA_STATUS_NULL_PARAMETER, None, w)
      else if c3 = None then (SA_STATUS_NULL_PARAMETER, None, w)
      else if c4 = None then (SA_STATUS_NULL_PARAMETER, None, w)
      else let (derived_ok, w) = draw w in
        if \<not> derived_ok then (SA_STATUS_INTERNAL_ERROR, None, w)
        else let (k3_ok, w) = draw w in
          if \<not> k3_ok then (SA_STATUS_INTERNAL_ERROR, None, w)
          else let (status, k3, w) = otp_hw_key_ladder cr True root_key_type c1 c2 c3 w in
            if status \<noteq> SA_STATUS_OK then (status, None, w)
            else let (status, derived, w) = unwrap_aes_ecb_internal cr True c4 k3 w in
              if status \<noteq> SA_STATUS_OK then (status, None, w)
              else stored_key_create True rights None SA_KEY_TYPE_SYMMETRIC no_parameters
                     (of_nat AES_BLOCK_SIZE) derived w)"

section \<open>Wrapping with a ladder key\<close>

definition otp_wrap_aes_cbc ::
  "crypto \<Rightarrow> bool \<Rightarrow> key_ladder_inputs option \<Rightarrow> u8 list option \<Rightarrow> u8 list option \<Rightarrow> world \<Rightarrow>
   sa_status \<times> u8 list option \<times> world" where
  "otp_wrap_aes_cbc cr wrapped_given inputs input iv w =
     (if \<not> wrapped_given then (SA_STATUS_NULL_PARAMETER, None, w)
      else (case inputs of None \<Rightarrow> (SA_STATUS_NULL_PARAMETER, None, w)
      | Some kl \<Rightarrow> (case input of None \<Rightarrow> (SA_STATUS_NULL_PARAMETER, None, w)
      | Some bytes \<Rightarrow>
          if length bytes mod AES_BLOCK_SIZE \<noteq> 0 then (SA_STATUS_INVALID_PARAMETER, None, w)
          else if iv = None then (SA_STATUS_NULL_PARAMETER, None, w)
          else let (key_ok, w) = draw w in
            if \<not> key_ok then (SA_STATUS_INTERNAL_ERROR, None, w)
            else let (status, key, w) =
                otp_hw_key_ladder cr True UNIQUE (Some (kl_c1 kl)) (Some (kl_c2 kl)) (Some (kl_c3 kl)) w in
              if status \<noteq> SA_STATUS_OK then (status, None, w)
              else wrap_aes_cbc cr wrapped_given input iv key w)))"

definition otp_unwrap_aes_cbc ::
  "crypto \<Rightarrow> bool \<Rightarrow> key_ladder_inputs option \<Rightarrow> u8 list option \<Rightarrow> u8 list option \<Rightarrow> world \<Rightarrow>
   sa_status \<times> u8 list option \<times> world" where
  "otp_unwrap_aes_cbc cr out_given inputs wrapped iv w =
     (if \<not> out_given then (SA_STATUS_NULL_PARAMETER, None, w)
      else (case inputs of None \<Rightarrow> (SA_STATUS_NULL_PARAMETER, None, w)
      | Some kl \<Rightarrow> (case wrapped of None \<Rightarrow> (SA_STATUS_NULL_PARAMETER, None, w)
      | Some bytes \<Rightarrow>
          if length bytes mod AES_BLOCK_SIZE \<noteq> 0 then (SA_STATUS_INVALID_PARAMETER, None, w)
          else if iv = None then (SA_STATUS_NULL_PARAMETER, None, w)
          else let (key_ok, w) = draw w in
            if \<not> key_ok then (SA_STATUS_INTERNAL_ERROR, None, w)
            else let (status, key, w) =
                otp_hw_key_ladder cr True UNIQUE (Some (kl_c1 kl)) (Some (kl_c2 kl)) (Some (kl_c3 kl)) w in
              if status \<noteq> SA_STATUS_OK then (status, None, w)
              else unwrap_aes_cbc_internal cr out_given wrapped iv key w)))"

definition otp_unwrap_aes_gcm ::
  "crypto \<Rightarrow> bool \<Rightarrow> key_ladder_inputs option \<Rightarrow> sa_root_key_type \<Rightarrow> u8 list option \<Rightarrow> u8 list option \<Rightarrow>
   u8 list option \<Rightarrow> u8 list option \<Rightarrow> world \<Rightarrow> sa_status \<times> u8 list option \<times> world" where
  "otp_unwrap_aes_gcm cr out_given inputs root_key_type wrapped iv aad tag w =
     (if \<not> out_given then (SA_STATUS_NULL_PARAMETER, None, w)
      else (case inputs of None \<Rightarrow> (SA_STATUS_NULL_PARAMETER, None, w)
      | Some kl \<Rightarrow>
          if wrapped = None then (SA_STATUS_NULL_PARAMETER, None, w)
          else if iv = None then (SA_STATUS_NULL_PARAMETER, None, w)
          else (case aad of None \<Rightarrow> (SA_STATUS_NULL_PARAMETER, None, w)
          | Some ad \<Rightarrow>
              if tag = None then (SA_STATUS_NULL_PARAMETER, None, w)
              else let (key_ok, w) = draw w in
                if \<not> key_ok then (SA_STATUS_INTERNAL_ERROR, None, w)
                else let (status, key, w) = otp_hw_key_ladder cr True root_key_type
                       (Some (kl_c1 kl)) (Some (kl_c2 kl)) (Some (kl_c3 kl)) w in
                  if status \<noteq> SA_STATUS_OK then (status, None, w)
                  else unwrap_aes_gcm_internal cr out_given wrapped iv aad (length ad) tag key w)))"

section \<open>Message authentication\<close>

text \<open>
  \<open>hmac_internal\<close>: the MAC and what is written to \<open>*mac_length\<close>. A NULL \<open>mac\<close> asks for the length
  only; a NULL \<open>mac_length\<close> returns \<open>false\<close>, again \<open>SA_STATUS_OK\<close>. An empty input is not passed on.
\<close>

definition hmac_internal ::
  "crypto \<Rightarrow> bool \<Rightarrow> u64 option \<Rightarrow> sa_digest_algorithm \<Rightarrow> u8 list \<Rightarrow> u8 list \<Rightarrow> u8 list \<Rightarrow> u8 list option \<Rightarrow> world \<Rightarrow>
   sa_status \<times> u8 list option \<times> u64 option \<times> world" where
  "hmac_internal cr mac_given mac_length digest_algorithm in1 in2 in3 key w =
     (case mac_length of None \<Rightarrow> (SA_STATUS_OK, None, None, w)
      | Some len \<Rightarrow>
          let hash_length = digest_length digest_algorithm in
          if \<not> mac_given
          then (if hash_length = - 1 then SA_STATUS_INVALID_PARAMETER else SA_STATUS_OK, None, Some hash_length, w)
          else if len < hash_length then (SA_STATUS_INVALID_PARAMETER, None, Some len, w)
          else let updates = length (filter (\<lambda>bs. bs \<noteq> []) [in1, in2, in3]); (ok, w) = draws (4 + updates) w in
            if \<not> ok then (SA_STATUS_INTERNAL_ERROR, None, Some len, w)
            else (SA_STATUS_OK,
              Some (hmac_function cr digest_algorithm (case key of None \<Rightarrow> [0] | Some k \<Rightarrow> k) (in1 @ in2 @ in3)),
              Some hash_length, w))"

definition hmac ::
  "crypto \<Rightarrow> bool \<Rightarrow> u64 option \<Rightarrow> sa_digest_algorithm \<Rightarrow> u8 list \<Rightarrow> u8 list \<Rightarrow> u8 list \<Rightarrow> stored_key option \<Rightarrow> world \<Rightarrow>
   sa_status \<times> u8 list option \<times> u64 option \<times> world" where
  "hmac cr mac_given mac_length digest_algorithm in1 in2 in3 stored_key w =
     (case stored_key of None \<Rightarrow> (SA_STATUS_OK, None, mac_length, w)
      | Some sk \<Rightarrow> hmac_internal cr mac_given mac_length digest_algorithm in1 in2 in3 (Some (sk_key sk)) w)"

definition otp_hmac_sha256 ::
  "crypto \<Rightarrow> bool \<Rightarrow> key_ladder_inputs option \<Rightarrow> u8 list \<Rightarrow> u8 list \<Rightarrow> u8 list \<Rightarrow> world \<Rightarrow>
   sa_status \<times> u8 list option \<times> world" where
  "otp_hmac_sha256 cr mac_given inputs in1 in2 in3 w =
     (if \<not> mac_given then (SA_STATUS_NULL_PARAMETER, None, w)
      else (case inputs of None \<Rightarrow> (SA_STATUS_NULL_PARAMETER, None, w)
      | Some kl \<Rightarrow> let (key_ok, w) = draw w in
          if \<not> key_ok then (SA_STATUS_INTERNAL_ERROR, None, w)
          else let (status, key, w) =
              otp_hw_key_ladder cr True UNIQUE (Some (kl_c1 kl)) (Some (kl_c2 kl)) (Some (kl_c3 kl)) w in
            if status \<noteq> SA_STATUS_OK then (status, None, w)
            else let (status, mac, len, w) = hmac_internal cr True (Some (of_nat SHA256_DIGEST_LENGTH))
                  SA_DIGEST_ALGORITHM_SHA256 in1 in2 in3 key w in
              (status, if status = SA_STATUS_OK then mac else None, w)))"

section \<open>What the key ladder derives\<close>

text \<open>
  The documented behaviour of the crypto library the code relies on: block modes without padding keep
  the length, CBC decryption undoes CBC encryption, SHA-256 MACs have 32 bytes.
\<close>

definition crypto_ok :: "crypto \<Rightarrow> bool" where
  "crypto_ok cr \<longleftrightarrow>
     (\<forall>k d. length (aes_ecb_decrypt cr k d) = length d) \<and>
     (\<forall>k v d. length (aes_cbc_encrypt cr k v d) = length d) \<and>
     (\<forall>k v d. length d mod 16 = 0 \<longrightarrow> aes_cbc_decrypt cr k v (aes_cbc_encrypt cr k v d) = d) \<and>
     (\<forall>k d. length (hmac_function cr SA_DIGEST_ALGORITHM_SHA256 k d) = 32)"

definition ladder_key :: "crypto \<Rightarrow> u8 list \<Rightarrow> key_ladder_inputs \<Rightarrow> u8 list" where
  "ladder_key cr root kl = aes_ecb_decrypt cr (aes_ecb_decrypt cr (aes_ecb_decrypt cr root (kl_c1 kl)) (kl_c2 kl)) (kl_c3 kl)"

definition inputs_ok :: "key_ladder_inputs \<Rightarrow> bool" where
  "inputs_ok kl \<longleftrightarrow> length (kl_c1 kl) = 16 \<and> length (kl_c2 kl) = 16 \<and> length (kl_c3 kl) = 16"

text \<open>The device's root key has been loaded.\<close>

definition provisioned :: "world \<Rightarrow> bool" where
  "provisioned w \<longleftrightarrow> valid_ladder_key (w_root_key w)"

lemma valid_ladder_key_iff: "valid_ladder_key k \<longleftrightarrow> length k = 16 \<or> length k = 32"
  by (simp add: valid_ladder_key_def SYM_128_KEY_SIZE_def SYM_256_KEY_SIZE_def)

lemma provisioned_root [simp]: "provisioned w \<Longrightarrow> get_root_key cr (unat SYM_256_KEY_SIZE) w = (Some (w_root_key w), w)"
  by (auto simp: provisioned_def valid_ladder_key_iff get_root_key_def SYM_256_KEY_SIZE_def)

lemma draws_env:
  "draws n w = (b, w') \<Longrightarrow> w_root_key w' = w_root_key w"
  by (induction n w rule: draws.induct) (auto simp: Let_def split: prod.splits if_splits)

lemma provisioned_draw [simp]: "draw w = (b, w') \<Longrightarrow> provisioned w' = provisioned w"
  by (simp add: provisioned_def)

lemma provisioned_draws [simp]: "draws n w = (b, w') \<Longrightarrow> provisioned w' = provisioned w"
  by (simp add: provisioned_def draws_env)

lemma ecb_success:
  assumes "unwrap_aes_ecb_internal cr True (Some d) (Some k) w = (SA_STATUS_OK, out, w')"
  shows "out = Some (aes_ecb_decrypt cr k d) \<and> w_root_key w' = w_root_key w"
  using assms by (auto simp: unwrap_aes_ecb_internal_def Let_def dest: draws_env split: if_splits prod.splits)

lemma ladder_success:
  assumes "otp_hw_key_ladder cr True UNIQUE (Some (kl_c1 kl)) (Some (kl_c2 kl)) (Some (kl_c3 kl)) w = (SA_STATUS_OK, k, w')"
    "provisioned w"
  shows "k = Some (ladder_key cr (w_root_key w) kl) \<and> w_root_key w' = w_root_key w"
  using assms
  by (auto simp: otp_hw_key_ladder_def ladder_key_def Let_def dest!: ecb_success split: if_splits prod.splits)

lemma ecb_no_faults:
  "w_faults w = [] \<Longrightarrow> length d = 16 \<Longrightarrow> valid_ladder_key k \<Longrightarrow>
    unwrap_aes_ecb_internal cr True (Some d) (Some k) w = (SA_STATUS_OK, Some (aes_ecb_decrypt cr k d), w)"
  by (simp add: unwrap_aes_ecb_internal_def AES_BLOCK_SIZE_def)

lemma ladder_no_faults:
  assumes "w_faults w = []" "provisioned w" "crypto_ok cr" "inputs_ok kl"
  shows "otp_hw_key_ladder cr True UNIQUE (Some (kl_c1 kl)) (Some (kl_c2 kl)) (Some (kl_c3 kl)) w =
    (SA_STATUS_OK, Some (ladder_key cr (w_root_key w) kl), w)"
proof -
  have "valid_ladder_key (aes_ecb_decrypt cr k d)" if "length d = 16" for k d
    using assms(3) that by (simp add: crypto_ok_def valid_ladder_key_iff)
  then show ?thesis
    using assms by (simp add: otp_hw_key_ladder_def ecb_no_faults provisioned_def inputs_ok_def ladder_key_def)
qed

lemma ladder_key_valid: "crypto_ok cr \<Longrightarrow> inputs_ok kl \<Longrightarrow> valid_ladder_key (ladder_key cr root kl)"
  by (simp add: crypto_ok_def inputs_ok_def ladder_key_def valid_ladder_key_iff)

lemma otp_wrap_success:
  assumes "otp_wrap_aes_cbc cr True (Some kl) (Some bs) (Some v) w = (SA_STATUS_OK, c, w')" "provisioned w"
  shows "c = Some (aes_cbc_encrypt cr (ladder_key cr (w_root_key w) kl) v bs)"
    "w_root_key w' = w_root_key w" "length bs mod 16 = 0"
  using assms
  by (auto simp: otp_wrap_aes_cbc_def wrap_aes_cbc_def Let_def AES_BLOCK_SIZE_def dest!: ladder_success draws_env
      split: if_splits prod.splits)

lemma otp_unwrap_success:
  assumes "otp_unwrap_aes_cbc cr True (Some kl) (Some bs) (Some v) w = (SA_STATUS_OK, c, w')" "provisioned w"
  shows "c = Some (aes_cbc_decrypt cr (ladder_key cr (w_root_key w) kl) v bs)"
    "w_root_key w' = w_root_key w" "length bs mod 16 = 0"
  using assms
  by (auto simp: otp_unwrap_aes_cbc_def unwrap_aes_cbc_internal_def Let_def AES_BLOCK_SIZE_def dest!: ladder_success draws_env
      split: if_splits prod.splits)

lemma otp_wrap_no_faults:
  assumes "w_faults w = []" "provisioned w" "crypto_ok cr" "inputs_ok kl" "length bs mod 16 = 0"
  shows "otp_wrap_aes_cbc cr True (Some kl) (Some bs) (Some v) w =
    (SA_STATUS_OK, Some (aes_cbc_encrypt cr (ladder_key cr (w_root_key w) kl) v bs), w)"
  using assms by (simp add: otp_wrap_aes_cbc_def wrap_aes_cbc_def AES_BLOCK_SIZE_def
      ladder_no_faults ladder_key_valid)

lemma otp_unwrap_no_faults:
  assumes "w_faults w = []" "provisioned w" "crypto_ok cr" "inputs_ok kl" "length bs mod 16 = 0"
  shows "otp_unwrap_aes_cbc cr True (Some kl) (Some bs) (Some v) w =
    (SA_STATUS_OK, Some (aes_cbc_decrypt cr (ladder_key cr (w_root_key w) kl) v bs), w)"
  using assms by (simp add: otp_unwrap_aes_cbc_def unwrap_aes_cbc_internal_def AES_BLOCK_SIZE_def
      ladder_no_faults ladder_key_valid)

lemma hmac_internal_success:
  assumes "hmac_internal cr True (Some len) alg a b c (Some k) w = (SA_STATUS_OK, m, len', w')"
  shows "m = Some (hmac_function cr alg k (a @ b @ c)) \<and> w_root_key w' = w_root_key w"
  using assms unfolding hmac_internal_def Let_def
  by (auto simp del: filter.simps dest: draws_env split: if_splits prod.splits)

lemma otp_hmac_success:
  assumes "otp_hmac_sha256 cr True (Some kl) a b c w = (SA_STATUS_OK, m, w')" "provisioned w"
  shows "m = Some (hmac_function cr SA_DIGEST_ALGORITHM_SHA256 (ladder_key cr (w_root_key w) kl) (a @ b @ c))"
    "w_root_key w' = w_root_key w"
  using assms
  by (auto simp: otp_hmac_sha256_def Let_def dest!: ladder_success hmac_internal_success
      split: if_splits prod.splits)

lemma otp_hmac_no_faults:
  assumes "w_faults w = []" "provisioned w" "crypto_ok cr" "inputs_ok kl"
  shows "otp_hmac_sha256 cr True (Some kl) a b c w =
    (SA_STATUS_OK, Some (hmac_function cr SA_DIGEST_ALGORITHM_SHA256 (ladder_key cr (w_root_key w) kl) (a @ b @ c)), w)"
  using assms by (simp add: otp_hmac_sha256_def hmac_internal_def SHA256_DIGEST_LENGTH_def ladder_no_faults Let_def)

text \<open>A world without failing calls stays one.\<close>

named_theorems calm_dest \<open>operations that consume the fault script, as destruction rules\<close>

lemma draw_calm [calm_dest]: "draw w = (b, w') \<Longrightarrow> w_faults w = [] \<longrightarrow> w_faults w' = []"
  by auto

lemma draws_calm [calm_dest]: "draws n w = (b, w') \<Longrightarrow> w_faults w = [] \<longrightarrow> w_faults w' = []"
  by auto

lemma ecb_calm [calm_dest]:
  "unwrap_aes_ecb_internal cr g d k w = (s, out, w') \<Longrightarrow> w_faults w = [] \<longrightarrow> w_faults w' = []"
  by (auto simp: unwrap_aes_ecb_internal_def Let_def split: if_splits option.splits)

lemma root_calm [calm_dest]:
  "get_root_key cr n w = (k, w') \<Longrightarrow> w_faults w = [] \<longrightarrow> w_faults w' = []"
  "get_common_root_key cr n w = (k, w') \<Longrightarrow> w_faults w = [] \<longrightarrow> w_faults w' = []"
  by (auto simp: get_root_key_def get_common_root_key_def Let_def split: if_splits prod.splits)

lemma ladder_calm [calm_dest]:
  "otp_hw_key_ladder cr g t a b c w = (s, k, w') \<Longrightarrow> w_faults w = [] \<longrightarrow> w_faults w' = []"
  by (auto simp: otp_hw_key_ladder_def Let_def dest!: calm_dest
      split: if_splits prod.splits sa_root_key_type.splits)

lemma otp_hmac_calm [calm_dest]:
  "otp_hmac_sha256 cr g kl a b c w = (s, m, w') \<Longrightarrow> w_faults w = [] \<longrightarrow> w_faults w' = []"
  by (auto simp: otp_hmac_sha256_def hmac_internal_def Let_def dest!: calm_dest
      simp del: filter.simps split: if_splits option.splits prod.splits)

lemma otp_wrap_calm [calm_dest]:
  "otp_wrap_aes_cbc cr g kl d v w = (s, m, w') \<Longrightarrow> w_faults w = [] \<longrightarrow> w_faults w' = []"
  by (auto simp: otp_wrap_aes_cbc_def wrap_aes_cbc_def Let_def dest!: calm_dest
      split: if_splits option.splits prod.splits)

lemma otp_unwrap_calm [calm_dest]:
  "otp_unwrap_aes_cbc cr g kl d v w = (s, m, w') \<Longrightarrow> w_faults w = [] \<longrightarrow> w_faults w' = []"
  by (auto simp: otp_unwrap_aes_cbc_def unwrap_aes_cbc_internal_def Let_def dest!: calm_dest
      split: if_splits option.splits prod.splits)

lemma stored_key_create_calm [calm_dest]:
  "stored_key_create g r p t tp n bs w = (s, k, w') \<Longrightarrow> w_faults w = [] \<longrightarrow> w_faults w' = []"
  by (auto simp: stored_key_create_def Let_def dest!: calm_dest split: if_splits option.splits prod.splits)

text \<open>No operation changes the clock or the video outputs.\<close>

named_theorems clock_dest \<open>operations that keep the clock and the video outputs, as destruction rules\<close>

lemma draw_clock [clock_dest]: "draw w = (b, w') \<Longrightarrow> w_time w' = w_time w \<and> w_video w' = w_video w"
  by simp

lemma draws_clock [clock_dest]: "draws n w = (b, w') \<Longrightarrow> w_time w' = w_time w \<and> w_video w' = w_video w"
proof (induction n arbitrary: w)
  case (Suc n)
  obtain ok w1 where d: "draw w = (ok, w1)" by fastforce
  with Suc show ?case by (cases ok) auto
qed simp

lemma ecb_clock [clock_dest]:
  "unwrap_aes_ecb_internal cr g d k w = (s, out, w') \<Longrightarrow> w_time w' = w_time w \<and> w_video w' = w_video w"
  by (auto simp: unwrap_aes_ecb_internal_def Let_def dest!: draws_clock split: if_splits option.splits prod.splits)

lemma root_clock [clock_dest]:
  "get_root_key cr n w = (k, w') \<Longrightarrow> w_time w' = w_time w \<and> w_video w' = w_video w"
  "get_common_root_key cr n w = (k, w') \<Longrightarrow> w_time w' = w_time w \<and> w_video w' = w_video w"
  by (auto simp: get_root_key_def get_common_root_key_def Let_def dest!: draws_clock split: if_splits prod.splits)

lemma ladder_clock [clock_dest]:
  "otp_hw_key_ladder cr g t a b c w = (s, k, w') \<Longrightarrow> w_time w' = w_time w \<and> w_video w' = w_video w"
  by (auto simp: otp_hw_key_ladder_def Let_def dest!: clock_dest
      split: if_splits prod.splits sa_root_key_type.splits)

lemma otp_hmac_clock [clock_dest]:
  "otp_hmac_sha256 cr g kl a b c w = (s, m, w') \<Longrightarrow> w_time w' = w_time w \<and> w_video w' = w_video w"
  by (auto simp: otp_hmac_sha256_def hmac_internal_def Let_def dest!: clock_dest
      simp del: filter.simps split: if_splits option.splits prod.splits)

lemma otp_wrap_clock [clock_dest]:
  "otp_wrap_aes_cbc cr g kl d v w = (s, m, w') \<Longrightarrow> w_time w' = w_time w \<and> w_video w' = w_video w"
  by (auto simp: otp_wrap_aes_cbc_def wrap_aes_cbc_def Let_def dest!: clock_dest
      split: if_splits option.splits prod.splits)

lemma otp_unwrap_clock [clock_dest]:
  "otp_unwrap_aes_cbc cr g kl d v w = (s, m, w') \<Longrightarrow> w_time w' = w_time w \<and> w_video w' = w_video w"
  by (auto simp: otp_unwrap_aes_cbc_def unwrap_aes_cbc_internal_def Let_def dest!: clock_dest
      split: if_splits option.splits prod.splits)

lemma stored_key_create_clock [clock_dest]:
  "stored_key_create g r p t tp n bs w = (s, k, w') \<Longrightarrow> w_time w' = w_time w \<and> w_video w' = w_video w"
  by (auto simp: stored_key_create_def Let_def dest!: clock_dest split: if_splits option.splits prod.splits)

text \<open>
  C39: what a ladder key wrapped, the same ladder inputs unwrap on the same device: if the wrapping
  succeeded, the unwrapping succeeds as well once no library call fails, and returns the input.
\<close>

theorem otp_wrap_unwrap_roundtrip:
  assumes "crypto_ok cr" "inputs_ok kl" "provisioned w"
    and "otp_wrap_aes_cbc cr True (Some kl) (Some bs) (Some v) w = (SA_STATUS_OK, Some wrapped, w1)"
    and "w_faults w2 = []" "w_root_key w2 = w_root_key w"
  shows "otp_unwrap_aes_cbc cr True (Some kl) (Some wrapped) (Some v) w2 = (SA_STATUS_OK, Some bs, w2)"
  using otp_wrap_success [OF assms(4,3)] assms
  by (simp add: otp_unwrap_no_faults provisioned_def crypto_ok_def)

text \<open>
  a key container whose device id is not a hexadecimal number is rejected by the first call of
  \<open>get_root_key\<close> only: the cached key survives the rejection, and the second call hands it out.
\<close>

theorem device_id_checked_once:
  assumes "pkcs12_secret cr [] = (True, key, name)" "w_root_key w = []" "convert_str_to_int name = 0"
    "key \<noteq> []" "length key \<le> capacity" "get_root_key cr capacity w = (first, w1)"
  shows "first = None \<and> get_root_key cr capacity w1 = (Some key, w1)"
  using assms by (auto simp: get_root_key_def)

text \<open>
  \<open>hmac\<close> without a key, and the key ladder without one of its inputs, report success and
  write no output: their checks return \<open>false\<close>, which is the code of \<open>SA_STATUS_OK\<close>.
\<close>

theorem null_checks_report_success:
  shows "hmac cr True len alg in1 in2 in3 None w = (SA_STATUS_OK, None, len, w) \<and>
    otp_hw_key_ladder cr True kt None c2 c3 w = (SA_STATUS_OK, None, w)"
  by (simp add: hmac_def otp_hw_key_ladder_def)

end
