(* ===== verification/Mac_Context.thy ===== *)
theory Mac_Context
  imports Otp
begin

text \<open>
  Digests and message authentication contexts, \<^verbatim>\<open>reference/src/taimpl/src/internal/digest.c\<close>,
  \<^verbatim>\<open>hmac_context.c\<close> and \<^verbatim>\<open>cmac_context.c\<close> (the build with OpenSSL 3). A context of OpenSSL is modelled by
  what it has been given: the key and the bytes of the updates, which its final call authenticates. The
  theorems show that a context computes the MAC of the concatenated updates, and computes it once.
\<close>

section \<open>Digests\<close>

text \<open>
  The result: the status, the bytes written to \<open>out\<close>, and the value of \<open>*out_length\<close> afterwards. An
  input with a NULL pointer is \<open>None\<close> and has a length of its own.
\<close>

definition digest_sha ::
  "crypto \<Rightarrow> bool \<Rightarrow> u64 option \<Rightarrow> sa_digest_algorithm \<Rightarrow> u8 list \<Rightarrow> u8 list \<Rightarrow> u8 list \<Rightarrow> world \<Rightarrow>
   sa_status \<times> u8 list option \<times> u64 option \<times> world" where
  "digest_sha cr out_given out_length digest_algorithm in1 in2 in3 w =
     (case out_length of None \<Rightarrow> (SA_STATUS_NULL_PARAMETER, None, None, w)
      | Some len \<Rightarrow>
          let required_length = digest_length digest_algorithm in
          if \<not> out_given
          then (if required_length = - 1 then SA_STATUS_INVALID_PARAMETER else SA_STATUS_OK, None, Some required_length, w)
          else if len < required_length then (SA_STATUS_INVALID_PARAMETER, None, Some len, w)
          else let updates = length (filter (\<lambda>bs. bs \<noteq> []) [in1, in2, in3]); (context_ok, w) = draw w in
            if \<not> context_ok \<or> digest_string digest_algorithm = None
            then (SA_STATUS_INTERNAL_ERROR, None, Some required_length, w)
            else let (ok, w) = draws (2 + updates) w in
              if \<not> ok then (SA_STATUS_INTERNAL_ERROR, None, Some required_length, w)
              else (SA_STATUS_OK, Some (digest_function cr digest_algorithm (in1 @ in2 @ in3)), Some required_length, w))"

definition digest_key ::
  "crypto \<Rightarrow> bool \<Rightarrow> u64 option \<Rightarrow> sa_digest_algorithm \<Rightarrow> stored_key option \<Rightarrow> world \<Rightarrow>
   sa_status \<times> u8 list option \<times> u64 option \<times> world" where
  "digest_key cr out_given out_length digest_algorithm stored_key w =
     (case out_length of None \<Rightarrow> (SA_STATUS_NULL_PARAMETER, None, None, w)
      | Some len \<Rightarrow>
          let required_length = digest_length digest_algorithm in
          if \<not> out_given
          then (if required_length = - 1 then SA_STATUS_INVALID_PARAMETER else SA_STATUS_OK, None, Some required_length, w)
          else if len < required_length then (SA_STATUS_INVALID_PARAMETER, None, Some len, w)
          else (case stored_key_get_key stored_key of
            None \<Rightarrow> (SA_STATUS_NULL_PARAMETER, None, Some required_length, w)
          | Some key \<Rightarrow>
              let (context_ok, w) = draw w in
              if \<not> context_ok \<or> digest_string digest_algorithm = None
              then (SA_STATUS_INTERNAL_ERROR, None, Some required_length, w)
              else let (ok, w) = draws 3 w in
                if \<not> ok then (SA_STATUS_INTERNAL_ERROR, None, Some required_length, w)
                else (SA_STATUS_OK, Some (digest_function cr digest_algorithm key), Some required_length, w)))"

section \<open>HMAC contexts\<close>

record hmac_context =
  hc_key :: "u8 list"
  hc_data :: "u8 list"
  hc_digest :: sa_digest_algorithm
  hc_done :: bool

text \<open>A digest outside the enumeration has no name, so the initialisation of the MAC fails.\<close>

definition hmac_context_create ::
  "sa_digest_algorithm \<Rightarrow> stored_key option \<Rightarrow> world \<Rightarrow> hmac_context option \<times> world" where
  "hmac_context_create digest_algorithm stored_key w =
     (case stored_key_get_key stored_key of None \<Rightarrow> (None, w)
      | Some key \<Rightarrow>
          let (mac_ok, w) = draws 2 w in
          if \<not> mac_ok \<or> digest_string digest_algorithm = None then (None, w)
          else let (ok, w) = draws 2 w in
            if \<not> ok then (None, w)
            else (Some \<lparr>hc_key = key, hc_data = [], hc_digest = digest_algorithm, hc_done = False\<rparr>, w))"

definition hmac_context_get_digest :: "hmac_context option \<Rightarrow> sa_digest_algorithm" where
  "hmac_context_get_digest context = (case context of None \<Rightarrow> SA_DIGEST_ALGORITHM_OTHER (2 ^ 32 - 1)
     | Some c \<Rightarrow> hc_digest c)"

text \<open>The input is \<open>None\<close> for a NULL pointer, with the length that came with it.\<close>

definition hmac_context_update ::
  "hmac_context option \<Rightarrow> u8 list option \<Rightarrow> nat \<Rightarrow> world \<Rightarrow> sa_status \<times> hmac_context option \<times> world" where
  "hmac_context_update context input in_length w = (case context of
      None \<Rightarrow> (SA_STATUS_NULL_PARAMETER, None, w)
    | Some c \<Rightarrow>
        if hc_done c then (SA_STATUS_OPERATION_NOT_ALLOWED, Some c, w)
        else if input = None \<and> in_length > 0 then (SA_STATUS_NULL_PARAMETER, Some c, w)
        else if in_length > 0 then
          (let (ok, w) = draw w in
           if \<not> ok then (SA_STATUS_INTERNAL_ERROR, Some c, w)
           else (SA_STATUS_OK, Some (c\<lparr>hc_data := hc_data c @ take in_length (the input)\<rparr>), w))
        else (SA_STATUS_OK, Some c, w))"

definition hmac_context_update_key ::
  "hmac_context option \<Rightarrow> stored_key option \<Rightarrow> world \<Rightarrow> sa_status \<times> hmac_context option \<times> world" where
  "hmac_context_update_key context stored_key w = (case context of
      None \<Rightarrow> (SA_STATUS_NULL_PARAMETER, None, w)
    | Some c \<Rightarrow>
        if hc_done c then (SA_STATUS_OPERATION_NOT_ALLOWED, Some c, w)
        else (case stored_key_get_key stored_key of
          None \<Rightarrow> (SA_STATUS_NULL_PARAMETER, Some c, w)
        | Some key \<Rightarrow>
            let (ok, w) = draw w in
            if \<not> ok then (SA_STATUS_INTERNAL_ERROR, Some c, w)
            else (SA_STATUS_OK, Some (c\<lparr>hc_data := hc_data c @ key\<rparr>), w)))"

text \<open>The context is done before the final call, so a final call that failed is not repeated.\<close>

definition hmac_context_compute ::
  "crypto \<Rightarrow> bool \<Rightarrow> u64 option \<Rightarrow> hmac_context option \<Rightarrow> world \<Rightarrow>
   sa_status \<times> u8 list option \<times> u64 option \<times> hmac_context option \<times> world" where
  "hmac_context_compute cr mac_given mac_length context w = (case context of
      None \<Rightarrow> (SA_STATUS_NULL_PARAMETER, None, mac_length, None, w)
    | Some c \<Rightarrow> (case mac_length of
        None \<Rightarrow> (SA_STATUS_NULL_PARAMETER, None, None, Some c, w)
      | Some len \<Rightarrow>
          let hash_length = digest_length (hc_digest c) in
          if \<not> mac_given
          then (if hash_length = - 1 then SA_STATUS_INVALID_PARAMETER else SA_STATUS_OK, None, Some hash_length, Some c, w)
          else if len < hash_length then (SA_STATUS_INVALID_PARAMETER, None, Some len, Some c, w)
          else if hc_done c then (SA_STATUS_OPERATION_NOT_ALLOWED, None, Some hash_length, Some c, w)
          else let (ok, w) = draw w; c' = c\<lparr>hc_done := True\<rparr> in
            if \<not> ok then (SA_STATUS_INTERNAL_ERROR, None, Some hash_length, Some c', w)
            else (SA_STATUS_OK, Some (hmac_function cr (hc_digest c) (hc_key c) (hc_data c)), Some hash_length, Some c', w)))"

definition hmac_context_done :: "hmac_context option \<Rightarrow> bool" where
  "hmac_context_done context = (case context of Some c \<Rightarrow> hc_done c | None \<Rightarrow> True)"

section \<open>CMAC contexts\<close>

record cmac_context =
  cc_key :: "u8 list"
  cc_data :: "u8 list"
  cc_done :: bool

definition cmac_context_create :: "stored_key option \<Rightarrow> world \<Rightarrow> cmac_context option \<times> world" where
  "cmac_context_create stored_key w = (case stored_key_get_key stored_key of
      None \<Rightarrow> (None, w)
    | Some key \<Rightarrow>
        if \<not> key_type_supports_aes SA_KEY_TYPE_SYMMETRIC (of_nat (stored_key_get_length stored_key)) then (None, w)
        else let (ok, w) = draws 4 w in
          if \<not> ok then (None, w) else (Some \<lparr>cc_key = key, cc_data = [], cc_done = False\<rparr>, w))"

definition cmac_context_update ::
  "cmac_context option \<Rightarrow> u8 list option \<Rightarrow> nat \<Rightarrow> world \<Rightarrow> sa_status \<times> cmac_context option \<times> world" where
  "cmac_context_update context input in_length w = (case context of
      None \<Rightarrow> (SA_STATUS_NULL_PARAMETER, None, w)
    | Some c \<Rightarrow>
        if cc_done c then (SA_STATUS_OPERATION_NOT_ALLOWED, Some c, w)
        else if input = None \<and> in_length > 0 then (SA_STATUS_NULL_PARAMETER, Some c, w)
        else if in_length > 0 then
          (let (ok, w) = draw w in
           if \<not> ok then (SA_STATUS_INTERNAL_ERROR, Some c, w)
           else (SA_STATUS_OK, Some (c\<lparr>cc_data := cc_data c @ take in_length (the input)\<rparr>), w))
        else (SA_STATUS_OK, Some c, w))"

definition cmac_context_update_key ::
  "cmac_context option \<Rightarrow> stored_key option \<Rightarrow> world \<Rightarrow> sa_status \<times> cmac_context option \<times> world" where
  "cmac_context_update_key context stored_key w = (case context of
      None \<Rightarrow> (SA_STATUS_NULL_PARAMETER, None, w)
    | Some c \<Rightarrow>
        if cc_done c then (SA_STATUS_OPERATION_NOT_ALLOWED, Some c, w)
        else (case stored_key_get_key stored_key of
          None \<Rightarrow> (SA_STATUS_NULL_PARAMETER, Some c, w)
        | Some key \<Rightarrow>
            if stored_key_get_length stored_key > 0 then
              (let (ok, w) = draw w in
               if \<not> ok then (SA_STATUS_INTERNAL_ERROR, Some c, w)
               else (SA_STATUS_OK, Some (c\<lparr>cc_data := cc_data c @ key\<rparr>), w))
            else (SA_STATUS_OK, Some c, w)))"

definition cmac_context_compute ::
  "crypto \<Rightarrow> bool \<Rightarrow> cmac_context option \<Rightarrow> world \<Rightarrow> sa_status \<times> u8 list option \<times> cmac_context option \<times> world" where
  "cmac_context_compute cr mac_given context w =
     (if \<not> mac_given then (SA_STATUS_NULL_PARAMETER, None, context, w)
      else (case context of None \<Rightarrow> (SA_STATUS_NULL_PARAMETER, None, None, w)
      | Some c \<Rightarrow>
          if cc_done c then (SA_STATUS_OPERATION_NOT_ALLOWED, None, Some c, w)
          else let (ok, w) = draw w; c' = c\<lparr>cc_done := True\<rparr> in
            if \<not> ok then (SA_STATUS_INTERNAL_ERROR, None, Some c', w)
            else (SA_STATUS_OK, Some (cmac_function cr (cc_key c) (cc_data c)), Some c', w)))"

definition cmac_context_done :: "cmac_context option \<Rightarrow> bool" where
  "cmac_context_done context = (case context of Some c \<Rightarrow> cc_done c | None \<Rightarrow> True)"

text \<open>\<open>cmac\<close>, the one-shot function; an input with a NULL pointer has the length that came with it.\<close>

definition cmac ::
  "crypto \<Rightarrow> bool \<Rightarrow> u8 list \<Rightarrow> u8 list \<Rightarrow> u8 list \<Rightarrow> stored_key option \<Rightarrow> world \<Rightarrow> sa_status \<times> u8 list option \<times> world" where
  "cmac cr mac_given in1 in2 in3 stored_key w =
     (if \<not> mac_given then (SA_STATUS_NULL_PARAMETER, None, w)
      else (case stored_key_get_key stored_key of
        None \<Rightarrow> (SA_STATUS_NULL_PARAMETER, None, w)
      | Some key \<Rightarrow>
          if length key \<noteq> unat SYM_128_KEY_SIZE \<and> length key \<noteq> unat SYM_256_KEY_SIZE
          then (SA_STATUS_INTERNAL_ERROR, None, w)
          else let updates = length (filter (\<lambda>bs. bs \<noteq> []) [in1, in2, in3]); (ok, w) = draws (4 + updates) w in
            if \<not> ok then (SA_STATUS_INTERNAL_ERROR, None, w)
            else (SA_STATUS_OK, Some (cmac_function cr key (in1 @ in2 @ in3)), w)))"

section \<open>A context computes the MAC of its updates, once\<close>

text \<open>What a client does with a context after it was created.\<close>

datatype mac_input = Bytes "u8 list" | Key stored_key

fun mac_bytes :: "mac_input list \<Rightarrow> u8 list" where
  "mac_bytes [] = []"
| "mac_bytes (Bytes bs # us) = bs @ mac_bytes us"
| "mac_bytes (Key k # us) = sk_key k @ mac_bytes us"

fun hmac_updates :: "hmac_context option \<Rightarrow> mac_input list \<Rightarrow> world \<Rightarrow> sa_status \<times> hmac_context option \<times> world" where
  "hmac_updates c [] w = (SA_STATUS_OK, c, w)"
| "hmac_updates c (u # us) w =
     (let (s, c, w) = (case u of Bytes bs \<Rightarrow> hmac_context_update c (Some bs) (length bs) w
        | Key k \<Rightarrow> hmac_context_update_key c (Some k) w) in
      if s = SA_STATUS_OK then hmac_updates c us w else (s, c, w))"

fun cmac_updates :: "cmac_context option \<Rightarrow> mac_input list \<Rightarrow> world \<Rightarrow> sa_status \<times> cmac_context option \<times> world" where
  "cmac_updates c [] w = (SA_STATUS_OK, c, w)"
| "cmac_updates c (u # us) w =
     (let (s, c, w) = (case u of Bytes bs \<Rightarrow> cmac_context_update c (Some bs) (length bs) w
        | Key k \<Rightarrow> cmac_context_update_key c (Some k) w) in
      if s = SA_STATUS_OK then cmac_updates c us w else (s, c, w))"

lemma hmac_update_step:
  assumes "(case u of Bytes bs \<Rightarrow> hmac_context_update (Some c) (Some bs) (length bs) w
      | Key k \<Rightarrow> hmac_context_update_key (Some c) (Some k) w) = (SA_STATUS_OK, c', w')"
  shows "\<not> hc_done c \<and> c' = Some (c\<lparr>hc_data := hc_data c @ mac_bytes [u]\<rparr>)"
  using assms
  by (cases u) (auto simp: hmac_context_update_def hmac_context_update_key_def stored_key_get_key_def Let_def
      split: if_splits prod.splits)

lemma hmac_updates_result:
  "hmac_updates (Some c) us w = (SA_STATUS_OK, c', w') \<Longrightarrow>
    c' = Some (c\<lparr>hc_data := hc_data c @ mac_bytes us\<rparr>)"
proof (induction us arbitrary: c w)
  case (Cons u us)
  obtain s c1 w1 where r: "(case u of Bytes bs \<Rightarrow> hmac_context_update (Some c) (Some bs) (length bs) w
      | Key k \<Rightarrow> hmac_context_update_key (Some c) (Some k) w) = (s, c1, w1)" using prod_cases3 by blast
  with Cons.prems have s: "s = SA_STATUS_OK" by (auto split: if_splits)
  note step = hmac_update_step [OF r [unfolded s]]
  have "hmac_updates (Some (c\<lparr>hc_data := hc_data c @ mac_bytes [u]\<rparr>)) us w1 = (SA_STATUS_OK, c', w')"
    using Cons.prems r s step by simp
  from Cons.IH [OF this] show ?case by (cases u) simp_all
qed simp

lemma cmac_update_step:
  assumes "(case u of Bytes bs \<Rightarrow> cmac_context_update (Some c) (Some bs) (length bs) w
      | Key k \<Rightarrow> cmac_context_update_key (Some c) (Some k) w) = (SA_STATUS_OK, c', w')"
  shows "\<not> cc_done c \<and> c' = Some (c\<lparr>cc_data := cc_data c @ mac_bytes [u]\<rparr>)"
  using assms
  by (cases u) (auto simp: cmac_context_update_def cmac_context_update_key_def stored_key_get_key_def
      stored_key_get_length_def Let_def split: if_splits prod.splits)

lemma cmac_updates_result:
  "cmac_updates (Some c) us w = (SA_STATUS_OK, c', w') \<Longrightarrow>
    c' = Some (c\<lparr>cc_data := cc_data c @ mac_bytes us\<rparr>)"
proof (induction us arbitrary: c w)
  case (Cons u us)
  obtain s c1 w1 where r: "(case u of Bytes bs \<Rightarrow> cmac_context_update (Some c) (Some bs) (length bs) w
      | Key k \<Rightarrow> cmac_context_update_key (Some c) (Some k) w) = (s, c1, w1)" using prod_cases3 by blast
  with Cons.prems have s: "s = SA_STATUS_OK" by (auto split: if_splits)
  note step = cmac_update_step [OF r [unfolded s]]
  have "cmac_updates (Some (c\<lparr>cc_data := cc_data c @ mac_bytes [u]\<rparr>)) us w1 = (SA_STATUS_OK, c', w')"
    using Cons.prems r s step by simp
  from Cons.IH [OF this] show ?case by (cases u) simp_all
qed simp

lemma hmac_create_result:
  "hmac_context_create alg (Some k) w = (Some c, w') \<Longrightarrow>
    c = \<lparr>hc_key = sk_key k, hc_data = [], hc_digest = alg, hc_done = False\<rparr>"
  by (auto simp: hmac_context_create_def stored_key_get_key_def Let_def split: if_splits prod.splits)

lemma cmac_create_result:
  "cmac_context_create (Some k) w = (Some c, w') \<Longrightarrow> c = \<lparr>cc_key = sk_key k, cc_data = [], cc_done = False\<rparr>"
  by (auto simp: cmac_context_create_def stored_key_get_key_def Let_def split: if_splits prod.splits)

lemma hmac_compute_result:
  "hmac_context_compute cr True (Some len) (Some c) w = (SA_STATUS_OK, mac, len', c', w') \<Longrightarrow>
    mac = Some (hmac_function cr (hc_digest c) (hc_key c) (hc_data c)) \<and> len' = Some (digest_length (hc_digest c)) \<and>
    c' = Some (c\<lparr>hc_done := True\<rparr>) \<and> \<not> len < digest_length (hc_digest c)"
  by (auto simp: hmac_context_compute_def Let_def split: if_splits prod.splits)

lemma cmac_compute_result:
  "cmac_context_compute cr True (Some c) w = (SA_STATUS_OK, mac, c', w') \<Longrightarrow>
    mac = Some (cmac_function cr (cc_key c) (cc_data c)) \<and> c' = Some (c\<lparr>cc_done := True\<rparr>)"
  by (auto simp: cmac_context_compute_def Let_def split: if_splits prod.splits)

lemma hmac_stream:
  assumes "hmac_context_create alg (Some k) w0 = (Some c, w1)" "hmac_updates (Some c) us w2 = (SA_STATUS_OK, c', w3)"
    "hmac_context_compute cr True (Some len) c' w4 = (SA_STATUS_OK, mac, len', c'', w5)"
  shows "mac = Some (hmac_function cr alg (sk_key k) (mac_bytes us)) \<and> len' = Some (digest_length alg) \<and>
    fst (hmac_context_compute cr True (Some len) c'' w6) = SA_STATUS_OPERATION_NOT_ALLOWED"
proof -
  note c = hmac_create_result [OF assms(1)]
  note u = hmac_updates_result [OF assms(2)]
  note r = hmac_compute_result [OF assms(3) [unfolded u]]
  from r have "c'' = Some (c\<lparr>hc_data := hc_data c @ mac_bytes us, hc_done := True\<rparr>)" "\<not> len < digest_length alg"
    by (simp_all add: c)
  then have "fst (hmac_context_compute cr True (Some len) c'' w6) = SA_STATUS_OPERATION_NOT_ALLOWED"
    by (simp add: hmac_context_compute_def c)
  then show ?thesis using r by (simp add: c)
qed

lemma cmac_stream:
  assumes "cmac_context_create (Some k) w0 = (Some c, w1)" "cmac_updates (Some c) us w2 = (SA_STATUS_OK, c', w3)"
    "cmac_context_compute cr True c' w4 = (SA_STATUS_OK, mac, c'', w5)"
  shows "mac = Some (cmac_function cr (sk_key k) (mac_bytes us)) \<and>
    fst (cmac_context_compute cr True c'' w6) = SA_STATUS_OPERATION_NOT_ALLOWED"
proof -
  note c = cmac_create_result [OF assms(1)]
  note u = cmac_updates_result [OF assms(2)]
  note r = cmac_compute_result [OF assms(3) [unfolded u]]
  from r have "c'' = Some (c\<lparr>cc_data := cc_data c @ mac_bytes us, cc_done := True\<rparr>)" by simp
  then show ?thesis using r by (simp add: c cmac_context_compute_def)
qed


end
