(* ===== verification/Slots.thy ===== *)
theory Slots
  imports SA_Base
begin

text \<open>
  The slot allocator, \<^verbatim>\<open>reference/src/taimpl/src/internal/slots.c\<close>: a bit field of 32-bit blocks,
  a set bit for a slot in use. Slot \<open>n\<close> is bit \<open>31 - n mod 32\<close> of block \<open>n div 32\<close>; allocation takes
  the least significant clear bit of the first block that has one. The theory shows that the bit
  field implements a finite set of slot numbers, and states that contract as the locale
  \<open>slot_pool\<close> which the object store is built on.
\<close>

section \<open>The code\<close>

type_synonym slot_t = u64

definition SLOT_INVALID :: slot_t where
  "SLOT_INVALID = - 1"

definition BLOCK_IDX :: "slot_t \<Rightarrow> nat" where
  "BLOCK_IDX slot = unat (slot div 32)"

definition BLOCK_BIT :: "slot_t \<Rightarrow> nat" where
  "BLOCK_BIT slot = unat (slot mod 32)"

definition BLOCK_BITMASK :: "slot_t \<Rightarrow> u32" where
  "BLOCK_BITMASK slot = push_bit (32 - BLOCK_BIT slot - 1) 1"

record slots =
  bitfield :: "u32 list"
  slot_count :: u64
  block_count :: u64

definition slots_init :: "u64 \<Rightarrow> world \<Rightarrow> slots option \<times> world" where
  "slots_init count w =
     (if count mod 32 \<noteq> 0 then (None, w)
      else let blocks = count div 32; (ok1, w1) = draw w in
        if \<not> ok1 then (None, w1)
        else let (ok2, w2) = draw w1 in
          if \<not> ok2 then (None, w2)
          else (Some \<lparr>bitfield = replicate (unat blocks) 0, slot_count = count,
                      block_count = blocks\<rparr>, w2))"

text \<open>\<open>slots_shutdown\<close> reports the slots still allocated before it frees the structure.\<close>

definition slots_shutdown :: "slots option \<Rightarrow> slot_t list" where
  "slots_shutdown slots = (case slots of None \<Rightarrow> []
     | Some s \<Rightarrow> filter (\<lambda>i. bitfield s ! BLOCK_IDX i AND BLOCK_BITMASK i \<noteq> 0)
                   (map of_nat [0..<unat (slot_count s)]))"

text \<open>\<open>ffs\<close> of the C library: one plus the index of the least significant set bit, 0 if none is set.\<close>

definition ffs :: "u32 \<Rightarrow> nat" where
  "ffs x = (case find (bit x) [0..<32] of None \<Rightarrow> 0 | Some k \<Rightarrow> Suc k)"

fun slots_allocate_loop :: "nat \<Rightarrow> u32 list \<Rightarrow> slot_t \<times> u32 list" where
  "slots_allocate_loop i [] = (SLOT_INVALID, [])"
| "slots_allocate_loop i (block # blocks) =
     (let least_significant_available = ffs (NOT block) in
      if least_significant_available \<noteq> 0 then
        (of_nat ((i + 1) * 32 - least_significant_available),
         (block OR push_bit (least_significant_available - 1) 1) # blocks)
      else let (slot, blocks') = slots_allocate_loop (Suc i) blocks in (slot, block # blocks'))"

definition slots_allocate :: "slots option \<Rightarrow> slot_t \<times> slots option" where
  "slots_allocate slots = (case slots of None \<Rightarrow> (SLOT_INVALID, None)
     | Some s \<Rightarrow> let (slot, blocks) = slots_allocate_loop 0 (bitfield s)
                 in (slot, Some (s\<lparr>bitfield := blocks\<rparr>)))"

definition slots_free :: "slots option \<Rightarrow> slot_t \<Rightarrow> slots option" where
  "slots_free slots slot = (case slots of None \<Rightarrow> None
     | Some s \<Rightarrow>
         if slot = SLOT_INVALID then Some s
         else if slot \<ge> slot_count s then Some s
         else if bitfield s ! BLOCK_IDX slot AND BLOCK_BITMASK slot = 0 then Some s
         else Some (s\<lparr>bitfield := (bitfield s)[BLOCK_IDX slot :=
                (bitfield s ! BLOCK_IDX slot) AND NOT (BLOCK_BITMASK slot)]\<rparr>))"

section \<open>The contract: a finite pool of slot numbers\<close>

text \<open>
  \<open>taken p\<close> is the set of slots in use, \<open>cap p\<close> the number of slots. A client that keeps a table
  indexed by slots is \<open>tracked\<close> when exactly the taken slots are occupied in its table.
\<close>

locale slot_pool =
  fixes alloc :: "'p \<Rightarrow> slot_t \<times> 'p"
    and free :: "'p \<Rightarrow> slot_t \<Rightarrow> 'p"
    and taken :: "'p \<Rightarrow> nat set"
    and cap :: "'p \<Rightarrow> nat"
    and ok :: "'p \<Rightarrow> bool"
  assumes taken_bound: "ok p \<Longrightarrow> taken p \<subseteq> {..<cap p}"
    and cap_bound: "ok p \<Longrightarrow> cap p < 2 ^ 64 - 1"
    and alloc_ok: "ok p \<Longrightarrow> ok (snd (alloc p)) \<and> cap (snd (alloc p)) = cap p"
    and alloc_full: "ok p \<Longrightarrow> fst (alloc p) = SLOT_INVALID \<longleftrightarrow> taken p = {..<cap p}"
    and alloc_full_same: "ok p \<Longrightarrow> fst (alloc p) = SLOT_INVALID \<Longrightarrow> taken (snd (alloc p)) = taken p"
    and alloc_new: "ok p \<Longrightarrow> fst (alloc p) \<noteq> SLOT_INVALID \<Longrightarrow>
      unat (fst (alloc p)) < cap p \<and> unat (fst (alloc p)) \<notin> taken p \<and>
      taken (snd (alloc p)) = insert (unat (fst (alloc p))) (taken p)"
    and free_ok: "ok p \<Longrightarrow> ok (free p s) \<and> cap (free p s) = cap p"
    and free_taken: "ok p \<Longrightarrow> taken (free p s) = taken p - {unat s}"
begin

definition tracked :: "'p \<Rightarrow> (nat \<Rightarrow> bool) \<Rightarrow> bool" where
  "tracked p occ \<longleftrightarrow> ok p \<and> (\<forall>n < cap p. occ n \<longleftrightarrow> n \<in> taken p)"

lemma alloc_tracked:
  assumes "tracked p occ" "alloc p = (s, p')" "s \<noteq> SLOT_INVALID"
  shows "unat s < cap p" "\<not> occ (unat s)" "tracked p' (occ(unat s := True))"
  using assms alloc_new [of p] alloc_ok [of p] by (auto simp: tracked_def)

lemma alloc_fail_tracked:
  assumes "tracked p occ" "alloc p = (SLOT_INVALID, p')"
  shows "tracked p' occ" "\<forall>n < cap p. occ n"
  using assms alloc_full [of p] alloc_full_same [of p] alloc_ok [of p] by (auto simp: tracked_def)

lemma alloc_room:
  assumes "tracked p occ" "n < cap p" "\<not> occ n"
  shows "fst (alloc p) \<noteq> SLOT_INVALID"
  using assms alloc_full [of p] by (auto simp: tracked_def)

lemma free_tracked:
  "tracked p occ \<Longrightarrow> tracked (free p s) (occ(unat s := False))"
  using free_ok [of p s] free_taken [of p s] by (auto simp: tracked_def)

lemma free_then_alloc:
  assumes "tracked p occ" "unat s < cap p"
  shows "fst (alloc (free p s)) \<noteq> SLOT_INVALID"
  using alloc_room [OF free_tracked [OF assms(1)], of "unat s" s] free_ok [of p s] assms
  by (auto simp: tracked_def)

end

section \<open>The bit field implements a set of slot numbers\<close>

definition bits_of :: "u32 list \<Rightarrow> nat set" where
  "bits_of bf = {n. n < 32 * length bf \<and> bit (bf ! (n div 32)) (31 - n mod 32)}"

definition slots_ok :: "slots \<Rightarrow> bool" where
  "slots_ok s \<longleftrightarrow> length (bitfield s) = unat (block_count s) \<and>
     unat (slot_count s) = 32 * length (bitfield s) \<and> slot_count s < SLOT_INVALID"

definition slots_taken :: "slots \<Rightarrow> nat set" where
  "slots_taken s = bits_of (bitfield s)"

lemma ffs_0_iff: "ffs x = 0 \<longleftrightarrow> (\<forall>k < 32. \<not> bit x k)"
  by (auto simp: ffs_def find_None_iff find_Some_iff split: option.splits)

lemma ffs_Suc: "ffs x = Suc k \<Longrightarrow> k < 32 \<and> bit x k"
  by (force simp: ffs_def find_Some_iff split: option.splits)

lemma slots_allocate_loop_cases:
  assumes "slots_allocate_loop i bs = (s, bs')"
  shows "(s = SLOT_INVALID \<and> bs' = bs \<and> (\<forall>b \<in> set bs. ffs (NOT b) = 0)) \<or>
    (\<exists>j k. j < length bs \<and> ffs (NOT (bs ! j)) = Suc k \<and> s = of_nat (32 * (i + j) + 31 - k) \<and>
       bs' = bs[j := bs ! j OR push_bit k 1])"
  using assms
proof (induction i bs arbitrary: s bs' rule: slots_allocate_loop.induct)
  case (1 i)
  then show ?case by simp
next
  case (2 i block blocks)
  show ?case
  proof (cases "ffs (NOT block)")
    case (Suc k)
    have "block # blocks = (block # blocks)" and "(i + 1) * 32 - Suc k = 32 * (i + 0) + 31 - k"
      by simp_all
    with 2 Suc show ?thesis by (intro disjI2 exI [of _ 0] exI [of _ k]) (auto simp: Let_def)
  next
    case 0
    with 2 obtain bs'' where r: "slots_allocate_loop (Suc i) blocks = (s, bs'')"
      and bs': "bs' = block # bs''" by (auto simp: Let_def split: prod.splits)
    have "(s = SLOT_INVALID \<and> bs'' = blocks \<and> (\<forall>b \<in> set blocks. ffs (NOT b) = 0)) \<or>
      (\<exists>j k. j < length blocks \<and> ffs (NOT (blocks ! j)) = Suc k \<and>
         s = of_nat (32 * (Suc i + j) + 31 - k) \<and> bs'' = blocks[j := blocks ! j OR push_bit k 1])"
      using "2.IH" [OF refl _ r] 0 by simp
    then show ?thesis
    proof (elim disjE exE conjE)
      fix j k
      assume "j < length blocks" "ffs (NOT (blocks ! j)) = Suc k"
        "s = of_nat (32 * (Suc i + j) + 31 - k)" "bs'' = blocks[j := blocks ! j OR push_bit k 1]"
      then show ?thesis using bs'
        by (intro disjI2 exI [of _ "Suc j"] exI [of _ k]) (simp add: algebra_simps)
    qed (use 0 bs' in simp)
  qed
qed

lemma slot_number_unique:
  assumes "k < (32::nat)"
  shows "n div 32 = j \<and> 31 - n mod 32 = k \<longleftrightarrow> n = 32 * j + 31 - k"
proof
  assume "n div 32 = j \<and> 31 - n mod 32 = k"
  then have "n mod 32 = 31 - k" "j = n div 32" using assms by auto
  then show "n = 32 * j + 31 - k" using assms mult_div_mod_eq [of 32 n] by linarith
next
  assume n: "n = 32 * j + 31 - k"
  then have "n = (31 - k) + 32 * j" using assms by simp
  then have "n div 32 = (31 - k) div 32 + j" "n mod 32 = (31 - k) mod 32" by simp_all
  with assms show "n div 32 = j \<and> 31 - n mod 32 = k" by simp
qed

lemma bit_single [simp]: "bit (2 ^ k :: u32) n \<longleftrightarrow> n = k \<and> n < 32"
  by (auto simp: bit_exp_iff possible_bit_def)

lemma bits_of_set:
  assumes "j < length bf" "k < 32"
  shows "bits_of (bf[j := bf ! j OR push_bit k 1]) = insert (32 * j + 31 - k) (bits_of bf)"
proof (rule set_eqI)
  fix n
  show "n \<in> bits_of (bf[j := bf ! j OR push_bit k 1]) \<longleftrightarrow> n \<in> insert (32 * j + 31 - k) (bits_of bf)"
    using assms slot_number_unique [of k n j]
    by (cases "n div 32 = j") (auto simp: bits_of_def bit_or_iff)
qed

lemma bits_of_clear:
  assumes "j < length bf" "k < 32"
  shows "bits_of (bf[j := bf ! j AND NOT (push_bit k 1)]) = bits_of bf - {32 * j + 31 - k}"
proof (rule set_eqI)
  fix n
  show "n \<in> bits_of (bf[j := bf ! j AND NOT (push_bit k 1)]) \<longleftrightarrow> n \<in> bits_of bf - {32 * j + 31 - k}"
    using assms slot_number_unique [of k n j]
    by (cases "n div 32 = j") (auto simp: bits_of_def bit_and_iff bit_not_iff)
qed

lemma block_idx [simp]: "BLOCK_IDX s = unat s div 32"
  by (simp add: BLOCK_IDX_def unat_div)

lemma block_bit [simp]: "BLOCK_BIT s = unat s mod 32"
  by (simp add: BLOCK_BIT_def unat_mod)

lemma and_mask_0: "(x AND 2 ^ k) = (0 :: u32) \<longleftrightarrow> (k < 32 \<longrightarrow> \<not> bit x k)"
proof -
  have "(x AND 2 ^ k) = (0 :: u32) \<longleftrightarrow> (\<forall>n. \<not> (bit x n \<and> n = k \<and> n < 32))"
    by (auto simp: bit_eq_iff [where 'a = u32] bit_and_iff)
  then show ?thesis by auto
qed

lemma SLOT_INVALID_unat [simp]: "unat SLOT_INVALID = 2 ^ 64 - 1"
  by (simp add: SLOT_INVALID_def unsigned_minus_1_eq_mask mask_eq_exp_minus_1)

lemma slots_ok_count: "slots_ok s \<Longrightarrow> 32 * length (bitfield s) < 2 ^ 64 - 1"
  by (simp add: slots_ok_def word_less_nat_alt)

lemma slots_taken_bound: "slots_ok s \<Longrightarrow> slots_taken s \<subseteq> {..<unat (slot_count s)}"
  by (auto simp: slots_taken_def bits_of_def slots_ok_def)

section \<open>The bit field keeps the contract\<close>

fun pool_ok :: "slots option \<Rightarrow> bool" where
  "pool_ok None = False"
| "pool_ok (Some s) = slots_ok s"

fun pool_taken :: "slots option \<Rightarrow> nat set" where
  "pool_taken None = {}"
| "pool_taken (Some s) = slots_taken s"

fun pool_cap :: "slots option \<Rightarrow> nat" where
  "pool_cap None = 0"
| "pool_cap (Some s) = unat (slot_count s)"

lemma block_full_iff: "ffs (NOT b) = 0 \<longleftrightarrow> (\<forall>k < 32. bit b k)"
  by (auto simp: ffs_0_iff bit_not_iff)

lemma all_blocks_full:
  assumes "\<forall>b \<in> set bf. ffs (NOT b) = 0"
  shows "bits_of bf = {..<32 * length bf}"
  using assms by (auto simp: bits_of_def block_full_iff less_mult_imp_div_less mult.commute)

lemma slot_of_nat:
  assumes "n < 2 ^ 64 - 1"
  shows "unat (of_nat n :: slot_t) = n" "(of_nat n :: slot_t) \<noteq> SLOT_INVALID"
proof -
  show u: "unat (of_nat n :: slot_t) = n"
    using assms by (simp add: unat_of_nat take_bit_nat_eq_self)
  show "(of_nat n :: slot_t) \<noteq> SLOT_INVALID"
    using u assms SLOT_INVALID_unat by (metis nat_neq_iff)
qed

lemma slots_allocate_result:
  assumes ok: "slots_ok s" and r: "slots_allocate (Some s) = (n, p')"
  obtains (full) "n = SLOT_INVALID" "p' = Some s" "slots_taken s = {..<unat (slot_count s)}"
  | (new) s' where "n \<noteq> SLOT_INVALID" "p' = Some s'" "slots_ok s'" "slot_count s' = slot_count s"
      "unat n < unat (slot_count s)" "unat n \<notin> slots_taken s"
      "slots_taken s' = insert (unat n) (slots_taken s)"
proof -
  obtain bf' where l: "slots_allocate_loop 0 (bitfield s) = (n, bf')"
    and p': "p' = Some (s\<lparr>bitfield := bf'\<rparr>)"
    using r by (auto simp: slots_allocate_def split: prod.splits)
  have cnt: "unat (slot_count s) = 32 * length (bitfield s)" using ok by (simp add: slots_ok_def)
  from slots_allocate_loop_cases [OF l] show ?thesis
  proof (elim disjE conjE exE)
    assume "n = SLOT_INVALID" "bf' = bitfield s" "\<forall>b \<in> set (bitfield s). ffs (NOT b) = 0"
    with p' cnt show ?thesis by (intro full) (simp_all add: slots_taken_def all_blocks_full)
  next
    fix j k
    assume j: "j < length (bitfield s)" and k: "ffs (NOT (bitfield s ! j)) = Suc k"
      and n: "n = of_nat (32 * (0 + j) + 31 - k)"
      and bf': "bf' = (bitfield s)[j := bitfield s ! j OR push_bit k 1]"
    from ffs_Suc [OF k] have k32: "k < 32" and free: "\<not> bit (bitfield s ! j) k"
      by (simp_all add: bit_not_iff)
    have lt: "32 * j + 31 - k < 32 * length (bitfield s)" using j k32 by linarith
    with slots_ok_count [OF ok] have "32 * j + 31 - k < 2 ^ 64 - 1" by linarith
    then have un: "unat n = 32 * j + 31 - k" and ni: "n \<noteq> SLOT_INVALID"
      using slot_of_nat n by simp_all
    have "unat n \<notin> slots_taken s"
      using slot_number_unique [OF k32, of "unat n" j] un free by (auto simp: slots_taken_def bits_of_def)
    moreover have "slots_taken (s\<lparr>bitfield := bf'\<rparr>) = insert (unat n) (slots_taken s)"
      using bits_of_set [OF j k32] by (simp add: slots_taken_def bf' un)
    ultimately show ?thesis
      using p' ni lt un cnt ok bf' by (intro new [of "s\<lparr>bitfield := bf'\<rparr>"]) (simp_all add: slots_ok_def)
  qed
qed

lemma slots_free_result:
  assumes ok: "slots_ok s"
  obtains s' where "slots_free (Some s) n = Some s'" "slots_ok s'" "slot_count s' = slot_count s"
    "slots_taken s' = slots_taken s - {unat n}"
proof (cases "n = SLOT_INVALID \<or> n \<ge> slot_count s \<or> bitfield s ! BLOCK_IDX n AND BLOCK_BITMASK n = 0")
  case True
  have "unat n \<notin> slots_taken s"
  proof (cases "n < slot_count s")
    case True
    with \<open>_ \<or> _ \<or> _\<close> ok show ?thesis
      by (auto simp: slots_ok_def and_mask_0 BLOCK_BITMASK_def slots_taken_def bits_of_def)
  next
    case False
    then show ?thesis using slots_taken_bound [OF ok] by (auto simp: word_less_nat_alt)
  qed
  with True ok show ?thesis by (intro that [of s]) (auto simp: slots_free_def)
next
  case False
  let ?j = "unat n div 32" and ?k = "31 - unat n mod 32"
  have j: "?j < length (bitfield s)" and k: "?k < 32"
    using False ok by (auto simp: slots_ok_def word_le_nat_alt)
  have num: "32 * ?j + 31 - ?k = unat n" using slot_number_unique [OF k, of "unat n" ?j] by simp
  show ?thesis
    using False ok bits_of_clear [OF j k] num
    by (intro that [of "s\<lparr>bitfield := (bitfield s)[?j := bitfield s ! ?j AND NOT (push_bit ?k 1)]\<rparr>"])
      (auto simp: slots_free_def slots_ok_def slots_taken_def BLOCK_BITMASK_def)
qed

lemma slots_allocate_pool:
  assumes "slots_ok s"
  shows "pool_ok (snd (slots_allocate (Some s)))"
    and "pool_cap (snd (slots_allocate (Some s))) = unat (slot_count s)"
    and "fst (slots_allocate (Some s)) = SLOT_INVALID \<longleftrightarrow> slots_taken s = {..<unat (slot_count s)}"
    and "fst (slots_allocate (Some s)) = SLOT_INVALID \<Longrightarrow>
      pool_taken (snd (slots_allocate (Some s))) = slots_taken s"
    and "fst (slots_allocate (Some s)) \<noteq> SLOT_INVALID \<Longrightarrow>
      unat (fst (slots_allocate (Some s))) < unat (slot_count s) \<and>
      unat (fst (slots_allocate (Some s))) \<notin> slots_taken s \<and>
      pool_taken (snd (slots_allocate (Some s))) = insert (unat (fst (slots_allocate (Some s)))) (slots_taken s)"
  by (rule slots_allocate_result [OF assms prod.collapse [symmetric]]; auto simp: assms)+

lemma slots_free_pool:
  assumes "slots_ok s"
  shows "pool_ok (slots_free (Some s) n)" "pool_cap (slots_free (Some s) n) = unat (slot_count s)"
    and "pool_taken (slots_free (Some s) n) = slots_taken s - {unat n}"
  by (rule slots_free_result [OF assms, of n]; simp)+

interpretation sl: slot_pool slots_allocate slots_free pool_taken pool_cap pool_ok
proof unfold_locales
  fix p s
  assume "pool_ok p"
  then obtain q where q: "p = Some q" "slots_ok q" by (cases p) auto
  note facts = slots_allocate_pool [OF q(2)] slots_free_pool [OF q(2), of s]
  show "pool_taken p \<subseteq> {..<pool_cap p}" using q slots_taken_bound by simp
  show "pool_cap p < 2 ^ 64 - 1" using q slots_ok_count by (simp add: slots_ok_def)
  show "pool_ok (snd (slots_allocate p)) \<and> pool_cap (snd (slots_allocate p)) = pool_cap p"
    "fst (slots_allocate p) = SLOT_INVALID \<longleftrightarrow> pool_taken p = {..<pool_cap p}"
    "pool_ok (slots_free p s) \<and> pool_cap (slots_free p s) = pool_cap p"
    "pool_taken (slots_free p s) = pool_taken p - {unat s}"
    using facts by (simp_all add: q(1))
  show "pool_taken (snd (slots_allocate p)) = pool_taken p"
    if "fst (slots_allocate p) = SLOT_INVALID" using facts(4) that by (simp add: q(1))
  show "unat (fst (slots_allocate p)) < pool_cap p \<and> unat (fst (slots_allocate p)) \<notin> pool_taken p \<and>
      pool_taken (snd (slots_allocate p)) = insert (unat (fst (slots_allocate p))) (pool_taken p)"
    if "fst (slots_allocate p) \<noteq> SLOT_INVALID" using facts(5) that by (simp add: q(1))
qed

lemma slots_init_ok:
  assumes "slots_init count w = (Some s, w')" "count < SLOT_INVALID"
  shows "slots_ok s" "slots_taken s = {}" "slot_count s = count"
proof -
  from assms have c: "count mod 32 = 0" and s: "s = \<lparr>bitfield = replicate (unat (count div 32)) 0,
      slot_count = count, block_count = count div 32\<rparr>"
    by (auto simp: slots_init_def Let_def split: if_splits prod.splits)
  have "unat count mod 32 = 0" using arg_cong [OF c, of unat] by (simp add: unat_mod)
  then have "unat count = 32 * unat (count div 32)"
    using mult_div_mod_eq [of 32 "unat count"] by (simp add: unat_div)
  with s assms(2) show "slots_ok s" "slots_taken s = {}" "slot_count s = count"
    by (auto simp: slots_ok_def slots_taken_def bits_of_def)
qed

text \<open>
  C12: allocation hands out a slot nobody has, below the capacity, and marks exactly that slot as taken;
  it fails only when every slot is taken, and then changes nothing. Freeing the slot afterwards restores
  the set of taken slots, so nothing leaks from the pool.
\<close>

theorem slots_allocate_free:
  assumes "slots_ok s" "slots_allocate (Some s) = (n, p')"
  shows "pool_ok p' \<and> (if n = SLOT_INVALID then p' = Some s \<and> slots_taken s = {..<unat (slot_count s)}
    else unat n < unat (slot_count s) \<and> unat n \<notin> slots_taken s \<and>
      pool_taken p' = insert (unat n) (slots_taken s) \<and> pool_taken (slots_free p' n) = slots_taken s)"
  using assms
proof (rule slots_allocate_result)
  fix s'
  assume r: "n \<noteq> SLOT_INVALID" "p' = Some s'" "slots_ok s'" "unat n < unat (slot_count s)" "unat n \<notin> slots_taken s"
    "slots_taken s' = insert (unat n) (slots_taken s)"
  with slots_free_pool(3) [OF r(3), of n] show ?thesis by simp
qed (use assms in simp)

end
