(* ===== verification/Object_Store.thy ===== *)
theory Object_Store
  imports Slots
begin

text \<open>
  The reference-counted object store, \<^verbatim>\<open>reference/src/taimpl/src/internal/object_store.c\<close>, which
  holds every key, cipher, MAC, SVP buffer and client of the trusted application. An entry has the
  object's address, the number of users that have acquired it and the UUID of the TA that added it.

  \<open>object_store_remove\<close> waits, with the mutex released, until nobody uses the object. The waiting
  loop is modelled by the schedule of what other threads do to the store at each \<open>sleep(0)\<close>: a list
  of store transformers. A call that is still waiting at the end of the schedule has not returned,
  which is the result \<open>None\<close>.
\<close>

section \<open>State\<close>

record store_object =
  object :: addr
  reference_count :: u64
  owner_uuid :: sa_uuid

record object_store =
  os_slots :: "slots option"
  os_objects :: "store_object list"
  os_slot_count :: u64
  os_is_shutting_down :: bool
  os_release_count :: u64

type_synonym interference = "object_store \<Rightarrow> object_store"

section \<open>Operations\<close>

definition object_store_init :: "bool \<Rightarrow> u64 \<Rightarrow> world \<Rightarrow> object_store option \<times> world" where
  "object_store_init object_free_given count w =
     (if \<not> object_free_given then (None, w)
      else if count mod 32 \<noteq> 0 then (None, w)
      else case slots_init count w of
        (None, w) \<Rightarrow> (None, w)
      | (Some slots, w) \<Rightarrow>
          let (objects_ok, w) = draw w in
          if \<not> objects_ok then (None, w)
          else let (store_ok, w) = draw w in
            if \<not> store_ok then (None, w)
            else let (mutex_ok, w) = draw w in
              if \<not> mutex_ok then (None, w)
              else (Some \<lparr>os_slots = Some slots,
                os_objects = replicate (unat count)
                  \<lparr>object = NULL, reference_count = 0, owner_uuid = replicate 16 0\<rparr>,
                os_slot_count = count, os_is_shutting_down = False, os_release_count = 0\<rparr>, w))"

definition increment_release_count ::
  "object_store option \<Rightarrow> world \<Rightarrow> bool \<times> object_store option \<times> world" where
  "increment_release_count store w = (case store of None \<Rightarrow> (False, None, w)
     | Some st \<Rightarrow> let (locked, w) = draw w in
         if \<not> locked then (False, Some st, w)
         else if os_is_shutting_down st then (False, Some st, w)
         else (True, Some (st\<lparr>os_release_count := os_release_count st + 1\<rparr>), w))"

definition decrement_release_count ::
  "object_store option \<Rightarrow> world \<Rightarrow> object_store option \<times> world" where
  "decrement_release_count store w = (case store of None \<Rightarrow> (None, w)
     | Some st \<Rightarrow> let (locked, w) = draw w in
         if \<not> locked then (Some st, w)
         else (Some (st\<lparr>os_release_count := os_release_count st - 1\<rparr>), w))"

text \<open>
  One pass through the loop of \<open>store_remove\<close>: it ends with a status and the object to free, or it
  has to wait. A \<open>None\<close> caller is the store itself shutting down.
\<close>

datatype remove_step = Finished sa_status addr | Waiting

definition store_remove_attempt ::
  "object_store \<Rightarrow> slot_t \<Rightarrow> sa_uuid option \<Rightarrow> world \<Rightarrow> remove_step \<times> object_store \<times> world" where
  "store_remove_attempt st slot caller_uuid w =
     (let (locked, w) = draw w in
      if \<not> locked then (Finished SA_STATUS_INTERNAL_ERROR NULL, st, w)
      else let store_object = os_objects st ! unat slot in
        if object store_object = NULL then (Finished SA_STATUS_INVALID_PARAMETER NULL, st, w)
        else if (case caller_uuid of None \<Rightarrow> False
                 | Some u \<Rightarrow> memory_memcmp_constant (owner_uuid store_object) u 16 \<noteq> 0)
        then (Finished SA_STATUS_OPERATION_NOT_ALLOWED NULL, st, w)
        else if reference_count store_object = 0 then
          (Finished SA_STATUS_OK (object store_object),
           st\<lparr>os_objects := (os_objects st)[unat slot := store_object\<lparr>object := NULL\<rparr>],
              os_slots := slots_free (os_slots st) slot\<rparr>, w)
        else (Waiting, st, w))"

fun store_remove_loop ::
  "interference list \<Rightarrow> object_store \<Rightarrow> slot_t \<Rightarrow> sa_uuid option \<Rightarrow> world \<Rightarrow>
   (sa_status \<times> addr \<times> object_store \<times> world) option" where
  "store_remove_loop others st slot caller_uuid w =
     (case store_remove_attempt st slot caller_uuid w of
        (Finished status object_to_free, st, w) \<Rightarrow> Some (status, object_to_free, st, w)
      | (Waiting, st, w) \<Rightarrow> (case others of [] \<Rightarrow> None
          | other # others \<Rightarrow> store_remove_loop others (other st) slot caller_uuid w))"

definition store_remove ::
  "interference list \<Rightarrow> object_store option \<Rightarrow> slot_t \<Rightarrow> sa_uuid option \<Rightarrow> world \<Rightarrow>
   (sa_status \<times> addr \<times> object_store option \<times> world) option" where
  "store_remove others store slot caller_uuid w = (case store of
      None \<Rightarrow> Some (SA_STATUS_NULL_PARAMETER, NULL, None, w)
    | Some st0 \<Rightarrow>
        if slot \<ge> os_slot_count st0 then Some (SA_STATUS_INVALID_PARAMETER, NULL, store, w)
        else let is_shutting_down = (caller_uuid = None);
                 (counted, store, w) = (if is_shutting_down then (True, store, w)
                                        else increment_release_count store w) in
          if \<not> counted then Some (SA_STATUS_OK, NULL, store, w)
          else (case store of None \<Rightarrow> None
            | Some st \<Rightarrow> (case store_remove_loop others st slot caller_uuid w of
                None \<Rightarrow> None
              | Some (status, object_to_free, st, w) \<Rightarrow>
                  if is_shutting_down then Some (status, object_to_free, Some st, w)
                  else let (store, w) = decrement_release_count (Some st) w in
                    Some (status, object_to_free, store, w))))"

definition object_store_remove ::
  "interference list \<Rightarrow> object_store option \<Rightarrow> slot_t \<Rightarrow> sa_uuid option \<Rightarrow> world \<Rightarrow>
   (sa_status \<times> addr \<times> object_store option \<times> world) option" where
  "object_store_remove others store slot caller_uuid w =
     (if store = None then Some (SA_STATUS_NULL_PARAMETER, NULL, store, w)
      else if caller_uuid = None then Some (SA_STATUS_NULL_PARAMETER, NULL, store, w)
      else store_remove others store slot caller_uuid w)"

text \<open>Shutdown: forbid new operations, wait for running releases, then free what is left.\<close>

fun await_releases ::
  "interference list \<Rightarrow> object_store \<Rightarrow> world \<Rightarrow> (object_store \<times> world) option" where
  "await_releases others st w =
     (let (locked, w) = draw w in
      if \<not> locked then Some (st, w)
      else if os_release_count st = 0 then Some (st, w)
      else (case others of [] \<Rightarrow> None
        | other # others \<Rightarrow> await_releases others (other st) w))"

fun remove_slots ::
  "(slot_t \<Rightarrow> interference list) \<Rightarrow> slot_t list \<Rightarrow> object_store option \<Rightarrow> world \<Rightarrow>
   (addr list \<times> object_store option \<times> world) option" where
  "remove_slots others [] store w = Some ([], store, w)"
| "remove_slots others (i # is) store w =
     (case store_remove (others i) store i None w of
        None \<Rightarrow> None
      | Some (status, freed, store, w) \<Rightarrow> (case remove_slots others is store w of
            None \<Rightarrow> None
          | Some (freeds, store, w) \<Rightarrow> Some (if freed = NULL then freeds else freed # freeds, store, w)))"

text \<open>The result is the list of objects passed to \<open>object_free\<close> and the slots reported as leaked.\<close>

definition object_store_shutdown ::
  "interference list \<Rightarrow> (slot_t \<Rightarrow> interference list) \<Rightarrow> object_store option \<Rightarrow> world \<Rightarrow>
   (addr list \<times> slot_t list \<times> world) option" where
  "object_store_shutdown others1 others2 store w = (case store of
      None \<Rightarrow> Some ([], [], w)
    | Some st \<Rightarrow> let (locked, w) = draw w in
        if \<not> locked then Some ([], [], w)
        else (case await_releases others1 (st\<lparr>os_is_shutting_down := True\<rparr>) w of
            None \<Rightarrow> None
          | Some (st, w) \<Rightarrow>
              (case remove_slots others2 (map of_nat [0..<unat (os_slot_count st)]) (Some st) w of
                None \<Rightarrow> None
              | Some (freed, store, w) \<Rightarrow>
                  Some (freed, slots_shutdown (case store of None \<Rightarrow> None | Some st \<Rightarrow> os_slots st), w))))"

definition object_store_add ::
  "bool \<Rightarrow> object_store option \<Rightarrow> addr \<Rightarrow> sa_uuid option \<Rightarrow> world \<Rightarrow>
   sa_status \<times> slot_t \<times> object_store option \<times> world" where
  "object_store_add slot_given store obj caller_uuid w =
     (if \<not> slot_given then (SA_STATUS_NULL_PARAMETER, SLOT_INVALID, store, w)
      else (case store of
        None \<Rightarrow> (SA_STATUS_NULL_PARAMETER, SLOT_INVALID, store, w)
      | Some st \<Rightarrow>
          if obj = NULL then (SA_STATUS_NULL_PARAMETER, SLOT_INVALID, store, w)
          else (case caller_uuid of
            None \<Rightarrow> (SA_STATUS_NULL_PARAMETER, SLOT_INVALID, store, w)
          | Some caller \<Rightarrow>
              let (locked, w) = draw w in
              if \<not> locked then (SA_STATUS_INTERNAL_ERROR, SLOT_INVALID, store, w)
              else if os_is_shutting_down st then (SA_STATUS_INTERNAL_ERROR, SLOT_INVALID, store, w)
              else let (slot, slots) = slots_allocate (os_slots st); st = st\<lparr>os_slots := slots\<rparr> in
                if slot = SLOT_INVALID
                then (SA_STATUS_NO_AVAILABLE_RESOURCE_SLOT, SLOT_INVALID, Some st, w)
                else (SA_STATUS_OK, slot,
                  Some (st\<lparr>os_objects := (os_objects st)[unat slot :=
                    (os_objects st ! unat slot)\<lparr>object := obj, owner_uuid := caller\<rparr>]\<rparr>), w))))"

definition object_store_acquire ::
  "bool \<Rightarrow> object_store option \<Rightarrow> slot_t \<Rightarrow> sa_uuid option \<Rightarrow> world \<Rightarrow>
   sa_status \<times> addr \<times> object_store option \<times> world" where
  "object_store_acquire object_given store slot caller_uuid w =
     (if \<not> object_given then (SA_STATUS_NULL_PARAMETER, NULL, store, w)
      else (case store of
        None \<Rightarrow> (SA_STATUS_NULL_PARAMETER, NULL, store, w)
      | Some st \<Rightarrow> (case caller_uuid of
          None \<Rightarrow> (SA_STATUS_NULL_PARAMETER, NULL, store, w)
        | Some caller \<Rightarrow>
            if slot \<ge> os_slot_count st then (SA_STATUS_INVALID_PARAMETER, NULL, store, w)
            else let (locked, w) = draw w in
              if \<not> locked then (SA_STATUS_INTERNAL_ERROR, NULL, store, w)
              else if os_is_shutting_down st then (SA_STATUS_INTERNAL_ERROR, NULL, store, w)
              else let store_object = os_objects st ! unat slot in
                if object store_object = NULL then (SA_STATUS_INVALID_PARAMETER, NULL, store, w)
                else if memory_memcmp_constant (owner_uuid store_object) caller 16 \<noteq> 0
                then (SA_STATUS_OPERATION_NOT_ALLOWED, NULL, store, w)
                else (SA_STATUS_OK, object store_object,
                  Some (st\<lparr>os_objects := (os_objects st)[unat slot := store_object
                    \<lparr>reference_count := reference_count store_object + 1\<rparr>]\<rparr>), w))))"

definition object_store_release ::
  "object_store option \<Rightarrow> slot_t \<Rightarrow> addr \<Rightarrow> sa_uuid option \<Rightarrow> world \<Rightarrow>
   sa_status \<times> object_store option \<times> world" where
  "object_store_release store slot obj caller_uuid w = (case store of
      None \<Rightarrow> (SA_STATUS_NULL_PARAMETER, store, w)
    | Some st \<Rightarrow> (case caller_uuid of
        None \<Rightarrow> (SA_STATUS_NULL_PARAMETER, store, w)
      | Some caller \<Rightarrow>
          if slot \<ge> os_slot_count st then (SA_STATUS_INVALID_PARAMETER, store, w)
          else if obj = NULL then (SA_STATUS_NULL_PARAMETER, store, w)
          else let (locked, w) = draw w in
            if \<not> locked then (SA_STATUS_INTERNAL_ERROR, store, w)
            else let store_object = os_objects st ! unat slot in
              if memory_memcmp_constant (owner_uuid store_object) caller 16 \<noteq> 0
              then (SA_STATUS_OPERATION_NOT_ALLOWED, store, w)
              else if object store_object \<noteq> obj then (SA_STATUS_INTERNAL_ERROR, store, w)
              else if reference_count store_object = 0 then (SA_STATUS_INTERNAL_ERROR, store, w)
              else (SA_STATUS_OK,
                Some (st\<lparr>os_objects := (os_objects st)[unat slot := store_object
                  \<lparr>reference_count := reference_count store_object - 1\<rparr>]\<rparr>), w)))"

definition object_store_size :: "object_store option \<Rightarrow> u64" where
  "object_store_size store = (case store of None \<Rightarrow> 0 | Some st \<Rightarrow> os_slot_count st)"

section \<open>The store as a map from slots to entries\<close>

definition store_view :: "object_store \<Rightarrow> nat \<Rightarrow> (addr \<times> u64 \<times> sa_uuid) option" where
  "store_view st n =
     (if n < length (os_objects st) \<and> object (os_objects st ! n) \<noteq> NULL
      then let e = os_objects st ! n in Some (object e, reference_count e, owner_uuid e) else None)"

definition store_ok :: "object_store \<Rightarrow> bool" where
  "store_ok st \<longleftrightarrow> length (os_objects st) = unat (os_slot_count st) \<and>
     pool_cap (os_slots st) = unat (os_slot_count st) \<and>
     sl.tracked (os_slots st) (\<lambda>n. object (os_objects st ! n) \<noteq> NULL) \<and>
     (\<forall>e \<in> set (os_objects st). uuid_ok (owner_uuid e) \<and> (object e = NULL \<longrightarrow> reference_count e = 0))"

text \<open>The same through the pointer the clients of the store hold.\<close>

fun store_live :: "object_store option \<Rightarrow> bool" where
  "store_live None = False"
| "store_live (Some st) = store_ok st"

fun entries :: "object_store option \<Rightarrow> nat \<Rightarrow> (addr \<times> u64 \<times> sa_uuid) option" where
  "entries None = (\<lambda>_. None)"
| "entries (Some st) = store_view st"

text \<open>Two stores with the same bounds and life-cycle flags, differing at most in their entries.\<close>

definition same_frame :: "object_store \<Rightarrow> object_store \<Rightarrow> bool" where
  "same_frame st st' \<longleftrightarrow> os_slot_count st' = os_slot_count st \<and>
     os_is_shutting_down st' = os_is_shutting_down st \<and> os_release_count st' = os_release_count st"

lemma same_frame_refl [simp]: "same_frame st st"
  by (simp add: same_frame_def)

lemma store_ok_length: "store_ok st \<Longrightarrow> length (os_objects st) = unat (os_slot_count st)"
  by (simp add: store_ok_def)

lemma store_ok_owner: "store_ok st \<Longrightarrow> n < length (os_objects st) \<Longrightarrow> uuid_ok (owner_uuid (os_objects st ! n))"
  by (simp add: store_ok_def)

lemma store_view_None: "store_ok st \<Longrightarrow> n < length (os_objects st) \<Longrightarrow>
    store_view st n = None \<longleftrightarrow> object (os_objects st ! n) = NULL"
  by (simp add: store_view_def Let_def)

lemma store_view_bound: "store_view st n = Some e \<Longrightarrow> n < length (os_objects st)"
  by (auto simp: store_view_def split: if_splits)

lemma store_view_SomeD: "store_view st n = Some (a, r, u) \<Longrightarrow>
    a \<noteq> NULL \<and> object (os_objects st ! n) = a \<and> reference_count (os_objects st ! n) = r \<and>
    owner_uuid (os_objects st ! n) = u"
  by (auto simp: store_view_def Let_def split: if_splits)

lemma store_view_update1:
  "n < length (os_objects st) \<Longrightarrow> store_view (st\<lparr>os_objects := (os_objects st)[n := e]\<rparr>) =
     (store_view st)(n := if object e = NULL then None
                          else Some (object e, reference_count e, owner_uuid e))"
  by (auto simp: store_view_def Let_def fun_eq_iff nth_list_update)

lemma store_view_frame [simp]:
  "store_view (st\<lparr>os_slots := p\<rparr>) = store_view st"
  "store_view (st\<lparr>os_is_shutting_down := b\<rparr>) = store_view st"
  "store_view (st\<lparr>os_release_count := k\<rparr>) = store_view st"
  by (simp_all add: store_view_def fun_eq_iff)

lemma store_ok_frame [simp]:
  "store_ok (st\<lparr>os_is_shutting_down := b\<rparr>) = store_ok st"
  "store_ok (st\<lparr>os_release_count := k\<rparr>) = store_ok st"
  by (simp_all add: store_ok_def)

lemma store_ok_replace:
  assumes "store_ok st" "n < length (os_objects st)" "uuid_ok (owner_uuid e)"
    "object e = NULL \<longrightarrow> reference_count e = 0"
    "sl.tracked p ((\<lambda>m. object (os_objects st ! m) \<noteq> NULL)(n := object e \<noteq> NULL))"
    "pool_cap p = unat (os_slot_count st)"
  shows "store_ok (st\<lparr>os_objects := (os_objects st)[n := e], os_slots := p\<rparr>)"
proof -
  have "(\<lambda>m. object ((os_objects st)[n := e] ! m) \<noteq> NULL) =
      (\<lambda>m. object (os_objects st ! m) \<noteq> NULL)(n := object e \<noteq> NULL)"
    using assms(2) by (auto simp: fun_eq_iff nth_list_update)
  moreover have "uuid_ok (owner_uuid e') \<and> (object e' = NULL \<longrightarrow> reference_count e' = 0)"
    if "e' \<in> set ((os_objects st)[n := e])" for e'
    using that set_update_subset_insert [of "os_objects st" n e] assms(1,3,4)
    unfolding store_ok_def by auto
  ultimately show ?thesis using assms by (simp add: store_ok_def)
qed

lemma store_ok_same_object:
  assumes "store_ok st" "n < length (os_objects st)" "object (os_objects st ! n) \<noteq> NULL"
    "uuid_ok u"
  shows "store_ok (st\<lparr>os_objects := (os_objects st)[n :=
    (os_objects st ! n)\<lparr>reference_count := r, owner_uuid := u\<rparr>]\<rparr>)"
proof -
  have "(\<lambda>m. object (os_objects st ! m) \<noteq> NULL)(n := True) = (\<lambda>m. object (os_objects st ! m) \<noteq> NULL)"
    using assms(3) by (auto simp: fun_eq_iff)
  then have "store_ok (st\<lparr>os_objects := (os_objects st)[n :=
      (os_objects st ! n)\<lparr>reference_count := r, owner_uuid := u\<rparr>], os_slots := os_slots st\<rparr>)"
    using assms by (intro store_ok_replace) (auto simp: store_ok_def)
  then show ?thesis by simp
qed

section \<open>What each operation does to the map\<close>

lemma object_store_init_ok:
  assumes "object_store_init True count w = (Some st, w')" "count < SLOT_INVALID"
  shows "store_ok st" "store_view st = (\<lambda>_. None)" "os_slot_count st = count"
    "\<not> os_is_shutting_down st" "os_release_count st = 0"
proof -
  from assms obtain p w1 where p: "slots_init count w = (Some p, w1)"
    and st: "st = \<lparr>os_slots = Some p, os_objects = replicate (unat count)
       \<lparr>object = NULL, reference_count = 0, owner_uuid = replicate 16 0\<rparr>,
       os_slot_count = count, os_is_shutting_down = False, os_release_count = 0\<rparr>"
    by (auto simp: object_store_init_def Let_def split: if_splits prod.splits option.splits)
  note p_ok = slots_init_ok [OF p assms(2)]
  show "store_ok st" "store_view st = (\<lambda>_. None)" "os_slot_count st = count"
    "\<not> os_is_shutting_down st" "os_release_count st = 0"
    using p_ok by (auto simp: st store_ok_def store_view_def sl.tracked_def uuid_ok_def)
qed

lemma object_store_add_result:
  assumes ok: "store_ok st" and u: "uuid_ok caller"
    and r: "object_store_add given (Some st) obj (Some caller) w = (status, slot, store', w')"
  obtains (added) st' where "status = SA_STATUS_OK" "store' = Some st'" "store_ok st'" "same_frame st st'"
      "slot \<noteq> SLOT_INVALID" "slot < os_slot_count st" "store_view st (unat slot) = None"
      "store_view st' = (store_view st)(unat slot \<mapsto> (obj, 0, caller))" "obj \<noteq> NULL"
      "\<not> os_is_shutting_down st"
  | (rejected) st' where "status \<noteq> SA_STATUS_OK" "store' = Some st'" "store_ok st'" "same_frame st st'"
      "slot = SLOT_INVALID" "store_view st' = store_view st"
proof -
  obtain n p' where al: "slots_allocate (os_slots st) = (n, p')" by fastforce
  have tr: "sl.tracked (os_slots st) (\<lambda>n. object (os_objects st ! n) \<noteq> NULL)"
    and cap: "pool_cap (os_slots st) = unat (os_slot_count st)" "pool_ok (os_slots st)"
    and len: "length (os_objects st) = unat (os_slot_count st)"
    using ok by (simp_all add: store_ok_def sl.tracked_def)
  have cap': "pool_cap p' = unat (os_slot_count st)" using sl.alloc_ok [OF cap(2)] al cap(1) by simp
  show ?thesis
  proof (cases "status = SA_STATUS_NO_AVAILABLE_RESOURCE_SLOT")
    case True
    then have "n = SLOT_INVALID" "slot = SLOT_INVALID" "store' = Some (st\<lparr>os_slots := p'\<rparr>)"
      using r al by (auto simp: object_store_add_def Let_def split: if_splits prod.splits)
    moreover have "store_ok (st\<lparr>os_slots := p'\<rparr>)"
      using sl.alloc_fail_tracked [OF tr] al \<open>n = SLOT_INVALID\<close> ok cap' by (simp add: store_ok_def)
    ultimately show ?thesis
      using True by (intro rejected [of "st\<lparr>os_slots := p'\<rparr>"]) (simp_all add: same_frame_def)
  next
    case full: False
    show ?thesis
    proof (cases "status = SA_STATUS_OK")
      case False
      with full r al ok show ?thesis
        by (intro rejected [of st]) (auto simp: object_store_add_def Let_def split: if_splits prod.splits)
    next
      case True
      let ?e = "(os_objects st ! unat n)\<lparr>object := obj, owner_uuid := caller\<rparr>"
      have n: "n \<noteq> SLOT_INVALID" "slot = n" "obj \<noteq> NULL" "\<not> os_is_shutting_down st"
        "store' = Some (st\<lparr>os_objects := (os_objects st)[unat n := ?e], os_slots := p'\<rparr>)"
        using True r al by (auto simp: object_store_add_def Let_def split: if_splits prod.splits)
      note new = sl.alloc_tracked [OF tr al n(1)]
      have lt: "unat n < length (os_objects st)" using new(1) cap len by simp
      have rc0: "reference_count (os_objects st ! unat n) = 0" using ok lt new(2) by (simp add: store_ok_def)
      have "store_ok (st\<lparr>os_objects := (os_objects st)[unat n := ?e], os_slots := p'\<rparr>)"
        using ok lt u n(3) new(3) cap' by (intro store_ok_replace) (simp_all add: fun_upd_def)
      with n True lt new(2) len rc0 ok show ?thesis
        by (intro added [OF True n(5)])
          (simp_all add: same_frame_def word_less_nat_alt store_view_update1 store_view_None)
    qed
  qed
qed

lemma object_store_acquire_result:
  assumes ok: "store_ok st" and u: "uuid_ok caller"
    and r: "object_store_acquire given (Some st) slot (Some caller) w = (status, obj, store', w')"
  obtains (acquired) st' rc where "status = SA_STATUS_OK" "store' = Some st'" "store_ok st'" "same_frame st st'"
      "slot < os_slot_count st" "store_view st (unat slot) = Some (obj, rc, caller)" "obj \<noteq> NULL"
      "store_view st' = (store_view st)(unat slot \<mapsto> (obj, rc + 1, caller))" "\<not> os_is_shutting_down st"
  | (rejected) "status \<noteq> SA_STATUS_OK" "store' = Some st" "obj = NULL"
proof (cases "status = SA_STATUS_OK")
  case False
  with r show ?thesis
    by (intro rejected) (auto simp: object_store_acquire_def Let_def split: if_splits prod.splits)
next
  case True
  let ?e = "os_objects st ! unat slot"
  from True r have s: "slot < os_slot_count st" "\<not> os_is_shutting_down st" "object ?e \<noteq> NULL" "obj = object ?e"
    and own: "memory_memcmp_constant (owner_uuid ?e) caller 16 = 0"
    and st': "store' = Some (st\<lparr>os_objects := (os_objects st)[unat slot := ?e
       \<lparr>reference_count := reference_count ?e + 1\<rparr>]\<rparr>)"
    by (auto simp: object_store_acquire_def Let_def split: if_splits prod.splits)
  have lt: "unat slot < length (os_objects st)"
    using s(1) ok by (simp add: store_ok_length word_less_nat_alt)
  have eq: "owner_uuid ?e = caller" using own store_ok_owner [OF ok lt] u by simp
  have "?e\<lparr>reference_count := reference_count ?e + 1\<rparr> =
      ?e\<lparr>reference_count := reference_count ?e + 1, owner_uuid := caller\<rparr>" using eq by simp
  with store_ok_same_object [OF ok lt s(3) u, of "reference_count ?e + 1"]
  have "store_ok (st\<lparr>os_objects := (os_objects st)[unat slot := ?e
       \<lparr>reference_count := reference_count ?e + 1\<rparr>]\<rparr>)" by simp
  then show ?thesis
    using True s lt eq st' by (intro acquired [OF True st'])
      (auto simp: same_frame_def store_view_update1 store_view_def Let_def)
qed

lemma object_store_release_result:
  assumes ok: "store_ok st" and u: "uuid_ok caller"
    and r: "object_store_release (Some st) slot obj (Some caller) w = (status, store', w')"
  obtains (released) st' rc where "status = SA_STATUS_OK" "store' = Some st'" "store_ok st'" "same_frame st st'"
      "slot < os_slot_count st" "store_view st (unat slot) = Some (obj, rc, caller)" "rc \<noteq> 0"
      "store_view st' = (store_view st)(unat slot \<mapsto> (obj, rc - 1, caller))"
  | (rejected) "status \<noteq> SA_STATUS_OK" "store' = Some st"
proof (cases "status = SA_STATUS_OK")
  case False
  with r show ?thesis
    by (intro rejected) (auto simp: object_store_release_def Let_def split: if_splits prod.splits)
next
  case True
  let ?e = "os_objects st ! unat slot"
  from True r have s: "slot < os_slot_count st" "obj \<noteq> NULL" "obj = object ?e" "reference_count ?e \<noteq> 0"
    and own: "memory_memcmp_constant (owner_uuid ?e) caller 16 = 0"
    and st': "store' = Some (st\<lparr>os_objects := (os_objects st)[unat slot := ?e
       \<lparr>reference_count := reference_count ?e - 1\<rparr>]\<rparr>)"
    by (auto simp: object_store_release_def Let_def split: if_splits prod.splits)
  have lt: "unat slot < length (os_objects st)"
    using s(1) ok by (simp add: store_ok_length word_less_nat_alt)
  have eq: "owner_uuid ?e = caller" using own store_ok_owner [OF ok lt] u by simp
  have "?e\<lparr>reference_count := reference_count ?e - 1\<rparr> =
      ?e\<lparr>reference_count := reference_count ?e - 1, owner_uuid := caller\<rparr>" using eq by simp
  with store_ok_same_object [OF ok lt _ u, of "reference_count ?e - 1"] s
  have "store_ok (st\<lparr>os_objects := (os_objects st)[unat slot := ?e
       \<lparr>reference_count := reference_count ?e - 1\<rparr>]\<rparr>)" by simp
  then show ?thesis
    using True s lt eq st' by (intro released [OF True st'])
      (auto simp: same_frame_def store_view_update1 store_view_def Let_def)
qed

lemma store_remove_attempt_result:
  assumes ok: "store_ok st" and u: "pred_option uuid_ok caller" and lt: "slot < os_slot_count st"
    and r: "store_remove_attempt st slot caller w = (step, st', w')"
  obtains (removed) obj owner where "step = Finished SA_STATUS_OK obj" "obj \<noteq> NULL"
      "store_view st (unat slot) = Some (obj, 0, owner)" "caller = None \<or> caller = Some owner"
      "store_ok st'" "same_frame st st'" "store_view st' = (store_view st)(unat slot := None)"
  | (failed) status where "step = Finished status NULL" "status \<noteq> SA_STATUS_OK" "st' = st"
  | (waiting) obj rc owner where "step = Waiting" "st' = st" "rc \<noteq> 0"
      "store_view st (unat slot) = Some (obj, rc, owner)" "caller = None \<or> caller = Some owner"
proof -
  let ?e = "os_objects st ! unat slot"
  have l: "unat slot < length (os_objects st)"
    using lt ok by (simp add: store_ok_length word_less_nat_alt)
  have own: "caller = None \<or> caller = Some (owner_uuid ?e)"
    if "\<not> (case caller of None \<Rightarrow> False | Some u \<Rightarrow> memory_memcmp_constant (owner_uuid ?e) u 16 \<noteq> 0)"
    using that u store_ok_owner [OF ok l] by (auto split: option.splits)
  show ?thesis
  proof (cases step)
    case Waiting
    with r own show ?thesis
      by (intro waiting [of "reference_count ?e" "object ?e" "owner_uuid ?e"])
        (auto simp: store_remove_attempt_def Let_def store_view_def l split: if_splits prod.splits)
  next
    case (Finished status obj)
    show ?thesis
    proof (cases "status = SA_STATUS_OK")
      case False
      with Finished r show ?thesis
        by (intro failed [of status])
          (auto simp: store_remove_attempt_def Let_def split: if_splits prod.splits)
    next
      case True
      with Finished r have s: "object ?e \<noteq> NULL" "reference_count ?e = 0" "obj = object ?e"
        and c: "caller = None \<or> caller = Some (owner_uuid ?e)"
        and st': "st' = st\<lparr>os_objects := (os_objects st)[unat slot := ?e\<lparr>object := NULL\<rparr>],
             os_slots := slots_free (os_slots st) slot\<rparr>"
        using own by (auto simp: store_remove_attempt_def Let_def split: if_splits prod.splits)
      have tr: "sl.tracked (os_slots st) (\<lambda>n. object (os_objects st ! n) \<noteq> NULL)"
        and cap: "pool_cap (os_slots st) = unat (os_slot_count st)" "pool_ok (os_slots st)"
        using ok by (simp_all add: store_ok_def sl.tracked_def)
      have "store_ok st'"
        using ok l s sl.free_tracked [OF tr, of slot] sl.free_ok [OF cap(2), of slot] cap(1)
          store_ok_owner [OF ok l]
        unfolding st' by (intro store_ok_replace) (simp_all add: fun_upd_def)
      then show ?thesis
        using True Finished s c l by (intro removed [of obj "owner_uuid ?e"])
          (simp_all add: st' same_frame_def store_view_update1, simp add: store_view_def Let_def)
    qed
  qed
qed

section \<open>Removal under interference\<close>

text \<open>
  What the other threads may do between two passes of the loop: anything that keeps the store well
  formed and of the same size. Every operation of this theory is such a transformer.
\<close>

definition benign :: "interference \<Rightarrow> bool" where
  "benign f \<longleftrightarrow> (\<forall>st. store_ok st \<longrightarrow> store_ok (f st) \<and> os_slot_count (f st) = os_slot_count st)"

lemma benign_run:
  "\<forall>f \<in> set fs. benign f \<Longrightarrow> store_ok st \<Longrightarrow>
    store_ok (fold (\<lambda>f. f) fs st) \<and> os_slot_count (fold (\<lambda>f. f) fs st) = os_slot_count st"
  by (induction fs arbitrary: st) (auto simp: benign_def)

declare store_remove_loop.simps [simp del] await_releases.simps [simp del]

definition remove_outcome ::
  "object_store \<Rightarrow> slot_t \<Rightarrow> sa_uuid option \<Rightarrow> sa_status \<Rightarrow> addr \<Rightarrow> object_store \<Rightarrow> bool" where
  "remove_outcome st slot caller status obj st' \<longleftrightarrow>
     (status = SA_STATUS_OK \<and> obj \<noteq> NULL \<and> store_ok st' \<and> same_frame st st' \<and>
       store_view st' = (store_view st)(unat slot := None) \<and>
       (\<exists>owner. store_view st (unat slot) = Some (obj, 0, owner) \<and> (caller = None \<or> caller = Some owner)))
     \<or> (status \<noteq> SA_STATUS_OK \<and> obj = NULL \<and> st' = st)"

lemma store_remove_attempt_outcome:
  assumes "store_ok st" "pred_option uuid_ok caller" "slot < os_slot_count st"
    "store_remove_attempt st slot caller w = (step, st', w')"
  shows "case step of Finished status obj \<Rightarrow> remove_outcome st slot caller status obj st'
    | Waiting \<Rightarrow> st' = st \<and>
        (\<exists>obj rc owner. store_view st (unat slot) = Some (obj, rc, owner) \<and> rc \<noteq> 0)"
  by (rule store_remove_attempt_result [OF assms]) (simp_all add: remove_outcome_def)

lemma store_remove_loop_result:
  assumes "store_remove_loop others st slot caller w = Some (status, obj, st', w')"
    "store_ok st" "pred_option uuid_ok caller" "slot < os_slot_count st" "\<forall>f \<in> set others. benign f"
  shows "\<exists>k \<le> length others. remove_outcome (fold (\<lambda>f. f) (take k others) st) slot caller status obj st'"
  using assms
proof (induction others arbitrary: st w)
  case Nil
  obtain step st2 w2 where r: "store_remove_attempt st slot caller w = (step, st2, w2)"
    using prod_cases3 by blast
  from store_remove_attempt_outcome [OF Nil.prems(2-4) r] Nil.prems(1) r show ?case
    by (auto simp: store_remove_loop.simps [of "[]"] split: remove_step.splits)
next
  case (Cons f fs)
  obtain step st2 w2 where r: "store_remove_attempt st slot caller w = (step, st2, w2)"
    using prod_cases3 by blast
  note o = store_remove_attempt_outcome [OF Cons.prems(2-4) r]
  show ?case
  proof (cases step)
    case (Finished s a)
    with o Cons.prems(1) r have "remove_outcome st slot caller status obj st'"
      by (simp add: store_remove_loop.simps [of "f # fs"])
    then show ?thesis by (intro exI [of _ 0]) simp
  next
    case Waiting
    then have l: "store_remove_loop fs (f st) slot caller w2 = Some (status, obj, st', w')"
      using Cons.prems(1) r o by (simp add: store_remove_loop.simps [of "f # fs"])
    have "store_ok (f st)" "slot < os_slot_count (f st)" "\<forall>g \<in> set fs. benign g"
      using Cons.prems by (auto simp: benign_def)
    from Cons.IH [OF l this(1) Cons.prems(3) this(2,3)] obtain k where "k \<le> length fs" and
      "remove_outcome (fold (\<lambda>f. f) (take k fs) (f st)) slot caller status obj st'" by blast
    then show ?thesis by (intro exI [of _ "Suc k"]) simp
  qed
qed

text \<open>The loop returns as soon as the other threads have brought the count to zero.\<close>

lemma store_remove_loop_returns:
  assumes "k \<le> length others" "\<forall>f \<in> set others. benign f" "store_ok st" "slot < os_slot_count st"
    "pred_option uuid_ok caller"
    "\<And>obj rc owner. store_view (fold (\<lambda>f. f) (take k others) st) (unat slot) = Some (obj, rc, owner) \<Longrightarrow> rc = 0"
  shows "\<exists>r. store_remove_loop others st slot caller w = Some r"
  using assms
proof (induction others arbitrary: st w k)
  case Nil
  obtain step st2 w2 where r: "store_remove_attempt st slot caller w = (step, st2, w2)"
    using prod_cases3 by blast
  from store_remove_attempt_outcome [OF Nil.prems(3,5,4) r] r Nil.prems(6) show ?case
    by (auto simp: store_remove_loop.simps [of "[]"] split: remove_step.splits)
next
  case (Cons f fs)
  obtain step st2 w2 where r: "store_remove_attempt st slot caller w = (step, st2, w2)"
    using prod_cases3 by blast
  note o = store_remove_attempt_outcome [OF Cons.prems(3,5,4) r]
  show ?case
  proof (cases step)
    case Waiting
    with o Cons.prems(6) obtain m where m: "k = Suc m" by (cases k) auto
    have "\<exists>r. store_remove_loop fs (f st) slot caller w2 = Some r"
      using Cons.prems m by (intro Cons.IH [of m]) (auto simp: benign_def)
    with Waiting o r show ?thesis by (auto simp: store_remove_loop.simps [of "f # fs"])
  qed (use r in \<open>simp add: store_remove_loop.simps [of "f # fs"]\<close>)
qed

text \<open>Removal with nobody else running: it returns exactly when the object is not in use.\<close>

lemma object_store_remove_result:
  assumes ok: "store_ok st" and u: "uuid_ok caller"
    and r: "object_store_remove [] (Some st) slot (Some caller) w = Some (status, obj, store', w')"
  obtains (removed) st' where "status = SA_STATUS_OK" "obj \<noteq> NULL" "store' = Some st'" "store_ok st'"
      "os_slot_count st' = os_slot_count st" "os_is_shutting_down st' = os_is_shutting_down st"
      "slot < os_slot_count st" "store_view st (unat slot) = Some (obj, 0, caller)"
      "store_view st' = (store_view st)(unat slot := None)"
  | (kept) st' where "obj = NULL" "store' = Some st'" "store_ok st'" "store_view st' = store_view st"
      "os_slot_count st' = os_slot_count st" "os_is_shutting_down st' = os_is_shutting_down st"
proof (cases "slot \<ge> os_slot_count st")
  case True
  with ok r show ?thesis by (intro kept [of st]) (auto simp: object_store_remove_def store_remove_def)
next
  case False
  obtain counted store1 w1 where inc: "increment_release_count (Some st) w = (counted, store1, w1)"
    using prod_cases3 by blast
  show ?thesis
  proof (cases counted)
    case nc: False
    then have "store1 = Some st"
      using inc by (auto simp: increment_release_count_def Let_def split: if_splits prod.splits)
    with nc False inc ok r show ?thesis
      by (intro kept [of st]) (auto simp: object_store_remove_def store_remove_def)
  next
    case True
    let ?st1 = "st\<lparr>os_release_count := os_release_count st + 1\<rparr>"
    have s1: "store1 = Some ?st1"
      using inc True by (auto simp: increment_release_count_def Let_def split: if_splits prod.splits)
    then obtain st2 w2 where l: "store_remove_loop [] ?st1 slot (Some caller) w1 = Some (status, obj, st2, w2)"
      and d: "decrement_release_count (Some st2) w2 = (store', w')"
      using r inc True False
      by (auto simp: object_store_remove_def store_remove_def split: option.splits prod.splits)
    have "\<exists>k. store' = Some (st2\<lparr>os_release_count := k\<rparr>)"
    proof (cases "store' = Some st2")
      case True
      then show ?thesis by (intro exI [of _ "os_release_count st2"]) simp
    next
      case False
      with d show ?thesis by (auto simp: decrement_release_count_def Let_def split: if_splits prod.splits)
    qed
    then obtain k where st3: "store' = Some (st2\<lparr>os_release_count := k\<rparr>)" by blast
    from store_remove_loop_result [OF l] ok u False
    have "remove_outcome ?st1 slot (Some caller) status obj st2" by simp
    then show ?thesis
      using ok False unfolding remove_outcome_def
      by (elim disjE conjE exE; intro removed [OF _ _ st3] kept [OF _ st3]) (simp_all add: same_frame_def)
  qed
qed

lemma object_store_remove_blocks:
  assumes "store_ok st" "uuid_ok caller" "slot < os_slot_count st" "w_faults w = []"
    "\<not> os_is_shutting_down st" "store_view st (unat slot) = Some (obj, rc, caller)"
  shows "object_store_remove [] (Some st) slot (Some caller) w = None \<longleftrightarrow> rc \<noteq> 0"
proof -
  have l: "unat slot < length (os_objects st)"
    using assms(1,3) by (simp add: store_ok_length word_less_nat_alt)
  show ?thesis
    using assms l store_view_SomeD [OF assms(6)]
    by (auto simp: object_store_remove_def store_remove_def increment_release_count_def Let_def
        store_remove_loop.simps [of "[]"] store_remove_attempt_def split: prod.splits)
qed

lemma object_store_remove_unused:
  assumes "store_ok st" "uuid_ok caller" "slot < os_slot_count st" "w_faults w = []"
    "\<not> os_is_shutting_down st" "store_view st (unat slot) = Some (obj, 0, caller)"
  shows "\<exists>st'. object_store_remove [] (Some st) slot (Some caller) w = Some (SA_STATUS_OK, obj, Some st', w)"
proof -
  have l: "unat slot < length (os_objects st)"
    using assms(1,3) by (simp add: store_ok_length word_less_nat_alt)
  show ?thesis
    using assms l store_view_SomeD [OF assms(6)]
    by (simp add: object_store_remove_def store_remove_def increment_release_count_def Let_def
        decrement_release_count_def store_remove_loop.simps [of "[]"] store_remove_attempt_def)
qed

text \<open>Without failing library calls the owner gets the object.\<close>

lemma object_store_acquire_owner:
  assumes "store_ok st" "uuid_ok c" "w_faults w = []" "store_view st (unat n) = Some (a, r, c)"
    "\<not> os_is_shutting_down st"
  shows "\<exists>st'. object_store_acquire True (Some st) n (Some c) w = (SA_STATUS_OK, a, Some st', w) \<and>
    \<not> os_is_shutting_down st'"
proof -
  have "unat n < unat (os_slot_count st)"
    using assms(1,4) store_view_bound [of st "unat n"] by (simp add: store_ok_length)
  then show ?thesis
    using assms store_view_SomeD [of st "unat n" a r c]
    by (simp add: object_store_acquire_def word_le_nat_alt Let_def)
qed

text \<open>A running store with an unused slot takes an object, when no library call fails.\<close>

lemma object_store_add_room:
  assumes ok: "store_ok st" and w: "w_faults w = []" and live: "\<not> os_is_shutting_down st"
    and room: "m < unat (os_slot_count st)" "store_view st m = None" and a: "a \<noteq> NULL"
  shows "\<exists>n st'. object_store_add True (Some st) a (Some c) w = (SA_STATUS_OK, n, Some st', w)"
proof -
  have tr: "sl.tracked (os_slots st) (\<lambda>n. object (os_objects st ! n) \<noteq> NULL)"
    and m: "m < pool_cap (os_slots st)" "\<not> object (os_objects st ! m) \<noteq> NULL"
    using ok room by (simp_all add: store_ok_def store_ok_length store_view_None)
  obtain n p' where "slots_allocate (os_slots st) = (n, p')" "n \<noteq> SLOT_INVALID"
    using sl.alloc_room [OF tr m] by (metis prod.collapse)
  with w live a show ?thesis by (simp add: object_store_add_def)
qed

text \<open>What the two operations leave of the world: the clock and the cached keys.\<close>

lemma object_store_acquire_env:
  "object_store_acquire g st n c w = (s, a, st', w') \<Longrightarrow>
    w_time w' = w_time w \<and> w_video w' = w_video w \<and> w_root_key w' = w_root_key w"
  by (auto simp: object_store_acquire_def Let_def split: if_splits prod.splits option.splits)

lemma object_store_acquire_quiet:
  "object_store_acquire g st n c w = (s, a, st', w') \<Longrightarrow> w_faults w = [] \<Longrightarrow> w' = w"
  by (auto simp: object_store_acquire_def Let_def split: if_splits prod.splits option.splits)

lemma object_store_release_quiet:
  "object_store_release st n a c w = (s, st', w') \<Longrightarrow> w_faults w = [] \<Longrightarrow> w' = w"
  by (auto simp: object_store_release_def Let_def split: if_splits prod.splits option.splits)

lemma object_store_release_null:
  "object_store_release st n NULL c w = (s, st', w') \<Longrightarrow> st' = st \<and> w' = w"
  by (auto simp: object_store_release_def Let_def split: if_splits prod.splits option.splits)

section \<open>Removal and use\<close>

lemma object_store_remove_loop:
  assumes "slot < os_slot_count st" "w_faults w = []" "\<not> os_is_shutting_down st"
  shows "object_store_remove others (Some st) slot (Some c) w =
    (case store_remove_loop others (st\<lparr>os_release_count := os_release_count st + 1\<rparr>) slot (Some c) w of None \<Rightarrow> None
     | Some (status, obj, st', w') \<Rightarrow> (case decrement_release_count (Some st') w' of (store, w') \<Rightarrow>
         Some (status, obj, store, w')))"
  using assms
  by (auto simp: object_store_remove_def store_remove_def increment_release_count_def Let_def
      intro!: option.case_cong)

text \<open>
  C9: a removal returns as soon as the users of the object have let go of it: if after some of the other
  threads' steps the object's use count is zero (or the object is gone), the call returns by then,
  whatever well-behaved steps the other threads make before.
\<close>

theorem object_store_remove_returns:
  assumes "store_ok st" "uuid_ok c" "slot < os_slot_count st" "w_faults w = []" "\<not> os_is_shutting_down st"
    and "\<forall>f \<in> set others. benign f" "k \<le> length others"
    and "\<forall>obj rc owner. store_view (fold (\<lambda>f. f) (take k others)
        (st\<lparr>os_release_count := os_release_count st + 1\<rparr>)) (unat slot) = Some (obj, rc, owner) \<longrightarrow> rc = 0"
  shows "\<exists>r. object_store_remove others (Some st) slot (Some c) w = Some r"
proof -
  have "\<exists>r. store_remove_loop others (st\<lparr>os_release_count := os_release_count st + 1\<rparr>) slot (Some c) w = Some r"
    using assms by (intro store_remove_loop_returns [of k]) auto
  then show ?thesis
    by (auto simp: object_store_remove_loop [OF assms(3-5)] split: prod.split)
qed

text \<open>
  C10: no object is freed under its users: whatever the other threads do while a removal waits, an object
  it returns for destruction belonged to the caller and had a use count of zero at the step at which it
  was taken out of the store.
\<close>

theorem object_store_remove_frees_unused:
  assumes "store_ok st" "uuid_ok c" "slot < os_slot_count st" "w_faults w = []" "\<not> os_is_shutting_down st"
    and "\<forall>f \<in> set others. benign f"
    and "object_store_remove others (Some st) slot (Some c) w = Some (status, obj, store', w')" "obj \<noteq> NULL"
  shows "\<exists>k \<le> length others. status = SA_STATUS_OK \<and>
    store_view (fold (\<lambda>f. f) (take k others) (st\<lparr>os_release_count := os_release_count st + 1\<rparr>)) (unat slot) =
      Some (obj, 0, c)"
proof -
  let ?st = "st\<lparr>os_release_count := os_release_count st + 1\<rparr>"
  obtain st' w1 where l: "store_remove_loop others ?st slot (Some c) w = Some (status, obj, st', w1)"
    using assms(7) unfolding object_store_remove_loop [OF assms(3-5)] by (auto split: option.splits prod.splits)
  have "\<exists>k \<le> length others. remove_outcome (fold (\<lambda>f. f) (take k others) ?st) slot (Some c) status obj st'"
    by (rule store_remove_loop_result [OF l]) (use assms in auto)
  then show ?thesis using assms(8) by (auto simp: remove_outcome_def)
qed

text \<open>
  C11: only the TA that added an object can use it: an acquisition by any other TA fails, returns no
  pointer and leaves the store unchanged.
\<close>

theorem object_store_acquire_owner_only:
  assumes "store_ok st" "uuid_ok c" "store_view st (unat n) = Some (a, r, owner)" "owner \<noteq> c"
    and "object_store_acquire given (Some st) n (Some c) w = (status, obj, store', w')"
  shows "status \<noteq> SA_STATUS_OK \<and> obj = NULL \<and> store' = Some st"
  by (rule object_store_acquire_result [OF assms(1,2,5)]) (use assms(3,4) in auto)

end
