(* ===== verification/Registry.thy ===== *)
theory Registry
  imports Object_Store
begin

text \<open>
  The contract the typed stores (keys, ciphers, MACs, SVP buffers, clients) rely on: a registry of
  heap objects, each with an owner and a use count. The locale \<open>owned_registry\<close> has adding and
  removing, \<open>counted_registry\<close> extends it with acquiring and releasing. What the typed stores need is
  proved once inside: the registry and the heap stay coherent (every registered address is allocated,
  and registered once), whatever fails. The object store is the interpretation of both.
\<close>

type_synonym entry_map = "nat \<Rightarrow> (addr \<times> u64 \<times> sa_uuid) option"

locale owned_registry =
  fixes ok :: "'st \<Rightarrow> bool"
    and view :: "'st \<Rightarrow> entry_map"
    and add :: "'st \<Rightarrow> addr \<Rightarrow> sa_uuid \<Rightarrow> world \<Rightarrow> sa_status \<times> slot_t \<times> 'st \<times> world"
    and remove :: "'st \<Rightarrow> slot_t \<Rightarrow> sa_uuid \<Rightarrow> world \<Rightarrow> (sa_status \<times> addr \<times> 'st \<times> world) option"
  assumes add_ok: "ok st \<Longrightarrow> uuid_ok c \<Longrightarrow> add st a c w = (s, n, st', w') \<Longrightarrow> ok st'"
    and add_OK: "ok st \<Longrightarrow> uuid_ok c \<Longrightarrow> add st a c w = (SA_STATUS_OK, n, st', w') \<Longrightarrow>
      view st (unat n) = None \<and> view st' = (view st)(unat n \<mapsto> (a, 0, c))"
    and add_error: "ok st \<Longrightarrow> uuid_ok c \<Longrightarrow> add st a c w = (s, n, st', w') \<Longrightarrow> s \<noteq> SA_STATUS_OK \<Longrightarrow>
      n = SLOT_INVALID \<and> view st' = view st"
    and remove_ok: "ok st \<Longrightarrow> uuid_ok c \<Longrightarrow> remove st n c w = Some (s, a, st', w') \<Longrightarrow> ok st'"
    and remove_freed: "ok st \<Longrightarrow> uuid_ok c \<Longrightarrow> remove st n c w = Some (s, a, st', w') \<Longrightarrow> a \<noteq> NULL \<Longrightarrow>
      s = SA_STATUS_OK \<and> view st (unat n) = Some (a, 0, c) \<and> view st' = (view st)(unat n := None)"
    and remove_none: "ok st \<Longrightarrow> uuid_ok c \<Longrightarrow> remove st n c w = Some (s, NULL, st', w') \<Longrightarrow>
      view st' = view st"
begin

definition coherent :: "'st \<Rightarrow> 'a heap \<Rightarrow> bool" where
  "coherent st h \<longleftrightarrow> ok st \<and> heap_ok h \<and>
     (\<forall>n a r u. view st n = Some (a, r, u) \<longrightarrow> (\<exists>v. cells h a = Some v)) \<and>
     (\<forall>n m a r u r' u'. view st n = Some (a, r, u) \<longrightarrow> view st m = Some (a, r', u') \<longrightarrow> n = m)"

lemma coherentD:
  assumes "coherent st h"
  shows "ok st" "heap_ok h" "view st n = Some (a, r, u) \<Longrightarrow> \<exists>v. cells h a = Some v"
  using assms unfolding coherent_def by blast+

lemma coherent_same_addresses:
  assumes "coherent st h" "ok st'"
    and "\<And>n a r u. view st' n = Some (a, r, u) \<Longrightarrow> \<exists>r' u'. view st n = Some (a, r', u')"
  shows "coherent st' h"
  using assms unfolding coherent_def by (metis (no_types, lifting))

lemma coherent_write:
  "coherent st h \<Longrightarrow> cells h a \<noteq> None \<Longrightarrow> coherent st (heap_write h a v)"
  unfolding coherent_def using heap_ok_write [of h a v] by (simp add: heap_write_def)

lemma coherent_add:
  assumes c: "coherent st h" and u: "uuid_ok c" and al: "heap_alloc h v = (a, h1)"
    and r: "add st a c w = (SA_STATUS_OK, n, st', w')"
  shows "coherent st' h1" "cells h1 a = Some v" "view st' = (view st)(unat n \<mapsto> (a, 0, c))"
proof -
  have h: "ok st" "heap_ok h" using c by (simp_all add: coherent_def)
  have a: "a = next_addr h" "h1 = h\<lparr>next_addr := Suc (next_addr h), cells := (cells h)(a \<mapsto> v)\<rparr>"
    using al by (auto simp: heap_alloc_def)
  have fresh: "\<And>n r u. view st n \<noteq> Some (a, r, u)"
    using coherentD(3) [OF c] heap_alloc_fresh [OF h(2)] a(1) by fastforce
  have v: "view st (unat n) = None" "view st' = (view st)(unat n \<mapsto> (a, 0, c))"
    using add_OK [OF h(1) u r] by simp_all
  show "cells h1 a = Some v" "view st' = (view st)(unat n \<mapsto> (a, 0, c))" using a v by simp_all
  have "heap_ok h1" using heap_ok_alloc [OF h(2), of v] al by simp
  moreover have "\<exists>x. cells h1 b = Some x" if "view st' m = Some (b, r, u)" for m b r u
    using that v a coherentD(3) [OF c] by (auto split: if_splits)
  moreover have "m = m'" if "view st' m = Some (b, r, u)" "view st' m' = Some (b, r', u')" for m m' b r u r' u'
    using that v fresh c unfolding coherent_def by (auto split: if_splits)
  ultimately show "coherent st' h1"
    using add_ok [OF h(1) u r] unfolding coherent_def by blast
qed

lemma coherent_add_error:
  assumes c: "coherent st h" and u: "uuid_ok c" and al: "heap_alloc h v = (a, h1)"
    and r: "add st a c w = (s, n, st', w')" and e: "s \<noteq> SA_STATUS_OK"
  shows "coherent st' (heap_free h1 a)" "cells (heap_free h1 a) = cells h" "view st' = view st"
    "n = SLOT_INVALID"
proof -
  have h: "ok st" "heap_ok h" using c by (simp_all add: coherent_def)
  have "cells h a = None" using heap_alloc_fresh [OF h(2)] al by (auto simp: heap_alloc_def)
  then show cells: "cells (heap_free h1 a) = cells h"
    using al by (auto simp: heap_alloc_def heap_free_def fun_eq_iff)
  show v: "view st' = view st" "n = SLOT_INVALID" using add_error [OF h(1) u r e] by simp_all
  have "heap_ok (heap_free h1 a)" using heap_ok_free [OF heap_ok_alloc [OF h(2)], of v a] al by simp
  with c add_ok [OF h(1) u r] show "coherent st' (heap_free h1 a)"
    unfolding coherent_def cells v by blast
qed

lemma coherent_remove:
  assumes c: "coherent st h" and u: "uuid_ok c" and r: "remove st n c w = Some (s, a, st', w')"
  shows "coherent st' (if a = NULL then h else heap_free h a)"
proof (cases "a = NULL")
  case True
  with c r remove_none [OF coherentD(1) [OF c] u, of n w s st' w'] remove_ok [OF coherentD(1) [OF c] u r]
  show ?thesis by (auto simp: coherent_def)
next
  case False
  note v = remove_freed [OF coherentD(1) [OF c] u r False]
  have "\<exists>x. cells (heap_free h a) b = Some x" if "view st' m = Some (b, r, u)" for m b r u
  proof -
    have m: "m \<noteq> unat n" "view st m = Some (b, r, u)" using that v by (auto split: if_splits)
    then have "b \<noteq> a" using v c unfolding coherent_def by blast
    with coherentD(3) [OF c m(2)] show ?thesis by (simp add: heap_free_def)
  qed
  moreover have "m = m'" if "view st' m = Some (b, r, u)" "view st' m' = Some (b, r', u')" for m m' b r u r' u'
    using that v c unfolding coherent_def by (auto split: if_splits)
  ultimately show ?thesis
    using False remove_ok [OF coherentD(1) [OF c] u r] heap_ok_free [OF coherentD(2) [OF c], of a]
    unfolding coherent_def by auto
qed

end

locale counted_registry = owned_registry ok view add remove
  for ok :: "'st \<Rightarrow> bool" and view :: "'st \<Rightarrow> entry_map"
    and add :: "'st \<Rightarrow> addr \<Rightarrow> sa_uuid \<Rightarrow> world \<Rightarrow> sa_status \<times> slot_t \<times> 'st \<times> world"
    and remove :: "'st \<Rightarrow> slot_t \<Rightarrow> sa_uuid \<Rightarrow> world \<Rightarrow> (sa_status \<times> addr \<times> 'st \<times> world) option" +
  fixes acquire :: "'st \<Rightarrow> slot_t \<Rightarrow> sa_uuid \<Rightarrow> world \<Rightarrow> sa_status \<times> addr \<times> 'st \<times> world"
    and release :: "'st \<Rightarrow> slot_t \<Rightarrow> addr \<Rightarrow> sa_uuid \<Rightarrow> world \<Rightarrow> sa_status \<times> 'st \<times> world"
  assumes acquire_OK: "ok st \<Longrightarrow> uuid_ok c \<Longrightarrow> acquire st n c w = (SA_STATUS_OK, a, st', w') \<Longrightarrow>
      ok st' \<and> (\<exists>r. view st (unat n) = Some (a, r, c) \<and> view st' = (view st)(unat n \<mapsto> (a, r + 1, c)))"
    and acquire_error: "ok st \<Longrightarrow> uuid_ok c \<Longrightarrow> acquire st n c w = (s, a, st', w') \<Longrightarrow> s \<noteq> SA_STATUS_OK \<Longrightarrow>
      a = NULL \<and> st' = st"
    and release_OK: "ok st \<Longrightarrow> uuid_ok c \<Longrightarrow> release st n a c w = (SA_STATUS_OK, st', w') \<Longrightarrow>
      ok st' \<and> (\<exists>r. r \<noteq> 0 \<and> view st (unat n) = Some (a, r, c) \<and> view st' = (view st)(unat n \<mapsto> (a, r - 1, c)))"
    and release_error: "ok st \<Longrightarrow> uuid_ok c \<Longrightarrow> release st n a c w = (s, st', w') \<Longrightarrow> s \<noteq> SA_STATUS_OK \<Longrightarrow> st' = st"
    and release_held: "ok st \<Longrightarrow> uuid_ok c \<Longrightarrow> w_faults w = [] \<Longrightarrow> view st (unat n) = Some (a, r, c) \<Longrightarrow> r \<noteq> 0 \<Longrightarrow>
      \<exists>st'. release st n a c w = (SA_STATUS_OK, st', w)"
begin

lemma coherent_acquire:
  assumes c: "coherent st h" and u: "uuid_ok c" and r: "acquire st n c w = (s, a, st', w')"
  shows "coherent st' h"
proof (cases "s = SA_STATUS_OK")
  case True
  with r acquire_OK [OF coherentD(1) [OF c] u] obtain k where
    v: "ok st'" "view st (unat n) = Some (a, k, c)" "view st' = (view st)(unat n \<mapsto> (a, k + 1, c))" by blast
  then show ?thesis by (intro coherent_same_addresses [OF c]) (auto split: if_splits)
next
  case False
  then show ?thesis using acquire_error [OF coherentD(1) [OF c] u r] c by simp
qed

lemma coherent_release:
  assumes c: "coherent st h" and u: "uuid_ok c" and r: "release st n a c w = (s, st', w')"
  shows "coherent st' h"
proof (cases "s = SA_STATUS_OK")
  case True
  with r release_OK [OF coherentD(1) [OF c] u] obtain k where
    v: "ok st'" "view st (unat n) = Some (a, k, c)" "view st' = (view st)(unat n \<mapsto> (a, k - 1, c))" by blast
  then show ?thesis by (intro coherent_same_addresses [OF c]) (auto split: if_splits)
next
  case False
  then show ?thesis using release_error [OF coherentD(1) [OF c] u r] c by simp
qed

lemma acquire_allocated:
  assumes c: "coherent st h" and u: "uuid_ok c" and r: "acquire st n c w = (SA_STATUS_OK, a, st', w')"
  shows "\<exists>v. cells h a = Some v"
  using acquire_OK [OF coherentD(1) [OF c] u r] coherentD(3) [OF c] by blast

lemma acquire_not_owner:
  assumes "ok st" "uuid_ok c" "view st (unat n) = Some (a, r, d)" "d \<noteq> c"
  shows "fst (acquire st n c w) \<noteq> SA_STATUS_OK"
proof
  assume "fst (acquire st n c w) = SA_STATUS_OK"
  then obtain b st' w' where "acquire st n c w = (SA_STATUS_OK, b, st', w')" by (metis prod.collapse)
  from acquire_OK [OF assms(1,2) this] assms(3,4) show False by auto
qed

lemma acquire_release_same:
  assumes "ok st" "uuid_ok c" "acquire st n c w = (SA_STATUS_OK, a, st1, w1)"
    "release st1 n a c w2 = (SA_STATUS_OK, st2, w3)"
  shows "view st2 = view st"
proof -
  obtain r where v: "view st (unat n) = Some (a, r, c)" "view st1 = (view st)(unat n \<mapsto> (a, r + 1, c))"
    and ok1: "ok st1" using acquire_OK [OF assms(1-3)] by blast
  from release_OK [OF ok1 assms(2,4)] v show ?thesis by (auto simp: fun_eq_iff)
qed

end

section \<open>The object store is such a registry\<close>

interpretation reg: counted_registry store_live entries
  "\<lambda>st a c. object_store_add True st a (Some c)" "\<lambda>st n c. object_store_remove [] st n (Some c)"
  "\<lambda>st n c. object_store_acquire True st n (Some c)" "\<lambda>st n a c. object_store_release st n a (Some c)"
proof unfold_locales
  fix p c a w s p' w' and n :: slot_t
  assume "store_live p" and u: "uuid_ok c"
  then obtain st where p [simp]: "p = Some st" and ok: "store_ok st" by (cases p) auto
  note add = object_store_add_result [OF ok u]
  note remove = object_store_remove_result [OF ok u]
  note acquire = object_store_acquire_result [OF ok u]
  note release = object_store_release_result [OF ok u]
  show "store_live p'" if "object_store_add True p a (Some c) w = (s, n, p', w')"
    by (rule add [OF that [unfolded p]]) auto
  show "entries p (unat n) = None \<and> entries p' = (entries p)(unat n \<mapsto> (a, 0, c))"
    if "object_store_add True p a (Some c) w = (SA_STATUS_OK, n, p', w')"
    by (rule add [OF that [unfolded p]]) auto
  show "n = SLOT_INVALID \<and> entries p' = entries p"
    if "object_store_add True p a (Some c) w = (s, n, p', w')" "s \<noteq> SA_STATUS_OK"
    by (rule add [OF that(1) [unfolded p]]) (use that(2) in auto)
  show "store_live p'" if "object_store_remove [] p n (Some c) w = Some (s, a, p', w')"
    by (rule remove [OF that [unfolded p]]) auto
  show "s = SA_STATUS_OK \<and> entries p (unat n) = Some (a, 0, c) \<and> entries p' = (entries p)(unat n := None)"
    if "object_store_remove [] p n (Some c) w = Some (s, a, p', w')" "a \<noteq> NULL"
    by (rule remove [OF that(1) [unfolded p]]) (use that(2) in auto)
  show "entries p' = entries p" if "object_store_remove [] p n (Some c) w = Some (s, NULL, p', w')"
    by (rule remove [OF that [unfolded p]]) auto
  show "store_live p' \<and> (\<exists>r. entries p (unat n) = Some (a, r, c) \<and>
      entries p' = (entries p)(unat n \<mapsto> (a, r + 1, c)))"
    if "object_store_acquire True p n (Some c) w = (SA_STATUS_OK, a, p', w')"
    by (rule acquire [OF that [unfolded p]]) auto
  show "a = NULL \<and> p' = p" if "object_store_acquire True p n (Some c) w = (s, a, p', w')" "s \<noteq> SA_STATUS_OK"
    by (rule acquire [OF that(1) [unfolded p]]) (use that(2) in auto)
  show "store_live p' \<and> (\<exists>r. r \<noteq> 0 \<and> entries p (unat n) = Some (a, r, c) \<and>
      entries p' = (entries p)(unat n \<mapsto> (a, r - 1, c)))"
    if "object_store_release p n a (Some c) w = (SA_STATUS_OK, p', w')"
    by (rule release [OF that [unfolded p]]) auto
  show "p' = p" if "object_store_release p n a (Some c) w = (s, p', w')" "s \<noteq> SA_STATUS_OK"
    by (rule release [OF that(1) [unfolded p]]) (use that(2) in auto)
next
  fix p c a r and n :: slot_t and w :: world
  assume "store_live p" and u: "uuid_ok c" and w: "w_faults w = []"
    and e: "entries p (unat n) = Some (a, r, c)" and r: "r \<noteq> 0"
  then obtain st where p [simp]: "p = Some st" and ok: "store_ok st" by (cases p) auto
  have l: "unat n < unat (os_slot_count st)"
    using e store_view_bound [of st "unat n"] ok by (simp add: store_ok_length)
  show "\<exists>st'. object_store_release p n a (Some c) w = (SA_STATUS_OK, st', w)"
    using l e r u w store_view_SomeD [of st "unat n" a r c]
    by (auto simp: object_store_release_def word_le_nat_alt Let_def)
qed

end
