(* ===== verification/Typed_Store.thy ===== *)
theory Typed_Store
  imports Registry
begin

text \<open>
  What the cipher, MAC and SVP stores have in common: the object store's entries point to heap
  objects of one type, each with its own recursive mutex, and a user takes an object exclusively by
  raising its use count and locking it. The three source files repeat the same functions for their
  own type; they are defined once here, for every record that extends \<open>lockable\<close>, and each store
  theory instantiates them. The type's destructor is an argument: it returns what it frees in turn.
\<close>

record lockable =
  lock_depth :: nat

record 'a typed_store =
  ts_heap :: "'a heap"
  ts_store :: "object_store option"

definition INVALID_HANDLE :: u64 where
  "INVALID_HANDLE = - 1"

lemma invalid_handle_slot [simp]: "INVALID_HANDLE = SLOT_INVALID"
  by (simp add: INVALID_HANDLE_def SLOT_INVALID_def)

section \<open>Operations\<close>

definition object_lock ::
  "'a lockable_scheme heap \<Rightarrow> addr \<Rightarrow> world \<Rightarrow> bool \<times> 'a lockable_scheme heap \<times> world" where
  "object_lock h a w =
     (if a = NULL then (False, h, w)
      else let (locked, w) = draw w in
        if \<not> locked then (False, h, w)
        else (case cells h a of None \<Rightarrow> (False, h, w)
          | Some obj \<Rightarrow> (True, heap_write h a (obj\<lparr>lock_depth := Suc (lock_depth obj)\<rparr>), w)))"

definition object_unlock :: "'a lockable_scheme heap \<Rightarrow> addr \<Rightarrow> 'a lockable_scheme heap" where
  "object_unlock h a = (if a = NULL then h
     else (case cells h a of None \<Rightarrow> h
       | Some obj \<Rightarrow> heap_write h a (obj\<lparr>lock_depth := lock_depth obj - 1\<rparr>)))"

definition acquire_exclusive ::
  "bool \<Rightarrow> 'a lockable_scheme typed_store \<Rightarrow> slot_t \<Rightarrow> sa_uuid option \<Rightarrow> world \<Rightarrow>
   sa_status \<times> addr \<times> 'a lockable_scheme typed_store \<times> world" where
  "acquire_exclusive given ts slot caller_uuid w =
     (if \<not> given then (SA_STATUS_NULL_PARAMETER, NULL, ts, w)
      else if ts_store ts = None then (SA_STATUS_NULL_PARAMETER, NULL, ts, w)
      else if caller_uuid = None then (SA_STATUS_NULL_PARAMETER, NULL, ts, w)
      else let (status, obj, store, w) = object_store_acquire True (ts_store ts) slot caller_uuid w;
               ts = ts\<lparr>ts_store := store\<rparr> in
        if status \<noteq> SA_STATUS_OK then (status, NULL, ts, w)
        else let (locked, h, w) = object_lock (ts_heap ts) obj w; ts = ts\<lparr>ts_heap := h\<rparr> in
          if \<not> locked then (SA_STATUS_INTERNAL_ERROR, obj, ts, w)
          else (SA_STATUS_OK, obj, ts, w))"

definition release_exclusive ::
  "'a lockable_scheme typed_store \<Rightarrow> slot_t \<Rightarrow> addr \<Rightarrow> sa_uuid option \<Rightarrow> world \<Rightarrow>
   sa_status \<times> 'a lockable_scheme typed_store \<times> world" where
  "release_exclusive ts slot obj caller_uuid w =
     (if ts_store ts = None then (SA_STATUS_NULL_PARAMETER, ts, w)
      else if obj = NULL then (SA_STATUS_NULL_PARAMETER, ts, w)
      else if caller_uuid = None then (SA_STATUS_NULL_PARAMETER, ts, w)
      else let ts = ts\<lparr>ts_heap := object_unlock (ts_heap ts) obj\<rparr>;
               (status, store, w) = object_store_release (ts_store ts) slot obj caller_uuid w;
               ts = ts\<lparr>ts_store := store\<rparr> in
        (status, ts, w))"

definition object_free :: "('a \<Rightarrow> 'r list) \<Rightarrow> 'a heap \<Rightarrow> addr \<Rightarrow> 'r list \<times> 'a heap" where
  "object_free contents h a = (if a = NULL then ([], h)
     else (case cells h a of None \<Rightarrow> ([], h) | Some obj \<Rightarrow> (contents obj, heap_free h a)))"

definition typed_remove ::
  "('a \<Rightarrow> 'r list) \<Rightarrow> interference list \<Rightarrow> 'a typed_store \<Rightarrow> slot_t \<Rightarrow> sa_uuid option \<Rightarrow> world \<Rightarrow>
   (sa_status \<times> 'r list \<times> 'a typed_store \<times> world) option" where
  "typed_remove contents others ts slot caller_uuid w =
     (if ts_store ts = None then Some (SA_STATUS_NULL_PARAMETER, [], ts, w)
      else if caller_uuid = None then Some (SA_STATUS_NULL_PARAMETER, [], ts, w)
      else (case object_store_remove others (ts_store ts) slot caller_uuid w of
          None \<Rightarrow> None
        | Some (status, freed, store, w) \<Rightarrow>
            let (released, h) = object_free contents (ts_heap ts) freed in
            Some (status, released, ts\<lparr>ts_heap := h, ts_store := store\<rparr>, w)))"

text \<open>
  The end of every function that adds an object: the store takes it over or, when
  \<open>object_store_add\<close> fails, it is destroyed.
\<close>

definition typed_add ::
  "'a typed_store \<Rightarrow> 'a \<Rightarrow> sa_uuid \<Rightarrow> world \<Rightarrow> sa_status \<times> slot_t \<times> 'a typed_store \<times> world" where
  "typed_add ts obj caller_uuid w =
     (let (a, h) = heap_alloc (ts_heap ts) obj;
          (status, slot, store, w) = object_store_add True (ts_store ts) a (Some caller_uuid) w in
      (status, slot,
       ts\<lparr>ts_heap := if status = SA_STATUS_OK then h else heap_free h a, ts_store := store\<rparr>, w))"

definition typed_init :: "'a heap \<Rightarrow> u64 \<Rightarrow> world \<Rightarrow> 'a typed_store option \<times> world" where
  "typed_init h size' w = (case object_store_init True size' w of
      (None, w) \<Rightarrow> (None, w)
    | (Some store, w) \<Rightarrow> (Some \<lparr>ts_heap = h, ts_store = Some store\<rparr>, w))"

fun free_all :: "('a \<Rightarrow> 'r list) \<Rightarrow> 'a heap \<Rightarrow> addr list \<Rightarrow> 'r list \<times> 'a heap" where
  "free_all contents h [] = ([], h)"
| "free_all contents h (a # as) =
     (let (rs, h) = object_free contents h a; (rs', h) = free_all contents h as in (rs @ rs', h))"

text \<open>Shutdown frees the objects and the store itself; \<open>None\<close> is a shutdown that still waits.\<close>

definition typed_shutdown ::
  "('a \<Rightarrow> 'r list) \<Rightarrow> 'a typed_store \<Rightarrow> world \<Rightarrow> ('r list \<times> 'a typed_store \<times> world) option" where
  "typed_shutdown contents ts w =
     (if ts_store ts = None then Some ([], ts, w)
      else (case object_store_shutdown [] (\<lambda>_. []) (ts_store ts) w of
          None \<Rightarrow> None
        | Some (freed, leaked, w) \<Rightarrow>
            let (released, h) = free_all contents (ts_heap ts) freed in
            Some (released, ts\<lparr>ts_heap := h, ts_store := None\<rparr>, w)))"

section \<open>Coherence is kept\<close>

definition ts_ok :: "'a typed_store \<Rightarrow> bool" where
  "ts_ok ts \<longleftrightarrow> reg.coherent (ts_store ts) (ts_heap ts)"

abbreviation ts_entries :: "'a typed_store \<Rightarrow> entry_map" where
  "ts_entries ts \<equiv> entries (ts_store ts)"

definition ts_running :: "'a typed_store \<Rightarrow> bool" where
  "ts_running ts \<longleftrightarrow> (\<exists>st. ts_store ts = Some st \<and> \<not> os_is_shutting_down st)"

lemma ts_okD: "ts_ok ts \<Longrightarrow> store_live (ts_store ts)" "ts_ok ts \<Longrightarrow> heap_ok (ts_heap ts)"
  "ts_ok ts \<Longrightarrow> ts_entries ts n = Some (a, r, u) \<Longrightarrow> \<exists>v. cells (ts_heap ts) a = Some v"
  by (auto simp: ts_ok_def dest: reg.coherentD)

lemma ts_ok_Some: "ts_ok ts \<Longrightarrow> \<exists>st. ts_store ts = Some st \<and> store_ok st"
  using ts_okD(1) [of ts] by (cases "ts_store ts") auto

lemma object_lock_coherent:
  "reg.coherent st h \<Longrightarrow> object_lock h a w = (b, h', w') \<Longrightarrow> reg.coherent st h'"
  by (auto simp: object_lock_def Let_def intro: reg.coherent_write split: if_splits prod.splits option.splits)

lemma object_unlock_coherent: "reg.coherent st h \<Longrightarrow> reg.coherent st (object_unlock h a)"
  by (auto simp: object_unlock_def intro: reg.coherent_write split: option.splits)

lemma acquire_exclusive_ok [sa_inv]:
  assumes "ts_ok ts" "uuid_ok c" "acquire_exclusive g ts n (Some c) w = (s, a, ts', w')"
  shows "ts_ok ts'"
proof -
  obtain s1 a1 st1 w1 where r: "object_store_acquire True (ts_store ts) n (Some c) w = (s1, a1, st1, w1)"
    using prod_cases4 by blast
  have "reg.coherent st1 (ts_heap ts)"
    using assms(1,2) r unfolding ts_ok_def by (rule reg.coherent_acquire)
  with assms(1,3) r show ?thesis
    by (auto simp: acquire_exclusive_def ts_ok_def Let_def intro: object_lock_coherent
        split: if_splits prod.splits)
qed

lemma release_exclusive_ok [sa_inv]:
  assumes "ts_ok ts" "uuid_ok c" "release_exclusive ts n a (Some c) w = (s, ts', w')"
  shows "ts_ok ts'"
proof -
  obtain s1 st1 w1 where r: "object_store_release (ts_store ts) n a (Some c) w = (s1, st1, w1)"
    using prod_cases3 by blast
  have "reg.coherent st1 (object_unlock (ts_heap ts) a)"
    using object_unlock_coherent [OF assms(1) [unfolded ts_ok_def]] assms(2) r by (rule reg.coherent_release)
  with assms(1,3) r show ?thesis
    by (auto simp: release_exclusive_def ts_ok_def Let_def split: if_splits)
qed

lemma object_free_heap:
  "a = NULL \<Longrightarrow> object_free f h a = ([], h)"
  "a \<noteq> NULL \<Longrightarrow> cells h a = Some v \<Longrightarrow> object_free f h a = (f v, heap_free h a)"
  by (simp_all add: object_free_def)

lemma typed_remove_result:
  assumes ok: "ts_ok ts" and u: "uuid_ok c" and r: "typed_remove f [] ts n (Some c) w = Some (s, freed, ts', w')"
  obtains (removed) a v where "s = SA_STATUS_OK" "ts_entries ts (unat n) = Some (a, 0, c)"
      "cells (ts_heap ts) a = Some v" "freed = f v" "ts_heap ts' = heap_free (ts_heap ts) a"
      "ts_entries ts' = (ts_entries ts)(unat n := None)" "ts_ok ts'"
  | (kept) "freed = []" "ts_heap ts' = ts_heap ts" "ts_entries ts' = ts_entries ts" "ts_ok ts'"
proof -
  obtain a st1 w1 where rm: "object_store_remove [] (ts_store ts) n (Some c) w = Some (s, a, st1, w1)"
    and ts': "ts' = ts\<lparr>ts_heap := snd (object_free f (ts_heap ts) a), ts_store := st1\<rparr>"
      "freed = fst (object_free f (ts_heap ts) a)"
    using r ts_ok_Some [OF ok] by (auto simp: typed_remove_def Let_def split: option.splits prod.splits if_splits)
  note coh = reg.coherent_remove [OF ok [unfolded ts_ok_def] u rm]
  show ?thesis
  proof (cases "a = NULL")
    case True
    with rm reg.remove_none [OF ts_okD(1) [OF ok] u] have "entries st1 = ts_entries ts" by blast
    with True coh ts' show ?thesis by (intro kept) (simp_all add: object_free_heap ts_ok_def)
  next
    case False
    note v = reg.remove_freed [OF ts_okD(1) [OF ok] u rm False]
    then obtain obj where "cells (ts_heap ts) a = Some obj" using ts_okD(3) [OF ok] by blast
    with False v coh ts' show ?thesis
      by (intro removed [of a obj]) (simp_all add: object_free_heap ts_ok_def)
  qed
qed

lemma typed_remove_ok [sa_inv]:
  assumes "ts_ok ts" "uuid_ok c" "typed_remove f [] ts n (Some c) w = Some (s, freed, ts', w')"
  shows "ts_ok ts'"
  by (rule typed_remove_result [OF assms]) simp_all

lemma typed_add_result:
  assumes ok: "ts_ok ts" and u: "uuid_ok c" and r: "typed_add ts v c w = (s, n, ts', w')"
  obtains (added) a where "s = SA_STATUS_OK" "ts_ok ts'" "ts_entries ts (unat n) = None"
      "ts_entries ts' = (ts_entries ts)(unat n \<mapsto> (a, 0, c))" "cells (ts_heap ts') a = Some v"
      "\<And>b. b \<noteq> a \<Longrightarrow> cells (ts_heap ts') b = cells (ts_heap ts) b"
  | (rejected) "s \<noteq> SA_STATUS_OK" "n = INVALID_HANDLE" "ts_ok ts'" "ts_entries ts' = ts_entries ts"
      "cells (ts_heap ts') = cells (ts_heap ts)"
proof -
  obtain a h where al: "heap_alloc (ts_heap ts) v = (a, h)" by fastforce
  obtain st where add: "object_store_add True (ts_store ts) a (Some c) w = (s, n, st, w')"
    and ts': "ts' = ts\<lparr>ts_heap := if s = SA_STATUS_OK then h else heap_free h a, ts_store := st\<rparr>"
    using r al by (auto simp: typed_add_def split: prod.splits)
  note coh = ok [unfolded ts_ok_def]
  show ?thesis
  proof (cases "s = SA_STATUS_OK")
    case True
    note res = reg.coherent_add [OF coh u al add [unfolded True]]
    have "ts_entries ts (unat n) = None"
      using reg.add_OK [OF ts_okD(1) [OF ok] u add [unfolded True]] by simp
    moreover have "cells h b = cells (ts_heap ts) b" if "b \<noteq> a" for b
      using al that by (auto simp: heap_alloc_def)
    ultimately show ?thesis using True ts' res by (intro added [of a]) (simp_all add: ts_ok_def)
  next
    case False
    note res = reg.coherent_add_error [OF coh u al add False]
    show ?thesis using False ts' res by (intro rejected) (simp_all add: ts_ok_def)
  qed
qed

lemma typed_add_ok [sa_inv]:
  "ts_ok ts \<Longrightarrow> uuid_ok c \<Longrightarrow> typed_add ts v c w = (s, n, ts', w') \<Longrightarrow> ts_ok ts'"
  by (erule typed_add_result) simp_all

lemma typed_add_quiet:
  assumes "typed_add ts v c w = (s, n, ts', w')" "w_faults w = []"
  shows "w' = w" "ts_running ts \<Longrightarrow> ts_running ts'"
  using assms by (auto simp: typed_add_def object_store_add_def ts_running_def Let_def
      split: prod.splits option.splits if_splits)

text \<open>A running store with an unused slot takes the object.\<close>

definition ts_room :: "'a typed_store \<Rightarrow> bool" where
  "ts_room ts \<longleftrightarrow> ts_running ts \<and> (\<exists>m < unat (object_store_size (ts_store ts)). ts_entries ts m = None)"

lemma typed_add_room:
  assumes "ts_ok ts" "ts_room ts" "w_faults w = []"
  shows "\<exists>n ts'. typed_add ts v c w = (SA_STATUS_OK, n, ts', w)"
proof -
  obtain st where st: "ts_store ts = Some st" "store_ok st" using ts_ok_Some [OF assms(1)] by blast
  have a: "fst (heap_alloc (ts_heap ts) v) \<noteq> NULL"
    using ts_okD(2) [OF assms(1)] by (simp add: heap_alloc_def heap_ok_def)
  obtain m where "m < unat (os_slot_count st)" "store_view st m = None" "\<not> os_is_shutting_down st"
    using assms(2) st(1) by (auto simp: ts_room_def ts_running_def object_store_size_def)
  from object_store_add_room [OF st(2) assms(3) this(3,1,2) a, of c] st(1) show ?thesis
    by (auto simp: typed_add_def split: prod.split)
qed

text \<open>A new object can be removed at once: the call returns and destroys the object.\<close>

lemma typed_remove_unused:
  assumes ok: "ts_ok ts" and u: "uuid_ok c" and w: "w_faults w = []"
    and e: "ts_entries ts (unat n) = Some (a, 0, c)"
    and live: "ts_running ts"
    and v: "cells (ts_heap ts) a = Some v"
  obtains ts' where "typed_remove f [] ts n (Some c) w = Some (SA_STATUS_OK, f v, ts', w)"
    "ts_entries ts' = (ts_entries ts)(unat n := None)" "ts_ok ts'" "cells (ts_heap ts') a = None"
proof -
  obtain st where st: "ts_store ts = Some st" "store_ok st" using ts_ok_Some [OF ok] by blast
  have live': "\<not> os_is_shutting_down st" using live st(1) by (simp add: ts_running_def)
  have l: "n < os_slot_count st"
    using e st store_view_bound [of st "unat n"] by (simp add: store_ok_length word_less_nat_alt)
  obtain st' where rm: "object_store_remove [] (ts_store ts) n (Some c) w = Some (SA_STATUS_OK, a, st', w)"
    using object_store_remove_unused [OF st(2) u l w live', of a] e st by auto
  have a: "a \<noteq> NULL" using e st store_view_SomeD by auto
  have "typed_remove f [] ts n (Some c) w = Some (SA_STATUS_OK, f v,
      ts\<lparr>ts_heap := heap_free (ts_heap ts) a, ts_store := st'\<rparr>, w)"
    using rm st a v by (simp add: typed_remove_def object_free_heap)
  moreover have "entries st' = (ts_entries ts)(unat n := None)"
    using reg.remove_freed [OF ts_okD(1) [OF ok] u rm a] by simp
  ultimately show ?thesis
    using reg.coherent_remove [OF ok [unfolded ts_ok_def] u rm] a
    by (intro that) (auto simp: ts_ok_def heap_free_def)
qed

section \<open>Exclusive use\<close>

text \<open>Without failing library calls, the owner gets the object, locked once more.\<close>

lemma acquire_exclusive_owner:
  assumes ok: "ts_ok ts" and u: "uuid_ok c" and w: "w_faults w = []"
    and e: "ts_entries ts (unat n) = Some (a, r, c)"
    and live: "ts_running ts"
  obtains obj ts' where "cells (ts_heap ts) a = Some obj"
    "acquire_exclusive True ts n (Some c) w = (SA_STATUS_OK, a, ts', w)"
    "ts_heap ts' = heap_write (ts_heap ts) a (obj\<lparr>lock_depth := Suc (lock_depth obj)\<rparr>)"
    "ts_entries ts' = (ts_entries ts)(unat n \<mapsto> (a, r + 1, c))" "ts_ok ts'" "ts_running ts'"
proof -
  obtain st where st: "ts_store ts = Some st" "store_ok st" using ts_ok_Some [OF ok] by blast
  have live': "\<not> os_is_shutting_down st" using live st(1) by (simp add: ts_running_def)
  obtain obj where obj: "cells (ts_heap ts) a = Some obj" using ts_okD(3) [OF ok e] by blast
  obtain st' where acq: "object_store_acquire True (Some st) n (Some c) w = (SA_STATUS_OK, a, Some st', w)"
    and run: "\<not> os_is_shutting_down st'"
    using object_store_acquire_owner [OF st(2) u w _ live', of n a r] e st by auto
  have a: "a \<noteq> NULL" using e st store_view_SomeD by auto
  let ?ts = "ts\<lparr>ts_store := Some st',
    ts_heap := heap_write (ts_heap ts) a (obj\<lparr>lock_depth := Suc (lock_depth obj)\<rparr>)\<rparr>"
  have r: "acquire_exclusive True ts n (Some c) w = (SA_STATUS_OK, a, ?ts, w)"
    using st obj acq a w by (simp add: acquire_exclusive_def object_lock_def Let_def)
  have "entries (Some st') = (ts_entries ts)(unat n \<mapsto> (a, r + 1, c))"
    using reg.acquire_OK [of "Some st" c n w a "Some st'" w] acq st u e by auto
  then show ?thesis
    using that [OF obj r] acquire_exclusive_ok [OF ok u r] run by (simp add: ts_running_def)
qed

text \<open>A holder of the object can give it back: the call succeeds and the use count goes down.\<close>

lemma release_exclusive_holder:
  assumes ok: "ts_ok ts" and u: "uuid_ok c" and w: "w_faults w = []"
    and e: "ts_entries ts (unat n) = Some (a, r, c)" and held: "r \<noteq> 0"
  obtains ts' where "release_exclusive ts n a (Some c) w = (SA_STATUS_OK, ts', w)"
    "ts_heap ts' = object_unlock (ts_heap ts) a"
    "ts_entries ts' = (ts_entries ts)(unat n \<mapsto> (a, r - 1, c))" "ts_ok ts'"
    "ts_running ts \<Longrightarrow> ts_running ts'"
proof -
  obtain st where st: "ts_store ts = Some st" "store_ok st" using ts_ok_Some [OF ok] by blast
  obtain st' where rel: "object_store_release (ts_store ts) n a (Some c) w = (SA_STATUS_OK, st', w)"
    using reg.release_held [OF ts_okD(1) [OF ok] u w e held] by blast
  have a: "a \<noteq> NULL" using e st store_view_SomeD by auto
  let ?ts = "ts\<lparr>ts_heap := object_unlock (ts_heap ts) a, ts_store := st'\<rparr>"
  have r: "release_exclusive ts n a (Some c) w = (SA_STATUS_OK, ?ts, w)"
    using rel a st by (simp add: release_exclusive_def)
  have "ts_running ?ts" if "ts_running ts"
    using that rel st by (auto simp: ts_running_def object_store_release_def Let_def
        split: if_splits prod.splits)
  moreover have "entries st' = (ts_entries ts)(unat n \<mapsto> (a, r - 1, c))"
    using reg.release_OK [OF ts_okD(1) [OF ok] u rel] e by auto
  ultimately show ?thesis
    using that [OF r] release_exclusive_ok [OF ok u r] by simp
qed

text \<open>An object in use is not removed: the call is still waiting.\<close>

lemma typed_remove_in_use:
  assumes ok: "ts_ok ts" and u: "uuid_ok c" and w: "w_faults w = []"
    and e: "ts_entries ts (unat n) = Some (a, r, c)" and r: "r \<noteq> 0"
    and live: "ts_running ts"
  shows "typed_remove f [] ts n (Some c) w = None"
proof -
  obtain st where st: "ts_store ts = Some st" "store_ok st" using ts_ok_Some [OF ok] by blast
  have live': "\<not> os_is_shutting_down st" using live st(1) by (simp add: ts_running_def)
  have l: "n < os_slot_count st"
    using e st store_view_bound [of st "unat n"] by (simp add: store_ok_length word_less_nat_alt)
  have "object_store_remove [] (Some st) n (Some c) w = None"
    using object_store_remove_blocks [OF st(2) u l w live', of a r] e st r by simp
  with st show ?thesis by (simp add: typed_remove_def)
qed

end
