(* ===== verification/Cipher_Store.thy ===== *)
theory Cipher_Store
  imports Typed_Store Stored_Key
begin

text \<open>
  Cipher contexts, \<^verbatim>\<open>reference/src/taimpl/src/internal/cipher_store.c\<close>. A cipher owns a context of the
  crypto library (an address here, for symmetric ciphers), the key it was made from, and the OAEP
  label. As in the MAC store, the operations return what they free, to state who owns what.
\<close>

record cipher = lockable +
  cipher_algorithm :: sa_cipher_algorithm
  cipher_mode :: sa_cipher_mode
  symmetric_context :: addr
  cipher_stored_key :: "stored_key option"
  oaep_digest_algorithm :: sa_digest_algorithm
  oaep_mgf1_digest_algorithm :: sa_digest_algorithm
  oaep_label :: "u8 list option"
  oaep_label_length :: u64

datatype cipher_resource = Symmetric_Context addr | Cipher_Key stored_key | Oaep_Label "u8 list"

section \<open>Accessors\<close>

definition cipher_get_algorithm :: "cipher option \<Rightarrow> sa_cipher_algorithm option" where
  "cipher_get_algorithm cipher = (case cipher of None \<Rightarrow> None | Some c \<Rightarrow> Some (cipher_algorithm c))"

definition cipher_get_mode :: "cipher option \<Rightarrow> sa_cipher_mode option" where
  "cipher_get_mode cipher = (case cipher of None \<Rightarrow> None | Some c \<Rightarrow> Some (cipher_mode c))"

definition cipher_get_symmetric_context :: "cipher option \<Rightarrow> addr" where
  "cipher_get_symmetric_context cipher = (case cipher of None \<Rightarrow> NULL | Some c \<Rightarrow> symmetric_context c)"

definition cipher_get_stored_key :: "cipher option \<Rightarrow> stored_key option" where
  "cipher_get_stored_key cipher = (case cipher of None \<Rightarrow> None | Some c \<Rightarrow> cipher_stored_key c)"

definition cipher_get_key_size :: "cipher option \<Rightarrow> u64" where
  "cipher_get_key_size cipher = (case cipher of None \<Rightarrow> 0
     | Some c \<Rightarrow> (case stored_key_get_header (cipher_stored_key c) of None \<Rightarrow> 0
       | Some header \<Rightarrow> ucast (hdr_size header)))"

definition cipher_get_key_rights :: "cipher option \<Rightarrow> sa_rights option" where
  "cipher_get_key_rights cipher = (case cipher of None \<Rightarrow> None
     | Some c \<Rightarrow> (case stored_key_get_header (cipher_stored_key c) of None \<Rightarrow> None
       | Some header \<Rightarrow> Some (hdr_rights header)))"

text \<open>
  The label's bytes are copied; the pointer of an earlier label is overwritten, and returned here
  when that leaves its memory unreachable.
\<close>

definition cipher_set_oaep_parameters ::
  "cipher option \<Rightarrow> sa_digest_algorithm \<Rightarrow> sa_digest_algorithm \<Rightarrow> u8 list option \<Rightarrow> u64 \<Rightarrow> world \<Rightarrow>
   sa_status \<times> cipher option \<times> world" where
  "cipher_set_oaep_parameters cipher digest_algorithm mgf1_digest_algorithm label label_length w =
     (case cipher of None \<Rightarrow> (SA_STATUS_NULL_PARAMETER, None, w)
      | Some c \<Rightarrow>
          let c = c\<lparr>oaep_digest_algorithm := digest_algorithm,
                oaep_mgf1_digest_algorithm := mgf1_digest_algorithm\<rparr> in
          (case label of
            Some bytes \<Rightarrow> let (label_ok, w) = draw w in
              if \<not> label_ok then (SA_STATUS_INTERNAL_ERROR, Some (c\<lparr>oaep_label := None\<rparr>), w)
              else (SA_STATUS_OK, Some (c\<lparr>oaep_label := Some (take (unat label_length) bytes),
                oaep_label_length := label_length\<rparr>), w)
          | None \<Rightarrow> (SA_STATUS_OK,
              Some (c\<lparr>oaep_label := None, oaep_label_length := label_length\<rparr>), w)))"

type_synonym oaep_parameters =
  "sa_digest_algorithm \<times> sa_digest_algorithm \<times> u8 list option \<times> u64"

definition cipher_get_oaep_parameters ::
  "cipher option \<Rightarrow> bool \<Rightarrow> bool \<Rightarrow> bool \<Rightarrow> bool \<Rightarrow> sa_status \<times> oaep_parameters option" where
  "cipher_get_oaep_parameters cipher digest_given mgf1_given label_given length_given =
     (case cipher of None \<Rightarrow> (SA_STATUS_NULL_PARAMETER, None)
      | Some c \<Rightarrow>
          if \<not> digest_given then (SA_STATUS_NULL_PARAMETER, None)
          else if \<not> mgf1_given then (SA_STATUS_NULL_PARAMETER, None)
          else if \<not> label_given then (SA_STATUS_NULL_PARAMETER, None)
          else if \<not> length_given then (SA_STATUS_NULL_PARAMETER, None)
          else (SA_STATUS_OK, Some (oaep_digest_algorithm c, oaep_mgf1_digest_algorithm c,
            oaep_label c, oaep_label_length c)))"

section \<open>Life cycle\<close>

text \<open>\<open>cipher_alloc\<close>: the zeroed structure (algorithm, mode and digests are the enumerations' 0).\<close>

definition cipher_alloc :: "world \<Rightarrow> cipher option \<times> world" where
  "cipher_alloc w =
     (let (memory_ok, w) = draw w in
      if \<not> memory_ok then (None, w)
      else let (mutex_ok, w) = draw w in
        if \<not> mutex_ok then (None, w)
        else (Some \<lparr>lock_depth = 0, cipher_algorithm = SA_CIPHER_ALGORITHM_AES_ECB,
          cipher_mode = SA_CIPHER_MODE_DECRYPT, symmetric_context = NULL, cipher_stored_key = None,
          oaep_digest_algorithm = SA_DIGEST_ALGORITHM_SHA1,
          oaep_mgf1_digest_algorithm = SA_DIGEST_ALGORITHM_SHA1,
          oaep_label = None, oaep_label_length = 0\<rparr>, w))"

definition cipher_free :: "cipher \<Rightarrow> cipher_resource list" where
  "cipher_free c =
     (if symmetric_context c \<noteq> NULL then [Symmetric_Context (symmetric_context c)] else []) @
     (case cipher_stored_key c of None \<Rightarrow> [] | Some k \<Rightarrow> [Cipher_Key k]) @
     (case oaep_label c of None \<Rightarrow> [] | Some l \<Rightarrow> [Oaep_Label l])"

definition cipher_store_init :: "cipher heap \<Rightarrow> u64 \<Rightarrow> world \<Rightarrow> cipher typed_store option \<times> world" where
  "cipher_store_init h size' w = typed_init h size' w"

definition cipher_store_shutdown ::
  "cipher typed_store \<Rightarrow> world \<Rightarrow> (cipher_resource list \<times> cipher typed_store \<times> world) option" where
  "cipher_store_shutdown store w = typed_shutdown cipher_free store w"

definition cipher_store_add_symmetric_context ::
  "bool \<Rightarrow> cipher typed_store \<Rightarrow> sa_cipher_algorithm \<Rightarrow> sa_cipher_mode \<Rightarrow> addr \<Rightarrow> stored_key option \<Rightarrow>
   sa_uuid option \<Rightarrow> world \<Rightarrow> sa_status \<times> u64 \<times> cipher_resource list \<times> cipher typed_store \<times> world" where
  "cipher_store_add_symmetric_context context_given store algorithm mode symmetric_ctx key caller_uuid w =
     (if \<not> context_given then (SA_STATUS_NULL_PARAMETER, INVALID_HANDLE, [], store, w)
      else if ts_store store = None then (SA_STATUS_NULL_PARAMETER, INVALID_HANDLE, [], store, w)
      else if symmetric_ctx = NULL then (SA_STATUS_NULL_PARAMETER, INVALID_HANDLE, [], store, w)
      else (case caller_uuid of
          None \<Rightarrow> (SA_STATUS_NULL_PARAMETER, INVALID_HANDLE, [], store, w)
        | Some caller \<Rightarrow>
          if algorithm \<noteq> SA_CIPHER_ALGORITHM_AES_ECB \<and> algorithm \<noteq> SA_CIPHER_ALGORITHM_AES_ECB_PKCS7 \<and>
            algorithm \<noteq> SA_CIPHER_ALGORITHM_AES_CBC \<and> algorithm \<noteq> SA_CIPHER_ALGORITHM_AES_CBC_PKCS7 \<and>
            algorithm \<noteq> SA_CIPHER_ALGORITHM_AES_CTR \<and> algorithm \<noteq> SA_CIPHER_ALGORITHM_AES_GCM \<and>
            algorithm \<noteq> SA_CIPHER_ALGORITHM_CHACHA20 \<and>
            algorithm \<noteq> SA_CIPHER_ALGORITHM_CHACHA20_POLY1305
          then (SA_STATUS_INTERNAL_ERROR, INVALID_HANDLE, [], store, w)
          else if mode \<noteq> SA_CIPHER_MODE_ENCRYPT \<and> mode \<noteq> SA_CIPHER_MODE_DECRYPT
          then (SA_STATUS_INVALID_PARAMETER, INVALID_HANDLE, [], store, w)
          else (case cipher_alloc w of
            (None, w) \<Rightarrow> (SA_STATUS_INTERNAL_ERROR, INVALID_HANDLE, [], store, w)
          | (Some c, w) \<Rightarrow>
              let c = c\<lparr>cipher_algorithm := algorithm, cipher_mode := mode,
                    symmetric_context := symmetric_ctx, cipher_stored_key := key\<rparr> in
              if cipher_stored_key c = None
              then (SA_STATUS_INTERNAL_ERROR, INVALID_HANDLE, cipher_free c, store, w)
              else let (status, slot, store, w) = typed_add store c caller w in
                if status \<noteq> SA_STATUS_OK
                then let c = c\<lparr>symmetric_context := NULL, cipher_stored_key := None\<rparr> in
                  (status, slot, cipher_free c, store, w)
                else (status, slot, [], store, w))))"

definition cipher_store_add_asymmetric_key ::
  "bool \<Rightarrow> cipher typed_store \<Rightarrow> sa_cipher_algorithm \<Rightarrow> sa_cipher_mode \<Rightarrow> stored_key option \<Rightarrow>
   sa_uuid option \<Rightarrow> world \<Rightarrow> sa_status \<times> u64 \<times> cipher_resource list \<times> cipher typed_store \<times> world" where
  "cipher_store_add_asymmetric_key context_given store algorithm mode key caller_uuid w =
     (if \<not> context_given then (SA_STATUS_NULL_PARAMETER, INVALID_HANDLE, [], store, w)
      else if ts_store store = None then (SA_STATUS_NULL_PARAMETER, INVALID_HANDLE, [], store, w)
      else if key = None then (SA_STATUS_NULL_PARAMETER, INVALID_HANDLE, [], store, w)
      else if algorithm \<noteq> SA_CIPHER_ALGORITHM_RSA_OAEP \<and> algorithm \<noteq> SA_CIPHER_ALGORITHM_RSA_PKCS1V15 \<and>
        algorithm \<noteq> SA_CIPHER_ALGORITHM_EC_ELGAMAL
      then (SA_STATUS_INTERNAL_ERROR, INVALID_HANDLE, [], store, w)
      else if mode \<noteq> SA_CIPHER_MODE_DECRYPT
      then (SA_STATUS_INVALID_PARAMETER, INVALID_HANDLE, [], store, w)
      else (case caller_uuid of
          None \<Rightarrow> (SA_STATUS_NULL_PARAMETER, INVALID_HANDLE, [], store, w)
        | Some caller \<Rightarrow> (case cipher_alloc w of
            (None, w) \<Rightarrow> (SA_STATUS_INTERNAL_ERROR, INVALID_HANDLE, [], store, w)
          | (Some c, w) \<Rightarrow>
              let c = c\<lparr>cipher_algorithm := algorithm, cipher_mode := mode, cipher_stored_key := key\<rparr> in
              if cipher_stored_key c = None
              then (SA_STATUS_INTERNAL_ERROR, INVALID_HANDLE, cipher_free c, store, w)
              else let (status, slot, store, w) = typed_add store c caller w in
                if status \<noteq> SA_STATUS_OK
                then let c = c\<lparr>cipher_stored_key := None\<rparr> in (status, slot, cipher_free c, store, w)
                else (status, slot, [], store, w))))"

definition cipher_store_remove ::
  "interference list \<Rightarrow> cipher typed_store \<Rightarrow> u64 \<Rightarrow> sa_uuid option \<Rightarrow> world \<Rightarrow>
   (sa_status \<times> cipher_resource list \<times> cipher typed_store \<times> world) option" where
  "cipher_store_remove others store ctx caller_uuid w = typed_remove cipher_free others store ctx caller_uuid w"

definition cipher_store_acquire_exclusive ::
  "bool \<Rightarrow> cipher typed_store \<Rightarrow> u64 \<Rightarrow> sa_uuid option \<Rightarrow> world \<Rightarrow>
   sa_status \<times> addr \<times> cipher typed_store \<times> world" where
  "cipher_store_acquire_exclusive cipher_given store ctx caller_uuid w =
     acquire_exclusive cipher_given store ctx caller_uuid w"

definition cipher_store_release_exclusive ::
  "cipher typed_store \<Rightarrow> u64 \<Rightarrow> addr \<Rightarrow> sa_uuid option \<Rightarrow> world \<Rightarrow> sa_status \<times> cipher typed_store \<times> world" where
  "cipher_store_release_exclusive store ctx cipher caller_uuid w =
     release_exclusive store ctx cipher caller_uuid w"

section \<open>What a stored cipher is, and who owns its resources\<close>

definition symmetric_algorithm :: "sa_cipher_algorithm \<Rightarrow> bool" where
  "symmetric_algorithm a \<longleftrightarrow> a \<in> {SA_CIPHER_ALGORITHM_AES_ECB, SA_CIPHER_ALGORITHM_AES_ECB_PKCS7,
     SA_CIPHER_ALGORITHM_AES_CBC, SA_CIPHER_ALGORITHM_AES_CBC_PKCS7, SA_CIPHER_ALGORITHM_AES_CTR,
     SA_CIPHER_ALGORITHM_AES_GCM, SA_CIPHER_ALGORITHM_CHACHA20, SA_CIPHER_ALGORITHM_CHACHA20_POLY1305}"

lemma symmetric_guard:
  "algorithm \<noteq> SA_CIPHER_ALGORITHM_AES_ECB \<and> algorithm \<noteq> SA_CIPHER_ALGORITHM_AES_ECB_PKCS7 \<and>
     algorithm \<noteq> SA_CIPHER_ALGORITHM_AES_CBC \<and> algorithm \<noteq> SA_CIPHER_ALGORITHM_AES_CBC_PKCS7 \<and>
     algorithm \<noteq> SA_CIPHER_ALGORITHM_AES_CTR \<and> algorithm \<noteq> SA_CIPHER_ALGORITHM_AES_GCM \<and>
     algorithm \<noteq> SA_CIPHER_ALGORITHM_CHACHA20 \<and> algorithm \<noteq> SA_CIPHER_ALGORITHM_CHACHA20_POLY1305
   \<longleftrightarrow> \<not> symmetric_algorithm algorithm"
  by (simp add: symmetric_algorithm_def)

text \<open>
  Every cipher in the store is one of two kinds: a symmetric one with a crypto context, or an
  asymmetric one that only decrypts; both have their key.
\<close>

definition cipher_ok :: "cipher \<Rightarrow> bool" where
  "cipher_ok c \<longleftrightarrow> cipher_stored_key c \<noteq> None \<and>
     (if symmetric_context c \<noteq> NULL
      then symmetric_algorithm (cipher_algorithm c) \<and>
        cipher_mode c \<in> {SA_CIPHER_MODE_ENCRYPT, SA_CIPHER_MODE_DECRYPT}
      else cipher_algorithm c \<in> {SA_CIPHER_ALGORITHM_RSA_OAEP, SA_CIPHER_ALGORITHM_RSA_PKCS1V15,
          SA_CIPHER_ALGORITHM_EC_ELGAMAL} \<and> cipher_mode c = SA_CIPHER_MODE_DECRYPT)"

definition ciphers_ok :: "cipher typed_store \<Rightarrow> bool" where
  "ciphers_ok ts \<longleftrightarrow> ts_ok ts \<and> (\<forall>a c. cells (ts_heap ts) a = Some c \<longrightarrow> cipher_ok c)"

definition cipher_handed_over ::
  "cipher typed_store \<Rightarrow> cipher_resource list \<Rightarrow> sa_uuid \<Rightarrow> sa_status \<Rightarrow> u64 \<Rightarrow> cipher typed_store \<Rightarrow> bool" where
  "cipher_handed_over ts rs c status n ts' \<longleftrightarrow> ciphers_ok ts' \<and>
     (if status = SA_STATUS_OK
      then ts_entries ts (unat n) = None \<and>
        (\<exists>a v. ts_entries ts' = (ts_entries ts)(unat n \<mapsto> (a, 0, c)) \<and>
          cells (ts_heap ts') a = Some v \<and> cipher_free v = rs)
      else n = INVALID_HANDLE \<and> ts_entries ts' = ts_entries ts \<and> cells (ts_heap ts') = cells (ts_heap ts))"

lemma cipher_error: "ciphers_ok ts \<Longrightarrow> status \<noteq> SA_STATUS_OK \<Longrightarrow> cipher_handed_over ts rs c status INVALID_HANDLE ts"
  by (simp add: cipher_handed_over_def)

lemma typed_add_cipher:
  assumes "ciphers_ok ts" "uuid_ok c" "typed_add ts v c w = (s, n, ts', w')" "cipher_free v = rs" "cipher_ok v"
  shows "cipher_handed_over ts rs c s n ts'"
proof -
  have ok: "ts_ok ts" using assms(1) by (simp add: ciphers_ok_def)
  show ?thesis
  proof (rule typed_add_result [OF ok assms(2,3)])
    fix a
    assume r: "s = SA_STATUS_OK" "ts_ok ts'" "ts_entries ts (unat n) = None"
      "ts_entries ts' = (ts_entries ts)(unat n \<mapsto> (a, 0, c))" "cells (ts_heap ts') a = Some v"
      and same: "\<And>b. b \<noteq> a \<Longrightarrow> cells (ts_heap ts') b = cells (ts_heap ts) b"
    have "ciphers_ok ts'"
      unfolding ciphers_ok_def
    proof (intro conjI allI impI)
      fix b x assume "cells (ts_heap ts') b = Some x"
      with r same assms(1,5) show "cipher_ok x" by (cases "b = a") (auto simp: ciphers_ok_def)
    qed (rule r(2))
    with r assms(4) show ?thesis by (auto simp: cipher_handed_over_def)
  next
    assume "s \<noteq> SA_STATUS_OK" "n = INVALID_HANDLE" "ts_ok ts'" "ts_entries ts' = ts_entries ts"
      "cells (ts_heap ts') = cells (ts_heap ts)"
    with assms(1) show ?thesis by (simp add: cipher_handed_over_def ciphers_ok_def)
  qed
qed

lemma cipher_alloc_result:
  "cipher_alloc w = (Some c, w') \<Longrightarrow> symmetric_context c = NULL \<and> oaep_label c = None"
  by (auto simp: cipher_alloc_def Let_def split: if_splits prod.splits)

text \<open>
  adding a symmetric cipher keeps every stored cipher well formed, and transfers the crypto context and
  the key to the store exactly when it succeeds; when it fails the caller keeps both and nothing is
  freed, whatever library call failed.
\<close>

theorem cipher_add_symmetric_ownership:
  assumes ok: "ciphers_ok ts" "uuid_ok c"
    and r: "cipher_store_add_symmetric_context True ts alg mode x (Some k) (Some c) w = (s, n, freed, ts', w')"
  shows "freed = [] \<and> cipher_handed_over ts [Symmetric_Context x, Cipher_Key k] c s n ts'"
proof (cases "\<exists>w1 v. cipher_alloc w = (Some v, w1) \<and> x \<noteq> NULL \<and> ts_store ts \<noteq> None \<and>
    symmetric_algorithm alg \<and> mode \<in> {SA_CIPHER_MODE_ENCRYPT, SA_CIPHER_MODE_DECRYPT}")
  case False
  with r ok(1) show ?thesis
    unfolding cipher_store_add_symmetric_context_def symmetric_guard
    by (auto simp: cipher_error [unfolded invalid_handle_slot] split: if_splits prod.splits option.splits)
next
  case True
  then obtain w1 v where v: "cipher_alloc w = (Some v, w1)" and x: "x \<noteq> NULL" "ts_store ts \<noteq> None"
    and g: "symmetric_algorithm alg" "mode \<in> {SA_CIPHER_MODE_ENCRYPT, SA_CIPHER_MODE_DECRYPT}" by blast
  let ?v = "v\<lparr>cipher_algorithm := alg, cipher_mode := mode, symmetric_context := x, cipher_stored_key := Some k\<rparr>"
  have "cipher_free ?v = [Symmetric_Context x, Cipher_Key k]" "cipher_ok ?v"
    using cipher_alloc_result [OF v] x g by (simp_all add: cipher_free_def cipher_ok_def)
  moreover have "typed_add ts ?v c w1 = (s, n, ts', w') \<and> freed = []"
    using r v x g cipher_alloc_result [OF v]
    unfolding cipher_store_add_symmetric_context_def symmetric_guard
    by (auto simp: cipher_free_def Let_def split: if_splits prod.splits)
  ultimately show ?thesis using typed_add_cipher [OF ok] by blast
qed

text \<open>
  the same call without a key frees the crypto context that its caller still owns (the error path
  of a NULL \<open>stored_key\<close> skips the reset that the other error path makes, so the caller's own
  clean-up frees the context a second time).
\<close>

theorem cipher_add_without_key_frees_context:
  assumes "ts_store ts \<noteq> None" "x \<noteq> NULL" "symmetric_algorithm alg" "mode = SA_CIPHER_MODE_ENCRYPT" "w_faults w = []"
  shows "cipher_store_add_symmetric_context True ts alg mode x None (Some c) w =
    (SA_STATUS_INTERNAL_ERROR, INVALID_HANDLE, [Symmetric_Context x], ts, w)"
  using assms unfolding cipher_store_add_symmetric_context_def symmetric_guard
  by (auto simp: cipher_alloc_def cipher_free_def Let_def)

end
