(* ===== verification/Pad.thy ===== *)
theory Pad
  imports Key_Type
begin

text \<open>
  PKCS #7 padding of AES blocks: \<^verbatim>\<open>reference/src/taimpl/src/internal/pad.c\<close> and the function
  \<open>pad\<close> of \<^verbatim>\<open>key_store.c\<close>. A block is the list of its 16 bytes.
\<close>

definition PADDED_SIZE :: "nat \<Rightarrow> nat" where
  "PADDED_SIZE n = AES_BLOCK_SIZE * (n div AES_BLOCK_SIZE + 1)"

fun pad_check_loop :: "u8 list \<Rightarrow> nat \<Rightarrow> nat \<Rightarrow> u8 \<Rightarrow> bool" where
  "pad_check_loop ptr i 0 pad_value = True"
| "pad_check_loop ptr i (Suc n) pad_value =
     (if ptr ! i \<noteq> pad_value then False else pad_check_loop ptr (i + 1) n pad_value)"

text \<open>The result: the returned value and what is written to \<open>*pad_value\<close>.\<close>

definition pad_check_pkcs7 :: "bool \<Rightarrow> u8 list option \<Rightarrow> bool \<times> u8 option" where
  "pad_check_pkcs7 pad_value_given block =
     (if \<not> pad_value_given then (False, None)
      else (case block of None \<Rightarrow> (False, None)
        | Some ptr \<Rightarrow>
            let pad_value = ptr ! 15 in
            if pad_value < 1 \<or> unat pad_value > AES_BLOCK_SIZE then (False, Some pad_value)
            else if \<not> pad_check_loop ptr (AES_BLOCK_SIZE - unat pad_value) (unat pad_value) pad_value
            then (False, Some pad_value)
            else (True, Some pad_value)))"

fun pad_apply_loop :: "u8 list \<Rightarrow> nat \<Rightarrow> nat \<Rightarrow> u8 \<Rightarrow> u8 list" where
  "pad_apply_loop ptr i 0 pad_value = ptr"
| "pad_apply_loop ptr i (Suc n) pad_value = pad_apply_loop (ptr[i := pad_value]) (i + 1) n pad_value"

definition pad_apply_pkcs7 :: "u8 list option \<Rightarrow> u8 \<Rightarrow> bool \<times> u8 list option" where
  "pad_apply_pkcs7 out pad_value = (case out of None \<Rightarrow> (False, None)
     | Some ptr \<Rightarrow>
         if pad_value < 1 \<or> unat pad_value > AES_BLOCK_SIZE then (False, Some ptr)
         else (True, Some (pad_apply_loop ptr (AES_BLOCK_SIZE - unat pad_value) (unat pad_value) pad_value)))"

text \<open>
  \<open>pad\<close> of \<^verbatim>\<open>key_store.c\<close>: the padded bytes and what is written to \<open>*padded_length\<close>. The buffer
  comes from \<open>malloc\<close>; its bytes before the padding are overwritten by the final \<open>memcpy\<close>.
\<close>

definition pad :: "bool \<Rightarrow> u8 list option \<Rightarrow> world \<Rightarrow> u8 list option \<times> nat option \<times> world" where
  "pad padded_length_given input w =
     (if \<not> padded_length_given then (None, None, w)
      else (case input of None \<Rightarrow> (None, None, w)
        | Some bytes \<Rightarrow>
            let padded_length = PADDED_SIZE (length bytes); (memory_ok, w) = draw w in
            if \<not> memory_ok then (None, Some padded_length, w)
            else let padded = replicate padded_length 0;
                     pad_value = of_nat (padded_length - length bytes);
                     (applied, block) = pad_apply_pkcs7 (Some (drop (padded_length - AES_BLOCK_SIZE) padded)) pad_value in
              if \<not> applied then (None, Some padded_length, w)
              else let padded = take (padded_length - AES_BLOCK_SIZE) padded @ the block in
                (Some (bytes @ drop (length bytes) padded), Some padded_length, w)))"

section \<open>Padding is the standard one\<close>

lemma pad_check_loop_iff: "pad_check_loop ptr i n v \<longleftrightarrow> (\<forall>k < n. ptr ! (i + k) = v)"
proof (induction n arbitrary: i)
  case (Suc n)
  have "(\<forall>k < Suc n. ptr ! (i + k) = v) \<longleftrightarrow> ptr ! i = v \<and> (\<forall>k < n. ptr ! (i + 1 + k) = v)"
    by (auto simp: less_Suc_eq_0_disj)
  with Suc show ?case by simp
qed simp

lemma pad_apply_loop_eq:
  "i + n = length ptr \<Longrightarrow> pad_apply_loop ptr i n v = take i ptr @ replicate n v"
proof (induction n arbitrary: i ptr)
  case (Suc n)
  then have "pad_apply_loop (ptr[i := v]) (i + 1) n v = take (i + 1) (ptr[i := v]) @ replicate n v" by simp
  also have "take (i + 1) (ptr[i := v]) = take i ptr @ [v]"
    using Suc.prems by (simp add: take_Suc_conv_app_nth)
  finally show ?case by simp
qed simp

lemma PADDED_SIZE_facts:
  "n < PADDED_SIZE n" "PADDED_SIZE n - n \<le> 16" "PADDED_SIZE n mod 16 = 0" "16 \<le> PADDED_SIZE n"
  by (simp_all add: PADDED_SIZE_def AES_BLOCK_SIZE_def)

definition pad_len :: "nat \<Rightarrow> nat" where
  "pad_len n = 16 - n mod 16"

definition pkcs7 :: "u8 list \<Rightarrow> u8 list" where
  "pkcs7 bs = bs @ replicate (pad_len (length bs)) (of_nat (pad_len (length bs)))"

lemma pad_len_bounds: "1 \<le> pad_len n" "pad_len n \<le> 16"
  by (simp_all add: pad_len_def Suc_le_eq)

lemma PADDED_SIZE_eq: "PADDED_SIZE n = n + pad_len n"
  by (simp add: PADDED_SIZE_def AES_BLOCK_SIZE_def pad_len_def) (use div_mult_mod_eq [of n 16] in linarith)

lemma pad_len_value [simp]: "unat (of_nat (pad_len n) :: u8) = pad_len n"
  using pad_len_bounds(2) [of n] by (simp add: unat_of_nat take_bit_nat_eq_self)

lemma pad_len_byte [simp]: "\<not> (of_nat (pad_len n) :: u8) < 1"
  using pad_len_bounds(1) [of n] by (simp add: word_less_nat_alt del: word_less_no)

lemma pad_len_byte_nonzero [simp]: "(of_nat (pad_len n) :: u8) \<noteq> 0"
  using pad_len_byte [of n] by force

lemma length_pkcs7: "length (pkcs7 bs) = PADDED_SIZE (length bs)"
  by (simp add: pkcs7_def PADDED_SIZE_eq)

lemma pad_success:
  "pad True (Some bs) w = (let (ok, w') = draw w in
     (if ok then Some (pkcs7 bs) else None, Some (PADDED_SIZE (length bs)), w'))"
proof -
  let ?n = "length bs" and ?k = "pad_len (length bs)"
  let ?v = "of_nat ?k :: u8" and ?z = "replicate (?n + ?k) (0 :: u8)"
  note k = pad_len_bounds [of ?n]
  have P: "16 \<le> ?n + ?k" using PADDED_SIZE_facts(4) [of ?n] by (simp add: PADDED_SIZE_eq)
  have b: "pad_apply_pkcs7 (Some (drop (?n + ?k - 16) ?z)) ?v = (True, Some (replicate (16 - ?k) 0 @ replicate ?k ?v))"
    using k P by (simp add: pad_apply_pkcs7_def AES_BLOCK_SIZE_def pad_apply_loop_eq)
  have "bs @ drop ?n (take (?n + ?k - 16) ?z @ replicate (16 - ?k) 0 @ replicate ?k ?v) = pkcs7 bs"
    using k P by (simp add: pkcs7_def)
  with b show ?thesis
    by (simp add: pad_def Let_def AES_BLOCK_SIZE_def PADDED_SIZE_eq split: prod.split)
qed

lemma pad_check_pkcs7_last:
  "pad_check_pkcs7 True (Some (drop (PADDED_SIZE (length bs) - 16) (pkcs7 bs))) =
     (True, Some (of_nat (pad_len (length bs))))"
proof -
  let ?k = "pad_len (length bs)" and ?b = "drop (PADDED_SIZE (length bs) - 16) (pkcs7 bs)"
  note k = pad_len_bounds [of "length bs"]
  have nth: "?b ! i = of_nat ?k" if "16 - ?k \<le> i" "i < 16" for i
  proof -
    have "16 \<le> length bs + ?k" using PADDED_SIZE_facts(4) [of "length bs"] by (simp add: PADDED_SIZE_eq)
    with that k show ?thesis by (simp add: pkcs7_def PADDED_SIZE_eq nth_append)
  qed
  have "pad_check_loop ?b (16 - ?k) ?k (of_nat ?k)"
    unfolding pad_check_loop_iff using k by (auto intro!: nth)
  with k nth [of 15] show ?thesis
    by (simp add: pad_check_pkcs7_def AES_BLOCK_SIZE_def)
qed

text \<open>
  padding and its check are inverse: when \<open>pad\<close> returns a buffer, it is the input followed by \<open>k\<close>
  bytes of value \<open>k\<close>, its length is the reported multiple of the block size, the check of its last
  block succeeds, and cutting the checked amount off gives the input back.
\<close>

theorem pad_roundtrip:
  assumes "pad True (Some bs) w = (Some padded, len, w')"
  shows "len = Some (length padded) \<and> length padded mod AES_BLOCK_SIZE = 0 \<and>
    (\<exists>k. pad_check_pkcs7 True (Some (drop (length padded - AES_BLOCK_SIZE) padded)) = (True, Some k) \<and>
       1 \<le> unat k \<and> unat k \<le> AES_BLOCK_SIZE \<and> padded = bs @ replicate (unat k) k \<and>
       take (length padded - unat k) padded = bs)"
proof -
  have p: "padded = pkcs7 bs" "len = Some (PADDED_SIZE (length bs))"
    using assms by (auto simp: pad_success Let_def split: prod.splits if_splits)
  show ?thesis
    using pad_check_pkcs7_last [of bs] length_pkcs7 [of bs] PADDED_SIZE_facts(3) [of "length bs"]
      pad_len_bounds [of "length bs"]
    by (intro conjI exI [of _ "of_nat (pad_len (length bs))"])
      (simp_all add: p AES_BLOCK_SIZE_def, simp_all add: pkcs7_def)
qed

lemma ends_in: "length b = 16 \<Longrightarrow> n \<le> 16 \<Longrightarrow>
  (\<exists>front. b = front @ replicate n k) \<longleftrightarrow> (\<forall>i < n. b ! (16 - n + i) = k)"
proof -
  assume b: "length b = 16" "n \<le> 16"
  have "drop (16 - n) b = replicate n k \<longleftrightarrow> (\<forall>i < n. b ! (16 - n + i) = k)"
    using b by (auto simp: list_eq_iff_nth_eq)
  moreover have "(\<exists>front. b = front @ replicate n k) \<longleftrightarrow> drop (16 - n) b = replicate n k"
  proof
    assume "\<exists>front. b = front @ replicate n k"
    then show "drop (16 - n) b = replicate n k" using b by auto
  next
    assume "drop (16 - n) b = replicate n k"
    then show "\<exists>front. b = front @ replicate n k" by (metis append_take_drop_id)
  qed
  ultimately show ?thesis by blast
qed

lemma pad_check_pkcs7_iff:
  "pad_check_pkcs7 True (Some b) = (True, Some k) \<longleftrightarrow>
     b ! 15 = k \<and> 1 \<le> unat k \<and> unat k \<le> 16 \<and> pad_check_loop b (16 - unat k) (unat k) k"
  by (auto simp: pad_check_pkcs7_def Let_def AES_BLOCK_SIZE_def word_less_nat_alt)

text \<open>
  C40: the check accepts exactly the blocks that end in \<open>k\<close> bytes of value \<open>k\<close>, for a \<open>k\<close> between 1 and
  16, and reports that \<open>k\<close>.
\<close>

theorem pad_check_exact:
  assumes "length block = 16"
  shows "pad_check_pkcs7 True (Some block) = (True, Some k) \<longleftrightarrow>
    1 \<le> unat k \<and> unat k \<le> 16 \<and> (\<exists>front. block = front @ replicate (unat k) k)"
proof (cases "1 \<le> unat k \<and> unat k \<le> 16")
  case True
  have "block ! 15 = k" if a: "\<forall>i < unat k. block ! (16 - unat k + i) = k"
  proof -
    have "unat k - 1 < unat k" "16 - unat k + (unat k - 1) = 15" using True by linarith+
    with a show ?thesis by metis
  qed
  then have last: "(\<forall>i < unat k. block ! (16 - unat k + i) = k) \<longleftrightarrow>
      block ! 15 = k \<and> (\<forall>i < unat k. block ! (16 - unat k + i) = k)" by blast
  show ?thesis
    unfolding ends_in [OF assms conjunct2 [OF True]] pad_check_pkcs7_iff pad_check_loop_iff
    using True last by (simp only: simp_thms)
next
  case False
  then show ?thesis unfolding pad_check_pkcs7_iff by blast
qed

end
