(* ===== verification/Symmetric.thy ===== *)
theory Symmetric
  imports Mac_Context Cipher_Store Pad
begin

text \<open>
  Symmetric cipher contexts, \<^verbatim>\<open>reference/src/taimpl/src/internal/symmetric.c\<close> (the build with OpenSSL 3).
  A context is its algorithm, its mode and the calls made on the context of OpenSSL below it; what
  OpenSSL delivers is the argument \<open>cr\<close>. The theorem at the end shows that what any encryption context
  produced, chunk by chunk, a decryption context made with the same parameters turns back into the clear
  text, however the two sides cut their data into chunks.
\<close>

section \<open>Contexts\<close>

record symmetric_context =
  sc_algorithm :: sa_cipher_algorithm
  sc_mode :: sa_cipher_mode
  sc_calls :: "evp_call list"

definition MAX_GCM_TAG_LENGTH :: nat where "MAX_GCM_TAG_LENGTH = 16"
definition CHACHA20_NONCE_LENGTH :: nat where "CHACHA20_NONCE_LENGTH = 12"
definition CHACHA20_COUNTER_LENGTH :: nat where "CHACHA20_COUNTER_LENGTH = 4"
definition CHACHA20_TAG_LENGTH :: nat where "CHACHA20_TAG_LENGTH = 16"

definition symmetric_generate_key ::
  "bool \<Rightarrow> sa_rights option \<Rightarrow> u64 option \<Rightarrow> world \<Rightarrow> sa_status \<times> stored_key option \<times> world" where
  "symmetric_generate_key stored_key_generated_given rights key_length w =
     (if \<not> stored_key_generated_given then (SA_STATUS_NULL_PARAMETER, None, w)
      else if rights = None then (SA_STATUS_NULL_PARAMETER, None, w)
      else (case key_length of None \<Rightarrow> (SA_STATUS_NULL_PARAMETER, None, w)
      | Some key_length \<Rightarrow>
          let (generated_ok, w) = draw w in
          if \<not> generated_ok then (SA_STATUS_INTERNAL_ERROR, None, w)
          else (case rand_bytes (unat key_length) w of
            (None, w) \<Rightarrow> (SA_STATUS_INTERNAL_ERROR, None, w)
          | (Some generated, w) \<Rightarrow>
              stored_key_create True rights None SA_KEY_TYPE_SYMMETRIC no_parameters key_length (Some generated) w)))"

definition symmetric_verify_cipher :: "sa_cipher_algorithm \<Rightarrow> sa_cipher_mode \<Rightarrow> sa_status" where
  "symmetric_verify_cipher algorithm mode =
     (if \<not> symmetric_algorithm algorithm \<and> algorithm \<noteq> SA_CIPHER_ALGORITHM_RSA_PKCS1V15 \<and>
        algorithm \<noteq> SA_CIPHER_ALGORITHM_RSA_OAEP \<and> algorithm \<noteq> SA_CIPHER_ALGORITHM_EC_ELGAMAL
      then SA_STATUS_INVALID_PARAMETER
      else if mode \<noteq> SA_CIPHER_MODE_DECRYPT \<and> mode \<noteq> SA_CIPHER_MODE_ENCRYPT then SA_STATUS_INVALID_PARAMETER
      else SA_STATUS_OK)"

text \<open>
  The common end of the constructors: so many calls (memory, context, cipher, key and padding; for
  authenticated ciphers also the two calls around the IV's length, and one for the additional data), and the
  context they leave. When one fails, what was allocated is freed.
\<close>

definition new_symmetric_context ::
  "sa_cipher_algorithm \<Rightarrow> sa_cipher_mode \<Rightarrow> nat \<Rightarrow> evp_call list \<Rightarrow> world \<Rightarrow> symmetric_context option \<times> world" where
  "new_symmetric_context algorithm mode steps calls w =
     (let (ok, w) = draws steps w in
      if \<not> ok then (None, w) else (Some \<lparr>sc_algorithm = algorithm, sc_mode = mode, sc_calls = calls\<rparr>, w))"

definition aad_steps :: "u8 list option \<Rightarrow> nat" where
  "aad_steps aad = (if aad = None then 0 else 1)"

definition aad_calls :: "u8 list option \<Rightarrow> nat \<Rightarrow> evp_call list" where
  "aad_calls aad aad_length = (case aad of None \<Rightarrow> [] | Some a \<Rightarrow> [EVP_Aad (take aad_length a)])"

definition symmetric_create_aes_ecb_encrypt_context ::
  "stored_key option \<Rightarrow> bool \<Rightarrow> world \<Rightarrow> symmetric_context option \<times> world" where
  "symmetric_create_aes_ecb_encrypt_context stored_key padded w =
     (case stored_key_get_key stored_key of None \<Rightarrow> (None, w)
      | Some key \<Rightarrow> let key_length = stored_key_get_length stored_key in
          if key_length \<noteq> unat SYM_128_KEY_SIZE \<and> key_length \<noteq> unat SYM_256_KEY_SIZE then (None, w)
          else new_symmetric_context (if padded then SA_CIPHER_ALGORITHM_AES_ECB_PKCS7 else SA_CIPHER_ALGORITHM_AES_ECB) SA_CIPHER_MODE_ENCRYPT 5
            [EVP_Init EVP_aes_ecb SA_CIPHER_MODE_ENCRYPT key [] padded] w)"

definition symmetric_create_aes_cbc_encrypt_context ::
  "stored_key option \<Rightarrow> u8 list option \<Rightarrow> bool \<Rightarrow> world \<Rightarrow> symmetric_context option \<times> world" where
  "symmetric_create_aes_cbc_encrypt_context stored_key iv padded w =
     (case stored_key_get_key stored_key of None \<Rightarrow> (None, w)
      | Some key \<Rightarrow> let key_length = stored_key_get_length stored_key in
          if key_length \<noteq> unat SYM_128_KEY_SIZE \<and> key_length \<noteq> unat SYM_256_KEY_SIZE then (None, w)
          else (case iv of None \<Rightarrow> (None, w)
          | Some v \<Rightarrow>
              if length v \<noteq> AES_BLOCK_SIZE then (None, w)
              else new_symmetric_context (if padded then SA_CIPHER_ALGORITHM_AES_CBC_PKCS7 else SA_CIPHER_ALGORITHM_AES_CBC) SA_CIPHER_MODE_ENCRYPT 5
                [EVP_Init EVP_aes_cbc SA_CIPHER_MODE_ENCRYPT key v padded] w))"

definition symmetric_create_aes_ctr_encrypt_context ::
  "stored_key option \<Rightarrow> u8 list option \<Rightarrow> world \<Rightarrow> symmetric_context option \<times> world" where
  "symmetric_create_aes_ctr_encrypt_context stored_key counter w =
     (case stored_key_get_key stored_key of None \<Rightarrow> (None, w)
      | Some key \<Rightarrow> let key_length = stored_key_get_length stored_key in
          if key_length \<noteq> unat SYM_128_KEY_SIZE \<and> key_length \<noteq> unat SYM_256_KEY_SIZE then (None, w)
          else (case counter of None \<Rightarrow> (None, w)
          | Some v \<Rightarrow>
              if length v \<noteq> AES_BLOCK_SIZE then (None, w)
              else new_symmetric_context SA_CIPHER_ALGORITHM_AES_CTR SA_CIPHER_MODE_ENCRYPT 5
                [EVP_Init EVP_aes_ctr SA_CIPHER_MODE_ENCRYPT key v False] w))"

definition symmetric_create_aes_gcm_encrypt_context ::
  "stored_key option \<Rightarrow> u8 list option \<Rightarrow> u8 list option \<Rightarrow> nat \<Rightarrow> world \<Rightarrow> symmetric_context option \<times> world" where
  "symmetric_create_aes_gcm_encrypt_context stored_key iv aad aad_length w =
     (case stored_key_get_key stored_key of None \<Rightarrow> (None, w)
      | Some key \<Rightarrow> let key_length = stored_key_get_length stored_key in
          if key_length \<noteq> unat SYM_128_KEY_SIZE \<and> key_length \<noteq> unat SYM_256_KEY_SIZE then (None, w)
          else (case iv of None \<Rightarrow> (None, w)
          | Some v \<Rightarrow>
              if length v \<noteq> GCM_IV_LENGTH then (None, w)
              else if aad = None \<and> aad_length > 0 then (None, w)
              else new_symmetric_context SA_CIPHER_ALGORITHM_AES_GCM SA_CIPHER_MODE_ENCRYPT (7 + aad_steps aad)
                (EVP_Init EVP_aes_gcm SA_CIPHER_MODE_ENCRYPT key v False # aad_calls aad aad_length) w))"

definition symmetric_create_chacha20_encrypt_context ::
  "stored_key option \<Rightarrow> u8 list option \<Rightarrow> u8 list option \<Rightarrow> world \<Rightarrow> symmetric_context option \<times> world" where
  "symmetric_create_chacha20_encrypt_context stored_key nonce counter w =
     (case stored_key_get_key stored_key of None \<Rightarrow> (None, w)
      | Some key \<Rightarrow> let key_length = stored_key_get_length stored_key in
          if key_length \<noteq> unat SYM_256_KEY_SIZE then (None, w)
          else (case counter of None \<Rightarrow> (None, w)
          | Some ctr \<Rightarrow>
              if length ctr \<noteq> CHACHA20_COUNTER_LENGTH then (None, w)
              else (case nonce of None \<Rightarrow> (None, w)
          | Some n \<Rightarrow>
              if length n \<noteq> CHACHA20_NONCE_LENGTH then (None, w)
              else new_symmetric_context SA_CIPHER_ALGORITHM_CHACHA20 SA_CIPHER_MODE_ENCRYPT 5
                [EVP_Init EVP_chacha20 SA_CIPHER_MODE_ENCRYPT key (ctr @ n) False] w)))"

definition symmetric_create_chacha20_poly1305_encrypt_context ::
  "stored_key option \<Rightarrow> u8 list option \<Rightarrow> u8 list option \<Rightarrow> nat \<Rightarrow> world \<Rightarrow> symmetric_context option \<times> world" where
  "symmetric_create_chacha20_poly1305_encrypt_context stored_key nonce aad aad_length w =
     (case stored_key_get_key stored_key of None \<Rightarrow> (None, w)
      | Some key \<Rightarrow> let key_length = stored_key_get_length stored_key in
          if key_length \<noteq> unat SYM_256_KEY_SIZE then (None, w)
          else (case nonce of None \<Rightarrow> (None, w)
          | Some n \<Rightarrow>
              if length n \<noteq> CHACHA20_NONCE_LENGTH then (None, w)
              else if aad = None \<and> aad_length > 0 then (None, w)
              else new_symmetric_context SA_CIPHER_ALGORITHM_CHACHA20_POLY1305 SA_CIPHER_MODE_ENCRYPT (7 + aad_steps aad)
                (EVP_Init EVP_chacha20_poly1305 SA_CIPHER_MODE_ENCRYPT key n False # aad_calls aad aad_length) w))"

definition symmetric_create_aes_ecb_decrypt_context ::
  "stored_key option \<Rightarrow> bool \<Rightarrow> world \<Rightarrow> symmetric_context option \<times> world" where
  "symmetric_create_aes_ecb_decrypt_context stored_key padded w =
     (case stored_key_get_key stored_key of None \<Rightarrow> (None, w)
      | Some key \<Rightarrow> let key_length = stored_key_get_length stored_key in
          if key_length \<noteq> unat SYM_128_KEY_SIZE \<and> key_length \<noteq> unat SYM_256_KEY_SIZE then (None, w)
          else new_symmetric_context (if padded then SA_CIPHER_ALGORITHM_AES_ECB_PKCS7 else SA_CIPHER_ALGORITHM_AES_ECB) SA_CIPHER_MODE_DECRYPT 5
            [EVP_Init EVP_aes_ecb SA_CIPHER_MODE_DECRYPT key [] padded] w)"

definition symmetric_create_aes_cbc_decrypt_context ::
  "stored_key option \<Rightarrow> u8 list option \<Rightarrow> bool \<Rightarrow> world \<Rightarrow> symmetric_context option \<times> world" where
  "symmetric_create_aes_cbc_decrypt_context stored_key iv padded w =
     (case stored_key_get_key stored_key of None \<Rightarrow> (None, w)
      | Some key \<Rightarrow> let key_length = stored_key_get_length stored_key in
          if key_length \<noteq> unat SYM_128_KEY_SIZE \<and> key_length \<noteq> unat SYM_256_KEY_SIZE then (None, w)
          else (case iv of None \<Rightarrow> (None, w)
          | Some v \<Rightarrow>
              if length v \<noteq> AES_BLOCK_SIZE then (None, w)
              else new_symmetric_context (if padded then SA_CIPHER_ALGORITHM_AES_CBC_PKCS7 else SA_CIPHER_ALGORITHM_AES_CBC) SA_CIPHER_MODE_DECRYPT 5
                [EVP_Init EVP_aes_cbc SA_CIPHER_MODE_DECRYPT key v padded] w))"

definition symmetric_create_aes_ctr_decrypt_context ::
  "stored_key option \<Rightarrow> u8 list option \<Rightarrow> world \<Rightarrow> symmetric_context option \<times> world" where
  "symmetric_create_aes_ctr_decrypt_context stored_key counter w =
     (case stored_key_get_key stored_key of None \<Rightarrow> (None, w)
      | Some key \<Rightarrow> let key_length = stored_key_get_length stored_key in
          if key_length \<noteq> unat SYM_128_KEY_SIZE \<and> key_length \<noteq> unat SYM_256_KEY_SIZE then (None, w)
          else (case counter of None \<Rightarrow> (None, w)
          | Some v \<Rightarrow>
              if length v \<noteq> AES_BLOCK_SIZE then (None, w)
              else new_symmetric_context SA_CIPHER_ALGORITHM_AES_CTR SA_CIPHER_MODE_DECRYPT 5
                [EVP_Init EVP_aes_ctr SA_CIPHER_MODE_DECRYPT key v False] w))"

definition symmetric_create_aes_gcm_decrypt_context ::
  "stored_key option \<Rightarrow> u8 list option \<Rightarrow> u8 list option \<Rightarrow> nat \<Rightarrow> world \<Rightarrow> symmetric_context option \<times> world" where
  "symmetric_create_aes_gcm_decrypt_context stored_key iv aad aad_length w =
     (case stored_key_get_key stored_key of None \<Rightarrow> (None, w)
      | Some key \<Rightarrow> let key_length = stored_key_get_length stored_key in
          if key_length \<noteq> unat SYM_128_KEY_SIZE \<and> key_length \<noteq> unat SYM_256_KEY_SIZE then (None, w)
          else (case iv of None \<Rightarrow> (None, w)
          | Some v \<Rightarrow>
              if length v \<noteq> GCM_IV_LENGTH then (None, w)
              else if aad = None \<and> aad_length > 0 then (None, w)
              else new_symmetric_context SA_CIPHER_ALGORITHM_AES_GCM SA_CIPHER_MODE_DECRYPT (7 + aad_steps aad)
                (EVP_Init EVP_aes_gcm SA_CIPHER_MODE_DECRYPT key v False # aad_calls aad aad_length) w))"

definition symmetric_create_chacha20_decrypt_context ::
  "stored_key option \<Rightarrow> u8 list option \<Rightarrow> u8 list option \<Rightarrow> world \<Rightarrow> symmetric_context option \<times> world" where
  "symmetric_create_chacha20_decrypt_context stored_key nonce counter w =
     (case stored_key_get_key stored_key of None \<Rightarrow> (None, w)
      | Some key \<Rightarrow> let key_length = stored_key_get_length stored_key in
          if key_length \<noteq> unat SYM_256_KEY_SIZE then (None, w)
          else (case counter of None \<Rightarrow> (None, w)
          | Some ctr \<Rightarrow>
              if length ctr \<noteq> CHACHA20_COUNTER_LENGTH then (None, w)
              else (case nonce of None \<Rightarrow> (None, w)
          | Some n \<Rightarrow>
              if length n \<noteq> CHACHA20_NONCE_LENGTH then (None, w)
              else new_symmetric_context SA_CIPHER_ALGORITHM_CHACHA20 SA_CIPHER_MODE_DECRYPT 5
                [EVP_Init EVP_chacha20 SA_CIPHER_MODE_DECRYPT key (ctr @ n) False] w)))"

definition symmetric_create_chacha20_poly1305_decrypt_context ::
  "stored_key option \<Rightarrow> u8 list option \<Rightarrow> u8 list option \<Rightarrow> nat \<Rightarrow> world \<Rightarrow> symmetric_context option \<times> world" where
  "symmetric_create_chacha20_poly1305_decrypt_context stored_key nonce aad aad_length w =
     (case stored_key_get_key stored_key of None \<Rightarrow> (None, w)
      | Some key \<Rightarrow> let key_length = stored_key_get_length stored_key in
          if key_length \<noteq> unat SYM_256_KEY_SIZE then (None, w)
          else (case nonce of None \<Rightarrow> (None, w)
          | Some n \<Rightarrow>
              if length n \<noteq> CHACHA20_NONCE_LENGTH then (None, w)
              else if aad = None \<and> aad_length > 0 then (None, w)
              else new_symmetric_context SA_CIPHER_ALGORITHM_CHACHA20_POLY1305 SA_CIPHER_MODE_DECRYPT (7 + aad_steps aad)
                (EVP_Init EVP_chacha20_poly1305 SA_CIPHER_MODE_DECRYPT key n False # aad_calls aad aad_length) w))"


section \<open>Operations\<close>

text \<open>A call on the context: it may fail in the library, or because of what was called before.\<close>

definition evp_step ::
  "crypto \<Rightarrow> evp_call \<Rightarrow> symmetric_context \<Rightarrow> world \<Rightarrow> u8 list option \<times> symmetric_context \<times> world" where
  "evp_step cr call c w =
     (let (ok, w) = draw w; out = (if ok then evp_output cr (sc_calls c @ [call]) else None) in
      (out, c\<lparr>sc_calls := sc_calls c @ [if out = None then EVP_Failed call else call]\<rparr>, w))"

definition stream_algorithm :: "sa_cipher_algorithm \<Rightarrow> bool" where
  "stream_algorithm a \<longleftrightarrow> a = SA_CIPHER_ALGORITHM_AES_CTR \<or> a = SA_CIPHER_ALGORITHM_AES_GCM \<or>
     a = SA_CIPHER_ALGORITHM_CHACHA20 \<or> a = SA_CIPHER_ALGORITHM_CHACHA20_POLY1305"

text \<open>
  The result of the processing functions: the status, the bytes written to \<open>out\<close>, whose number is the new
  \<open>*out_length\<close> of a successful call, and the context. \<open>out_given\<close> says whether \<open>out\<close> is non-NULL.
\<close>

definition symmetric_context_encrypt ::
  "crypto \<Rightarrow> symmetric_context option \<Rightarrow> bool \<Rightarrow> u8 list option \<Rightarrow> world \<Rightarrow>
   sa_status \<times> u8 list option \<times> symmetric_context option \<times> world" where
  "symmetric_context_encrypt cr context out_given input w = (case context of
      None \<Rightarrow> (SA_STATUS_NULL_PARAMETER, None, None, w)
    | Some c \<Rightarrow>
        if sc_mode c \<noteq> SA_CIPHER_MODE_ENCRYPT then (SA_STATUS_INVALID_PARAMETER, None, Some c, w)
        else if \<not> out_given then (SA_STATUS_NULL_PARAMETER, None, Some c, w)
        else (case input of None \<Rightarrow> (SA_STATUS_NULL_PARAMETER, None, Some c, w)
        | Some bytes \<Rightarrow>
            if \<not> stream_algorithm (sc_algorithm c) \<and> length bytes mod AES_BLOCK_SIZE \<noteq> 0
            then (SA_STATUS_INVALID_PARAMETER, None, Some c, w)
            else (case evp_step cr (EVP_Update bytes) c w of
              (None, c, w) \<Rightarrow> (SA_STATUS_INTERNAL_ERROR, None, Some c, w)
            | (Some out, c, w) \<Rightarrow> (SA_STATUS_OK, Some out, Some c, w))))"

text \<open>The two calls that end a stream: the last update and the final block.\<close>

definition evp_last ::
  "crypto \<Rightarrow> symmetric_context \<Rightarrow> u8 list \<Rightarrow> world \<Rightarrow>
   sa_status \<times> u8 list option \<times> symmetric_context option \<times> world" where
  "evp_last cr c bytes w = (case evp_step cr (EVP_Update bytes) c w of
      (None, c, w) \<Rightarrow> (SA_STATUS_INTERNAL_ERROR, None, Some c, w)
    | (Some out, c, w) \<Rightarrow> (case evp_step cr EVP_Final c w of
        (None, c, w) \<Rightarrow> (SA_STATUS_INTERNAL_ERROR, Some out, Some c, w)
      | (Some out', c, w) \<Rightarrow> (SA_STATUS_OK, Some (out @ out'), Some c, w)))"

text \<open>
  Without an output buffer the functions report a length and do nothing; it is the second component, the
  value of \<open>*out_length\<close> after a successful call. The input's length comes apart from its bytes, which a
  request for the length does not have.
\<close>

definition symmetric_context_encrypt_last ::
  "crypto \<Rightarrow> symmetric_context option \<Rightarrow> bool \<Rightarrow> bool \<Rightarrow> u8 list option \<Rightarrow> nat \<Rightarrow> world \<Rightarrow>
   sa_status \<times> nat \<times> u8 list option \<times> symmetric_context option \<times> world" where
  "symmetric_context_encrypt_last cr context out_given out_length_given input in_length w = (case context of
      None \<Rightarrow> (SA_STATUS_NULL_PARAMETER, 0, None, None, w)
    | Some c \<Rightarrow>
        if sc_mode c \<noteq> SA_CIPHER_MODE_ENCRYPT then (SA_STATUS_INVALID_PARAMETER, 0, None, Some c, w)
        else if sc_algorithm c = SA_CIPHER_ALGORITHM_AES_ECB \<or> sc_algorithm c = SA_CIPHER_ALGORITHM_AES_CBC
        then (SA_STATUS_INVALID_PARAMETER, 0, None, Some c, w)
        else if \<not> out_length_given then (SA_STATUS_NULL_PARAMETER, 0, None, Some c, w)
        else if (sc_algorithm c = SA_CIPHER_ALGORITHM_AES_ECB_PKCS7 \<or>
            sc_algorithm c = SA_CIPHER_ALGORITHM_AES_CBC_PKCS7) \<and> in_length > AES_BLOCK_SIZE
        then (SA_STATUS_INVALID_PARAMETER, 0, None, Some c, w)
        else if \<not> out_given then (SA_STATUS_OK, PADDED_SIZE in_length, None, Some c, w)
        else (case input of None \<Rightarrow> (SA_STATUS_NULL_PARAMETER, 0, None, Some c, w)
        | Some bytes \<Rightarrow>
            let (status, out, context, w) = evp_last cr c (take in_length bytes) w in
            (status, length (the out), out, context, w)))"

definition symmetric_context_decrypt ::
  "crypto \<Rightarrow> symmetric_context option \<Rightarrow> bool \<Rightarrow> u8 list option \<Rightarrow> world \<Rightarrow>
   sa_status \<times> u8 list option \<times> symmetric_context option \<times> world" where
  "symmetric_context_decrypt cr context out_given input w = (case context of
      None \<Rightarrow> (SA_STATUS_NULL_PARAMETER, None, None, w)
    | Some c \<Rightarrow>
        if sc_mode c \<noteq> SA_CIPHER_MODE_DECRYPT then (SA_STATUS_INVALID_PARAMETER, None, Some c, w)
        else if \<not> out_given then (SA_STATUS_NULL_PARAMETER, None, Some c, w)
        else (case input of None \<Rightarrow> (SA_STATUS_NULL_PARAMETER, None, Some c, w)
        | Some bytes \<Rightarrow>
            if \<not> stream_algorithm (sc_algorithm c) \<and> length bytes mod AES_BLOCK_SIZE \<noteq> 0
            then (SA_STATUS_INVALID_PARAMETER, None, Some c, w)
            else (case evp_step cr (EVP_Update bytes) c w of
              (None, c, w) \<Rightarrow> (SA_STATUS_INTERNAL_ERROR, None, Some c, w)
            | (Some out, c, w) \<Rightarrow> (SA_STATUS_OK, Some out, Some c, w))))"

definition symmetric_context_decrypt_last ::
  "crypto \<Rightarrow> symmetric_context option \<Rightarrow> bool \<Rightarrow> bool \<Rightarrow> u8 list option \<Rightarrow> nat \<Rightarrow> world \<Rightarrow>
   sa_status \<times> nat \<times> u8 list option \<times> symmetric_context option \<times> world" where
  "symmetric_context_decrypt_last cr context out_given out_length_given input in_length w = (case context of
      None \<Rightarrow> (SA_STATUS_NULL_PARAMETER, 0, None, None, w)
    | Some c \<Rightarrow>
        if sc_mode c \<noteq> SA_CIPHER_MODE_DECRYPT then (SA_STATUS_INVALID_PARAMETER, 0, None, Some c, w)
        else if sc_algorithm c = SA_CIPHER_ALGORITHM_AES_ECB \<or> sc_algorithm c = SA_CIPHER_ALGORITHM_AES_CBC
        then (SA_STATUS_INVALID_PARAMETER, 0, None, Some c, w)
        else if \<not> out_length_given then (SA_STATUS_NULL_PARAMETER, 0, None, Some c, w)
        else if sc_algorithm c \<noteq> SA_CIPHER_ALGORITHM_CHACHA20_POLY1305 \<and> in_length > AES_BLOCK_SIZE
        then (SA_STATUS_INVALID_PARAMETER, 0, None, Some c, w)
        else if \<not> out_given then (SA_STATUS_OK, in_length, None, Some c, w)
        else (case input of None \<Rightarrow> (SA_STATUS_NULL_PARAMETER, 0, None, Some c, w)
        | Some bytes \<Rightarrow>
            let (status, out, context, w) = evp_last cr c (take in_length bytes) w in
            (status, length (the out), out, context, w)))"

definition symmetric_context_set_iv ::
  "symmetric_context option \<Rightarrow> u8 list option \<Rightarrow> world \<Rightarrow> sa_status \<times> symmetric_context option \<times> world" where
  "symmetric_context_set_iv context iv w = (case context of
      None \<Rightarrow> (SA_STATUS_NULL_PARAMETER, None, w)
    | Some c \<Rightarrow> (case iv of None \<Rightarrow> (SA_STATUS_NULL_PARAMETER, Some c, w)
      | Some v \<Rightarrow>
          if sc_algorithm c = SA_CIPHER_ALGORITHM_AES_CBC \<or> sc_algorithm c = SA_CIPHER_ALGORITHM_AES_CBC_PKCS7 \<or>
            sc_algorithm c = SA_CIPHER_ALGORITHM_AES_CTR
          then (if length v \<noteq> AES_BLOCK_SIZE then (SA_STATUS_INVALID_PARAMETER, Some c, w)
            else if sc_mode c = SA_CIPHER_MODE_ENCRYPT \<or> sc_mode c = SA_CIPHER_MODE_DECRYPT
            then (let (ok, w) = draw w; call = EVP_Set_Iv v in
              if \<not> ok then (SA_STATUS_INTERNAL_ERROR, Some (c\<lparr>sc_calls := sc_calls c @ [EVP_Failed call]\<rparr>), w)
              else (SA_STATUS_OK, Some (c\<lparr>sc_calls := sc_calls c @ [call]\<rparr>), w))
            else (SA_STATUS_INVALID_PARAMETER, Some c, w))
          else (SA_STATUS_INVALID_PARAMETER, Some c, w)))"

definition tag_length_refused :: "sa_cipher_algorithm \<Rightarrow> nat \<Rightarrow> bool" where
  "tag_length_refused algorithm tag_length \<longleftrightarrow>
     algorithm = SA_CIPHER_ALGORITHM_AES_GCM \<and> tag_length > MAX_GCM_TAG_LENGTH \<or>
     algorithm = SA_CIPHER_ALGORITHM_CHACHA20_POLY1305 \<and> tag_length \<noteq> CHACHA20_TAG_LENGTH"

text \<open>The tag is read into a buffer of 16 bytes, of which the caller gets the first ones.\<close>

definition symmetric_context_get_tag ::
  "crypto \<Rightarrow> symmetric_context option \<Rightarrow> bool \<Rightarrow> nat \<Rightarrow> world \<Rightarrow>
   sa_status \<times> u8 list option \<times> symmetric_context option \<times> world" where
  "symmetric_context_get_tag cr context tag_given tag_length w = (case context of
      None \<Rightarrow> (SA_STATUS_NULL_PARAMETER, None, None, w)
    | Some c \<Rightarrow>
        if sc_algorithm c \<noteq> SA_CIPHER_ALGORITHM_AES_GCM \<and> sc_algorithm c \<noteq> SA_CIPHER_ALGORITHM_CHACHA20_POLY1305
        then (SA_STATUS_INVALID_PARAMETER, None, Some c, w)
        else if sc_mode c \<noteq> SA_CIPHER_MODE_ENCRYPT then (SA_STATUS_INVALID_PARAMETER, None, Some c, w)
        else if \<not> tag_given then (SA_STATUS_NULL_PARAMETER, None, Some c, w)
        else if tag_length_refused (sc_algorithm c) tag_length then (SA_STATUS_INVALID_PARAMETER, None, Some c, w)
        else (case evp_step cr EVP_Get_Tag c w of
            (None, c, w) \<Rightarrow> (SA_STATUS_INTERNAL_ERROR, None, Some c, w)
          | (Some tag, c, w) \<Rightarrow> (SA_STATUS_OK, Some (take tag_length tag), Some c, w)))"

definition symmetric_context_set_tag ::
  "crypto \<Rightarrow> symmetric_context option \<Rightarrow> u8 list option \<Rightarrow> world \<Rightarrow>
   sa_status \<times> symmetric_context option \<times> world" where
  "symmetric_context_set_tag cr context tag w = (case context of
      None \<Rightarrow> (SA_STATUS_NULL_PARAMETER, None, w)
    | Some c \<Rightarrow>
        if sc_algorithm c \<noteq> SA_CIPHER_ALGORITHM_AES_GCM \<and> sc_algorithm c \<noteq> SA_CIPHER_ALGORITHM_CHACHA20_POLY1305
        then (SA_STATUS_INVALID_PARAMETER, Some c, w)
        else if sc_mode c \<noteq> SA_CIPHER_MODE_DECRYPT then (SA_STATUS_INVALID_PARAMETER, Some c, w)
        else (case tag of None \<Rightarrow> (SA_STATUS_NULL_PARAMETER, Some c, w)
        | Some t \<Rightarrow>
            if tag_length_refused (sc_algorithm c) (length t) then (SA_STATUS_INVALID_PARAMETER, Some c, w)
            else (case evp_step cr (EVP_Set_Tag t) c w of
                (None, c, w) \<Rightarrow> (SA_STATUS_INTERNAL_ERROR, Some c, w)
              | (Some _, c, w) \<Rightarrow> (SA_STATUS_OK, Some c, w))))"

section \<open>Decryption turns back what encryption produced\<close>

text \<open>
  The output of a sequence of calls made after the calls \<open>h\<close>, and what OpenSSL documents: whatever the
  clear text was cut into, if encrypting it and finishing delivered \<open>out\<close>, a context for decryption with
  the same cipher, key, IV, padding and additional data delivers the clear text for any pieces of \<open>out\<close>;
  an authenticated cipher is given the tag, or its first bytes, before the last piece.
\<close>

fun evp_run :: "crypto \<Rightarrow> evp_call list \<Rightarrow> evp_call list \<Rightarrow> u8 list option" where
  "evp_run cr h [] = Some []"
| "evp_run cr h (c # cs) = (case evp_output cr (h @ [c]) of None \<Rightarrow> None
     | Some out \<Rightarrow> (case evp_run cr (h @ [c]) cs of None \<Rightarrow> None | Some outs \<Rightarrow> Some (out @ outs)))"

definition aead_cipher :: "evp_cipher \<Rightarrow> bool" where
  "aead_cipher ci \<longleftrightarrow> ci = EVP_aes_gcm \<or> ci = EVP_chacha20_poly1305"

definition tag_given :: "crypto \<Rightarrow> evp_cipher \<Rightarrow> evp_call list \<Rightarrow> nat \<Rightarrow> evp_call list \<Rightarrow> bool" where
  "tag_given cr ci sealed n tags \<longleftrightarrow> (if \<not> aead_cipher ci then tags = []
     else 1 \<le> n \<and> n \<le> 16 \<and> (\<exists>t. evp_output cr (sealed @ [EVP_Get_Tag]) = Some t \<and> tags = [EVP_Set_Tag (take n t)]))"

definition evp_inverse :: "crypto \<Rightarrow> bool" where
  "evp_inverse cr \<longleftrightarrow> (\<forall>ci k iv pad aad cs out n tags ds.
     let sealing = EVP_Init ci SA_CIPHER_MODE_ENCRYPT k iv pad # map EVP_Aad aad in
     evp_run cr sealing (map EVP_Update cs @ [EVP_Final]) = Some out \<longrightarrow>
     tag_given cr ci (sealing @ map EVP_Update cs @ [EVP_Final]) n tags \<longrightarrow> ds \<noteq> [] \<longrightarrow> concat ds = out \<longrightarrow>
     evp_run cr (EVP_Init ci SA_CIPHER_MODE_DECRYPT k iv pad # map EVP_Aad aad)
       (map EVP_Update (butlast ds) @ tags @ [EVP_Update (last ds), EVP_Final]) = Some (concat cs))"

definition evp_documented :: "crypto \<Rightarrow> bool" where
  "evp_documented cr \<longleftrightarrow> evp_inverse cr \<and>
     (\<forall>calls t. evp_output cr (calls @ [EVP_Get_Tag]) = Some t \<longrightarrow> length t = 16) \<and>
     (\<forall>calls t. evp_output cr (calls @ [EVP_Set_Tag t]) \<noteq> None \<longrightarrow> evp_output cr (calls @ [EVP_Set_Tag t]) = Some [])"

lemma evp_inverseD:
  assumes "evp_documented cr"
    "evp_run cr (EVP_Init ci SA_CIPHER_MODE_ENCRYPT k iv padded # map EVP_Aad aad) (map EVP_Update cs @ [EVP_Final]) = Some out"
    "tag_given cr ci ((EVP_Init ci SA_CIPHER_MODE_ENCRYPT k iv padded # map EVP_Aad aad) @ map EVP_Update cs @ [EVP_Final]) n tags"
    "ds \<noteq> []" "concat ds = out"
  shows "evp_run cr (EVP_Init ci SA_CIPHER_MODE_DECRYPT k iv padded # map EVP_Aad aad)
    (map EVP_Update (butlast ds) @ tags @ [EVP_Update (last ds), EVP_Final]) = Some (concat cs)"
  using assms unfolding evp_documented_def evp_inverse_def Let_def by blast

lemma evp_run_append:
  "evp_run cr h (xs @ ys) = (case evp_run cr h xs of None \<Rightarrow> None
     | Some o1 \<Rightarrow> (case evp_run cr (h @ xs) ys of None \<Rightarrow> None | Some o2 \<Rightarrow> Some (o1 @ o2)))"
  by (induction xs arbitrary: h) (auto split: option.splits)

text \<open>The parameters of a cipher, the constructor the code calls for them, and the calls it leaves.\<close>

datatype cipher_spec =
    Ecb bool
  | Cbc "u8 list" bool
  | Ctr "u8 list"
  | Gcm "u8 list" "u8 list option"
  | Chacha20 "u8 list" "u8 list"
  | Chacha20_Poly1305 "u8 list" "u8 list option"

definition aad_size :: "u8 list option \<Rightarrow> nat" where
  "aad_size aad = (case aad of None \<Rightarrow> 0 | Some a \<Rightarrow> length a)"

fun create_encrypt_context :: "cipher_spec \<Rightarrow> stored_key option \<Rightarrow> world \<Rightarrow> symmetric_context option \<times> world" where
  "create_encrypt_context (Ecb p) k w = symmetric_create_aes_ecb_encrypt_context k p w"
| "create_encrypt_context (Cbc iv p) k w = symmetric_create_aes_cbc_encrypt_context k (Some iv) p w"
| "create_encrypt_context (Ctr ctr) k w = symmetric_create_aes_ctr_encrypt_context k (Some ctr) w"
| "create_encrypt_context (Gcm iv aad) k w = symmetric_create_aes_gcm_encrypt_context k (Some iv) aad (aad_size aad) w"
| "create_encrypt_context (Chacha20 n ctr) k w = symmetric_create_chacha20_encrypt_context k (Some n) (Some ctr) w"
| "create_encrypt_context (Chacha20_Poly1305 n aad) k w =
     symmetric_create_chacha20_poly1305_encrypt_context k (Some n) aad (aad_size aad) w"

fun create_decrypt_context :: "cipher_spec \<Rightarrow> stored_key option \<Rightarrow> world \<Rightarrow> symmetric_context option \<times> world" where
  "create_decrypt_context (Ecb p) k w = symmetric_create_aes_ecb_decrypt_context k p w"
| "create_decrypt_context (Cbc iv p) k w = symmetric_create_aes_cbc_decrypt_context k (Some iv) p w"
| "create_decrypt_context (Ctr ctr) k w = symmetric_create_aes_ctr_decrypt_context k (Some ctr) w"
| "create_decrypt_context (Gcm iv aad) k w = symmetric_create_aes_gcm_decrypt_context k (Some iv) aad (aad_size aad) w"
| "create_decrypt_context (Chacha20 n ctr) k w = symmetric_create_chacha20_decrypt_context k (Some n) (Some ctr) w"
| "create_decrypt_context (Chacha20_Poly1305 n aad) k w =
     symmetric_create_chacha20_poly1305_decrypt_context k (Some n) aad (aad_size aad) w"

fun spec_cipher :: "cipher_spec \<Rightarrow> evp_cipher" where
  "spec_cipher (Ecb p) = EVP_aes_ecb"
| "spec_cipher (Cbc iv p) = EVP_aes_cbc"
| "spec_cipher (Ctr ctr) = EVP_aes_ctr"
| "spec_cipher (Gcm iv aad) = EVP_aes_gcm"
| "spec_cipher (Chacha20 n ctr) = EVP_chacha20"
| "spec_cipher (Chacha20_Poly1305 n aad) = EVP_chacha20_poly1305"

fun spec_iv :: "cipher_spec \<Rightarrow> u8 list" where
  "spec_iv (Ecb p) = []" | "spec_iv (Cbc iv p) = iv" | "spec_iv (Ctr ctr) = ctr" | "spec_iv (Gcm iv aad) = iv"
| "spec_iv (Chacha20 n ctr) = ctr @ n" | "spec_iv (Chacha20_Poly1305 n aad) = n"

fun spec_padded :: "cipher_spec \<Rightarrow> bool" where
  "spec_padded (Ecb p) = p" | "spec_padded (Cbc iv p) = p" | "spec_padded _ = False"

fun spec_aad :: "cipher_spec \<Rightarrow> u8 list list" where
  "spec_aad (Gcm iv aad) = (case aad of None \<Rightarrow> [] | Some a \<Rightarrow> [a])"
| "spec_aad (Chacha20_Poly1305 n aad) = (case aad of None \<Rightarrow> [] | Some a \<Rightarrow> [a])"
| "spec_aad _ = []"

fun spec_algorithm :: "cipher_spec \<Rightarrow> sa_cipher_algorithm" where
  "spec_algorithm (Ecb p) = (if p then SA_CIPHER_ALGORITHM_AES_ECB_PKCS7 else SA_CIPHER_ALGORITHM_AES_ECB)"
| "spec_algorithm (Cbc iv p) = (if p then SA_CIPHER_ALGORITHM_AES_CBC_PKCS7 else SA_CIPHER_ALGORITHM_AES_CBC)"
| "spec_algorithm (Ctr ctr) = SA_CIPHER_ALGORITHM_AES_CTR"
| "spec_algorithm (Gcm iv aad) = SA_CIPHER_ALGORITHM_AES_GCM"
| "spec_algorithm (Chacha20 n ctr) = SA_CIPHER_ALGORITHM_CHACHA20"
| "spec_algorithm (Chacha20_Poly1305 n aad) = SA_CIPHER_ALGORITHM_CHACHA20_POLY1305"

definition spec_context :: "cipher_spec \<Rightarrow> sa_cipher_mode \<Rightarrow> u8 list \<Rightarrow> symmetric_context" where
  "spec_context p mode key = \<lparr>sc_algorithm = spec_algorithm p, sc_mode = mode,
     sc_calls = EVP_Init (spec_cipher p) mode key (spec_iv p) (spec_padded p) # map EVP_Aad (spec_aad p)\<rparr>"

lemmas symmetric_create_defs =
  symmetric_create_aes_ecb_encrypt_context_def symmetric_create_aes_cbc_encrypt_context_def
  symmetric_create_aes_ctr_encrypt_context_def symmetric_create_aes_gcm_encrypt_context_def
  symmetric_create_chacha20_encrypt_context_def symmetric_create_chacha20_poly1305_encrypt_context_def
  symmetric_create_aes_ecb_decrypt_context_def symmetric_create_aes_cbc_decrypt_context_def
  symmetric_create_aes_ctr_decrypt_context_def symmetric_create_aes_gcm_decrypt_context_def
  symmetric_create_chacha20_decrypt_context_def symmetric_create_chacha20_poly1305_decrypt_context_def

lemma new_symmetric_context_result:
  "new_symmetric_context alg m n calls w = (Some c, w') \<Longrightarrow> c = \<lparr>sc_algorithm = alg, sc_mode = m, sc_calls = calls\<rparr>"
  by (auto simp: new_symmetric_context_def split: prod.splits if_splits)

lemma aad_calls_size [simp]: "aad_calls aad (aad_size aad) = map EVP_Aad (case aad of None \<Rightarrow> [] | Some a \<Rightarrow> [a])"
  by (simp add: aad_calls_def aad_size_def split: option.split)

text \<open>Both constructors refuse the same parameters, and what they make differs in the mode only.\<close>

definition spec_accepts :: "cipher_spec \<Rightarrow> u8 list \<Rightarrow> bool" where
  "spec_accepts p key \<longleftrightarrow> (length key = 32 \<or> length key = 16 \<and> (case p of Chacha20 _ _ \<Rightarrow> False | Chacha20_Poly1305 _ _ \<Rightarrow> False | _ \<Rightarrow> True)) \<and>
     (case p of Ecb _ \<Rightarrow> True | Cbc iv _ \<Rightarrow> length iv = 16 | Ctr ctr \<Rightarrow> length ctr = 16 | Gcm iv _ \<Rightarrow> length iv = 12
      | Chacha20 n ctr \<Rightarrow> length n = 12 \<and> length ctr = 4 | Chacha20_Poly1305 n _ \<Rightarrow> length n = 12)"

definition spec_steps :: "cipher_spec \<Rightarrow> nat" where
  "spec_steps p = (case p of Gcm _ aad \<Rightarrow> 7 + aad_steps aad | Chacha20_Poly1305 _ aad \<Rightarrow> 7 + aad_steps aad | _ \<Rightarrow> 5)"

lemma create_context_eq:
  "create_encrypt_context p (Some k) w = (if spec_accepts p (sk_key k)
     then (let (ok, w) = draws (spec_steps p) w in (if ok then Some (spec_context p SA_CIPHER_MODE_ENCRYPT (sk_key k)) else None, w))
     else (None, w))"
  "create_decrypt_context p (Some k) w = (if spec_accepts p (sk_key k)
     then (let (ok, w) = draws (spec_steps p) w in (if ok then Some (spec_context p SA_CIPHER_MODE_DECRYPT (sk_key k)) else None, w))
     else (None, w))"
proof -
  obtain ok w1 where d: "draws (spec_steps p) w = (ok, w1)" by fastforce
  note defs = symmetric_create_defs new_symmetric_context_def spec_context_def spec_accepts_def
    stored_key_get_key_def stored_key_get_length_def SYM_128_KEY_SIZE_def SYM_256_KEY_SIZE_def AES_BLOCK_SIZE_def
    GCM_IV_LENGTH_def CHACHA20_NONCE_LENGTH_def CHACHA20_COUNTER_LENGTH_def
  have aad: "\<not> (aad = None \<and> 0 < aad_size aad)" for aad by (cases aad) (simp_all add: aad_size_def)
  show "create_encrypt_context p (Some k) w = (if spec_accepts p (sk_key k)
     then (let (ok, w) = draws (spec_steps p) w in (if ok then Some (spec_context p SA_CIPHER_MODE_ENCRYPT (sk_key k)) else None, w))
     else (None, w))"
    unfolding d using d by (cases p) (simp_all only: create_encrypt_context.simps, simp_all add: defs aad spec_steps_def Let_def)
  show "create_decrypt_context p (Some k) w = (if spec_accepts p (sk_key k)
     then (let (ok, w) = draws (spec_steps p) w in (if ok then Some (spec_context p SA_CIPHER_MODE_DECRYPT (sk_key k)) else None, w))
     else (None, w))"
    unfolding d using d by (cases p) (simp_all only: create_decrypt_context.simps, simp_all add: defs aad spec_steps_def Let_def)
qed

text \<open>A whole encryption and a whole decryption, as a client of the contexts makes them.\<close>

fun process_chunks ::
  "(symmetric_context option \<Rightarrow> bool \<Rightarrow> u8 list option \<Rightarrow> world \<Rightarrow>
      sa_status \<times> u8 list option \<times> symmetric_context option \<times> world) \<Rightarrow>
   symmetric_context option \<Rightarrow> u8 list list \<Rightarrow> world \<Rightarrow> sa_status \<times> u8 list \<times> symmetric_context option \<times> world" where
  "process_chunks step c [] w = (SA_STATUS_OK, [], c, w)"
| "process_chunks step c (bs # bss) w =
     (let (s, out, c, w) = step c True (Some bs) w in
      if s \<noteq> SA_STATUS_OK then (s, [], c, w)
      else let (s, outs, c, w) = process_chunks step c bss w in (s, the out @ outs, c, w))"

definition encrypt_session ::
  "crypto \<Rightarrow> cipher_spec \<Rightarrow> stored_key option \<Rightarrow> u8 list list \<Rightarrow> u8 list \<Rightarrow> nat \<Rightarrow> world \<Rightarrow>
   sa_status \<times> u8 list \<times> u8 list option \<times> world" where
  "encrypt_session cr p k cs l n w = (case create_encrypt_context p k w of
      (None, w) \<Rightarrow> (SA_STATUS_INTERNAL_ERROR, [], None, w)
    | (Some c, w) \<Rightarrow>
        let (s, out, c, w) = process_chunks (symmetric_context_encrypt cr) (Some c) cs w in
        if s \<noteq> SA_STATUS_OK then (s, [], None, w)
        else let (s, m, out', c, w) = symmetric_context_encrypt_last cr c True True (Some l) (length l) w in
          if s \<noteq> SA_STATUS_OK then (s, [], None, w)
          else if \<not> aead_cipher (spec_cipher p) then (s, out @ the out', None, w)
          else let (s, tag, c, w) = symmetric_context_get_tag cr c True n w in (s, out @ the out', tag, w))"

definition decrypt_session ::
  "crypto \<Rightarrow> cipher_spec \<Rightarrow> stored_key option \<Rightarrow> u8 list list \<Rightarrow> u8 list \<Rightarrow> u8 list option \<Rightarrow> world \<Rightarrow>
   sa_status \<times> u8 list \<times> world" where
  "decrypt_session cr p k ds l tag w = (case create_decrypt_context p k w of
      (None, w) \<Rightarrow> (SA_STATUS_INTERNAL_ERROR, [], w)
    | (Some c, w) \<Rightarrow>
        let (s, out, c, w) = process_chunks (symmetric_context_decrypt cr) (Some c) ds w in
        if s \<noteq> SA_STATUS_OK then (s, [], w)
        else let (s, c, w) = (if aead_cipher (spec_cipher p) then symmetric_context_set_tag cr c tag w
                 else (SA_STATUS_OK, c, w)) in
          if s \<noteq> SA_STATUS_OK then (s, [], w)
          else let (s, m, out', c, w) = symmetric_context_decrypt_last cr c True True (Some l) (length l) w in
            (s, out @ the out', w))"

abbreviation (input) after :: "symmetric_context \<Rightarrow> evp_call list \<Rightarrow> symmetric_context" where
  "after c calls \<equiv> c\<lparr>sc_calls := sc_calls c @ calls\<rparr>"

lemma evp_step_OK:
  "evp_step cr call c w = (Some out, c', w') \<Longrightarrow> evp_output cr (sc_calls c @ [call]) = Some out \<and> c' = after c [call]"
  by (auto simp: evp_step_def Let_def split: prod.splits if_splits)

lemma evp_step_calm:
  "w_faults w = [] \<Longrightarrow> evp_output cr (sc_calls c @ [call]) = Some out \<Longrightarrow> evp_step cr call c w = (Some out, after c [call], w)"
  by (simp add: evp_step_def)

lemma evp_last_OK:
  assumes "evp_last cr c b w = (SA_STATUS_OK, out, c', w')"
  shows "out = evp_run cr (sc_calls c) [EVP_Update b, EVP_Final] \<and> out \<noteq> None \<and> c' = Some (after c [EVP_Update b, EVP_Final])"
  using assms by (auto simp: evp_last_def dest!: evp_step_OK split: prod.splits option.splits)

lemma evp_last_calm:
  "w_faults w = [] \<Longrightarrow> evp_run cr (sc_calls c) [EVP_Update b, EVP_Final] = Some out \<Longrightarrow>
    \<exists>c'. evp_last cr c b w = (SA_STATUS_OK, Some out, c', w)"
  by (auto simp: evp_last_def evp_step_calm split: option.splits)

lemma encrypt_chunk_OK:
  "symmetric_context_encrypt cr (Some c) True (Some b) w = (SA_STATUS_OK, out, c', w') \<Longrightarrow>
    out = evp_output cr (sc_calls c @ [EVP_Update b]) \<and> out \<noteq> None \<and> c' = Some (after c [EVP_Update b])"
  by (auto simp: symmetric_context_encrypt_def dest!: evp_step_OK split: if_splits prod.splits option.splits)

lemma encrypt_chunks_OK:
  "process_chunks (symmetric_context_encrypt cr) (Some c) cs w = (SA_STATUS_OK, out, c', w') \<Longrightarrow>
    evp_run cr (sc_calls c) (map EVP_Update cs) = Some out \<and> c' = Some (after c (map EVP_Update cs))"
proof (induction cs arbitrary: c w out)
  case (Cons b cs)
  obtain s o1 c1 w1 where r: "symmetric_context_encrypt cr (Some c) True (Some b) w = (s, o1, c1, w1)"
    using prod_cases4 by blast
  obtain s2 o2 c2 w2 where r2: "process_chunks (symmetric_context_encrypt cr) c1 cs w1 = (s2, o2, c2, w2)"
    using prod_cases4 by blast
  from Cons.prems r r2 have ok: "s = SA_STATUS_OK" "s2 = SA_STATUS_OK" and out: "out = the o1 @ o2" "c' = c2" "w' = w2"
    by (auto split: if_splits)
  note step = encrypt_chunk_OK [OF r [unfolded ok(1)]]
  then have "process_chunks (symmetric_context_encrypt cr) (Some (after c [EVP_Update b])) cs w1 = (SA_STATUS_OK, o2, c', w')"
    using r2 ok out by simp
  from Cons.IH [OF this] step out show ?case by auto
qed simp

lemma decrypt_chunks_calm:
  assumes "w_faults w = []"
  shows "sc_mode c = SA_CIPHER_MODE_DECRYPT \<Longrightarrow>
    stream_algorithm (sc_algorithm c) \<or> (\<forall>d \<in> set ds. length d mod AES_BLOCK_SIZE = 0) \<Longrightarrow>
    evp_run cr (sc_calls c) (map EVP_Update ds) = Some out \<Longrightarrow>
    process_chunks (symmetric_context_decrypt cr) (Some c) ds w = (SA_STATUS_OK, out, Some (after c (map EVP_Update ds)), w)"
proof (induction ds arbitrary: c out)
  case (Cons d ds)
  obtain o1 o2 where o: "evp_output cr (sc_calls c @ [EVP_Update d]) = Some o1"
    "evp_run cr (sc_calls c @ [EVP_Update d]) (map EVP_Update ds) = Some o2" "out = o1 @ o2"
    using Cons.prems(3) by (auto split: option.splits)
  have "symmetric_context_decrypt cr (Some c) True (Some d) w = (SA_STATUS_OK, Some o1, Some (after c [EVP_Update d]), w)"
    using Cons.prems(1,2) evp_step_calm [OF assms o(1)] by (auto simp: symmetric_context_decrypt_def)
  moreover have "process_chunks (symmetric_context_decrypt cr) (Some (after c [EVP_Update d])) ds w =
      (SA_STATUS_OK, o2, Some (after c (map EVP_Update (d # ds))), w)"
    using Cons.IH [of "after c [EVP_Update d]" o2] Cons.prems(1,2) o(2) by auto
  ultimately show ?case using o(3) by simp
qed simp

lemma aead_cipher_algorithm:
  "aead_cipher (spec_cipher p) \<longleftrightarrow> spec_algorithm p = SA_CIPHER_ALGORITHM_AES_GCM \<or>
    spec_algorithm p = SA_CIPHER_ALGORITHM_CHACHA20_POLY1305"
  by (cases p) (simp_all add: aead_cipher_def)

lemma spec_context_simps [simp]:
  "sc_algorithm (spec_context p m k) = spec_algorithm p" "sc_mode (spec_context p m k) = m"
  "sc_calls (spec_context p m k) = EVP_Init (spec_cipher p) m k (spec_iv p) (spec_padded p) # map EVP_Aad (spec_aad p)"
  by (simp_all add: spec_context_def)

text \<open>What a successful encryption session tells about the calls made on OpenSSL.\<close>

lemma encrypt_session_OK:
  assumes "encrypt_session cr p (Some k) cs l n w = (SA_STATUS_OK, out, tag, w')"
  defines "sealing \<equiv> sc_calls (spec_context p SA_CIPHER_MODE_ENCRYPT (sk_key k))"
  shows "spec_accepts p (sk_key k)" "evp_run cr sealing (map EVP_Update (cs @ [l]) @ [EVP_Final]) = Some out"
    "spec_algorithm p \<noteq> SA_CIPHER_ALGORITHM_AES_ECB" "spec_algorithm p \<noteq> SA_CIPHER_ALGORITHM_AES_CBC"
    "aead_cipher (spec_cipher p) \<Longrightarrow> \<not> tag_length_refused (spec_algorithm p) n \<and>
      (\<exists>t. evp_output cr (sealing @ map EVP_Update (cs @ [l]) @ [EVP_Final, EVP_Get_Tag]) = Some t \<and> tag = Some (take n t))"
proof -
  let ?c = "spec_context p SA_CIPHER_MODE_ENCRYPT (sk_key k)"
  obtain w1 where acc: "spec_accepts p (sk_key k)" and c: "create_encrypt_context p (Some k) w = (Some ?c, w1)"
    using assms(1) by (auto simp: encrypt_session_def create_context_eq Let_def split: if_splits prod.splits)
  obtain s2 o2 c2 w2 where r2: "process_chunks (symmetric_context_encrypt cr) (Some ?c) cs w1 = (s2, o2, c2, w2)"
    using prod_cases4 by blast
  obtain s3 m o3 c3 w3 where r3: "symmetric_context_encrypt_last cr c2 True True (Some l) (length l) w2 = (s3, m, o3, c3, w3)"
    using prod_cases5 by blast
  have ok: "s2 = SA_STATUS_OK" "s3 = SA_STATUS_OK" and out: "out = o2 @ the o3"
    using assms(1) c r2 r3 by (auto simp: encrypt_session_def split: if_splits prod.splits)
  note chunks = encrypt_chunks_OK [OF r2 [unfolded ok]]
  let ?c2 = "after ?c (map EVP_Update cs)"
  from r3 chunks ok have last: "evp_last cr ?c2 l w2 = (SA_STATUS_OK, o3, c3, w3)"
    and alg: "spec_algorithm p \<noteq> SA_CIPHER_ALGORITHM_AES_ECB" "spec_algorithm p \<noteq> SA_CIPHER_ALGORITHM_AES_CBC"
    by (auto simp: symmetric_context_encrypt_last_def Let_def split: if_splits prod.splits)
  note fin = evp_last_OK [OF last]
  show "spec_accepts p (sk_key k)" "spec_algorithm p \<noteq> SA_CIPHER_ALGORITHM_AES_ECB"
    "spec_algorithm p \<noteq> SA_CIPHER_ALGORITHM_AES_CBC" by fact+
  show "evp_run cr sealing (map EVP_Update (cs @ [l]) @ [EVP_Final]) = Some out"
    using chunks fin out by (auto simp: sealing_def evp_run_append split: option.splits)
  assume aead: "aead_cipher (spec_cipher p)"
  have "fst (symmetric_context_get_tag cr c3 True n w3) = SA_STATUS_OK \<and>
      fst (snd (symmetric_context_get_tag cr c3 True n w3)) = tag"
    using assms(1) c r2 r3 ok aead by (auto simp: encrypt_session_def split: prod.splits)
  then show "\<not> tag_length_refused (spec_algorithm p) n \<and>
      (\<exists>t. evp_output cr (sealing @ map EVP_Update (cs @ [l]) @ [EVP_Final, EVP_Get_Tag]) = Some t \<and> tag = Some (take n t))"
    using fin by (auto simp: symmetric_context_get_tag_def sealing_def dest!: evp_step_OK split: if_splits option.splits prod.splits)
qed

lemma set_tag_calm:
  assumes "evp_documented cr" "w_faults w = []"
    and "sc_algorithm c = SA_CIPHER_ALGORITHM_AES_GCM \<or> sc_algorithm c = SA_CIPHER_ALGORITHM_CHACHA20_POLY1305"
    "sc_mode c = SA_CIPHER_MODE_DECRYPT" "\<not> tag_length_refused (sc_algorithm c) (length t)"
    "evp_run cr (sc_calls c) (EVP_Set_Tag t # calls) = Some out"
  shows "symmetric_context_set_tag cr (Some c) (Some t) w = (SA_STATUS_OK, Some (after c [EVP_Set_Tag t]), w)"
    "evp_run cr (sc_calls c @ [EVP_Set_Tag t]) calls = Some out"
proof -
  have o: "evp_output cr (sc_calls c @ [EVP_Set_Tag t]) = Some []"
    using assms(1,6) unfolding evp_documented_def by (fastforce split: option.splits)
  from evp_step_calm [OF assms(2) o] assms(3-5)
  show "symmetric_context_set_tag cr (Some c) (Some t) w = (SA_STATUS_OK, Some (after c [EVP_Set_Tag t]), w)"
    by (auto simp: symmetric_context_set_tag_def)
  show "evp_run cr (sc_calls c @ [EVP_Set_Tag t]) calls = Some out"
    using assms(6) o by (simp split: option.splits)
qed

text \<open>
  C15: the symmetric contexts are inverse: if an encryption context made for some cipher, key, IV and
  additional data consumed a clear text in some chunks and delivered a cipher text (and a tag), then a
  decryption context made with the same parameters, given the cipher text in any chunks it accepts (and
  the tag), succeeds and delivers the clear text. What OpenSSL documents is the hypothesis \<open>evp_inverse\<close>.
\<close>

theorem symmetric_roundtrip:
  assumes law: "evp_documented cr" and w: "w_faults w' = []"
    and enc: "encrypt_session cr p (Some k) cs l n w = (SA_STATUS_OK, out, tag, w1)" and n: "1 \<le> n"
    and cut: "concat ds @ m = out" "length m \<le> 16 \<or> spec_algorithm p = SA_CIPHER_ALGORITHM_CHACHA20_POLY1305"
      "stream_algorithm (spec_algorithm p) \<or> (\<forall>d \<in> set ds. length d mod 16 = 0)"
  shows "decrypt_session cr p (Some k) ds m tag w' = (SA_STATUS_OK, concat cs @ l, w')"
proof -
  note e = encrypt_session_OK [OF enc]
  let ?d = "spec_context p SA_CIPHER_MODE_DECRYPT (sk_key k)"
  obtain tags where tags: "tag_given cr (spec_cipher p)
      (sc_calls (spec_context p SA_CIPHER_MODE_ENCRYPT (sk_key k)) @ map EVP_Update (cs @ [l]) @ [EVP_Final]) n tags"
    and set: "if aead_cipher (spec_cipher p) then \<exists>t. tag = Some t \<and> tags = [EVP_Set_Tag t] \<and>
      \<not> tag_length_refused (spec_algorithm p) (length t) else tags = []"
  proof (cases "aead_cipher (spec_cipher p)")
    case True
    from e(5) [OF this] obtain t where t: "\<not> tag_length_refused (spec_algorithm p) n" "tag = Some (take n t)"
      and out: "evp_output cr (sc_calls (spec_context p SA_CIPHER_MODE_ENCRYPT (sk_key k)) @ map EVP_Update (cs @ [l]) @ [EVP_Final, EVP_Get_Tag]) = Some t"
      by blast
    have n16: "n \<le> 16"
      using t(1) True by (auto simp: aead_cipher_algorithm tag_length_refused_def MAX_GCM_TAG_LENGTH_def CHACHA20_TAG_LENGTH_def)
    have "length t = 16" using law out [folded append_assoc append_Cons append_Nil]
      by (simp add: evp_documented_def) (metis append.assoc append_Cons append_Nil)
    then have "length (take n t) = n" using n16 by simp
    with t True n n16 out that [of "[EVP_Set_Tag (take n t)]"] show ?thesis by (auto simp: tag_given_def)
  next
    case False
    with that [of "[]"] show ?thesis by (simp add: tag_given_def)
  qed
  have run: "evp_run cr (sc_calls ?d) (map EVP_Update ds @ tags @ [EVP_Update m, EVP_Final]) = Some (concat cs @ l)"
    using evp_inverseD [OF law e(2) [unfolded spec_context_simps] tags [unfolded spec_context_simps], of "ds @ [m]"] cut(1)
    by simp
  then obtain o1 o2 where o1: "evp_run cr (sc_calls ?d) (map EVP_Update ds) = Some o1"
    and o2: "evp_run cr (sc_calls ?d @ map EVP_Update ds) (tags @ [EVP_Update m, EVP_Final]) = Some o2"
    and out: "concat cs @ l = o1 @ o2"
    by (auto simp: evp_run_append split: option.splits)
  have "create_decrypt_context p (Some k) w' = (Some ?d, w')"
    using e(1) w by (simp add: create_context_eq)
  moreover have "process_chunks (symmetric_context_decrypt cr) (Some ?d) ds w' = (SA_STATUS_OK, o1, Some (after ?d (map EVP_Update ds)), w')"
    using decrypt_chunks_calm [OF w, of ?d ds cr o1] cut(3) o1 by (auto simp: AES_BLOCK_SIZE_def)
  moreover have "(if aead_cipher (spec_cipher p) then symmetric_context_set_tag cr (Some (after ?d (map EVP_Update ds))) tag w'
      else (SA_STATUS_OK, Some (after ?d (map EVP_Update ds)), w')) = (SA_STATUS_OK, Some (after ?d (map EVP_Update ds @ tags)), w')"
    and "evp_run cr (sc_calls ?d @ map EVP_Update ds @ tags) [EVP_Update m, EVP_Final] = Some o2"
    using set_tag_calm [OF law w, of "after ?d (map EVP_Update ds)" _ "[EVP_Update m, EVP_Final]" o2] set o2
    by (auto simp: aead_cipher_algorithm simp del: evp_run.simps split: if_splits)
  moreover from this(2) have "\<exists>k c'. symmetric_context_decrypt_last cr (Some (after ?d (map EVP_Update ds @ tags))) True True (Some m) (length m) w' =
      (SA_STATUS_OK, k, Some o2, c', w')"
    using evp_last_calm [OF w, of cr "after ?d (map EVP_Update ds @ tags)" m o2] e(3,4) cut(2)
    by (auto simp: symmetric_context_decrypt_last_def AES_BLOCK_SIZE_def)
  ultimately show ?thesis
    using out by (auto simp: decrypt_session_def)
qed

end
