(* ===== verification/Mac_Store.thy ===== *)
theory Mac_Store
  imports Typed_Store SA_Types
begin

text \<open>
  MAC contexts, \<^verbatim>\<open>reference/src/taimpl/src/internal/mac_store.c\<close>. A MAC object owns one HMAC or one
  CMAC context of the crypto library, which is an address here. The operations also return the
  contexts they free, so that the ownership rule of the code (the store owns the context exactly when
  adding it succeeded) can be stated.
\<close>

record mac = lockable +
  mac_algorithm :: sa_mac_algorithm
  hmac_context :: addr
  cmac_context :: addr

datatype mac_resource = Hmac_Context addr | Cmac_Context addr

definition mac_get_algorithm :: "mac option \<Rightarrow> sa_mac_algorithm option" where
  "mac_get_algorithm mac = (case mac of None \<Rightarrow> None | Some m \<Rightarrow> Some (mac_algorithm m))"

definition mac_get_hmac_context :: "mac option \<Rightarrow> addr" where
  "mac_get_hmac_context mac = (case mac of None \<Rightarrow> NULL | Some m \<Rightarrow> hmac_context m)"

definition mac_get_cmac_context :: "mac option \<Rightarrow> addr" where
  "mac_get_cmac_context mac = (case mac of None \<Rightarrow> NULL | Some m \<Rightarrow> cmac_context m)"

text \<open>\<open>mac_allocate\<close>: the zeroed structure, whose algorithm 0 is \<open>SA_MAC_ALGORITHM_CMAC\<close>.\<close>

definition mac_allocate :: "world \<Rightarrow> mac option \<times> world" where
  "mac_allocate w =
     (let (memory_ok, w) = draw w in
      if \<not> memory_ok then (None, w)
      else let (mutex_ok, w) = draw w in
        if \<not> mutex_ok then (None, w)
        else (Some \<lparr>lock_depth = 0, mac_algorithm = SA_MAC_ALGORITHM_CMAC,
          hmac_context = NULL, cmac_context = NULL\<rparr>, w))"

text \<open>\<open>mac_free\<close>: the contexts it frees; freeing a NULL context does nothing.\<close>

definition mac_free :: "mac \<Rightarrow> mac_resource list" where
  "mac_free mac = (if hmac_context mac \<noteq> NULL then [Hmac_Context (hmac_context mac)] else []) @
     (if cmac_context mac \<noteq> NULL then [Cmac_Context (cmac_context mac)] else [])"

definition mac_store_init :: "mac heap \<Rightarrow> u64 \<Rightarrow> world \<Rightarrow> mac typed_store option \<times> world" where
  "mac_store_init h size' w = typed_init h size' w"

definition mac_store_shutdown ::
  "mac typed_store \<Rightarrow> world \<Rightarrow> (mac_resource list \<times> mac typed_store \<times> world) option" where
  "mac_store_shutdown store w = typed_shutdown mac_free store w"

definition mac_store_add_hmac_context ::
  "bool \<Rightarrow> mac typed_store \<Rightarrow> addr \<Rightarrow> sa_uuid option \<Rightarrow> world \<Rightarrow>
   sa_status \<times> u64 \<times> mac_resource list \<times> mac typed_store \<times> world" where
  "mac_store_add_hmac_context context_given store hmac_ctx caller_uuid w =
     (if \<not> context_given then (SA_STATUS_NULL_PARAMETER, INVALID_HANDLE, [], store, w)
      else if ts_store store = None then (SA_STATUS_NULL_PARAMETER, INVALID_HANDLE, [], store, w)
      else if hmac_ctx = NULL then (SA_STATUS_NULL_PARAMETER, INVALID_HANDLE, [], store, w)
      else (case caller_uuid of
          None \<Rightarrow> (SA_STATUS_NULL_PARAMETER, INVALID_HANDLE, [], store, w)
        | Some caller \<Rightarrow> (case mac_allocate w of
            (None, w) \<Rightarrow> (SA_STATUS_INTERNAL_ERROR, INVALID_HANDLE, [], store, w)
          | (Some mac, w) \<Rightarrow>
              let mac = mac\<lparr>mac_algorithm := SA_MAC_ALGORITHM_HMAC, hmac_context := hmac_ctx\<rparr>;
                  (status, slot, store, w) = typed_add store mac caller w in
              if status \<noteq> SA_STATUS_OK
              then let mac = mac\<lparr>hmac_context := NULL\<rparr> in (status, slot, mac_free mac, store, w)
              else (status, slot, [], store, w))))"

definition mac_store_add_cmac_context ::
  "bool \<Rightarrow> mac typed_store \<Rightarrow> addr \<Rightarrow> sa_uuid option \<Rightarrow> world \<Rightarrow>
   sa_status \<times> u64 \<times> mac_resource list \<times> mac typed_store \<times> world" where
  "mac_store_add_cmac_context context_given store cmac_ctx caller_uuid w =
     (if \<not> context_given then (SA_STATUS_NULL_PARAMETER, INVALID_HANDLE, [], store, w)
      else if ts_store store = None then (SA_STATUS_NULL_PARAMETER, INVALID_HANDLE, [], store, w)
      else if cmac_ctx = NULL then (SA_STATUS_NULL_PARAMETER, INVALID_HANDLE, [], store, w)
      else (case caller_uuid of
          None \<Rightarrow> (SA_STATUS_NULL_PARAMETER, INVALID_HANDLE, [], store, w)
        | Some caller \<Rightarrow> (case mac_allocate w of
            (None, w) \<Rightarrow> (SA_STATUS_INTERNAL_ERROR, INVALID_HANDLE, [], store, w)
          | (Some mac, w) \<Rightarrow>
              let mac = mac\<lparr>mac_algorithm := SA_MAC_ALGORITHM_CMAC, cmac_context := cmac_ctx\<rparr>;
                  (status, slot, store, w) = typed_add store mac caller w in
              if status \<noteq> SA_STATUS_OK
              then let mac = mac\<lparr>cmac_context := NULL\<rparr> in (status, slot, mac_free mac, store, w)
              else (status, slot, [], store, w))))"

definition mac_store_remove ::
  "interference list \<Rightarrow> mac typed_store \<Rightarrow> u64 \<Rightarrow> sa_uuid option \<Rightarrow> world \<Rightarrow>
   (sa_status \<times> mac_resource list \<times> mac typed_store \<times> world) option" where
  "mac_store_remove others store ctx caller_uuid w = typed_remove mac_free others store ctx caller_uuid w"

definition mac_store_acquire_exclusive ::
  "bool \<Rightarrow> mac typed_store \<Rightarrow> u64 \<Rightarrow> sa_uuid option \<Rightarrow> world \<Rightarrow>
   sa_status \<times> addr \<times> mac typed_store \<times> world" where
  "mac_store_acquire_exclusive mac_given store slot caller_uuid w =
     acquire_exclusive mac_given store slot caller_uuid w"

definition mac_store_release_exclusive ::
  "mac typed_store \<Rightarrow> u64 \<Rightarrow> addr \<Rightarrow> sa_uuid option \<Rightarrow> world \<Rightarrow> sa_status \<times> mac typed_store \<times> world" where
  "mac_store_release_exclusive store ctx mac caller_uuid w = release_exclusive store ctx mac caller_uuid w"

section \<open>Ownership of the crypto contexts\<close>

lemma mac_allocate_result:
  "mac_allocate w = (Some m, w') \<Longrightarrow> hmac_context m = NULL \<and> cmac_context m = NULL"
  by (auto simp: mac_allocate_def Let_def split: if_splits prod.splits)

text \<open>What adding a context \<open>r\<close> promises: it is owned by the store, or by the caller still.\<close>

definition handed_over ::
  "mac typed_store \<Rightarrow> mac_resource \<Rightarrow> sa_uuid \<Rightarrow> sa_status \<Rightarrow> u64 \<Rightarrow> mac typed_store \<Rightarrow> bool" where
  "handed_over ts r c status n ts' \<longleftrightarrow> ts_ok ts' \<and>
     (if status = SA_STATUS_OK
      then ts_entries ts (unat n) = None \<and>
        (\<exists>a m. ts_entries ts' = (ts_entries ts)(unat n \<mapsto> (a, 0, c)) \<and>
          cells (ts_heap ts') a = Some m \<and> mac_free m = [r])
      else n = INVALID_HANDLE \<and> ts_entries ts' = ts_entries ts \<and> cells (ts_heap ts') = cells (ts_heap ts))"

lemma handed_over_error: "ts_ok ts \<Longrightarrow> status \<noteq> SA_STATUS_OK \<Longrightarrow> handed_over ts r c status INVALID_HANDLE ts"
  by (simp add: handed_over_def)

lemma typed_add_handed_over:
  assumes "ts_ok ts" "uuid_ok c" "typed_add ts m c w = (s, n, ts', w')" "mac_free m = [r]"
  shows "handed_over ts r c s n ts'"
  by (rule typed_add_result [OF assms(1-3)]) (use assms(4) in \<open>auto simp: handed_over_def\<close>)

lemma mac_add_cases:
  assumes "ts_ok ts" "uuid_ok c"
  shows "case mac_store_add_hmac_context True ts x (Some c) w of (s, n, freed, ts', w') \<Rightarrow>
      freed = [] \<and> handed_over ts (Hmac_Context x) c s n ts'"
    "case mac_store_add_cmac_context True ts x (Some c) w of (s, n, freed, ts', w') \<Rightarrow>
      freed = [] \<and> handed_over ts (Cmac_Context x) c s n ts'"
  using assms
  by (auto simp: mac_store_add_hmac_context_def mac_store_add_cmac_context_def Let_def mac_free_def
      handed_over_error [unfolded invalid_handle_slot]
      dest: mac_allocate_result intro: typed_add_handed_over split: prod.splits option.splits)

lemma mac_add_handed_over:
  assumes "ts_ok ts" "uuid_ok c"
  shows "mac_store_add_hmac_context True ts x (Some c) w = (s, n, freed, ts', w') \<Longrightarrow> handed_over ts (Hmac_Context x) c s n ts'"
    "mac_store_add_cmac_context True ts x (Some c) w = (s, n, freed, ts', w') \<Longrightarrow> handed_over ts (Cmac_Context x) c s n ts'"
  using mac_add_cases [OF assms, of x w] by simp_all

text \<open>
  C13: whoever owns an HMAC or CMAC context before \<open>mac_store_add_hmac_context\<close> or
  \<open>mac_store_add_cmac_context\<close>, it has exactly one owner afterwards, whatever library calls fail on
  the way: the store when the call succeeds (a fresh slot whose object frees exactly that context),
  the caller otherwise. Nothing is freed by either call and the registry stays coherent.
\<close>

theorem mac_add_ownership:
  assumes "ts_ok ts" "uuid_ok c"
  shows "(case mac_store_add_hmac_context True ts x (Some c) w of (s, n, freed, ts', w') \<Rightarrow>
      freed = [] \<and> handed_over ts (Hmac_Context x) c s n ts') \<and>
    (case mac_store_add_cmac_context True ts x (Some c) w of (s, n, freed, ts', w') \<Rightarrow>
      freed = [] \<and> handed_over ts (Cmac_Context x) c s n ts')"
  by (intro conjI mac_add_cases [OF assms])

text \<open>
  a context that was added can be removed by its owner as soon as it is not in use; the call
  returns, frees exactly that context, once, and the store is as it was before the context was added.
\<close>

theorem mac_add_remove_roundtrip:
  assumes ok: "ts_ok ts" "uuid_ok c" and live: "ts_running ts" and w: "w_faults w = []"
    and add: "mac_store_add_hmac_context True ts x (Some c) w = (SA_STATUS_OK, n, freed, ts1, w1)"
  shows "\<exists>ts2. mac_store_remove [] ts1 n (Some c) w1 = Some (SA_STATUS_OK, [Hmac_Context x], ts2, w1) \<and>
    ts_entries ts2 = ts_entries ts"
proof -
  let ?m = "\<lparr>lock_depth = 0, mac_algorithm = SA_MAC_ALGORITHM_HMAC, hmac_context = x, cmac_context = NULL\<rparr>"
  have m: "mac_free ?m = [Hmac_Context x]" and t: "typed_add ts ?m c w = (SA_STATUS_OK, n, ts1, w1)"
    using add w by (auto simp: mac_store_add_hmac_context_def mac_allocate_def mac_free_def Let_def
        split: if_splits prod.splits)
  note q = typed_add_quiet [OF t w]
  show ?thesis
  proof (rule typed_add_result [OF ok t])
    fix a
    assume n: "ts_entries ts (unat n) = None" and e: "ts_entries ts1 = (ts_entries ts)(unat n \<mapsto> (a, 0, c))"
      and "ts_ok ts1" "cells (ts_heap ts1) a = Some ?m"
    then obtain ts2 where "typed_remove mac_free [] ts1 n (Some c) w1 = Some (SA_STATUS_OK, mac_free ?m, ts2, w1)"
      "ts_entries ts2 = (ts_entries ts1)(unat n := None)"
      using typed_remove_unused [of ts1 c w1 n a ?m mac_free] ok(2) q live w by auto
    with e n m show ?thesis by (auto simp: mac_store_remove_def)
  qed simp
qed

end
