(* ===== verification/Svp.thy ===== *)
theory Svp
  imports Stored_Key
begin

text \<open>
  Secure video path buffers, \<^verbatim>\<open>reference/src/taimpl/src/porting/svp.c\<close>, with the range checks of
  \<^verbatim>\<open>porting/memory.c\<close>, in the build with \<^verbatim>\<open>ENABLE_SVP\<close>. Memory is a map from 64-bit addresses
  to bytes. Every copy is bounds-checked before the first byte moves, which the theorems make
  precise; they also show that the validation of a buffer's address range has no effect.
\<close>

section \<open>Raw memory\<close>

definition mem_write :: "mem \<Rightarrow> u64 \<Rightarrow> u8 list \<Rightarrow> mem" where
  "mem_write m dst bs = (\<lambda>a. if unat (a - dst) < length bs then bs ! unat (a - dst) else m a)"

definition mem_read :: "mem \<Rightarrow> u64 \<Rightarrow> nat \<Rightarrow> u8 list" where
  "mem_read m src n = map (\<lambda>i. m (src + of_nat i)) [0..<n]"

definition memory_is_valid_svp :: "u64 \<Rightarrow> u64 \<Rightarrow> bool" where
  "memory_is_valid_svp memory_location size' =
     (if memory_location = 0 then False
      else if fst (add_overflow memory_location size') then False else True)"

definition memory_is_valid_clear :: "u64 \<Rightarrow> u64 \<Rightarrow> bool" where
  "memory_is_valid_clear memory_location size' =
     (if memory_location = 0 then False
      else if fst (add_overflow memory_location size') then False else True)"

section \<open>Buffers\<close>

record svp_buffer =
  svp_memory :: u64
  svp_size :: u64

record sa_svp_offset =
  out_offset :: u64
  in_offset :: u64
  offset_length :: u64

text \<open>
  The functions return \<open>bool\<close>, but two of their error paths return \<open>SA_STATUS_INVALID_PARAMETER\<close>,
  which C converts.
\<close>

definition svp_validate_buffer :: "svp_buffer option \<Rightarrow> bool" where
  "svp_validate_buffer buf = (case buf of None \<Rightarrow> False
     | Some b \<Rightarrow> if \<not> memory_is_valid_svp (svp_memory b) (svp_size b)
                 then status_as_bool SA_STATUS_INVALID_PARAMETER else True)"

text \<open>The result is the returned value and what is written to \<open>*svp_buffer\<close>, if anything is.\<close>

definition svp_create_buffer ::
  "bool \<Rightarrow> u64 \<Rightarrow> u64 \<Rightarrow> world \<Rightarrow> bool \<times> svp_buffer option \<times> world" where
  "svp_create_buffer svp_buffer_given memory size' w =
     (if \<not> svp_buffer_given then (False, None, w)
      else if memory = 0 then (False, None, w)
      else if \<not> memory_is_valid_svp memory size'
        then (status_as_bool SA_STATUS_INVALID_PARAMETER, None, w)
      else let (ok, w) = draw w in
        if \<not> ok then (False, None, w)
        else (True, Some \<lparr>svp_memory = memory, svp_size = size'\<rparr>, w))"

definition svp_release_buffer :: "bool \<Rightarrow> bool \<Rightarrow> svp_buffer option \<Rightarrow> bool \<times> u64 \<times> u64" where
  "svp_release_buffer svp_memory_given size_given buf =
     (if \<not> svp_memory_given then (False, 0, 0)
      else if \<not> size_given then (False, 0, 0)
      else (case buf of None \<Rightarrow> (False, 0, 0) | Some b \<Rightarrow> (True, svp_memory b, svp_size b)))"

text \<open>The first loop of \<open>svp_write\<close> and \<open>svp_copy\<close>: both ranges of every offset are checked.\<close>

fun offsets_in_range :: "u64 \<Rightarrow> u64 \<Rightarrow> sa_svp_offset list \<Rightarrow> bool" where
  "offsets_in_range out_size in_size [] = True"
| "offsets_in_range out_size in_size (ofs # rest) =
     (let (carry, range) = add_overflow (out_offset ofs) (offset_length ofs) in
      if carry then False
      else if range > out_size then False
      else let (carry, range) = add_overflow (in_offset ofs) (offset_length ofs) in
        if carry then False
        else if range > in_size then False
        else offsets_in_range out_size in_size rest)"

fun svp_write_loop :: "mem \<Rightarrow> u64 \<Rightarrow> u8 list \<Rightarrow> sa_svp_offset list \<Rightarrow> mem" where
  "svp_write_loop m out_bytes input [] = m"
| "svp_write_loop m out_bytes input (ofs # rest) =
     svp_write_loop
       (mem_write m (out_bytes + out_offset ofs)
         (take (unat (offset_length ofs)) (drop (unat (in_offset ofs)) input)))
       out_bytes input rest"

definition svp_write ::
  "svp_buffer option \<Rightarrow> u8 list option \<Rightarrow> sa_svp_offset list option \<Rightarrow> mem \<Rightarrow> bool \<times> mem" where
  "svp_write out_buf input offsets m = (case out_buf of None \<Rightarrow> (False, m)
     | Some b \<Rightarrow> (case input of None \<Rightarrow> (False, m)
     | Some bytes \<Rightarrow> (case offsets of None \<Rightarrow> (False, m)
     | Some ofs \<Rightarrow>
         if \<not> svp_validate_buffer (Some b) then (False, m)
         else if \<not> offsets_in_range (svp_size b) (of_nat (length bytes)) ofs then (False, m)
         else (True, svp_write_loop m (svp_memory b) bytes ofs))))"

text \<open>The second loop of \<open>svp_copy\<close>: it stops with an error when a position wraps.\<close>

fun svp_copy_loop :: "mem \<Rightarrow> u64 \<Rightarrow> u64 \<Rightarrow> sa_svp_offset list \<Rightarrow> bool \<times> mem" where
  "svp_copy_loop m out_memory in_memory [] = (True, m)"
| "svp_copy_loop m out_memory in_memory (ofs # rest) =
     (let (carry, out_position) = add_overflow out_memory (out_offset ofs) in
      if carry then (False, m)
      else let (carry, in_position) = add_overflow in_memory (in_offset ofs) in
        if carry then (False, m)
        else svp_copy_loop
          (mem_write m out_position (mem_read m in_position (unat (offset_length ofs))))
          out_memory in_memory rest)"

definition svp_copy ::
  "svp_buffer option \<Rightarrow> svp_buffer option \<Rightarrow> sa_svp_offset list option \<Rightarrow> mem \<Rightarrow> bool \<times> mem" where
  "svp_copy out_buf in_buf offsets m = (case out_buf of None \<Rightarrow> (False, m)
     | Some ob \<Rightarrow> (case in_buf of None \<Rightarrow> (False, m)
     | Some ib \<Rightarrow> (case offsets of None \<Rightarrow> (False, m)
     | Some ofs \<Rightarrow>
         if \<not> svp_validate_buffer (Some ob) then (False, m)
         else if \<not> svp_validate_buffer (Some ib) then (False, m)
         else if \<not> offsets_in_range (svp_size ob) (svp_size ib) ofs then (False, m)
         else svp_copy_loop m (svp_memory ob) (svp_memory ib) ofs)))"

definition svp_get_svp_memory :: "svp_buffer option \<Rightarrow> u64" where
  "svp_get_svp_memory buf = (case buf of None \<Rightarrow> 0
     | Some b \<Rightarrow> if \<not> svp_validate_buffer (Some b) then 0 else svp_memory b)"

definition svp_get_size :: "svp_buffer option \<Rightarrow> u64" where
  "svp_get_size buf = (case buf of None \<Rightarrow> 0 | Some b \<Rightarrow> svp_size b)"

section \<open>Copies stay inside the buffer\<close>

definition inside :: "svp_buffer \<Rightarrow> u64 \<Rightarrow> bool" where
  "inside b a \<longleftrightarrow> unat (a - svp_memory b) < unat (svp_size b)"

lemma mem_write_outside: "\<not> unat (a - dst) < length bs \<Longrightarrow> mem_write m dst bs a = m a"
  by (simp add: mem_write_def)

lemma length_mem_read [simp]: "length (mem_read m src n) = n"
  by (simp add: mem_read_def)

lemma offsets_in_range_iff:
  "offsets_in_range out_size in_size ofs \<longleftrightarrow> (\<forall>f \<in> set ofs.
     unat (out_offset f) + unat (offset_length f) \<le> unat out_size \<and>
     unat (in_offset f) + unat (offset_length f) \<le> unat in_size)"
proof (induction ofs)
  case Nil
  then show ?case by simp
next
  case (Cons f ofs)
  have sum: "(\<not> fst (add_overflow a b) \<and> snd (add_overflow a b) \<le> s) \<longleftrightarrow> unat a + unat b \<le> unat s"
    for a b s :: u64
    using unsigned_less [where 'a = nat, of s]
    by (auto simp: add_overflow_def word_le_nat_alt unat_word_ariths)
  show ?case
    using Cons sum [of "out_offset f" "offset_length f" out_size]
      sum [of "in_offset f" "offset_length f" in_size]
    by (auto simp: Let_def case_prod_beta not_less)
qed

lemma chunk_inside:
  assumes "unat ofs + n \<le> unat (svp_size b)" "unat (a - (svp_memory b + ofs)) < n"
  shows "inside b a"
proof -
  have "a - svp_memory b = (a - (svp_memory b + ofs)) + ofs" by simp
  then have "unat (a - svp_memory b) \<le> unat (a - (svp_memory b + ofs)) + unat ofs"
    by (metis unat_word_ariths(1) mod_less_eq_dividend)
  with assms show ?thesis by (simp add: inside_def)
qed

lemma svp_write_loop_outside:
  assumes "\<forall>f \<in> set ofs. unat (out_offset f) + unat (offset_length f) \<le> unat (svp_size b)" "\<not> inside b a"
  shows "svp_write_loop m (svp_memory b) input ofs a = m a"
  using assms(1)
proof (induction ofs arbitrary: m)
  case Nil
  then show ?case by simp
next
  case (Cons f ofs)
  let ?bs = "take (unat (offset_length f)) (drop (unat (in_offset f)) input)"
  have "length ?bs \<le> unat (offset_length f)" by simp
  with Cons.prems have "unat (out_offset f) + length ?bs \<le> unat (svp_size b)" by fastforce
  then have "mem_write m (svp_memory b + out_offset f) ?bs a = m a"
    using assms(2) chunk_inside by (intro mem_write_outside) blast
  with Cons show ?case by simp
qed

lemma svp_copy_loop_outside:
  assumes "\<forall>f \<in> set ofs. unat (out_offset f) + unat (offset_length f) \<le> unat (svp_size b)" "\<not> inside b a"
  shows "snd (svp_copy_loop m (svp_memory b) src ofs) a = m a"
  using assms(1)
proof (induction ofs arbitrary: m)
  case Nil
  then show ?case by simp
next
  case (Cons f ofs)
  have "mem_write m (svp_memory b + out_offset f) (mem_read m p (unat (offset_length f))) a = m a" for p
    using Cons.prems assms(2) chunk_inside [of "out_offset f" "unat (offset_length f)" b a]
    by (intro mem_write_outside) auto
  with Cons show ?case by (auto simp: Let_def case_prod_beta add_overflow_def)
qed

text \<open>
  C36: Writing to an SVP buffer either checks out completely or changes nothing: it succeeds exactly
  when every source range lies in the input and every destination range lies in the buffer (without
  overflow), a refused write leaves memory as it was, and no write ever changes a byte outside the
  buffer.
\<close>

theorem svp_write_bounds:
  assumes "length input < 2 ^ 64" "svp_write (Some b) (Some input) (Some ofs) m = (ok, m')"
  shows "(ok \<longleftrightarrow> (\<forall>f \<in> set ofs.
      unat (out_offset f) + unat (offset_length f) \<le> unat (svp_size b) \<and>
      unat (in_offset f) + unat (offset_length f) \<le> length input)) \<and>
    (\<not> ok \<longrightarrow> m' = m) \<and> (\<forall>a. \<not> inside b a \<longrightarrow> m' a = m a)"
proof -
  have len: "unat (of_nat (length input) :: u64) = length input"
    using assms(1) by (simp add: unat_of_nat take_bit_nat_eq_self)
  have v: "svp_validate_buffer (Some b)" by (simp add: svp_validate_buffer_def)
  show ?thesis
  proof (cases "offsets_in_range (svp_size b) (of_nat (length input)) ofs")
    case True
    then have r: "ok" "m' = svp_write_loop m (svp_memory b) input ofs"
      using assms(2) v by (auto simp: svp_write_def)
    moreover have "\<forall>a. \<not> inside b a \<longrightarrow> m' a = m a"
      using svp_write_loop_outside True unfolding r(2) offsets_in_range_iff by blast
    ultimately show ?thesis using True by (simp add: offsets_in_range_iff len)
  next
    case False
    then show ?thesis using assms(2) v by (auto simp: svp_write_def offsets_in_range_iff len)
  qed
qed

text \<open>
  Copying between SVP buffers never changes a byte outside the destination buffer, whether it
  succeeds or fails on the way.
\<close>

theorem svp_copy_bounds:
  "\<not> inside ob a \<Longrightarrow> snd (svp_copy (Some ob) in_buf offsets m) a = m a"
  using svp_copy_loop_outside [of _ ob a m]
  by (auto simp: svp_copy_def offsets_in_range_iff split: option.splits)

section \<open>Writes deliver the bytes\<close>

definition apart :: "sa_svp_offset \<Rightarrow> sa_svp_offset \<Rightarrow> bool" where
  "apart f g \<longleftrightarrow> unat (out_offset f) + unat (offset_length f) \<le> unat (out_offset g) \<or>
     unat (out_offset g) + unat (offset_length g) \<le> unat (out_offset f)"

lemma chunk_position:
  fixes ofs s :: u64
  assumes "unat ofs + n \<le> unat s" "i < n"
  shows "unat (ofs + of_nat i) = unat ofs + i"
proof -
  have "unat ofs + i < 2 ^ 64" using assms unsigned_less [where 'a = nat, of s] by simp
  then show ?thesis by (simp add: unat_word_ariths unat_of_nat take_bit_nat_eq_self)
qed

lemma apart_miss:
  assumes "unat (out_offset f) + unat (offset_length f) \<le> unat (s :: u64)"
    "unat (out_offset g) + unat (offset_length g) \<le> unat s" "apart f g" "i < unat (offset_length f)"
  shows "\<not> unat (base + (out_offset f + of_nat i) - (base + out_offset g)) < unat (offset_length g)"
proof -
  have d: "base + (out_offset f + of_nat i) - (base + out_offset g) = (out_offset f + of_nat i) - out_offset g"
    by simp
  show ?thesis
    using assms chunk_position [OF assms(1,4)] unsigned_less [where 'a = nat, of s]
    unfolding d by (auto simp: apart_def unat_sub_if')
qed

lemma svp_write_loop_keeps:
  assumes "\<forall>g \<in> set ofs. unat (out_offset g) + unat (offset_length g) \<le> unat (s :: u64) \<and> apart f g"
    "unat (out_offset f) + unat (offset_length f) \<le> unat s" "i < unat (offset_length f)"
  shows "svp_write_loop m base input ofs (base + (out_offset f + of_nat i)) = m (base + (out_offset f + of_nat i))"
  using assms(1)
proof (induction ofs arbitrary: m)
  case Nil
  then show ?case by simp
next
  case (Cons g ofs)
  have "\<not> unat (base + (out_offset f + of_nat i) - (base + out_offset g)) < unat (offset_length g)"
    using Cons.prems assms(2,3) by (intro apart_miss) auto
  then have "mem_write m (base + out_offset g) (take (unat (offset_length g)) (drop (unat (in_offset g)) input))
      (base + (out_offset f + of_nat i)) = m (base + (out_offset f + of_nat i))"
    by (intro mem_write_outside) simp
  with Cons show ?case by simp
qed

lemma svp_write_loop_delivers:
  assumes "\<forall>g \<in> set ofs. unat (out_offset g) + unat (offset_length g) \<le> unat (s :: u64) \<and>
      unat (in_offset g) + unat (offset_length g) \<le> length input"
    "sorted_wrt apart ofs" "f \<in> set ofs" "i < unat (offset_length f)"
  shows "svp_write_loop m base input ofs (base + (out_offset f + of_nat i)) = input ! (unat (in_offset f) + i)"
  using assms(1-3)
proof (induction ofs arbitrary: m)
  case Nil
  then show ?case by simp
next
  case (Cons g ofs)
  show ?case
  proof (cases "f \<in> set ofs")
    case True
    with Cons show ?thesis by simp
  next
    case False
    then have fg: "f = g" using Cons.prems(3) by simp
    let ?a = "base + (out_offset f + of_nat i)"
    have i: "unat (of_nat i :: u64) = i"
      using assms(4) unsigned_less [where 'a = nat, of "offset_length f"]
      by (simp add: unat_of_nat take_bit_nat_eq_self)
    have "unat (?a - (base + out_offset f)) = i" using i by (simp add: algebra_simps)
    then have "mem_write m (base + out_offset g)
        (take (unat (offset_length g)) (drop (unat (in_offset g)) input)) ?a = input ! (unat (in_offset f) + i)"
      using Cons.prems(1) assms(4) fg by (auto simp: mem_write_def)
    moreover have "svp_write_loop m' base input ofs ?a = m' ?a" for m'
      using Cons.prems assms(4) fg by (intro svp_write_loop_keeps [of _ s]) auto
    ultimately show ?thesis by simp
  qed
qed


section \<open>The range validation has no effect\<close>

text \<open>
  Every SVP buffer passes \<open>svp_validate_buffer\<close>, including one whose address range is NULL or
  wraps around: the error path returns a non-zero status code from a function of type \<open>bool\<close>. For the
  same reason \<open>svp_create_buffer\<close> reports success for an invalid range, and creates no buffer.
\<close>

theorem svp_validation_ineffective:
  assumes "memory \<noteq> 0" "\<not> memory_is_valid_svp memory size'"
  shows "svp_validate_buffer (Some \<lparr>svp_memory = memory, svp_size = size'\<rparr>) \<and>
    svp_create_buffer True memory size' w = (True, None, w)"
  using assms by (simp add: svp_validate_buffer_def svp_create_buffer_def)

text \<open>A range that is valid is what creation records.\<close>

lemma svp_create_buffer_valid:
  assumes "memory_is_valid_svp memory size'" "w_faults w = []"
  shows "svp_create_buffer True memory size' w = (True, Some \<lparr>svp_memory = memory, svp_size = size'\<rparr>, w)"
  using assms by (auto simp: svp_create_buffer_def memory_is_valid_svp_def split: if_splits)

end
