(* ===== verification/Svp_Store.thy ===== *)
theory Svp_Store
  imports Typed_Store Svp
begin

text \<open>
  The store of secure video path buffers, \<^verbatim>\<open>reference/src/taimpl/src/internal/svp_store.c\<close>, in the
  build with \<^verbatim>\<open>ENABLE_SVP\<close>. Releasing a buffer is acquire, release and remove in one call. The
  theorems follow what a failed validation of \<open>svp.c\<close> leads to here.
\<close>

record svp = lockable +
  svp_buf :: "svp_buffer option"

datatype svp_resource = Buffer_Struct svp_buffer

definition svp_supported :: sa_status where
  "svp_supported = SA_STATUS_OK"

definition svp_free :: "svp \<Rightarrow> svp_resource list" where
  "svp_free s = (case svp_buf s of None \<Rightarrow> [] | Some b \<Rightarrow> [Buffer_Struct b])"

definition svp_create :: "u64 \<Rightarrow> u64 \<Rightarrow> world \<Rightarrow> svp option \<times> svp_resource list \<times> world" where
  "svp_create buffer size' w =
     (let (memory_ok, w) = draw w in
      if \<not> memory_ok then (None, [], w)
      else let (created, b, w) = svp_create_buffer True buffer size' w in
        if \<not> created then (None, svp_free \<lparr>lock_depth = 0, svp_buf = b\<rparr>, w)
        else let (mutex_ok, w) = draw w in
          if \<not> mutex_ok then (None, svp_free \<lparr>lock_depth = 0, svp_buf = b\<rparr>, w)
          else (Some \<lparr>lock_depth = 0, svp_buf = b\<rparr>, [], w))"

definition svp_get_buffer :: "svp option \<Rightarrow> svp_buffer option" where
  "svp_get_buffer s = (case s of None \<Rightarrow> None | Some s \<Rightarrow> svp_buf s)"

definition svp_store_init :: "svp heap \<Rightarrow> u64 \<Rightarrow> world \<Rightarrow> svp typed_store option \<times> world" where
  "svp_store_init h size' w = typed_init h size' w"

definition svp_store_shutdown ::
  "svp typed_store \<Rightarrow> world \<Rightarrow> (svp_resource list \<times> svp typed_store \<times> world) option" where
  "svp_store_shutdown store w = typed_shutdown svp_free store w"

definition svp_store_create ::
  "bool \<Rightarrow> svp typed_store \<Rightarrow> u64 \<Rightarrow> u64 \<Rightarrow> sa_uuid option \<Rightarrow> world \<Rightarrow>
   sa_status \<times> u64 \<times> svp_resource list \<times> svp typed_store \<times> world" where
  "svp_store_create svp_buffer_given store memory size' caller_uuid w =
     (if svp_supported \<noteq> SA_STATUS_OK then (svp_supported, INVALID_HANDLE, [], store, w)
      else if \<not> svp_buffer_given then (SA_STATUS_NULL_PARAMETER, INVALID_HANDLE, [], store, w)
      else if ts_store store = None then (SA_STATUS_NULL_PARAMETER, INVALID_HANDLE, [], store, w)
      else if memory = 0 then (SA_STATUS_NULL_PARAMETER, INVALID_HANDLE, [], store, w)
      else (case caller_uuid of
          None \<Rightarrow> (SA_STATUS_NULL_PARAMETER, INVALID_HANDLE, [], store, w)
        | Some caller \<Rightarrow> (case svp_create memory size' w of
            (None, freed, w) \<Rightarrow> (SA_STATUS_INTERNAL_ERROR, INVALID_HANDLE, freed, store, w)
          | (Some s, freed, w) \<Rightarrow>
              let (status, slot, store, w) = typed_add store s caller w in
              if status \<noteq> SA_STATUS_OK then (status, slot, freed @ svp_free s, store, w)
              else (status, slot, freed, store, w))))"

definition svp_store_acquire_exclusive ::
  "bool \<Rightarrow> svp typed_store \<Rightarrow> u64 \<Rightarrow> sa_uuid option \<Rightarrow> world \<Rightarrow>
   sa_status \<times> addr \<times> svp typed_store \<times> world" where
  "svp_store_acquire_exclusive svp_given store handle caller_uuid w =
     (if svp_supported \<noteq> SA_STATUS_OK then (svp_supported, NULL, store, w)
      else acquire_exclusive svp_given store handle caller_uuid w)"

definition svp_store_release_exclusive ::
  "svp typed_store \<Rightarrow> u64 \<Rightarrow> addr \<Rightarrow> sa_uuid option \<Rightarrow> world \<Rightarrow> sa_status \<times> svp typed_store \<times> world" where
  "svp_store_release_exclusive store handle svp caller_uuid w =
     (if svp_supported \<noteq> SA_STATUS_OK then (svp_supported, store, w)
      else release_exclusive store handle svp caller_uuid w)"

text \<open>
  The result: the status, what is written to \<open>*svp_memory\<close> and \<open>*size\<close> (nothing on an error),
  and \<open>None\<close> for the whole when the final removal is still waiting.
\<close>

definition svp_store_release ::
  "interference list \<Rightarrow> bool \<Rightarrow> bool \<Rightarrow> svp typed_store \<Rightarrow> u64 \<Rightarrow> sa_uuid option \<Rightarrow> world \<Rightarrow>
   (sa_status \<times> (u64 \<times> u64) option \<times> svp typed_store \<times> world) option" where
  "svp_store_release others svp_memory_given size_given store handle caller_uuid w =
     (if svp_supported \<noteq> SA_STATUS_OK then Some (svp_supported, None, store, w)
      else if \<not> svp_memory_given then Some (SA_STATUS_NULL_PARAMETER, None, store, w)
      else if \<not> size_given then Some (SA_STATUS_NULL_PARAMETER, None, store, w)
      else if ts_store store = None then Some (SA_STATUS_NULL_PARAMETER, None, store, w)
      else if caller_uuid = None then Some (SA_STATUS_NULL_PARAMETER, None, store, w)
      else let (status, a, store, w) = svp_store_acquire_exclusive True store handle caller_uuid w in
        if status \<noteq> SA_STATUS_OK then Some (status, None, store, w)
        else (case cells (ts_heap store) a of None \<Rightarrow> None
          | Some s \<Rightarrow>
              let (released, memory, size') = svp_release_buffer svp_memory_given size_given (svp_buf s) in
              if \<not> released then Some (status, None, store, w)
              else let store = store\<lparr>ts_heap := heap_write (ts_heap store) a (s\<lparr>svp_buf := None\<rparr>)\<rparr>;
                       (status, store, w) = svp_store_release_exclusive store handle a caller_uuid w in
                if status \<noteq> SA_STATUS_OK then Some (status, Some (memory, size'), store, w)
                else (case typed_remove svp_free others store handle caller_uuid w of
                    None \<Rightarrow> None
                  | Some (status, freed, store, w) \<Rightarrow>
                      if status \<noteq> SA_STATUS_OK then Some (status, Some (memory, size'), store, w)
                      else Some (SA_STATUS_OK, Some (memory, size'), store, w))))"

section \<open>A buffer's life\<close>

lemma svp_store_create_add:
  assumes "svp_store_create True ts mem' size' (Some c) w = (SA_STATUS_OK, n, freed, ts1, w1)" "w_faults w = []"
  shows "typed_add ts \<lparr>lock_depth = 0, svp_buf =
      if memory_is_valid_svp mem' size' then Some \<lparr>svp_memory = mem', svp_size = size'\<rparr> else None\<rparr> c w
    = (SA_STATUS_OK, n, ts1, w1) \<and> mem' \<noteq> 0"
  using assms by (auto simp: svp_store_create_def svp_supported_def svp_create_def svp_create_buffer_def Let_def
      memory_is_valid_svp_def split: if_splits prod.splits)

text \<open>What the creation leaves, and the first step of the release.\<close>

lemma svp_created_acquire:
  assumes ok: "ts_ok ts" "uuid_ok c" "ts_running ts" and w: "w_faults w = []"
    and t: "typed_add ts \<lparr>lock_depth = 0, svp_buf = b\<rparr> c w = (SA_STATUS_OK, n, ts1, w1)"
  obtains a ts2 where "ts_entries ts (unat n) = None" "w_faults w1 = []" "ts_store ts1 \<noteq> None"
    "acquire_exclusive True ts1 n (Some c) w1 = (SA_STATUS_OK, a, ts2, w1)"
    "cells (ts_heap ts2) a = Some \<lparr>lock_depth = 1, svp_buf = b\<rparr>"
    "ts_entries ts2 = (ts_entries ts)(unat n \<mapsto> (a, 1, c))" "ts_ok ts2" "ts_running ts2"
proof -
  note q = typed_add_quiet [OF t w]
  have w1: "w_faults w1 = []" and run: "ts_running ts1" using q w ok(3) by simp_all
  show ?thesis
  proof (rule typed_add_result [OF ok(1,2) t])
    fix a
    assume ok1: "ts_ok ts1" and n: "ts_entries ts (unat n) = None"
      and e1: "ts_entries ts1 = (ts_entries ts)(unat n \<mapsto> (a, 0, c))"
      and v: "cells (ts_heap ts1) a = Some \<lparr>lock_depth = 0, svp_buf = b\<rparr>"
    have e: "ts_entries ts1 (unat n) = Some (a, 0, c)" using e1 by simp
    show ?thesis
    proof (rule acquire_exclusive_owner [OF ok1 ok(2) w1 e run])
      fix obj ts2
      assume "cells (ts_heap ts1) a = Some obj"
        and acq: "acquire_exclusive True ts1 n (Some c) w1 = (SA_STATUS_OK, a, ts2, w1)"
        and h: "ts_heap ts2 = heap_write (ts_heap ts1) a (obj\<lparr>lock_depth := Suc (lock_depth obj)\<rparr>)"
        and e2: "ts_entries ts2 = (ts_entries ts1)(unat n \<mapsto> (a, 0 + 1, c))"
        and ok2: "ts_ok ts2" "ts_running ts2"
      with v have "cells (ts_heap ts2) a = Some \<lparr>lock_depth = 1, svp_buf = b\<rparr>" by (simp add: heap_write_def)
      with n w1 acq e1 e2 ok2 ts_ok_Some [OF ok1] show ?thesis by (intro that [of a ts2]) auto
    qed
  qed simp
qed

text \<open>The rest of it: the emptied object is given back and removed.\<close>

lemma svp_emptied_remove:
  assumes ok: "ts_ok ts" "uuid_ok c" "ts_running ts" and w: "w_faults w = []"
    and v: "cells (ts_heap ts) a = Some \<lparr>lock_depth = 1, svp_buf = b\<rparr>"
    and e: "ts_entries ts (unat n) = Some (a, 1, c)"
  obtains ts1 ts2 where
    "release_exclusive (ts\<lparr>ts_heap := heap_write (ts_heap ts) a \<lparr>lock_depth = 1, svp_buf = None\<rparr>\<rparr>) n a (Some c) w
      = (SA_STATUS_OK, ts1, w)"
    "typed_remove svp_free [] ts1 n (Some c) w = Some (SA_STATUS_OK, [], ts2, w)"
    "ts_entries ts2 = (ts_entries ts)(unat n := None)"
proof -
  let ?ts = "ts\<lparr>ts_heap := heap_write (ts_heap ts) a \<lparr>lock_depth = 1, svp_buf = None\<rparr>\<rparr>"
  have ok1: "ts_ok ?ts" and run1: "ts_running ?ts" and e1: "ts_entries ?ts (unat n) = Some (a, 1, c)"
    using ok v e by (auto simp: ts_ok_def ts_running_def intro!: reg.coherent_write)
  have a: "a \<noteq> NULL" using ts_okD(2) [OF ok(1)] v by (auto simp: heap_ok_def)
  show ?thesis
  proof (rule release_exclusive_holder [OF ok1 ok(2) w e1])
    fix ts1
    assume rel: "release_exclusive ?ts n a (Some c) w = (SA_STATUS_OK, ts1, w)"
      and h: "ts_heap ts1 = object_unlock (ts_heap ?ts) a"
      and e2: "ts_entries ts1 = (ts_entries ?ts)(unat n \<mapsto> (a, 1 - 1, c))"
      and ok2: "ts_ok ts1" and run2: "ts_running ?ts \<Longrightarrow> ts_running ts1"
    have v2: "cells (ts_heap ts1) a = Some \<lparr>lock_depth = 0, svp_buf = None\<rparr>"
      using a by (simp add: h object_unlock_def heap_write_def)
    have e3: "ts_entries ts1 (unat n) = Some (a, 0, c)" using e2 by simp
    show ?thesis
      by (rule typed_remove_unused [OF ok2 ok(2) w e3 run2 [OF run1] v2, of svp_free])
        (use rel e2 in \<open>auto simp: svp_free_def intro: that\<close>)
  qed simp
qed

text \<open>
  a buffer created from a valid range can be released by its owner: the call returns the very
  address and size the buffer was created from, and the store is as it was before the creation.
\<close>

theorem svp_create_release_roundtrip:
  assumes ok: "ts_ok ts" "uuid_ok c" "ts_running ts" and w: "w_faults w = []"
    and valid: "memory_is_valid_svp mem' size'"
    and r: "svp_store_create True ts mem' size' (Some c) w = (SA_STATUS_OK, n, freed, ts1, w1)"
  shows "\<exists>ts2. svp_store_release [] True True ts1 n (Some c) w1 = Some (SA_STATUS_OK, Some (mem', size'), ts2, w1) \<and>
    ts_entries ts2 = ts_entries ts"
proof -
  let ?b = "\<lparr>svp_memory = mem', svp_size = size'\<rparr>"
  have t: "typed_add ts \<lparr>lock_depth = 0, svp_buf = Some ?b\<rparr> c w = (SA_STATUS_OK, n, ts1, w1)"
    using svp_store_create_add [OF r w] valid by simp
  show ?thesis
  proof (rule svp_created_acquire [OF ok w t])
    fix a ts2
    assume n: "ts_entries ts (unat n) = None" and w1: "w_faults w1 = []" and st: "ts_store ts1 \<noteq> None"
      and acq: "acquire_exclusive True ts1 n (Some c) w1 = (SA_STATUS_OK, a, ts2, w1)"
      and v: "cells (ts_heap ts2) a = Some \<lparr>lock_depth = 1, svp_buf = Some ?b\<rparr>"
      and e: "ts_entries ts2 = (ts_entries ts)(unat n \<mapsto> (a, 1, c))" and ok2: "ts_ok ts2" "ts_running ts2"
    have e2: "ts_entries ts2 (unat n) = Some (a, 1, c)" using e by simp
    show ?thesis
    proof (rule svp_emptied_remove [OF ok2(1) ok(2) ok2(2) w1 v e2])
      fix ts3 ts4
      assume "release_exclusive (ts2\<lparr>ts_heap := heap_write (ts_heap ts2) a \<lparr>lock_depth = 1, svp_buf = None\<rparr>\<rparr>)
          n a (Some c) w1 = (SA_STATUS_OK, ts3, w1)"
        and "typed_remove svp_free [] ts3 n (Some c) w1 = Some (SA_STATUS_OK, [], ts4, w1)"
        and "ts_entries ts4 = (ts_entries ts2)(unat n := None)"
      with acq v st e n show ?thesis
        by (auto simp: svp_store_release_def svp_supported_def svp_store_acquire_exclusive_def
            svp_release_buffer_def svp_store_release_exclusive_def)
    qed
  qed
qed


end
