(* ===== verification/Header.thy ===== *)
theory Header
  imports SA_Types
begin

text \<open>
  The bytes of a \<^verbatim>\<open>sa_header\<close> (\<^verbatim>\<open>sa_types.h\<close>) in memory, with the alignment of the 64-bit targets:
  this image is what \<^verbatim>\<open>key_store.c\<close> authenticates and copies into an exported key container.
\<close>

definition SIZEOF_HEADER :: nat where
  "SIZEOF_HEADER = 1672"

definition encode_rights :: "sa_rights \<Rightarrow> u8 list" where
  "encode_rights r = rights_id r @ le_bytes 8 (unat (usage_flags r)) @
     le_bytes 8 (unat (child_usage_flags r)) @ le_bytes 8 (unat (not_before r)) @
     le_bytes 8 (unat (not_on_or_after r)) @ concat (allowed_tas r)"

definition encode_header :: "sa_header \<Rightarrow> u8 list" where
  "encode_header h = hdr_magic h @ replicate 4 0 @ encode_rights (hdr_rights h) @
     [of_nat (key_type_code (hdr_type h))] @ replicate 7 0 @ hdr_type_parameters h @
     le_bytes 2 (unat (hdr_size h)) @ replicate 6 0"

definition slice :: "nat \<Rightarrow> nat \<Rightarrow> u8 list \<Rightarrow> u8 list" where
  "slice off len bs = take len (drop off bs)"

fun chunks :: "nat \<Rightarrow> u8 list \<Rightarrow> sa_uuid list" where
  "chunks 0 bs = []"
| "chunks (Suc n) bs = take 16 bs # chunks n (drop 16 bs)"

definition decode_rights :: "u8 list \<Rightarrow> sa_rights" where
  "decode_rights bs = \<lparr>rights_id = slice 0 64 bs, usage_flags = of_nat (le_value (slice 64 8 bs)),
     child_usage_flags = of_nat (le_value (slice 72 8 bs)), not_before = of_nat (le_value (slice 80 8 bs)),
     not_on_or_after = of_nat (le_value (slice 88 8 bs)), allowed_tas = chunks 32 (slice 96 512 bs)\<rparr>"

definition decode_header :: "u8 list \<Rightarrow> sa_header" where
  "decode_header bs = \<lparr>hdr_magic = slice 0 4 bs, hdr_rights = decode_rights (slice 8 608 bs),
     hdr_type = key_type_of_code (le_value (slice 616 1 bs)),
     hdr_type_parameters = slice 624 1040 bs, hdr_size = of_nat (le_value (slice 1664 2 bs))\<rparr>"

section \<open>Round trip\<close>

text \<open>The sizes of the C arrays, and a key type that fits the header's byte.\<close>

definition rights_wf :: "sa_rights \<Rightarrow> bool" where
  "rights_wf r \<longleftrightarrow> length (rights_id r) = 64 \<and> length (allowed_tas r) = 32 \<and> (\<forall>u \<in> set (allowed_tas r). uuid_ok u)"

definition header_wf :: "sa_header \<Rightarrow> bool" where
  "header_wf h \<longleftrightarrow> length (hdr_magic h) = 4 \<and> rights_wf (hdr_rights h) \<and>
     length (hdr_type_parameters h) = TYPE_PARAMETERS_SIZE \<and> (\<forall>n. hdr_type h \<noteq> SA_KEY_TYPE_OTHER n)"

lemma slice_append1: "off + len \<le> length xs \<Longrightarrow> slice off len (xs @ ys) = slice off len xs"
  by (simp add: slice_def)

lemma slice_append2: "length xs \<le> off \<Longrightarrow> slice off len (xs @ ys) = slice (off - length xs) len ys"
  by (simp add: slice_def)

lemma slice_Cons:
  "0 < off \<Longrightarrow> slice off len (x # xs) = slice (off - 1) len xs"
  "slice 0 (Suc len) (x # xs) = x # slice 0 len xs"
  by (cases off) (simp_all add: slice_def)

lemma slice_none [simp]: "slice off 0 xs = []"
  by (simp add: slice_def)

lemma slice_all [simp]: "length xs \<le> len \<Longrightarrow> slice 0 len xs = xs"
  by (simp add: slice_def)

lemma length_concat_uuids: "\<forall>u \<in> set us. uuid_ok u \<Longrightarrow> length (concat us) = 16 * length us"
  by (induction us) (auto simp: uuid_ok_def)

lemma chunks_concat: "\<forall>u \<in> set us. uuid_ok u \<Longrightarrow> chunks (length us) (concat us) = us"
  by (induction us) (auto simp: uuid_ok_def)

lemma length_chunks [simp]: "length (chunks n bs) = n"
  by (induction n arbitrary: bs) simp_all

lemma uuid_ok_chunks: "16 * n \<le> length bs \<Longrightarrow> u \<in> set (chunks n bs) \<Longrightarrow> uuid_ok u"
proof (induction n arbitrary: bs)
  case (Suc n)
  then have "u = take 16 bs \<or> u \<in> set (chunks n (drop 16 bs))" "16 * n \<le> length (drop 16 bs)" by auto
  with Suc.IH [of "drop 16 bs"] Suc.prems(1) show ?case by (auto simp: uuid_ok_def)
qed simp

lemma length_encode_rights: "rights_wf r \<Longrightarrow> length (encode_rights r) = 608"
  by (simp add: rights_wf_def encode_rights_def length_concat_uuids)

lemma length_encode_header: "header_wf h \<Longrightarrow> length (encode_header h) = SIZEOF_HEADER"
  by (simp add: header_wf_def encode_header_def length_encode_rights SIZEOF_HEADER_def TYPE_PARAMETERS_SIZE_def)

lemma decode_encode_rights: "rights_wf r \<Longrightarrow> decode_rights (encode_rights r) = r"
  using chunks_concat [of "allowed_tas r"] length_concat_uuids [of "allowed_tas r"]
  by (simp add: rights_wf_def decode_rights_def encode_rights_def slice_append1 slice_append2)

lemma key_type_of_code_code: "\<forall>n. k \<noteq> SA_KEY_TYPE_OTHER n \<Longrightarrow> key_type_of_code (key_type_code k) = k"
  by (cases k) (simp_all add: key_type_of_code_def)

lemma key_type_byte: "\<forall>n. k \<noteq> SA_KEY_TYPE_OTHER n \<Longrightarrow> unat (of_nat (key_type_code k) :: u8) = key_type_code k"
  by (cases k) simp_all

lemma decode_encode_header: "header_wf h \<Longrightarrow> decode_header (encode_header h) = h"
  using key_type_of_code_code [of "hdr_type h"] key_type_byte [of "hdr_type h"]
  by (simp add: header_wf_def decode_header_def encode_header_def decode_encode_rights
      slice_append1 slice_append2 slice_Cons length_encode_rights TYPE_PARAMETERS_SIZE_def)

text \<open>
  a header survives its image in an exported key container: reading the 1672 bytes back gives every
  field, the rights with all 32 allowed TAs included.
\<close>

theorem header_roundtrip:
  assumes "header_wf h"
  shows "decode_header (encode_header h) = h \<and> length (encode_header h) = SIZEOF_HEADER"
  using decode_encode_header [OF assms] length_encode_header [OF assms] by simp

lemma decode_header_wf:
  assumes "length bs = SIZEOF_HEADER" "le_value (slice 616 1 bs) < 4"
  shows "header_wf (decode_header bs)"
  using assms uuid_ok_chunks [of 32 "slice 96 512 (slice 8 608 bs)"]
  by (auto simp: header_wf_def decode_header_def decode_rights_def rights_wf_def slice_def SIZEOF_HEADER_def
      TYPE_PARAMETERS_SIZE_def key_type_of_code_def)

lemma decode_rights_wf: "length bs = 608 \<Longrightarrow> rights_wf (decode_rights bs)"
  using uuid_ok_chunks [of 32 "slice 96 512 bs"] by (auto simp: rights_wf_def decode_rights_def slice_def)

end
