(* ===== verification/Key_Store.thy ===== *)
theory Key_Store
  imports Typed_Store Otp Pad Header
begin

text \<open>
  The key store, \<^verbatim>\<open>reference/src/taimpl/src/internal/key_store.c\<close>: keys rest encrypted and
  authenticated under keys the device's key ladder derives, are unwrapped for a caller whose rights
  allow it, and leave the device only in an exported container. A header is authenticated as the bytes
  it has in memory.
\<close>

section \<open>Data\<close>

record derivation_inputs =
  wrapping_key_inputs :: key_ladder_inputs
  integrity_key_inputs :: key_ladder_inputs

definition export_derivation_inputs :: derivation_inputs where
  "export_derivation_inputs = \<lparr>
     wrapping_key_inputs = \<lparr>
       kl_c1 = [0x91, 0xa4, 0x5a, 0xc9, 0x2b, 0x5e, 0xd7, 0x40, 0x20, 0x33, 0x6e, 0x47, 0xad, 0x48, 0x56, 0xba],
       kl_c2 = [0x82, 0x1b, 0x1f, 0x0c, 0x52, 0x04, 0x8b, 0x28, 0xbe, 0xa0, 0x59, 0x34, 0xb4, 0xd9, 0xa8, 0xae],
       kl_c3 = [0x80, 0x46, 0xd8, 0xdc, 0xf3, 0xfb, 0xcd, 0xfb, 0x85, 0x05, 0x30, 0x6d, 0x07, 0x33, 0x5b, 0x8c]\<rparr>,
     integrity_key_inputs = \<lparr>
       kl_c1 = [0xe5, 0x46, 0xb9, 0x91, 0xb5, 0x2c, 0x79, 0xf8, 0xab, 0x9f, 0x34, 0xb8, 0x85, 0x9a, 0xec, 0x19],
       kl_c2 = [0x77, 0x48, 0xbf, 0xc6, 0x21, 0x6d, 0x89, 0x19, 0x7c, 0x51, 0xc9, 0xaf, 0x52, 0xe3, 0xed, 0x2a],
       kl_c3 = [0x11, 0x5b, 0xb8, 0xf6, 0x1a, 0xe1, 0xbe, 0x28, 0x03, 0xb1, 0x98, 0x4a, 0xde, 0xff, 0x57, 0x08]\<rparr>\<rparr>"

record wrapped_key =
  wk_header :: sa_header
  wk_iv :: "u8 list"
  wk_ciphertext_length :: u64
  wk_ciphertext :: "u8 list option"
  wk_mac :: "u8 list"
  wk_derivation_inputs :: derivation_inputs

definition SIZEOF_CIPHER_PARAMETERS :: nat where
  "SIZEOF_CIPHER_PARAMETERS = 24"

definition SIZEOF_SIGNATURE :: nat where
  "SIZEOF_SIGNATURE = 32"

definition encode_cipher_parameters :: "u8 list \<Rightarrow> u64 \<Rightarrow> u8 list" where
  "encode_cipher_parameters iv ciphertext_length = iv @ le_bytes 8 (unat ciphertext_length)"

section \<open>Helpers\<close>

definition xor_bytes :: "u8 list \<Rightarrow> u8 list \<Rightarrow> u8 list" where
  "xor_bytes in1 in2 = map2 (\<lambda>a b. a XOR b) in1 in2"

definition apply_mixin :: "u8 list \<Rightarrow> derivation_inputs" where
  "apply_mixin mixin = (let d = export_derivation_inputs in
     \<lparr>wrapping_key_inputs = (wrapping_key_inputs d)\<lparr>kl_c3 := xor_bytes (kl_c3 (wrapping_key_inputs d)) mixin\<rparr>,
      integrity_key_inputs = (integrity_key_inputs d)\<lparr>kl_c3 := xor_bytes (kl_c3 (integrity_key_inputs d)) mixin\<rparr>\<rparr>)"

definition validate_header_format :: "sa_header option \<Rightarrow> bool" where
  "validate_header_format hdr = (case hdr of None \<Rightarrow> False
     | Some h \<Rightarrow>
         if memory_memcmp_constant (hdr_magic h) MAGIC 4 \<noteq> 0 then False
         else if \<not> rights_validate_format (Some (hdr_rights h)) then False
         else if \<not> key_type_supports_any (hdr_type h) (ucast (curve_code (tp_curve (hdr_type_parameters h))))
                (ucast (hdr_size h)) then False
         else True)"

definition unwrap_key ::
  "crypto \<Rightarrow> derivation_inputs option \<Rightarrow> u8 list option \<Rightarrow> (u8 list \<times> u64) option \<Rightarrow> u8 list option \<Rightarrow>
   u8 list option \<Rightarrow> world \<Rightarrow> stored_key option \<times> world" where
  "unwrap_key cr inputs header cipher_parameters ciphertext signature w =
     (case inputs of None \<Rightarrow> (None, w) | Some di \<Rightarrow>
     (case header of None \<Rightarrow> (None, w) | Some hdr_bytes \<Rightarrow>
     (case cipher_parameters of None \<Rightarrow> (None, w) | Some (iv, ct_length) \<Rightarrow>
     (case ciphertext of None \<Rightarrow> (None, w) | Some ct \<Rightarrow>
     (case signature of None \<Rightarrow> (None, w) | Some mac \<Rightarrow>
       if unat ct_length < AES_BLOCK_SIZE \<or> unat ct_length mod AES_BLOCK_SIZE \<noteq> 0 then (None, w)
       else let (status, computed_mac, w) = otp_hmac_sha256 cr True (Some (integrity_key_inputs di)) hdr_bytes
              (encode_cipher_parameters iv ct_length) (take (unat ct_length) ct) w in
         if status \<noteq> SA_STATUS_OK then (None, w)
         else if memory_memcmp_constant (the computed_mac) mac SHA256_DIGEST_LENGTH \<noteq> 0 then (None, w)
         else let (memory_ok, w) = draw w in
           if \<not> memory_ok then (None, w)
           else let (status, cleartext, w) = otp_unwrap_aes_cbc cr True (Some (wrapping_key_inputs di))
                  (Some (take (unat ct_length) ct)) (Some iv) w in
             if status \<noteq> SA_STATUS_OK then (None, w)
             else let (padded, pad_value) = pad_check_pkcs7 True
                    (Some (drop (unat ct_length - AES_BLOCK_SIZE) (the cleartext))) in
               if \<not> padded then (None, w)
               else let header = decode_header hdr_bytes;
                        (status, stored_key, w) = stored_key_create True (Some (hdr_rights header)) None
                          (hdr_type header) (hdr_type_parameters header) (ucast (hdr_size header))
                          (Some (take (unat ct_length - unat (the pad_value)) (the cleartext))) w in
                 if status \<noteq> SA_STATUS_OK then (None, w) else (stored_key, w))))))"

section \<open>Wrapped keys\<close>

text \<open>\<open>memset\<close> through a NULL pointer, of more than no bytes: the process dies.\<close>

definition memset_faults :: "'a option \<Rightarrow> u64 \<Rightarrow> bool" where
  "memset_faults destination size' \<longleftrightarrow> destination = None \<and> size' \<noteq> 0"

definition wrapped_key_free_faults :: "wrapped_key \<Rightarrow> bool" where
  "wrapped_key_free_faults wk \<longleftrightarrow> memset_faults (wk_ciphertext wk) (wk_ciphertext_length wk)"

text \<open>
  The result: the wrapped key, and the structure passed to \<open>wrapped_key_free\<close> when a step failed. The
  structure starts zeroed.
\<close>

definition zero_ladder_inputs :: key_ladder_inputs where
  "zero_ladder_inputs = \<lparr>kl_c1 = replicate 16 0, kl_c2 = replicate 16 0, kl_c3 = replicate 16 0\<rparr>"

definition zero_wrapped_key :: wrapped_key where
  "zero_wrapped_key = \<lparr>wk_header = decode_header (replicate SIZEOF_HEADER 0), wk_iv = replicate 16 0,
     wk_ciphertext_length = 0, wk_ciphertext = None, wk_mac = replicate 32 0,
     wk_derivation_inputs = \<lparr>wrapping_key_inputs = zero_ladder_inputs, integrity_key_inputs = zero_ladder_inputs\<rparr>\<rparr>"

definition wrapped_key_create ::
  "crypto \<Rightarrow> derivation_inputs option \<Rightarrow> stored_key option \<Rightarrow> world \<Rightarrow> wrapped_key option \<times> wrapped_key option \<times> world" where
  "wrapped_key_create cr inputs stored_key w =
     (case inputs of None \<Rightarrow> (None, None, w)
      | Some di \<Rightarrow>
          if stored_key = None then (None, None, w)
          else let (memory_ok, w) = draw w in
            if \<not> memory_ok then (None, None, w)
            else let wk = zero_wrapped_key\<lparr>wk_derivation_inputs := di\<rparr> in
              (case stored_key_get_key stored_key of None \<Rightarrow> (None, Some wk, w)
              | Some key \<Rightarrow>
                  let key_length = stored_key_get_length stored_key;
                      (padded, padded_length, w) = pad True (Some (take key_length key)) w;
                      wk = wk\<lparr>wk_ciphertext := padded,
                        wk_ciphertext_length := (case padded_length of None \<Rightarrow> 0 | Some n \<Rightarrow> of_nat n)\<rparr> in
                  if padded = None then (None, Some wk, w)
                  else (case stored_key_get_header stored_key of None \<Rightarrow> (None, Some wk, w)
                  | Some header \<Rightarrow>
                      let wk = wk\<lparr>wk_header := header\<rparr>; (iv, w) = rand_bytes AES_BLOCK_SIZE w in
                      (case iv of None \<Rightarrow> (None, Some wk, w)
                      | Some v \<Rightarrow>
                          let wk = wk\<lparr>wk_iv := v\<rparr>;
                              (status, ct, w) = otp_wrap_aes_cbc cr True (Some (wrapping_key_inputs di))
                                (wk_ciphertext wk) (Some (wk_iv wk)) w in
                          if status \<noteq> SA_STATUS_OK then (None, Some wk, w)
                          else let wk = wk\<lparr>wk_ciphertext := ct\<rparr>;
                                   (status, mac, w) = otp_hmac_sha256 cr True (Some (integrity_key_inputs di))
                                     (encode_header (wk_header wk))
                                     (encode_cipher_parameters (wk_iv wk) (wk_ciphertext_length wk))
                                     (the (wk_ciphertext wk)) w in
                            if status \<noteq> SA_STATUS_OK then (None, Some wk, w)
                            else (Some (wk\<lparr>wk_mac := the mac\<rparr>), None, w)))))"

definition wrapped_key_unwrap :: "crypto \<Rightarrow> wrapped_key option \<Rightarrow> world \<Rightarrow> stored_key option \<times> world" where
  "wrapped_key_unwrap cr wrapped_key w = (case wrapped_key of None \<Rightarrow> (None, w)
     | Some wk \<Rightarrow> unwrap_key cr (Some (wk_derivation_inputs wk)) (Some (encode_header (wk_header wk)))
         (Some (wk_iv wk, wk_ciphertext_length wk)) (wk_ciphertext wk) (Some (wk_mac wk)) w)"

section \<open>The store\<close>

definition key_store_init :: "wrapped_key heap \<Rightarrow> u64 \<Rightarrow> world \<Rightarrow> wrapped_key typed_store option \<times> world" where
  "key_store_init h size' w = typed_init h size' w"

definition key_store_shutdown ::
  "wrapped_key typed_store \<Rightarrow> world \<Rightarrow> (wrapped_key list \<times> wrapped_key typed_store \<times> world) option" where
  "key_store_shutdown store w = typed_shutdown (\<lambda>wk. [wk]) store w"

definition random_inputs :: "u8 list \<Rightarrow> derivation_inputs" where
  "random_inputs bs = \<lparr>
     wrapping_key_inputs = \<lparr>kl_c1 = slice 0 16 bs, kl_c2 = slice 16 16 bs, kl_c3 = slice 32 16 bs\<rparr>,
     integrity_key_inputs = \<lparr>kl_c1 = slice 48 16 bs, kl_c2 = slice 64 16 bs, kl_c3 = slice 80 16 bs\<rparr>\<rparr>"

definition key_store_import_stored_key ::
  "crypto \<Rightarrow> bool \<Rightarrow> wrapped_key typed_store \<Rightarrow> stored_key option \<Rightarrow> sa_uuid option \<Rightarrow> world \<Rightarrow>
   sa_status \<times> u64 \<times> wrapped_key typed_store \<times> world" where
  "key_store_import_stored_key cr key_given store stored_key caller_uuid w =
     (if \<not> key_given then (SA_STATUS_NULL_PARAMETER, INVALID_HANDLE, store, w)
      else if ts_store store = None then (SA_STATUS_NULL_PARAMETER, INVALID_HANDLE, store, w)
      else if stored_key = None then (SA_STATUS_NULL_PARAMETER, INVALID_HANDLE, store, w)
      else (case caller_uuid of None \<Rightarrow> (SA_STATUS_NULL_PARAMETER, INVALID_HANDLE, store, w)
      | Some caller \<Rightarrow> (case stored_key_get_header stored_key of
          None \<Rightarrow> (SA_STATUS_INVALID_KEY_FORMAT, INVALID_HANDLE, store, w)
        | Some header \<Rightarrow>
            if \<not> validate_header_format (Some header)
            then (SA_STATUS_INVALID_KEY_FORMAT, INVALID_HANDLE, store, w)
            else (case rand_bytes 96 w of
              (None, w) \<Rightarrow> (SA_STATUS_INTERNAL_ERROR, INVALID_HANDLE, store, w)
            | (Some bs, w) \<Rightarrow> (case wrapped_key_create cr (Some (random_inputs bs)) stored_key w of
                (None, _, w) \<Rightarrow> (SA_STATUS_INTERNAL_ERROR, INVALID_HANDLE, store, w)
              | (Some wk, _, w) \<Rightarrow> typed_add store wk caller w)))))"

definition key_store_import_exported ::
  "crypto \<Rightarrow> bool \<Rightarrow> wrapped_key typed_store \<Rightarrow> u8 list option \<Rightarrow> sa_uuid option \<Rightarrow> world \<Rightarrow>
   sa_status \<times> u64 \<times> wrapped_key typed_store \<times> world" where
  "key_store_import_exported cr key_given store exported caller_uuid w =
     (if \<not> key_given then (SA_STATUS_NULL_PARAMETER, INVALID_HANDLE, store, w)
      else if ts_store store = None then (SA_STATUS_NULL_PARAMETER, INVALID_HANDLE, store, w)
      else (case exported of None \<Rightarrow> (SA_STATUS_NULL_PARAMETER, INVALID_HANDLE, store, w)
      | Some bytes \<Rightarrow>
          if caller_uuid = None then (SA_STATUS_NULL_PARAMETER, INVALID_HANDLE, store, w)
          else let exported_length = length bytes;
                   min_exported_length = AES_BLOCK_SIZE + SIZEOF_HEADER + SIZEOF_CIPHER_PARAMETERS +
                     AES_BLOCK_SIZE + SIZEOF_SIGNATURE in
            if exported_length < min_exported_length then (SA_STATUS_INVALID_KEY_FORMAT, INVALID_HANDLE, store, w)
            else let mixin = slice 0 AES_BLOCK_SIZE bytes;
                     hdr_bytes = slice AES_BLOCK_SIZE SIZEOF_HEADER bytes in
              if \<not> validate_header_format (Some (decode_header hdr_bytes))
              then (SA_STATUS_INVALID_KEY_FORMAT, INVALID_HANDLE, store, w)
              else let iv = slice (AES_BLOCK_SIZE + SIZEOF_HEADER) 16 bytes;
                       ct_length = of_nat (le_value (slice (AES_BLOCK_SIZE + SIZEOF_HEADER + 16) 8 bytes)) :: u64 in
                if unat ct_length < AES_BLOCK_SIZE \<or> unat ct_length mod AES_BLOCK_SIZE \<noteq> 0
                then (SA_STATUS_INVALID_KEY_FORMAT, INVALID_HANDLE, store, w)
                else let required_exported_length = of_nat (AES_BLOCK_SIZE + SIZEOF_HEADER + SIZEOF_CIPHER_PARAMETERS) +
                       ct_length + of_nat SIZEOF_SIGNATURE in
                  if of_nat exported_length \<noteq> required_exported_length
                  then (SA_STATUS_INVALID_KEY_FORMAT, INVALID_HANDLE, store, w)
                  else let offset = AES_BLOCK_SIZE + SIZEOF_HEADER + SIZEOF_CIPHER_PARAMETERS;
                           ct = slice offset (unat ct_length) bytes;
                           mac = slice (offset + unat ct_length) SIZEOF_SIGNATURE bytes;
                           (stored_key, w) = unwrap_key cr (Some (apply_mixin mixin)) (Some hdr_bytes)
                             (Some (iv, ct_length)) (Some ct) (Some mac) w in
                    if stored_key = None then (SA_STATUS_INVALID_KEY_FORMAT, INVALID_HANDLE, store, w)
                    else key_store_import_stored_key cr key_given store stored_key caller_uuid w))"

text \<open>\<open>release\<close>: the common end of the next three functions, whose result the code ignores.\<close>

definition key_store_release_key ::
  "wrapped_key typed_store \<Rightarrow> u64 \<Rightarrow> addr \<Rightarrow> sa_uuid option \<Rightarrow> world \<Rightarrow> wrapped_key typed_store \<times> world" where
  "key_store_release_key store key a caller_uuid w =
     (let (status, st, w) = object_store_release (ts_store store) key a caller_uuid w in
      (store\<lparr>ts_store := st\<rparr>, w))"

definition key_store_unwrap ::
  "crypto \<Rightarrow> bool \<Rightarrow> wrapped_key typed_store \<Rightarrow> u64 \<Rightarrow> sa_uuid option \<Rightarrow> world \<Rightarrow>
   sa_status \<times> stored_key option \<times> wrapped_key typed_store \<times> world" where
  "key_store_unwrap cr stored_key_given store key caller_uuid w =
     (if \<not> stored_key_given then (SA_STATUS_NULL_PARAMETER, None, store, w)
      else if ts_store store = None then (SA_STATUS_NULL_PARAMETER, None, store, w)
      else if key \<ge> object_store_size (ts_store store) then (SA_STATUS_INVALID_PARAMETER, None, store, w)
      else if caller_uuid = None then (SA_STATUS_NULL_PARAMETER, None, store, w)
      else let (status, a, st, w) = object_store_acquire True (ts_store store) key caller_uuid w;
               store = store\<lparr>ts_store := st\<rparr>;
               (status, stored_key, w) =
                 (if status \<noteq> SA_STATUS_OK then (status, None, w)
                  else let wk = cells (ts_heap store) a;
                           rights = map_option (\<lambda>wk. hdr_rights (wk_header wk)) wk in
                    if \<not> rights_allowed_uuid rights caller_uuid then (SA_STATUS_OPERATION_NOT_ALLOWED, None, w)
                    else if \<not> rights_allowed_time rights (w_time w) then (SA_STATUS_OPERATION_NOT_ALLOWED, None, w)
                    else (case w_video w of None \<Rightarrow> (SA_STATUS_OPERATION_NOT_ALLOWED, None, w)
                    | Some video \<Rightarrow>
                        if \<not> rights_allowed_video_output_state rights (Some video)
                        then (SA_STATUS_OPERATION_NOT_ALLOWED, None, w)
                        else (case wrapped_key_unwrap cr wk w of
                            (None, w) \<Rightarrow> (SA_STATUS_INTERNAL_ERROR, None, w)
                          | (Some sk, w) \<Rightarrow> (SA_STATUS_OK, Some sk, w))));
               (store, w) = key_store_release_key store key a caller_uuid w in
        (status, stored_key, store, w))"

definition key_store_get_header ::
  "bool \<Rightarrow> wrapped_key typed_store \<Rightarrow> u64 \<Rightarrow> sa_uuid option \<Rightarrow> world \<Rightarrow>
   sa_status \<times> sa_header option \<times> wrapped_key typed_store \<times> world" where
  "key_store_get_header header_given store key caller_uuid w =
     (if \<not> header_given then (SA_STATUS_NULL_PARAMETER, None, store, w)
      else if ts_store store = None then (SA_STATUS_NULL_PARAMETER, None, store, w)
      else if key \<ge> object_store_size (ts_store store) then (SA_STATUS_INVALID_PARAMETER, None, store, w)
      else if caller_uuid = None then (SA_STATUS_NULL_PARAMETER, None, store, w)
      else let (status, a, st, w) = object_store_acquire True (ts_store store) key caller_uuid w;
               store = store\<lparr>ts_store := st\<rparr>;
               header = (if status \<noteq> SA_STATUS_OK then None
                 else map_option (\<lambda>wk. let h = wk_header wk in
                   \<lparr>hdr_magic = MAGIC, hdr_rights = hdr_rights h, hdr_type = hdr_type h,
                    hdr_type_parameters = hdr_type_parameters h, hdr_size = hdr_size h\<rparr>) (cells (ts_heap store) a));
               (store, w) = key_store_release_key store key a caller_uuid w in
        (status, header, store, w))"

definition DEFAULT_MIXIN :: "u8 list" where
  "DEFAULT_MIXIN = replicate 16 0"

text \<open>
  The result: status, the bytes written to \<open>out\<close> and the value written to \<open>*out_length\<close>, if any.
  \<open>out_length\<close> is the value passed in, \<open>None\<close> for a NULL pointer.
\<close>

definition key_store_export ::
  "crypto \<Rightarrow> bool \<Rightarrow> u64 option \<Rightarrow> wrapped_key typed_store \<Rightarrow> u64 \<Rightarrow> u8 list option \<Rightarrow> sa_uuid option \<Rightarrow> world \<Rightarrow>
   sa_status \<times> u8 list option \<times> u64 option \<times> wrapped_key typed_store \<times> world" where
  "key_store_export cr out_given out_length store key mixin caller_uuid w =
     (case out_length of None \<Rightarrow> (SA_STATUS_NULL_PARAMETER, None, None, store, w)
      | Some capacity \<Rightarrow>
      if ts_store store = None then (SA_STATUS_NULL_PARAMETER, None, None, store, w)
      else if key \<ge> object_store_size (ts_store store) then (SA_STATUS_INVALID_PARAMETER, None, None, store, w)
      else if (case mixin of None \<Rightarrow> False | Some m \<Rightarrow> length m \<noteq> AES_BLOCK_SIZE)
      then (SA_STATUS_INVALID_PARAMETER, None, None, store, w)
      else if caller_uuid = None then (SA_STATUS_NULL_PARAMETER, None, None, store, w)
      else let mixin = (case mixin of None \<Rightarrow> DEFAULT_MIXIN | Some m \<Rightarrow> m);
               (status, a, st, w) = object_store_acquire True (ts_store store) key caller_uuid w;
               store = store\<lparr>ts_store := st\<rparr>;
               (status, out, written_length, w) =
                 (if status \<noteq> SA_STATUS_OK then (status, None, None, w)
                  else (case cells (ts_heap store) a of None \<Rightarrow> (SA_STATUS_INTERNAL_ERROR, None, None, w)
                  | Some wk \<Rightarrow>
                      if \<not> SA_USAGE_BIT_TEST (usage_flags (hdr_rights (wk_header wk))) SA_USAGE_FLAG_CACHEABLE
                      then (SA_STATUS_OPERATION_NOT_ALLOWED, None, None, w)
                      else let required_out_length =
                             of_nat (AES_BLOCK_SIZE + SIZEOF_HEADER + SIZEOF_CIPHER_PARAMETERS) +
                             wk_ciphertext_length wk + of_nat SIZEOF_SIGNATURE in
                        if \<not> out_given then (SA_STATUS_OK, None, Some required_out_length, w)
                        else if required_out_length > capacity then (SA_STATUS_INVALID_PARAMETER, None, None, w)
                        else (case wrapped_key_unwrap cr (Some wk) w of
                            (None, w) \<Rightarrow> (SA_STATUS_INTERNAL_ERROR, None, None, w)
                          | (Some sk, w) \<Rightarrow> (case wrapped_key_create cr (Some (apply_mixin mixin)) (Some sk) w of
                                (None, _, w) \<Rightarrow> (SA_STATUS_INTERNAL_ERROR, None, None, w)
                              | (Some rk, _, w) \<Rightarrow> (SA_STATUS_OK,
                                  Some (take AES_BLOCK_SIZE mixin @ encode_header (wk_header rk) @
                                    encode_cipher_parameters (wk_iv rk) (wk_ciphertext_length rk) @
                                    the (wk_ciphertext rk) @ wk_mac rk),
                                  Some required_out_length, w)))));
               (store, w) = key_store_release_key store key a caller_uuid w in
        (status, out, written_length, store, w))"

definition key_store_remove ::
  "interference list \<Rightarrow> wrapped_key typed_store \<Rightarrow> u64 \<Rightarrow> sa_uuid option \<Rightarrow> world \<Rightarrow>
   (sa_status \<times> wrapped_key list \<times> wrapped_key typed_store \<times> world) option" where
  "key_store_remove others store key caller_uuid w = typed_remove (\<lambda>wk. [wk]) others store key caller_uuid w"

section \<open>Wrapping and unwrapping\<close>

definition di_ok :: "derivation_inputs \<Rightarrow> bool" where
  "di_ok di \<longleftrightarrow> inputs_ok (wrapping_key_inputs di) \<and> inputs_ok (integrity_key_inputs di)"

text \<open>A stored key as \<open>stored_key_create\<close> makes it, with the sizes of the C arrays.\<close>

definition sk_valid :: "stored_key \<Rightarrow> bool" where
  "sk_valid sk \<longleftrightarrow> header_wf (sk_header sk) \<and> validate_header_format (Some (sk_header sk)) \<and>
     length (sk_key sk) < 2 ^ 32"

definition container_mac :: "crypto \<Rightarrow> u8 list \<Rightarrow> derivation_inputs \<Rightarrow> u8 list \<Rightarrow> u8 list \<Rightarrow> u64 \<Rightarrow> u8 list \<Rightarrow> u8 list" where
  "container_mac cr root di hdr iv n ct = hmac_function cr SA_DIGEST_ALGORITHM_SHA256
     (ladder_key cr root (integrity_key_inputs di)) (hdr @ encode_cipher_parameters iv n @ ct)"

lemma validate_header_iff:
  assumes "header_wf h"
  shows "validate_header_format (Some h) \<longleftrightarrow> hdr_magic h = MAGIC \<and> rights_validate_format (Some (hdr_rights h)) \<and>
    key_type_supports_any (hdr_type h) (ucast (curve_code (tp_curve (hdr_type_parameters h)))) (ucast (hdr_size h))"
proof -
  have "memory_memcmp_constant (hdr_magic h) MAGIC 4 = 0 \<longleftrightarrow> hdr_magic h = MAGIC"
    using assms memcmp_eq_0_iff [of 4 "hdr_magic h" MAGIC] by (simp add: header_wf_def MAGIC_def)
  then show ?thesis by (auto simp: validate_header_format_def)
qed

lemma rand_bytes_env: "rand_bytes n w = (b, w') \<Longrightarrow> w_root_key w' = w_root_key w"
  by (auto simp: rand_bytes_def Let_def split: prod.splits if_splits)

lemma rand_bytes_no_faults:
  "w_faults w = [] \<Longrightarrow> \<exists>bs w'. rand_bytes n w = (Some bs, w') \<and> length bs = n \<and> w_faults w' = []"
  by (auto simp: rand_bytes_def)

lemma wrapped_key_create_success:
  assumes "wrapped_key_create cr (Some di) (Some sk) w = (Some wk, fr, w')" "provisioned w"
  obtains v where "length v = 16" "w_root_key w' = w_root_key w"
    "wk = \<lparr>wk_header = sk_header sk, wk_iv = v, wk_ciphertext_length = of_nat (PADDED_SIZE (length (sk_key sk))),
       wk_ciphertext = Some (aes_cbc_encrypt cr (ladder_key cr (w_root_key w) (wrapping_key_inputs di)) v (pkcs7 (sk_key sk))),
       wk_mac = container_mac cr (w_root_key w) di (encode_header (sk_header sk)) v
         (of_nat (PADDED_SIZE (length (sk_key sk))))
         (aes_cbc_encrypt cr (ladder_key cr (w_root_key w) (wrapping_key_inputs di)) v (pkcs7 (sk_key sk))),
       wk_derivation_inputs = di\<rparr>"
proof -
  obtain b1 w1 b2 w2 where d: "draw w = (b1, w1)" "draw w1 = (b2, w2)" by fastforce
  obtain iv w3 where rnd: "rand_bytes 16 w2 = (iv, w3)" by fastforce
  from assms(1) d rnd have b: "b1" "b2" "iv \<noteq> None"
    by (auto simp: wrapped_key_create_def stored_key_get_key_def stored_key_get_length_def pad_success
        stored_key_get_header_def AES_BLOCK_SIZE_def Let_def split: if_splits option.splits prod.splits)
  then obtain v where v: "iv = Some v" by blast
  let ?ct = "pkcs7 (sk_key sk)"
  obtain s c w4 where wrap: "otp_wrap_aes_cbc cr True (Some (wrapping_key_inputs di)) (Some ?ct) (Some v) w3 = (s, c, w4)"
    using prod_cases3 by blast
  obtain s' m w5 where mac: "otp_hmac_sha256 cr True (Some (integrity_key_inputs di)) (encode_header (sk_header sk))
      (encode_cipher_parameters v (of_nat (PADDED_SIZE (length (sk_key sk))))) (the c) w4 = (s', m, w5)"
    using prod_cases3 by blast
  from assms(1) d rnd b v wrap mac have ok: "s = SA_STATUS_OK" "s' = SA_STATUS_OK" and w': "w' = w5" and
    wk: "wk = \<lparr>wk_header = sk_header sk, wk_iv = v, wk_ciphertext_length = of_nat (PADDED_SIZE (length (sk_key sk))),
       wk_ciphertext = c, wk_mac = the m, wk_derivation_inputs = di\<rparr>"
    by (auto simp: wrapped_key_create_def stored_key_get_key_def stored_key_get_length_def pad_success
        stored_key_get_header_def AES_BLOCK_SIZE_def Let_def zero_wrapped_key_def split: if_splits)
  have root: "provisioned w3" "w_root_key w3 = w_root_key w"
    using assms(2) d rand_bytes_env [OF rnd] by (simp_all add: provisioned_def)
  note r1 = otp_wrap_success [OF wrap [unfolded ok] root(1)]
  have p4: "provisioned w4" using r1(2) root by (simp add: provisioned_def)
  note r2 = otp_hmac_success [OF mac [unfolded ok] p4]
  show ?thesis
    using that [of v] rand_bytes_length [OF rnd [unfolded v]] r1 r2 root w' wk
    by (simp add: container_mac_def)
qed

lemma unwrap_key_success:
  assumes "unwrap_key cr (Some di) (Some hdr) (Some (iv, n)) (Some ct) (Some mac) w = (Some sk, w')"
    "provisioned w"
  defines "clear \<equiv> aes_cbc_decrypt cr (ladder_key cr (w_root_key w) (wrapping_key_inputs di)) iv (take (unat n) ct)"
  obtains v where "unat n \<ge> 16"
    "memory_memcmp_constant (container_mac cr (w_root_key w) di hdr iv n (take (unat n) ct)) mac 32 = 0"
    "pad_check_pkcs7 True (Some (drop (unat n - 16) clear)) = (True, Some v)"
    "sk = stored_key_result (hdr_rights (decode_header hdr)) None (hdr_type (decode_header hdr))
       (hdr_type_parameters (decode_header hdr)) (ucast (hdr_size (decode_header hdr)))
       (take (unat n - unat v) clear)"
    "rights_validate_format (Some (hdr_rights (decode_header hdr)))"
    "w_root_key w' = w_root_key w"
proof -
  obtain s m w1 where h: "otp_hmac_sha256 cr True (Some (integrity_key_inputs di)) hdr
      (encode_cipher_parameters iv n) (take (unat n) ct) w = (s, m, w1)" using prod_cases3 by blast
  obtain b w2 where d: "draw w1 = (b, w2)" by fastforce
  obtain s2 cl w3 where u: "otp_unwrap_aes_cbc cr True (Some (wrapping_key_inputs di))
      (Some (take (unat n) ct)) (Some iv) w2 = (s2, cl, w3)" using prod_cases3 by blast
  obtain p v where pc: "pad_check_pkcs7 True (Some (drop (unat n - 16) (the cl))) = (p, v)"
    by fastforce
  obtain s3 sk' w4 where c: "stored_key_create True (Some (hdr_rights (decode_header hdr))) None
      (hdr_type (decode_header hdr)) (hdr_type_parameters (decode_header hdr)) (ucast (hdr_size (decode_header hdr)))
      (Some (take (unat n - unat (the v)) (the cl))) w3 = (s3, sk', w4)" using prod_cases3 by blast
  have s: "s = SA_STATUS_OK" "s2 = SA_STATUS_OK" "s3 = SA_STATUS_OK" "sk' = Some sk" "p" "unat n \<ge> 16" "w' = w4"
    and mac: "memory_memcmp_constant (the m) mac 32 = 0"
    using assms(1) h d u pc c
    by (auto simp: unwrap_key_def Let_def SHA256_DIGEST_LENGTH_def AES_BLOCK_SIZE_def split: if_splits)
  note m = otp_hmac_success [OF h [unfolded s] assms(2)]
  have p2: "provisioned w2" "w_root_key w2 = w_root_key w" using m(2) d assms(2) by (simp_all add: provisioned_def)
  note cl = otp_unwrap_success [OF u [unfolded s] p2(1)]
  have v: "v = Some (the v)"
    using pc s(5) by (auto simp: pad_check_pkcs7_def Let_def split: if_splits)
  have root: "w_root_key w4 = w_root_key w3"
    using c by (auto simp: stored_key_create_def Let_def split: if_splits prod.splits option.splits)
  from c [unfolded s] show ?thesis
  proof (rule stored_key_create_OK)
    fix rights bytes
    assume "Some (hdr_rights (decode_header hdr)) = Some rights"
      "Some (take (unat n - unat (the v)) (the cl)) = Some bytes"
      "Some sk = Some (stored_key_result rights None (hdr_type (decode_header hdr))
         (hdr_type_parameters (decode_header hdr)) (ucast (hdr_size (decode_header hdr))) bytes)"
      "rights_validate_format (Some rights)"
    then show ?thesis
      using that [of "the v"] s(5-7) mac m cl p2 pc v root
      by (simp add: clear_def container_mac_def)
  qed
qed

lemma stored_key_create_no_faults:
  assumes "w_faults w = []" "sk_valid sk"
  shows "stored_key_create True (Some (hdr_rights (sk_header sk))) None (hdr_type (sk_header sk))
     (hdr_type_parameters (sk_header sk)) (ucast (hdr_size (sk_header sk))) (Some (sk_key sk)) w =
   (SA_STATUS_OK, Some sk, w)"
proof -
  have "validate_header_format (Some (sk_header sk))" "header_wf (sk_header sk)"
    using assms(2) by (simp_all add: sk_valid_def)
  moreover have "ucast (ucast (hdr_size (sk_header sk)) :: u64) = hdr_size (sk_header sk)"
    using unsigned_less [where 'a = nat, of "hdr_size (sk_header sk)"]
    by (simp add: word_unat_eq_iff unsigned_ucast_eq unsigned_take_bit_eq take_bit_nat_eq_self)
  ultimately show ?thesis
    using assms(1) by (cases sk; cases "sk_header sk")
      (simp add: validate_header_iff stored_key_create_def restrict_child_rights_def)
qed

lemma ciphertext_length_value:
  assumes "length bs < 2 ^ 32"
  shows "unat (of_nat (PADDED_SIZE (length bs)) :: u64) = PADDED_SIZE (length bs)"
proof -
  have "PADDED_SIZE (length bs) < 2 ^ 64" using assms pad_len_bounds(2) [of "length bs"] by (simp add: PADDED_SIZE_eq)
  then show ?thesis by (simp add: unat_of_nat take_bit_nat_eq_self)
qed

text \<open>What was wrapped on a device unwraps there to the same key, whatever was between.\<close>

lemma unwrap_wrapped:
  assumes ok: "crypto_ok cr" "di_ok di" "sk_valid sk" "provisioned w" "w_faults w = []"
    and ct: "ct = aes_cbc_encrypt cr (ladder_key cr (w_root_key w) (wrapping_key_inputs di)) v (pkcs7 (sk_key sk))"
    and n: "n = of_nat (PADDED_SIZE (length (sk_key sk)))"
    and mac: "mac = container_mac cr (w_root_key w) di (encode_header (sk_header sk)) v n ct"
  shows "unwrap_key cr (Some di) (Some (encode_header (sk_header sk))) (Some (v, n)) (Some ct) (Some mac) w = (Some sk, w)"
proof -
  let ?k = "sk_key sk"
  have un: "unat n = PADDED_SIZE (length ?k)" using ok(3) n by (simp add: ciphertext_length_value sk_valid_def)
  have len: "length ct = PADDED_SIZE (length ?k)" using ok(1) by (simp add: ct crypto_ok_def length_pkcs7)
  have di: "inputs_ok (wrapping_key_inputs di)" "inputs_ok (integrity_key_inputs di)"
    using ok(2) by (simp_all add: di_ok_def)
  note h = otp_hmac_no_faults [OF ok(5,4,1) di(2)]
  have m0: "memory_memcmp_constant mac mac 32 = 0"
    using memcmp_eq_0_iff [of 32 mac mac] ok(1) by (simp add: mac container_mac_def crypto_ok_def)
  have clear: "aes_cbc_decrypt cr (ladder_key cr (w_root_key w) (wrapping_key_inputs di)) v ct = pkcs7 ?k"
    using ok(1) PADDED_SIZE_facts(3) [of "length ?k"] by (simp add: ct crypto_ok_def length_pkcs7)
  have u: "otp_unwrap_aes_cbc cr True (Some (wrapping_key_inputs di)) (Some ct) (Some v) w =
      (SA_STATUS_OK, Some (pkcs7 ?k), w)"
    using otp_unwrap_no_faults [OF ok(5,4,1) di(1), of ct v] len PADDED_SIZE_facts(3) [of "length ?k"] clear by simp
  have cut: "take (PADDED_SIZE (length ?k) - pad_len (length ?k)) (pkcs7 ?k) = ?k"
    by (simp add: PADDED_SIZE_eq pkcs7_def)
  have hd: "decode_header (encode_header (sk_header sk)) = sk_header sk"
    using ok(3) by (simp add: sk_valid_def decode_encode_header)
  show ?thesis
    using h [of "encode_header (sk_header sk)" "encode_cipher_parameters v n" ct] m0 u cut un len ok(5)
      pad_check_pkcs7_last [of ?k] PADDED_SIZE_facts [of "length ?k"] stored_key_create_no_faults [OF ok(5,3)]
    by (simp add: unwrap_key_def hd AES_BLOCK_SIZE_def SHA256_DIGEST_LENGTH_def Let_def
        flip: mac container_mac_def)
qed

end
