(* ===== verification/Key_Store_Laws.thy ===== *)
theory Key_Store_Laws
  imports Key_Store
begin

text \<open>
  What the key store promises: a key that rests wrapped is the key that was imported, it is handed out
  only to a caller its rights allow, every operation gives back the use of the object it took, and an
  exported container is accepted only unaltered and with exactly its own length.
\<close>

section \<open>The invariant: every object wraps a valid key\<close>

definition wraps :: "crypto \<Rightarrow> u8 list \<Rightarrow> wrapped_key \<Rightarrow> stored_key \<Rightarrow> bool" where
  "wraps cr root wk sk \<longleftrightarrow> sk_valid sk \<and> di_ok (wk_derivation_inputs wk) \<and> wk_header wk = sk_header sk \<and>
     wk_ciphertext_length wk = of_nat (PADDED_SIZE (length (sk_key sk))) \<and>
     wk_ciphertext wk = Some (aes_cbc_encrypt cr
       (ladder_key cr root (wrapping_key_inputs (wk_derivation_inputs wk))) (wk_iv wk) (pkcs7 (sk_key sk))) \<and>
     length (wk_iv wk) = 16 \<and>
     wk_mac wk = container_mac cr root (wk_derivation_inputs wk) (encode_header (wk_header wk)) (wk_iv wk)
       (wk_ciphertext_length wk) (the (wk_ciphertext wk))"

definition keys_ok :: "crypto \<Rightarrow> u8 list \<Rightarrow> wrapped_key typed_store \<Rightarrow> bool" where
  "keys_ok cr root ts \<longleftrightarrow> ts_ok ts \<and> (\<forall>a wk. cells (ts_heap ts) a = Some wk \<longrightarrow> (\<exists>sk. wraps cr root wk sk))"

lemma wraps_create:
  assumes "wrapped_key_create cr (Some di) (Some sk) w = (Some wk, fr, w')" "provisioned w" "sk_valid sk" "di_ok di"
  shows "wraps cr (w_root_key w) wk sk \<and> w_root_key w' = w_root_key w \<and> wk_derivation_inputs wk = di"
  by (rule wrapped_key_create_success [OF assms(1,2)]) (use assms(3,4) in \<open>auto simp: wraps_def\<close>)

lemma wraps_unwrap:
  assumes "wraps cr (w_root_key w) wk sk" "crypto_ok cr" "provisioned w" "w_faults w = []"
  shows "wrapped_key_unwrap cr (Some wk) w = (Some sk, w)"
  using unwrap_wrapped [OF assms(2) _ _ assms(3,4)] assms(1)
  by (auto simp: wrapped_key_unwrap_def wraps_def)

lemma wraps_unwrap_success:
  assumes wr: "wraps cr (w_root_key w) wk sk" and ok: "crypto_ok cr" "provisioned w"
    and r: "wrapped_key_unwrap cr (Some wk) w = (Some sk', w')"
  shows "sk' = sk \<and> w_root_key w' = w_root_key w"
proof -
  let ?di = "wk_derivation_inputs wk" and ?n = "wk_ciphertext_length wk" and ?ct = "the (wk_ciphertext wk)"
  have sk: "sk_valid sk" and ct: "wk_ciphertext wk = Some ?ct"
    and h: "decode_header (encode_header (wk_header wk)) = sk_header sk"
    and n: "unat ?n = PADDED_SIZE (length (sk_key sk))"
    using wr by (auto simp: wraps_def sk_valid_def decode_encode_header ciphertext_length_value)
  have len: "length ?ct = PADDED_SIZE (length (sk_key sk))"
    using wr ok(1) by (simp add: wraps_def crypto_ok_def length_pkcs7)
  have clear: "aes_cbc_decrypt cr (ladder_key cr (w_root_key w) (wrapping_key_inputs ?di)) (wk_iv wk)
      (take (unat ?n) ?ct) = pkcs7 (sk_key sk)"
    using wr ok(1) len n PADDED_SIZE_facts(3) [of "length (sk_key sk)"]
    by (simp add: wraps_def crypto_ok_def length_pkcs7)
  have u: "unwrap_key cr (Some ?di) (Some (encode_header (wk_header wk))) (Some (wk_iv wk, ?n)) (Some ?ct)
      (Some (wk_mac wk)) w = (Some sk', w')"
    using r ct by (simp add: wrapped_key_unwrap_def)
  show ?thesis
  proof (rule unwrap_key_success [OF u ok(2)], unfold clear h, unfold n)
    fix v
    assume pc: "pad_check_pkcs7 True (Some (drop (PADDED_SIZE (length (sk_key sk)) - 16) (pkcs7 (sk_key sk)))) = (True, Some v)"
      and sk': "sk' = stored_key_result (hdr_rights (sk_header sk)) None (hdr_type (sk_header sk))
         (hdr_type_parameters (sk_header sk)) (ucast (hdr_size (sk_header sk)))
         (take (PADDED_SIZE (length (sk_key sk)) - unat v) (pkcs7 (sk_key sk)))"
      and root: "w_root_key w' = w_root_key w"
    have "unat v = pad_len (length (sk_key sk))" using pc by (simp add: pad_check_pkcs7_last) (metis pad_len_value)
    then have "take (PADDED_SIZE (length (sk_key sk)) - unat v) (pkcs7 (sk_key sk)) = sk_key sk"
      by (simp add: PADDED_SIZE_eq pkcs7_def)
    with sk' have "sk' = stored_key_result (hdr_rights (sk_header sk)) None (hdr_type (sk_header sk))
         (hdr_type_parameters (sk_header sk)) (ucast (hdr_size (sk_header sk))) (sk_key sk)" by simp
    moreover have "\<dots> = sk"
      using stored_key_create_no_faults [OF _ sk, of "w\<lparr>w_faults := []\<rparr>"]
      by (auto elim!: stored_key_create_OK)
    ultimately show ?thesis using root by simp
  qed
qed

text \<open>
  C4: wrapping a key and unwrapping it on the same device gives the same key, header, rights and bytes:
  if \<open>wrapped_key_create\<close> succeeded, \<open>wrapped_key_unwrap\<close> returns the key whenever no library call
  fails, and never any other key when calls fail.
\<close>

theorem wrapped_key_roundtrip:
  assumes "crypto_ok cr" "provisioned w" "sk_valid sk" "di_ok di"
    and "wrapped_key_create cr (Some di) (Some sk) w = (Some wk, freed, w1)"
    and "w_root_key w2 = w_root_key w"
  shows "(w_faults w2 = [] \<longrightarrow> wrapped_key_unwrap cr (Some wk) w2 = (Some sk, w2)) \<and>
    (\<forall>sk' w3. wrapped_key_unwrap cr (Some wk) w2 = (Some sk', w3) \<longrightarrow> sk' = sk)"
proof -
  have wr: "wraps cr (w_root_key w2) wk sk" using wraps_create [OF assms(5,2-4)] assms(6) by simp
  have p: "provisioned w2" using assms(2,6) by (simp add: provisioned_def)
  show ?thesis using wraps_unwrap [OF wr assms(1) p] wraps_unwrap_success [OF wr assms(1) p] by blast
qed

text \<open>
  when the second allocation of \<open>wrapped_key_create\<close> fails, its clean-up clears a buffer that does
  not exist: \<open>pad\<close> has already written the ciphertext's length, so \<open>wrapped_key_free\<close> calls \<open>memset\<close>
  with a NULL pointer and a length that is not zero.
\<close>

theorem failed_pad_faults:
  assumes "w_faults w = [True, False]" "length (sk_key sk) < 2 ^ 32"
  shows "\<exists>wk w'. wrapped_key_create cr (Some di) (Some sk) w = (None, Some wk, w') \<and> wrapped_key_free_faults wk"
proof -
  have "unat (of_nat (PADDED_SIZE (length (sk_key sk))) :: u64) \<noteq> 0"
    using ciphertext_length_value [OF assms(2)] PADDED_SIZE_facts(4) [of "length (sk_key sk)"] by simp
  then have "(of_nat (PADDED_SIZE (length (sk_key sk))) :: u64) \<noteq> 0" by (metis unat_0)
  then show ?thesis
    using assms(1) by (simp add: wrapped_key_create_def draw_def stored_key_get_key_def stored_key_get_length_def
        pad_success wrapped_key_free_faults_def memset_faults_def)
qed

section \<open>The operations keep the invariant\<close>

lemma keys_okD:
  "keys_ok cr root ts \<Longrightarrow> ts_ok ts"
  "keys_ok cr root ts \<Longrightarrow> cells (ts_heap ts) a = Some wk \<Longrightarrow> \<exists>sk. wraps cr root wk sk"
  by (auto simp: keys_ok_def)

lemma length_slice [simp]: "off + len \<le> length bs \<Longrightarrow> length (slice off len bs) = len"
  by (simp add: slice_def)

lemma random_inputs_ok: "length bs = 96 \<Longrightarrow> di_ok (random_inputs bs)"
  by (simp add: random_inputs_def di_ok_def inputs_ok_def)

lemma apply_mixin_ok: "length m = 16 \<Longrightarrow> di_ok (apply_mixin m)"
  by (simp add: apply_mixin_def di_ok_def inputs_ok_def export_derivation_inputs_def xor_bytes_def Let_def)

text \<open>Without failing library calls a key is always wrapped.\<close>

lemma wrapped_key_create_no_faults:
  assumes "w_faults w = []" "provisioned w" "crypto_ok cr" "di_ok di"
  shows "\<exists>wk w'. wrapped_key_create cr (Some di) (Some sk) w = (Some wk, None, w') \<and> w_faults w' = []"
proof -
  let ?w = "w\<lparr>w_rand := drop 16 (w_rand w)\<rparr>"
  have w: "w_faults ?w = []" "provisioned ?w" using assms(1,2) by (simp_all add: provisioned_def)
  have di: "inputs_ok (wrapping_key_inputs di)" "inputs_ok (integrity_key_inputs di)"
    using assms(4) by (simp_all add: di_ok_def)
  have m: "length (pkcs7 (sk_key sk)) mod 16 = 0"
    using PADDED_SIZE_facts(3) [of "length (sk_key sk)"] by (simp add: length_pkcs7)
  show ?thesis
    using assms(1) otp_wrap_no_faults [OF w assms(3) di(1) m] otp_hmac_no_faults [OF w assms(3) di(2)]
    by (simp add: wrapped_key_create_def stored_key_get_key_def stored_key_get_length_def
        stored_key_get_header_def pad_success rand_bytes_def AES_BLOCK_SIZE_def zero_wrapped_key_def Let_def)
qed

lemma unwrap_key_calm [calm_dest]:
  "unwrap_key cr di h cp ct m w = (r, w') \<Longrightarrow> w_faults w = [] \<longrightarrow> w_faults w' = []"
  by (auto simp: unwrap_key_def Let_def dest!: calm_dest split: option.splits if_splits prod.splits)

lemma wrapped_key_unwrap_calm [calm_dest]:
  "wrapped_key_unwrap cr wk w = (r, w') \<Longrightarrow> w_faults w = [] \<longrightarrow> w_faults w' = []"
  by (auto simp: wrapped_key_unwrap_def dest!: unwrap_key_calm split: option.splits)

lemma rand_bytes_calm [calm_dest]:
  "rand_bytes n w = (r, w') \<Longrightarrow> w_faults w = [] \<longrightarrow> w_faults w' = []"
  by (auto simp: rand_bytes_def Let_def dest!: draw_calm split: if_splits prod.splits)

lemma wrapped_key_create_calm [calm_dest]:
  "wrapped_key_create cr (Some di) (Some sk) w = (r, f, w') \<Longrightarrow> w_faults w = [] \<longrightarrow> w_faults w' = []"
  by (auto simp: wrapped_key_create_def stored_key_get_key_def stored_key_get_length_def
      stored_key_get_header_def pad_success Let_def dest!: calm_dest split: option.splits if_splits prod.splits)

lemma rand_bytes_clock [clock_dest]:
  "rand_bytes n w = (r, w') \<Longrightarrow> w_time w' = w_time w \<and> w_video w' = w_video w"
  by (auto simp: rand_bytes_def Let_def dest!: draw_clock split: if_splits prod.splits)

lemma wrapped_key_create_clock [clock_dest]:
  "wrapped_key_create cr (Some di) (Some sk) w = (r, f, w') \<Longrightarrow> w_time w' = w_time w \<and> w_video w' = w_video w"
  by (auto simp: wrapped_key_create_def stored_key_get_key_def stored_key_get_length_def
      stored_key_get_header_def pad_success Let_def dest!: clock_dest split: option.splits if_splits prod.splits)

text \<open>A successful import is the addition of a wrapped key of the imported one.\<close>

lemma import_stored_key_success:
  assumes "key_store_import_stored_key cr True ts (Some sk) (Some c) w = (SA_STATUS_OK, n, ts', w')"
    "provisioned w" "sk_valid sk" "crypto_ok cr"
  obtains wk w1 where "wraps cr (w_root_key w) wk sk" "typed_add ts wk c w1 = (SA_STATUS_OK, n, ts', w')"
    "w_root_key w1 = w_root_key w" "w_faults w = [] \<Longrightarrow> w_faults w1 = []"
    "w_time w1 = w_time w" "w_video w1 = w_video w"
proof -
  obtain bs w1 where rnd: "rand_bytes 96 w = (bs, w1)" by fastforce
  obtain wk fr w2 where cr: "wrapped_key_create cr (Some (random_inputs (the bs))) (Some sk) w1 = (wk, fr, w2)"
    using prod_cases3 by blast
  have ok: "bs = Some (the bs)" "wk = Some (the wk)" and add: "typed_add ts (the wk) c w2 = (SA_STATUS_OK, n, ts', w')"
    using assms(1) rnd cr
    by (auto simp: key_store_import_stored_key_def stored_key_get_header_def split: if_splits option.splits)
  have p1: "provisioned w1" "w_root_key w1 = w_root_key w"
    using assms(2) rand_bytes_env [OF rnd] by (simp_all add: provisioned_def)
  have di: "di_ok (random_inputs (the bs))"
    using rand_bytes_length [of 96 w "the bs" w1] rnd ok(1) by (intro random_inputs_ok) simp
  have "wrapped_key_create cr (Some (random_inputs (the bs))) (Some sk) w1 = (Some (the wk), fr, w2)"
    using cr ok(2) by simp
  from wraps_create [OF this p1(1) assms(3) di] p1(2)
  have "wraps cr (w_root_key w) (the wk) sk" "w_root_key w2 = w_root_key w" by simp_all
  moreover have "w_faults w2 = []" if "w_faults w = []"
  proof -
    have "w_faults w1 = []" using rand_bytes_no_faults [OF that, of 96] rnd by auto
    with wrapped_key_create_no_faults [OF _ p1(1) assms(4) di, of sk] cr show ?thesis by auto
  qed
  moreover have "w_time w2 = w_time w" "w_video w2 = w_video w"
    using rand_bytes_clock [OF rnd] wrapped_key_create_clock [OF cr] by simp_all
  ultimately show ?thesis using that [OF _ add] by blast
qed

text \<open>Without failing calls, a store with room imports every valid key.\<close>

lemma import_stored_key_succeeds:
  assumes "ts_ok ts" "ts_room ts" "w_faults w = []" "provisioned w" "sk_valid sk" "crypto_ok cr"
  shows "\<exists>n ts' w'. key_store_import_stored_key cr True ts (Some sk) (Some c) w = (SA_STATUS_OK, n, ts', w') \<and>
    w_faults w' = [] \<and> w_root_key w' = w_root_key w"
proof -
  obtain bs w1 where rnd: "rand_bytes 96 w = (Some bs, w1)" "length bs = 96" "w_faults w1 = []"
    using rand_bytes_no_faults [OF assms(3), of 96] by blast
  have root: "w_root_key w1 = w_root_key w" "provisioned w1"
    using rand_bytes_env [OF rnd(1)] assms(4) by (simp_all add: provisioned_def)
  obtain wk w2 where cr: "wrapped_key_create cr (Some (random_inputs bs)) (Some sk) w1 = (Some wk, None, w2)"
    and w2: "w_faults w2 = []"
    using wrapped_key_create_no_faults [OF rnd(3) root(2) assms(6) random_inputs_ok [OF rnd(2)]] by blast
  obtain n ts' where add: "typed_add ts wk c w2 = (SA_STATUS_OK, n, ts', w2)"
    using typed_add_room [OF assms(1,2) w2] by blast
  have "ts_store ts \<noteq> None" using ts_ok_Some [OF assms(1)] by auto
  then have "key_store_import_stored_key cr True ts (Some sk) (Some c) w = (SA_STATUS_OK, n, ts', w2)"
    using assms(5) rnd cr add
    by (simp add: key_store_import_stored_key_def stored_key_get_header_def sk_valid_def)
  moreover have "w_root_key w2 = w_root_key w"
    using wraps_create [OF cr root(2) assms(5) random_inputs_ok [OF rnd(2)]] root(1) by simp
  ultimately show ?thesis using w2 by blast
qed

lemma import_stored_key_error:
  assumes "key_store_import_stored_key cr g ts sk (Some c) w = (s, n, ts', w')" "s \<noteq> SA_STATUS_OK" "keys_ok cr root ts"
    "uuid_ok c"
  shows "keys_ok cr root ts' \<and> ts_entries ts' = ts_entries ts \<and> n = INVALID_HANDLE"
proof (cases "ts' = ts \<and> n = INVALID_HANDLE")
  case False
  then obtain wk w1 where "typed_add ts wk c w1 = (s, n, ts', w')"
    using assms(1) by (auto simp: key_store_import_stored_key_def Let_def split: if_splits option.splits prod.splits)
  from keys_okD(1) [OF assms(3)] assms(4) this show ?thesis
    by (rule typed_add_result) (use assms(2,3) in \<open>simp_all add: keys_ok_def\<close>)
qed (use assms(3) in simp)

lemma typed_add_keys_ok:
  assumes "keys_ok cr root ts" "uuid_ok c" "typed_add ts wk c w = (SA_STATUS_OK, n, ts', w')" "wraps cr root wk sk"
  shows "keys_ok cr root ts'"
  using keys_okD(1) [OF assms(1)] assms(2,3)
proof (rule typed_add_result)
  fix a
  assume ok: "ts_ok ts'" and v: "cells (ts_heap ts') a = Some wk"
    and same: "\<And>b. b \<noteq> a \<Longrightarrow> cells (ts_heap ts') b = cells (ts_heap ts) b"
  show ?thesis
    unfolding keys_ok_def
  proof (intro conjI allI impI)
    fix b k assume "cells (ts_heap ts') b = Some k"
    then show "\<exists>sk. wraps cr root k sk"
      using v same assms(1,4) by (cases "b = a") (auto simp: keys_ok_def)
  qed (rule ok)
qed simp

text \<open>
  C6: importing a key keeps the store's invariant (every object is the wrapping of a valid key, under
  fresh random ladder inputs) on every path; on an error the handle is the invalid one and the store
  has the entries it had.
\<close>

theorem key_store_import_keeps_keys_ok:
  assumes "keys_ok cr (w_root_key w) ts" "uuid_ok c" "crypto_ok cr" "provisioned w" "sk_valid sk"
    and "key_store_import_stored_key cr True ts (Some sk) (Some c) w = (s, n, ts', w')"
  shows "keys_ok cr (w_root_key w) ts' \<and> (s \<noteq> SA_STATUS_OK \<longrightarrow> n = INVALID_HANDLE \<and> ts_entries ts' = ts_entries ts)"
proof (cases "s = SA_STATUS_OK")
  case True
  with assms(6) have r: "key_store_import_stored_key cr True ts (Some sk) (Some c) w = (SA_STATUS_OK, n, ts', w')" by simp
  show ?thesis
    by (rule import_stored_key_success [OF r assms(4,5,3)])
      (use True typed_add_keys_ok [OF assms(1,2)] in blast)
next
  case False
  with import_stored_key_error [OF assms(6) False assms(1,2)] show ?thesis by simp
qed

section \<open>Unwrapping for a caller\<close>

text \<open>The rights a key demands, and that hold for this caller now.\<close>

definition may_use :: "sa_rights \<Rightarrow> sa_uuid \<Rightarrow> world \<Rightarrow> bool" where
  "may_use r c w \<longleftrightarrow> rights_allowed_uuid (Some r) (Some c) \<and> within_validity r (w_time w) \<and>
     (\<exists>v. w_video w = Some v \<and> outputs_allowed (usage_flag_set (usage_flags r)) v)"

text \<open>The 64-bit use count of the caller's own entry is not at its maximum.\<close>

definition usable :: "'a typed_store \<Rightarrow> u64 \<Rightarrow> sa_uuid \<Rightarrow> bool" where
  "usable ts n c \<longleftrightarrow> (case ts_entries ts (unat n) of None \<Rightarrow> True | Some (a, r, u) \<Rightarrow> u = c \<longrightarrow> r + 1 \<noteq> 0)"

lemma release_key_balanced:
  assumes "ts_ok ts" "uuid_ok c" "usable ts n c"
    and acq: "object_store_acquire True (ts_store ts) n (Some c) w = (s, a, st, w1)"
    and rel: "key_store_release_key (ts\<lparr>ts_store := st\<rparr>) n a (Some c) w2 = (ts', w3)" and w2: "w_faults w2 = []"
  shows "ts_entries ts' = ts_entries ts \<and> ts_heap ts' = ts_heap ts \<and> ts_ok ts' \<and> w3 = w2"
proof -
  obtain s' st' w3' where r: "object_store_release st n a (Some c) w2 = (s', st', w3')" using prod_cases3 by blast
  have eq: "ts' = ts\<lparr>ts_store := st'\<rparr>" "w3 = w3'" "w3' = w2"
    using rel r object_store_release_quiet [OF r w2] by (auto simp: key_store_release_key_def)
  note coh = reg.coherent_acquire [OF assms(1) [unfolded ts_ok_def] assms(2) acq]
  have ok': "ts_ok ts'" using reg.coherent_release [OF coh assms(2) r] by (simp add: ts_ok_def eq)
  show ?thesis
  proof (cases "s = SA_STATUS_OK")
    case True
    note acq' = acq [unfolded True]
    obtain k where k: "ts_entries ts (unat n) = Some (a, k, c)" "entries st = (ts_entries ts)(unat n \<mapsto> (a, k + 1, c))"
      and live: "store_live st"
      using reg.acquire_OK [OF ts_okD(1) [OF assms(1)] assms(2) acq'] by blast
    have "s' = SA_STATUS_OK"
      using reg.release_held [OF live assms(2) w2, of n a "k + 1"] k assms(3) r by (auto simp: usable_def)
    from reg.acquire_release_same [OF ts_okD(1) [OF assms(1)] assms(2) acq' r [unfolded this]] ok' eq
    show ?thesis by simp
  next
    case False
    then have "a = NULL" "st = ts_store ts"
      using reg.acquire_error [OF ts_okD(1) [OF assms(1)] assms(2) acq] by simp_all
    with object_store_release_null [of st n "Some c" w2] r eq ok' show ?thesis by simp
  qed
qed

text \<open>The shape of the three operations that use a key: acquire, work on the object, release.\<close>

lemma uses_key_balanced:
  assumes "ts_ok ts" "uuid_ok c" "usable ts n c" "w_faults w = []"
    and "object_store_acquire True (ts_store ts) n (Some c) w = (s, a, st, w1)"
    and "w_faults w1 = [] \<longrightarrow> w_faults w2 = []"
    and "key_store_release_key (ts\<lparr>ts_store := st\<rparr>) n a (Some c) w2 = (ts', w3)"
  shows "ts_entries ts' = ts_entries ts \<and> ts_heap ts' = ts_heap ts \<and> ts_ok ts'"
  using release_key_balanced [OF assms(1-3,5,7)] assms(4,6) object_store_acquire_quiet [OF assms(5,4)] by simp

definition balanced :: "'a typed_store \<Rightarrow> 'a typed_store \<Rightarrow> bool" where
  "balanced ts ts' \<longleftrightarrow> ts_entries ts' = ts_entries ts \<and> ts_heap ts' = ts_heap ts \<and> ts_ok ts'"

lemma key_store_unwrap_balanced:
  assumes ok: "ts_ok ts" "uuid_ok c" "usable ts n c" "w_faults w = []"
    and r: "key_store_unwrap cr g ts n (Some c) w = (s, sk, ts', w')"
  shows "balanced ts ts'"
proof -
  obtain s1 a st w1 where acq: "object_store_acquire True (ts_store ts) n (Some c) w = (s1, a, st, w1)"
    using prod_cases4 by blast
  have "ts' = ts \<or> (\<exists>w2. (w_faults w1 = [] \<longrightarrow> w_faults w2 = []) \<and>
      key_store_release_key (ts\<lparr>ts_store := st\<rparr>) n a (Some c) w2 = (ts', w'))"
    using r acq by (auto simp: key_store_unwrap_def Let_def dest: calm_dest
        split: if_splits option.splits prod.splits)
  then show ?thesis
    using uses_key_balanced [OF ok acq] ok(1) by (auto simp: balanced_def)
qed

lemma key_store_get_header_balanced:
  assumes ok: "ts_ok ts" "uuid_ok c" "usable ts n c" "w_faults w = []"
    and r: "key_store_get_header g ts n (Some c) w = (s, h, ts', w')"
  shows "balanced ts ts'"
proof -
  obtain s1 a st w1 where acq: "object_store_acquire True (ts_store ts) n (Some c) w = (s1, a, st, w1)"
    using prod_cases4 by blast
  have "ts' = ts \<or> key_store_release_key (ts\<lparr>ts_store := st\<rparr>) n a (Some c) w1 = (ts', w')"
    using r acq by (auto simp: key_store_get_header_def Let_def split: if_splits prod.splits)
  then show ?thesis
    using uses_key_balanced [OF ok acq, of w1] ok(1) by (auto simp: balanced_def)
qed

lemma key_store_export_balanced:
  assumes ok: "ts_ok ts" "uuid_ok c" "usable ts n c" "w_faults w = []"
    and r: "key_store_export cr g len ts n mixin (Some c) w = (s, out, len', ts', w')"
  shows "balanced ts ts'"
proof -
  obtain s1 a st w1 where acq: "object_store_acquire True (ts_store ts) n (Some c) w = (s1, a, st, w1)"
    using prod_cases4 by blast
  have "ts' = ts \<or> (\<exists>w2. (w_faults w1 = [] \<longrightarrow> w_faults w2 = []) \<and>
      key_store_release_key (ts\<lparr>ts_store := st\<rparr>) n a (Some c) w2 = (ts', w'))"
    using r acq by (auto simp: key_store_export_def Let_def dest: wrapped_key_unwrap_calm wrapped_key_create_calm
        split: if_splits option.splits prod.splits)
  then show ?thesis
    using uses_key_balanced [OF ok acq] ok(1) by (auto simp: balanced_def)
qed


text \<open>Whoever gets a key owns its handle, and the key's rights allow the use.\<close>

lemma key_store_unwrap_rights:
  assumes ok: "keys_ok cr (w_root_key w) ts" "uuid_ok c" "crypto_ok cr" "provisioned w"
    and r: "key_store_unwrap cr True ts n (Some c) w = (SA_STATUS_OK, result, ts', w')"
  shows "\<exists>a count wk sk. ts_entries ts (unat n) = Some (a, count, c) \<and> cells (ts_heap ts) a = Some wk \<and>
    wraps cr (w_root_key w) wk sk \<and> result = Some sk \<and> may_use (hdr_rights (sk_header sk)) c w"
proof -
  note ts = keys_okD(1) [OF ok(1)]
  obtain s1 a st w1 where acq: "object_store_acquire True (ts_store ts) n (Some c) w = (s1, a, st, w1)"
    using prod_cases4 by blast
  note env = object_store_acquire_env [OF acq]
  have s1: "s1 = SA_STATUS_OK"
    using r acq by (auto simp: key_store_unwrap_def Let_def split: if_splits prod.splits)
  obtain k where e: "ts_entries ts (unat n) = Some (a, k, c)"
    using reg.acquire_OK [OF ts_okD(1) [OF ts] ok(2) acq [unfolded s1]] by blast
  obtain wk where wk: "cells (ts_heap ts) a = Some wk" using ts_okD(3) [OF ts e] by blast
  obtain sk where sk: "wraps cr (w_root_key w) wk sk" using keys_okD(2) [OF ok(1) wk] by blast
  have h: "wk_header wk = sk_header sk" using sk by (simp add: wraps_def)
  have p1: "provisioned w1" using env ok(4) by (simp add: provisioned_def)
  obtain sk' w2 v where u: "wrapped_key_unwrap cr (Some wk) w1 = (Some sk', w2)" and res: "result = Some sk'"
    and use: "rights_allowed_uuid (Some (hdr_rights (sk_header sk))) (Some c)"
      "within_validity (hdr_rights (sk_header sk)) (w_time w1)" "w_video w1 = Some v"
      "rights_allowed_video_output_state (Some (hdr_rights (sk_header sk))) (Some v)"
    using r acq s1 wk h
    by (auto simp: key_store_unwrap_def Let_def simp del: rights_allowed_video_output_state_iff
        split: if_splits option.splits prod.splits)
  have "sk' = sk" using wraps_unwrap_success [OF _ ok(3) p1 u, of sk] sk env by simp
  moreover have "may_use (hdr_rights (sk_header sk)) c w"
    using use env unfolding may_use_def rights_allowed_video_output_state_iff by auto
  ultimately show ?thesis using e wk sk res by blast
qed

text \<open>
  C1: the store hands out a key only to the TA that owns the handle, and only when the key's rights
  allow that TA, the current time and the current video outputs; what it hands out is the very key
  the object wraps. This holds whatever library calls fail.
\<close>

theorem key_store_unwrap_enforces_rights:
  assumes ok: "keys_ok cr (w_root_key w) ts" "uuid_ok c" "crypto_ok cr" "provisioned w"
    and r: "key_store_unwrap cr True ts n (Some c) w = (SA_STATUS_OK, result, ts', w')"
  shows "\<exists>a count wk sk. ts_entries ts (unat n) = Some (a, count, c) \<and> cells (ts_heap ts) a = Some wk \<and>
    wraps cr (w_root_key w) wk sk \<and> result = Some sk \<and> may_use (hdr_rights (sk_header sk)) c w"
  by (rule key_store_unwrap_rights [OF assms])

text \<open>Without failing calls, the owner gets every key whose rights allow it.\<close>

lemma key_store_unwrap_succeeds:
  assumes ok: "keys_ok cr (w_root_key w) ts" "ts_running ts" "uuid_ok c" "crypto_ok cr" "provisioned w" "w_faults w = []"
    and e: "ts_entries ts (unat n) = Some (a, 0, c)" and wk: "cells (ts_heap ts) a = Some wk"
    and wr: "wraps cr (w_root_key w) wk sk" and use: "may_use (hdr_rights (wk_header wk)) c w"
  shows "\<exists>ts2. key_store_unwrap cr True ts n (Some c) w = (SA_STATUS_OK, Some sk, ts2, w) \<and>
    ts_entries ts2 = ts_entries ts"
proof -
  let ?r = "hdr_rights (wk_header wk)"
  obtain v where use': "rights_allowed_uuid (Some ?r) (Some c)" "within_validity ?r (w_time w)"
    "w_video w = Some v" "rights_allowed_video_output_state (Some ?r) (Some v)"
    using use unfolding may_use_def rights_allowed_video_output_state_iff by blast
  note ts = keys_okD(1) [OF ok(1)]
  obtain st where st: "ts_store ts = Some st" "store_ok st" "\<not> os_is_shutting_down st"
    using ts_ok_Some [OF ts] ok(2) by (auto simp: ts_running_def)
  obtain st' where acq: "object_store_acquire True (ts_store ts) n (Some c) w = (SA_STATUS_OK, a, Some st', w)"
    using object_store_acquire_owner [OF st(2) ok(3,6) _ st(3), of n a 0] e st(1) by auto
  obtain ts2 w3 where rel: "key_store_release_key (ts\<lparr>ts_store := Some st'\<rparr>) n a (Some c) w = (ts2, w3)"
    by fastforce
  have un: "wrapped_key_unwrap cr (Some wk) w = (Some sk, w)" by (rule wraps_unwrap [OF wr ok(4-6)])
  have bound: "\<not> n \<ge> object_store_size (ts_store ts)"
    using e st store_view_bound [of st "unat n"]
    by (simp add: object_store_size_def store_ok_length word_le_nat_alt)
  have "key_store_unwrap cr True ts n (Some c) w = (SA_STATUS_OK, Some sk, ts2, w3)"
    using acq rel bound st(1) wk un use' by (simp add: key_store_unwrap_def)
  moreover have "ts_entries ts2 = ts_entries ts \<and> w3 = w"
    using release_key_balanced [OF ts ok(3) _ acq rel ok(6)] e by (simp add: usable_def)
  ultimately show ?thesis by blast
qed

text \<open>
  C5: a key that was imported is the key the owner gets: if the import succeeded and the rights allow
  its use, unwrapping the returned handle succeeds with exactly the imported key, and leaves the
  store as it was.
\<close>

theorem key_store_import_unwrap:
  assumes ok: "keys_ok cr (w_root_key w) ts" "ts_running ts" "uuid_ok c" "crypto_ok cr" "provisioned w" "sk_valid sk"
    and w: "w_faults w = []"
    and imp: "key_store_import_stored_key cr True ts (Some sk) (Some c) w = (SA_STATUS_OK, n, ts1, w1)"
    and use: "may_use (hdr_rights (sk_header sk)) c w"
  shows "\<exists>ts2. key_store_unwrap cr True ts1 n (Some c) w1 = (SA_STATUS_OK, Some sk, ts2, w1) \<and>
    ts_entries ts2 = ts_entries ts1"
  using imp ok(5,6,4)
proof (rule import_stored_key_success)
  fix wk w0
  assume wr: "wraps cr (w_root_key w) wk sk" and t: "typed_add ts wk c w0 = (SA_STATUS_OK, n, ts1, w1)"
    and root: "w_root_key w0 = w_root_key w" and w0: "w_faults w = [] \<Longrightarrow> w_faults w0 = []"
    and clock: "w_time w0 = w_time w" "w_video w0 = w_video w"
  note q = typed_add_quiet [OF t w0 [OF w]]
  have w1: "w_faults w1 = []" "w_root_key w1 = w_root_key w" "provisioned w1" and mu: "may_use (hdr_rights (wk_header wk)) c w1"
    using q(1) w0 [OF w] root ok(5) use clock wr by (simp_all add: provisioned_def may_use_def wraps_def)
  have k1: "keys_ok cr (w_root_key w1) ts1" using typed_add_keys_ok [OF ok(1,3) t wr] w1(2) by simp
  from keys_okD(1) [OF ok(1)] ok(3) t show ?thesis
  proof (rule typed_add_result)
    fix a
    assume e: "ts_entries ts1 = (ts_entries ts)(unat n \<mapsto> (a, 0, c))" and wk: "cells (ts_heap ts1) a = Some wk"
    show ?thesis
      by (rule key_store_unwrap_succeeds [OF k1 q(2) [OF ok(2)] ok(3,4) w1(3,1) _ wk _ mu]) (use e wr w1(2) in simp_all)
  qed simp
qed

end
