(* ===== verification/Device.thy ===== *)
theory Device
  imports Symmetric Mac_Store Svp_Store Key_Store_Laws
begin

text \<open>
  What no operation of the stores and of the key material changes about the device it runs on: the clock,
  the video outputs, the memory of the TAs, the root key once it is loaded, and that library calls have stopped
  failing. The collection \<open>device\<close> has the operations
  as destruction rules, so that the same fact about a handler is found by automation.
\<close>

definition same_device :: "world \<Rightarrow> world \<Rightarrow> bool" where
  "same_device w w' \<longleftrightarrow> w_time w' = w_time w \<and> w_video w' = w_video w \<and> w_mem w' = w_mem w \<and>
     (provisioned w \<longrightarrow> w_root_key w' = w_root_key w) \<and> (w_faults w = [] \<longrightarrow> w_faults w' = [])"

named_theorems device \<open>operations that keep the device, as destruction rules\<close>

lemma same_device_refl [simp]: "same_device w w"
  by (simp add: same_device_def)

lemma same_device_trans [trans]: "same_device a b \<Longrightarrow> same_device b c \<Longrightarrow> same_device a c"
  unfolding same_device_def provisioned_def by metis

lemma same_deviceD:
  assumes "same_device w w'"
  shows "w_time w' = w_time w" "w_video w' = w_video w" "provisioned w \<Longrightarrow> w_root_key w' = w_root_key w"
    "provisioned w \<Longrightarrow> provisioned w'" "w_faults w = [] \<Longrightarrow> w_faults w' = []"
    "w_mem w' = w_mem w"
  using assms by (auto simp: same_device_def provisioned_def)

lemma draw_device [device]: "draw w = (b, w') \<Longrightarrow> same_device w w'"
  using draw_calm [of w b w'] by (simp add: same_device_def)

lemma draws_mem: "draws n w = (b, w') \<Longrightarrow> w_mem w' = w_mem w"
  by (induction n w rule: draws.induct) (auto simp: Let_def split: prod.splits if_splits)

lemma rand_bytes_mem: "rand_bytes n w = (bs, w') \<Longrightarrow> w_mem w' = w_mem w"
  by (auto simp: rand_bytes_def Let_def split: prod.splits if_splits)

lemma draws_device [device]: "draws n w = (b, w') \<Longrightarrow> same_device w w'"
  using draws_calm [of n w b w'] draws_clock [of n w b w'] draws_env [of n w b w'] draws_mem [of n w b w'] by (simp add: same_device_def)

lemma rand_bytes_device [device]: "rand_bytes n w = (bs, w') \<Longrightarrow> same_device w w'"
  using rand_bytes_calm [of n w bs w'] rand_bytes_clock [of n w bs w'] rand_bytes_env [of n w bs w'] rand_bytes_mem [of n w bs w'] by (simp add: same_device_def)

lemma ecb_device [device]: "unwrap_aes_ecb_internal cr g d k w = (s, out, w') \<Longrightarrow> same_device w w'"
  by (auto simp: unwrap_aes_ecb_internal_def Let_def dest!: device split: if_splits option.splits prod.splits)

lemma root_device [device]:
  "get_root_key cr n w = (k, w') \<Longrightarrow> same_device w w'"
  "get_common_root_key cr n w = (k, w') \<Longrightarrow> same_device w w'"
proof -
  show "get_root_key cr n w = (k, w') \<Longrightarrow> same_device w w'"
    by (auto simp: get_root_key_def same_device_def provisioned_def valid_ladder_key_def SYM_128_KEY_SIZE_def SYM_256_KEY_SIZE_def
        Let_def split: if_splits prod.splits)
  show "get_common_root_key cr n w = (k, w') \<Longrightarrow> same_device w w'"
    by (auto simp: get_common_root_key_def same_device_def Let_def split: if_splits prod.splits)
qed

text \<open>
  The chain rule for a definition that calls several of them: its proof unfolds the definition, collects
  the facts about the calls, and follows the chain.
\<close>

lemma ladder_device [device]: "otp_hw_key_ladder cr g t a b c w = (s, k, w') \<Longrightarrow> same_device w w'"
  by (auto simp: otp_hw_key_ladder_def Let_def dest!: device
      split: if_splits prod.splits sa_root_key_type.splits) (meson same_device_trans)+

lemma otp_hmac_device [device]: "otp_hmac_sha256 cr g kl a b c w = (s, m, w') \<Longrightarrow> same_device w w'"
  by (auto simp: otp_hmac_sha256_def hmac_internal_def Let_def dest!: device intro: same_device_trans
      simp del: filter.simps split: if_splits option.splits prod.splits)

lemma otp_wrap_device [device]: "otp_wrap_aes_cbc cr g kl d v w = (s, m, w') \<Longrightarrow> same_device w w'"
  by (auto simp: otp_wrap_aes_cbc_def wrap_aes_cbc_def Let_def dest!: device intro: same_device_trans
      split: if_splits option.splits prod.splits)

lemma otp_unwrap_device [device]: "otp_unwrap_aes_cbc cr g kl d v w = (s, m, w') \<Longrightarrow> same_device w w'"
  by (auto simp: otp_unwrap_aes_cbc_def unwrap_aes_cbc_internal_def Let_def dest!: device intro: same_device_trans
      split: if_splits option.splits prod.splits)

lemma stored_key_create_device [device]: "stored_key_create g r p t tp n bs w = (s, k, w') \<Longrightarrow> same_device w w'"
  by (auto simp: stored_key_create_def Let_def dest!: device intro: same_device_trans split: if_splits option.splits prod.splits)

lemma unwrap_key_device [device]: "unwrap_key cr di h cp ct m w = (r, w') \<Longrightarrow> same_device w w'"
  by (auto simp: unwrap_key_def Let_def dest!: device intro: same_device_trans split: option.splits if_splits prod.splits)

lemma wrapped_key_unwrap_device [device]: "wrapped_key_unwrap cr wk w = (r, w') \<Longrightarrow> same_device w w'"
  by (auto simp: wrapped_key_unwrap_def dest!: unwrap_key_device split: option.splits)

lemma wrapped_key_create_device [device]: "wrapped_key_create cr (Some di) (Some sk) w = (r, f, w') \<Longrightarrow> same_device w w'"
  by (auto simp: wrapped_key_create_def stored_key_get_key_def stored_key_get_length_def
      stored_key_get_header_def pad_success Let_def dest!: device split: option.splits if_splits prod.splits)
    (meson same_device_trans)+

section \<open>Stores\<close>

lemma object_store_device [device]:
  "object_store_acquire g st n c w = (s, a, st', w') \<Longrightarrow> same_device w w'"
  "object_store_release st n a c w = (s, st', w') \<Longrightarrow> same_device w w'"
  "object_store_add g st a c w = (s, n, st', w') \<Longrightarrow> same_device w w'"
  by (auto simp: object_store_acquire_def object_store_release_def object_store_add_def Let_def dest!: draw_device
      split: if_splits prod.splits option.splits)

lemma typed_add_device [device]: "typed_add ts v c w = (s, n, ts', w') \<Longrightarrow> same_device w w'"
  by (auto simp: typed_add_def Let_def dest!: device split: prod.splits)

lemma object_lock_device [device]: "object_lock h a w = (b, h', w') \<Longrightarrow> same_device w w'"
  by (auto simp: object_lock_def Let_def dest!: draw_device split: if_splits prod.splits option.splits)

lemma acquire_exclusive_device [device]: "acquire_exclusive g ts n c w = (s, a, ts', w') \<Longrightarrow> same_device w w'"
  by (auto simp: acquire_exclusive_def Let_def dest!: object_store_device object_lock_device intro: same_device_trans
      split: if_splits prod.splits)

lemma release_exclusive_device [device]: "release_exclusive ts n a c w = (s, ts', w') \<Longrightarrow> same_device w w'"
  by (auto simp: release_exclusive_def Let_def dest!: object_store_device split: if_splits prod.splits)

lemma key_store_release_key_device [device]: "key_store_release_key ts n a c w = (ts', w') \<Longrightarrow> same_device w w'"
  by (auto simp: key_store_release_key_def Let_def dest!: object_store_device split: prod.splits)

lemma key_store_unwrap_device [device]: "key_store_unwrap cr g ts n c w = (s, sk, ts', w') \<Longrightarrow> same_device w w'"
proof -
  assume r: "key_store_unwrap cr g ts n c w = (s, sk, ts', w')"
  obtain s1 a st w1 where acq: "object_store_acquire True (ts_store ts) n c w = (s1, a, st, w1)" using prod_cases4 by blast
  have "w' = w \<or> (\<exists>w2. same_device w1 w2 \<and> key_store_release_key (ts\<lparr>ts_store := st\<rparr>) n a c w2 = (ts', w'))"
    using r acq by (auto simp: key_store_unwrap_def Let_def dest: wrapped_key_unwrap_device split: if_splits option.splits prod.splits)
  then show ?thesis
    using object_store_device(1) [OF acq] by (auto dest!: key_store_release_key_device intro: same_device_trans)
qed

text \<open>Using a key leaves the keys alone: at most the use count of the caller's own handle differs.\<close>

definition same_keys :: "wrapped_key typed_store \<Rightarrow> wrapped_key typed_store \<Rightarrow> bool" where
  "same_keys ts ts' \<longleftrightarrow> ts_ok ts' \<and> ts_heap ts' = ts_heap ts \<and>
     (\<forall>n. map_option (\<lambda>(a, r, u). (a, u)) (ts_entries ts' n) = map_option (\<lambda>(a, r, u). (a, u)) (ts_entries ts n))"

lemma same_keys_refl [simp]: "ts_ok ts \<Longrightarrow> same_keys ts ts"
  by (simp add: same_keys_def)

lemma same_keys_trans: "same_keys a b \<Longrightarrow> same_keys b c \<Longrightarrow> same_keys a c"
  by (simp add: same_keys_def)

lemma same_keys_ok: "same_keys ts ts' \<Longrightarrow> keys_ok cr root ts \<Longrightarrow> keys_ok cr root ts'"
  by (simp add: same_keys_def keys_ok_def)

lemma uses_key_same:
  assumes ok: "ts_ok ts" and u: "uuid_ok c"
    and acq: "object_store_acquire True (ts_store ts) n (Some c) w = (s, a, st, w1)"
    and rel: "key_store_release_key (ts\<lparr>ts_store := st\<rparr>) n a (Some c) w2 = (ts', w3)"
  shows "same_keys ts ts'"
proof -
  note live = ts_okD(1) [OF ok]
  note coh = reg.coherent_acquire [OF ok [unfolded ts_ok_def] u acq]
  obtain s' st' w3' where r: "object_store_release st n a (Some c) w2 = (s', st', w3')" using prod_cases3 by blast
  have ts': "ts' = ts\<lparr>ts_store := st'\<rparr>" using rel r by (simp add: key_store_release_key_def)
  have e1: "map_option (\<lambda>(a, r, u). (a, u)) (entries st m) = map_option (\<lambda>(a, r, u). (a, u)) (ts_entries ts m)" for m
    using reg.acquire_OK [OF live u, of n w a st w1] reg.acquire_error [OF live u acq] acq
    by (cases "s = SA_STATUS_OK") auto
  have live': "store_live st" using reg.coherentD(1) [OF coh] .
  have e2: "map_option (\<lambda>(a, r, u). (a, u)) (entries st' m) = map_option (\<lambda>(a, r, u). (a, u)) (entries st m)" for m
    using reg.release_OK [OF live' u, of n a w2 st' w3'] reg.release_error [OF live' u r] r
    by (cases "s' = SA_STATUS_OK") auto
  show ?thesis using e1 e2 reg.coherent_release [OF coh u r] ts' by (simp add: same_keys_def ts_ok_def)
qed

lemma key_store_unwrap_same:
  assumes ok: "ts_ok ts" "uuid_ok c" and r: "key_store_unwrap cr g ts n (Some c) w = (s, sk, ts', w')"
  shows "same_keys ts ts'"
proof -
  obtain s1 a st w1 where acq: "object_store_acquire True (ts_store ts) n (Some c) w = (s1, a, st, w1)"
    using prod_cases4 by blast
  have "ts' = ts \<or> (\<exists>w2. key_store_release_key (ts\<lparr>ts_store := st\<rparr>) n a (Some c) w2 = (ts', w'))"
    using r acq by (auto simp: key_store_unwrap_def Let_def split: if_splits option.splits prod.splits)
  then show ?thesis using uses_key_same [OF ok acq] ok(1) by auto
qed

lemma key_store_get_header_same:
  assumes ok: "ts_ok ts" "uuid_ok c" and r: "key_store_get_header g ts n (Some c) w = (s, h, ts', w')"
  shows "same_keys ts ts'"
proof -
  obtain s1 a st w1 where acq: "object_store_acquire True (ts_store ts) n (Some c) w = (s1, a, st, w1)"
    using prod_cases4 by blast
  have "ts' = ts \<or> key_store_release_key (ts\<lparr>ts_store := st\<rparr>) n a (Some c) w1 = (ts', w')"
    using r acq by (auto simp: key_store_get_header_def Let_def split: if_splits prod.splits)
  then show ?thesis using uses_key_same [OF ok acq] ok(1) by auto
qed

lemma key_store_export_same:
  assumes ok: "ts_ok ts" "uuid_ok c" and r: "key_store_export cr g len ts n mixin (Some c) w = (s, out, len', ts', w')"
  shows "same_keys ts ts'"
proof -
  obtain s1 a st w1 where acq: "object_store_acquire True (ts_store ts) n (Some c) w = (s1, a, st, w1)"
    using prod_cases4 by blast
  have "ts' = ts \<or> (\<exists>w2. key_store_release_key (ts\<lparr>ts_store := st\<rparr>) n a (Some c) w2 = (ts', w'))"
    using r acq by (auto simp: key_store_export_def Let_def split: if_splits option.splits prod.splits)
  then show ?thesis using uses_key_same [OF ok acq] ok(1) by auto
qed

section \<open>Contexts\<close>

lemma mac_context_device [device]:
  "hmac_context_create alg k w = (hc, w') \<Longrightarrow> same_device w w'"
  "Mac_Context.hmac_context_update ho input n w = (s, ho', w') \<Longrightarrow> same_device w w'"
  "hmac_context_update_key ho k w = (s, ho', w') \<Longrightarrow> same_device w w'"
  "hmac_context_compute cr g l ho w = (s, out, l', ho', w') \<Longrightarrow> same_device w w'"
  "cmac_context_create k w = (cc, w') \<Longrightarrow> same_device w w'"
  "Mac_Context.cmac_context_update co input n w = (s, co', w') \<Longrightarrow> same_device w w'"
  "cmac_context_update_key co k w = (s, co', w') \<Longrightarrow> same_device w w'"
  "cmac_context_compute cr g co w = (s, out, co', w') \<Longrightarrow> same_device w w'"
  by (auto simp: hmac_context_create_def Mac_Context.hmac_context_update_def hmac_context_update_key_def hmac_context_compute_def
      cmac_context_create_def Mac_Context.cmac_context_update_def cmac_context_update_key_def cmac_context_compute_def Let_def
      dest!: draw_device draws_device intro: same_device_trans split: if_splits option.splits prod.splits)

lemma mac_store_add_device [device]:
  "mac_store_add_hmac_context g ts x c w = (s, n, f, ts', w') \<Longrightarrow> same_device w w'"
  "mac_store_add_cmac_context g ts x c w = (s, n, f, ts', w') \<Longrightarrow> same_device w w'"
  by (auto simp: mac_store_add_hmac_context_def mac_store_add_cmac_context_def mac_allocate_def Let_def
      dest!: draw_device typed_add_device intro: same_device_trans split: if_splits option.splits prod.splits)

end
