(* ===== verification/Client_Store.thy ===== *)
theory Client_Store
  imports Device
begin

text \<open>
  Clients, \<^verbatim>\<open>reference/src/taimpl/src/internal/client_store.c\<close> (the build with ENABLE_SVP): a session of a
  trusted application has four stores of its own, and the store of all sessions is created on first use.
  Every handler of the trusted application has the same frame: get the store, acquire the session, work on
  its stores, release it. The frame is the combinator \<open>with_client\<close>; the lemmas about it say that it is
  balanced and that a handler reaches no session but its caller's, whatever it does inside.
\<close>

section \<open>A session\<close>

text \<open>The four stores, and the crypto contexts that the objects of the stores point to.\<close>

record client =
  client_key_store :: "wrapped_key typed_store"
  client_cipher_store :: "cipher typed_store"
  client_mac_store :: "mac typed_store"
  client_svp_store :: "svp typed_store"
  client_hmacs :: "hmac_context heap"
  client_cmacs :: "cmac_context heap"
  client_symmetrics :: "symmetric_context heap"

definition NUM_CLIENT_SLOTS :: u64 where "NUM_CLIENT_SLOTS = 256"
definition NUM_KEY_SLOTS :: u64 where "NUM_KEY_SLOTS = 256"
definition NUM_CIPHER_SLOTS :: u64 where "NUM_CIPHER_SLOTS = 256"
definition NUM_MAC_SLOTS :: u64 where "NUM_MAC_SLOTS = 256"
definition NUM_SVP_SLOTS :: u64 where "NUM_SVP_SLOTS = 256"

definition no_store :: "'a typed_store" where
  "no_store = \<lparr>ts_heap = empty_heap, ts_store = None\<rparr>"

text \<open>The accessors; a store that is a NULL pointer is \<open>no_store\<close>.\<close>

definition client_get_key_store :: "client option \<Rightarrow> wrapped_key typed_store" where
  "client_get_key_store client = (case client of None \<Rightarrow> no_store | Some c \<Rightarrow> client_key_store c)"

definition client_get_cipher_store :: "client option \<Rightarrow> cipher typed_store" where
  "client_get_cipher_store client = (case client of None \<Rightarrow> no_store | Some c \<Rightarrow> client_cipher_store c)"

definition client_get_mac_store :: "client option \<Rightarrow> mac typed_store" where
  "client_get_mac_store client = (case client of None \<Rightarrow> no_store | Some c \<Rightarrow> client_mac_store c)"

definition client_get_svp_store :: "client option \<Rightarrow> svp typed_store" where
  "client_get_svp_store client = (case client of None \<Rightarrow> no_store | Some c \<Rightarrow> client_svp_store c)"

text \<open>\<open>None\<close>: one of the shutdowns still waits for a user of an object.\<close>

definition client_free :: "client \<Rightarrow> world \<Rightarrow> world option" where
  "client_free c w =
     (case key_store_shutdown (client_key_store c) w of None \<Rightarrow> None
      | Some (_, _, w) \<Rightarrow> (case cipher_store_shutdown (client_cipher_store c) w of None \<Rightarrow> None
      | Some (_, _, w) \<Rightarrow> (case mac_store_shutdown (client_mac_store c) w of None \<Rightarrow> None
      | Some (_, _, w) \<Rightarrow> (case svp_store_shutdown (client_svp_store c) w of None \<Rightarrow> None
      | Some (_, _, w) \<Rightarrow> Some w))))"

definition zero_client :: client where
  "zero_client = \<lparr>client_key_store = no_store, client_cipher_store = no_store, client_mac_store = no_store,
     client_svp_store = no_store, client_hmacs = empty_heap, client_cmacs = empty_heap, client_symmetrics = empty_heap\<rparr>"

definition client_init :: "bool \<Rightarrow> u64 \<Rightarrow> u64 \<Rightarrow> u64 \<Rightarrow> u64 \<Rightarrow> world \<Rightarrow> (client option \<times> world) option" where
  "client_init uuid_given key_store_size cipher_store_size mac_store_size svp_store_size w =
     (if \<not> uuid_given then Some (None, w)
      else let (memory_ok, w) = draw w in
        if \<not> memory_ok then Some (None, w)
        else let failed = (\<lambda>client w. map_option (\<lambda>w. (None, w)) (client_free client w)); client = zero_client in
          (case key_store_init empty_heap key_store_size w of (None, w) \<Rightarrow> failed client w
          | (Some s, w) \<Rightarrow> let client = client\<lparr>client_key_store := s\<rparr> in
          (case cipher_store_init empty_heap cipher_store_size w of (None, w) \<Rightarrow> failed client w
          | (Some s, w) \<Rightarrow> let client = client\<lparr>client_cipher_store := s\<rparr> in
          (case mac_store_init empty_heap mac_store_size w of (None, w) \<Rightarrow> failed client w
          | (Some s, w) \<Rightarrow> let client = client\<lparr>client_mac_store := s\<rparr> in
          (case svp_store_init empty_heap svp_store_size w of (None, w) \<Rightarrow> failed client w
          | (Some s, w) \<Rightarrow> Some (Some (client\<lparr>client_svp_store := s\<rparr>), w))))))"

section \<open>The store of all sessions\<close>

text \<open>
  \<open>ta_global\<close> is whether the static pointer \<open>global\<close> is set, \<open>ta_once\<close> whether \<open>call_once\<close> has run its
  function, \<open>ta_exit_handler\<close> whether the shutdown function is registered with \<open>atexit\<close>.
\<close>

record ta =
  ta_clients :: "client typed_store"
  ta_global :: bool
  ta_once :: bool
  ta_exit_handler :: bool
  ta_global_shutdown :: bool

definition client_store_init :: "u64 \<Rightarrow> world \<Rightarrow> client typed_store option \<times> world" where
  "client_store_init size' w = typed_init empty_heap size' w"

definition client_store_global_create :: "ta \<Rightarrow> world \<Rightarrow> ta \<times> world" where
  "client_store_global_create t w =
     (let (mutex_ok, w) = draw w in if \<not> mutex_ok then (t, w) else (t\<lparr>ta_exit_handler := True\<rparr>, w))"

text \<open>The result says whether the returned pointer is non-NULL.\<close>

definition client_store_global :: "ta \<Rightarrow> world \<Rightarrow> bool \<times> ta \<times> world" where
  "client_store_global t w =
     (if ta_global t then (if ta_global_shutdown t then (False, t, w) else (True, t, w))
      else let (t, w) = (if ta_once t then (t, w) else client_store_global_create (t\<lparr>ta_once := True\<rparr>) w);
               (locked, w) = draw w in
        if \<not> locked then (False, t, w)
        else (case client_store_init NUM_CLIENT_SLOTS w of
          (None, w) \<Rightarrow> (False, t, w)
        | (Some store, w) \<Rightarrow> (True, t\<lparr>ta_clients := store, ta_global := True\<rparr>, w)))"

definition client_store_add :: "bool \<Rightarrow> bool \<Rightarrow> ta \<Rightarrow> sa_uuid option \<Rightarrow> world \<Rightarrow> (sa_status \<times> u64 \<times> ta \<times> world) option" where
  "client_store_add client_slot_given store_given t caller_uuid w =
     (if \<not> client_slot_given then Some (SA_STATUS_NULL_PARAMETER, INVALID_HANDLE, t, w)
      else if \<not> store_given then Some (SA_STATUS_NULL_PARAMETER, INVALID_HANDLE, t, w)
      else (case caller_uuid of None \<Rightarrow> Some (SA_STATUS_NULL_PARAMETER, INVALID_HANDLE, t, w)
      | Some caller \<Rightarrow> (case client_init True NUM_KEY_SLOTS NUM_CIPHER_SLOTS NUM_MAC_SLOTS NUM_SVP_SLOTS w of
          None \<Rightarrow> None
        | Some (None, w) \<Rightarrow> Some (SA_STATUS_INTERNAL_ERROR, INVALID_HANDLE, t, w)
        | Some (Some client, w) \<Rightarrow>
            let (status, slot, clients, w) = typed_add (ta_clients t) client caller w; t = t\<lparr>ta_clients := clients\<rparr> in
            if status \<noteq> SA_STATUS_OK
            then (case client_free client w of None \<Rightarrow> None | Some w \<Rightarrow> Some (status, slot, t, w))
            else Some (status, slot, t, w))))"

definition client_store_remove ::
  "interference list \<Rightarrow> bool \<Rightarrow> ta \<Rightarrow> u64 \<Rightarrow> sa_uuid option \<Rightarrow> world \<Rightarrow> (sa_status \<times> ta \<times> world) option" where
  "client_store_remove others store_given t client_slot caller_uuid w =
     (if ta_global_shutdown t then Some (SA_STATUS_NO_AVAILABLE_RESOURCE_SLOT, t, w)
      else if \<not> store_given then Some (SA_STATUS_NULL_PARAMETER, t, w)
      else if caller_uuid = None then Some (SA_STATUS_NULL_PARAMETER, t, w)
      else (case typed_remove (\<lambda>c. [c]) others (ta_clients t) client_slot caller_uuid w of
          None \<Rightarrow> None
        | Some (status, removed, clients, w) \<Rightarrow>
            let t = t\<lparr>ta_clients := clients\<rparr> in
            (case removed of [] \<Rightarrow> Some (status, t, w)
             | c # _ \<Rightarrow> (case client_free c w of None \<Rightarrow> None | Some w \<Rightarrow> Some (status, t, w)))))"

definition client_store_acquire ::
  "bool \<Rightarrow> bool \<Rightarrow> ta \<Rightarrow> u64 \<Rightarrow> sa_uuid option \<Rightarrow> world \<Rightarrow> sa_status \<times> addr \<times> ta \<times> world" where
  "client_store_acquire client_given store_given t client_slot caller_uuid w =
     (if ta_global_shutdown t then (SA_STATUS_NO_AVAILABLE_RESOURCE_SLOT, NULL, t, w)
      else if \<not> client_given then (SA_STATUS_NULL_PARAMETER, NULL, t, w)
      else if \<not> store_given then (SA_STATUS_NULL_PARAMETER, NULL, t, w)
      else if caller_uuid = None then (SA_STATUS_NULL_PARAMETER, NULL, t, w)
      else let (status, obj, store, w) = object_store_acquire True (ts_store (ta_clients t)) client_slot caller_uuid w;
               t = t\<lparr>ta_clients := (ta_clients t)\<lparr>ts_store := store\<rparr>\<rparr> in
        if status \<noteq> SA_STATUS_OK then (status, NULL, t, w) else (SA_STATUS_OK, obj, t, w))"

definition client_store_release ::
  "bool \<Rightarrow> ta \<Rightarrow> u64 \<Rightarrow> addr \<Rightarrow> sa_uuid option \<Rightarrow> world \<Rightarrow> sa_status \<times> ta \<times> world" where
  "client_store_release store_given t client_slot client caller_uuid w =
     (if \<not> store_given then (SA_STATUS_NULL_PARAMETER, t, w)
      else if client = NULL then (SA_STATUS_NULL_PARAMETER, t, w)
      else if caller_uuid = None then (SA_STATUS_NULL_PARAMETER, t, w)
      else let (status, store, w) = object_store_release (ts_store (ta_clients t)) client_slot client caller_uuid w;
               t = t\<lparr>ta_clients := (ta_clients t)\<lparr>ts_store := store\<rparr>\<rparr> in
        (status, t, w))"

text \<open>
  The exit handler. A store whose shutdown returned is freed, and the static pointer stays set.
\<close>

definition client_store_shutdown :: "bool \<Rightarrow> ta \<Rightarrow> world \<Rightarrow> (ta \<times> world) option" where
  "client_store_shutdown store_given t w =
     (if \<not> store_given then Some (t, w)
      else (case typed_shutdown (\<lambda>c. [c]) (ta_clients t) w of None \<Rightarrow> None
        | Some (removed, clients, w) \<Rightarrow>
            map_option (\<lambda>w. (t\<lparr>ta_clients := clients\<rparr>, w))
              (fold (\<lambda>c w. case w of None \<Rightarrow> None | Some w \<Rightarrow> client_free c w) removed (Some w))))"

definition client_store_global_shutdown :: "ta \<Rightarrow> world \<Rightarrow> (ta \<times> world) option" where
  "client_store_global_shutdown t w =
     (let (given, t, w) = client_store_global t w in
      map_option (\<lambda>(t, w). (t\<lparr>ta_global_shutdown := True\<rparr>, w)) (client_store_shutdown given t w))"

section \<open>The frame of the handlers\<close>

text \<open>
  \<open>body\<close> is what a handler does between the acquisition and the release of its session: it gets the
  session and returns the status, the handler's outputs and the session. \<open>no_output\<close> is what the handler
  leaves in its outputs when the acquisition fails.
\<close>

definition with_client ::
  "'a \<Rightarrow> (client \<Rightarrow> world \<Rightarrow> (sa_status \<times> 'a \<times> client \<times> world) option) \<Rightarrow> ta \<Rightarrow> u64 \<Rightarrow> sa_uuid option \<Rightarrow> world \<Rightarrow>
   (sa_status \<times> 'a \<times> ta \<times> world) option" where
  "with_client no_output body t client_slot caller_uuid w =
     (let (store_given, t, w) = client_store_global t w;
          (status, a, t, w) = client_store_acquire True store_given t client_slot caller_uuid w in
      if status \<noteq> SA_STATUS_OK
      then (let (_, t, w) = client_store_release store_given t client_slot NULL caller_uuid w in
        Some (status, no_output, t, w))
      else (case cells (ts_heap (ta_clients t)) a of None \<Rightarrow> None
        | Some client \<Rightarrow> (case body client w of None \<Rightarrow> None
          | Some (status, output, client, w) \<Rightarrow>
              let t = t\<lparr>ta_clients := (ta_clients t)\<lparr>ts_heap := heap_write (ts_heap (ta_clients t)) a client\<rparr>\<rparr>;
                  (_, t, w) = client_store_release store_given t client_slot a caller_uuid w in
              Some (status, output, t, w))))"

section \<open>Acquiring and releasing a session\<close>

definition sessions_ok :: "ta \<Rightarrow> bool" where
  "sessions_ok t \<longleftrightarrow> ta_global t \<and> \<not> ta_global_shutdown t \<and> ts_ok (ta_clients t)"

abbreviation sessions :: "ta \<Rightarrow> entry_map" where
  "sessions t \<equiv> ts_entries (ta_clients t)"

abbreviation session_at :: "ta \<Rightarrow> addr \<Rightarrow> client option" where
  "session_at t a \<equiv> cells (ts_heap (ta_clients t)) a"

lemma sessions_okD:
  assumes "sessions_ok t"
  shows "store_live (ts_store (ta_clients t))" "client_store_global t w = (True, t, w)" "ts_ok (ta_clients t)"
    "\<not> ta_global_shutdown t" "sessions t n = Some (a, r, u) \<Longrightarrow> \<exists>c. session_at t a = Some c"
  using assms ts_okD [of "ta_clients t"] by (auto simp: sessions_ok_def client_store_global_def)

lemma client_acquire_result:
  assumes t: "sessions_ok t" and u: "uuid_ok u"
    and r: "client_store_acquire True True t n (Some u) w = (s, a, t', w')"
  obtains (acquired) k where "s = SA_STATUS_OK" "sessions t (unat n) = Some (a, k, u)" "sessions_ok t'"
      "sessions t' = (sessions t)(unat n \<mapsto> (a, k + 1, u))" "ts_heap (ta_clients t') = ts_heap (ta_clients t)"
  | (refused) "s \<noteq> SA_STATUS_OK" "a = NULL" "t' = t"
proof -
  obtain s1 b st w1 where acq: "object_store_acquire True (ts_store (ta_clients t)) n (Some u) w = (s1, b, st, w1)"
    using prod_cases4 by blast
  note live = sessions_okD(1) [OF t]
  have coh: "reg.coherent st (ts_heap (ta_clients t))"
    by (rule reg.coherent_acquire [OF _ u acq]) (use t in \<open>simp add: sessions_ok_def ts_ok_def\<close>)
  show ?thesis
  proof (cases "s1 = SA_STATUS_OK")
    case True
    from reg.acquire_OK [OF live u acq [unfolded this]] obtain k where
      "sessions t (unat n) = Some (b, k, u)" "entries st = (sessions t)(unat n \<mapsto> (b, k + 1, u))" by blast
    with True r acq t coh show ?thesis
      by (intro acquired [of k]) (auto simp: client_store_acquire_def sessions_ok_def ts_ok_def)
  next
    case False
    with reg.acquire_error [OF live u acq False] r acq t show ?thesis
      by (intro refused) (auto simp: client_store_acquire_def sessions_ok_def)
  qed
qed

lemma client_release_result:
  assumes t: "sessions_ok t" and u: "uuid_ok u" and a: "a \<noteq> NULL"
    and r: "client_store_release True t n a (Some u) w = (s, t', w')"
  obtains (released) k where "s = SA_STATUS_OK" "sessions t (unat n) = Some (a, k, u)" "k \<noteq> 0" "sessions_ok t'"
      "sessions t' = (sessions t)(unat n \<mapsto> (a, k - 1, u))" "ts_heap (ta_clients t') = ts_heap (ta_clients t)"
  | (kept) "s \<noteq> SA_STATUS_OK" "t' = t"
proof -
  obtain s1 st w1 where rel: "object_store_release (ts_store (ta_clients t)) n a (Some u) w = (s1, st, w1)"
    using prod_cases3 by blast
  note live = sessions_okD(1) [OF t]
  have coh: "reg.coherent st (ts_heap (ta_clients t))"
    by (rule reg.coherent_release [OF _ u rel]) (use t in \<open>simp add: sessions_ok_def ts_ok_def\<close>)
  show ?thesis
  proof (cases "s1 = SA_STATUS_OK")
    case True
    from reg.release_OK [OF live u rel [unfolded this]] obtain k where
      "k \<noteq> 0" "sessions t (unat n) = Some (a, k, u)" "entries st = (sessions t)(unat n \<mapsto> (a, k - 1, u))" by blast
    with True r rel t coh a show ?thesis
      by (intro released [of k]) (auto simp: client_store_release_def sessions_ok_def ts_ok_def)
  next
    case False
    with reg.release_error [OF live u rel False] r rel t a show ?thesis
      by (intro kept) (auto simp: client_store_release_def sessions_ok_def)
  qed
qed

lemma client_release_calm:
  assumes "sessions_ok t" "uuid_ok u" "a \<noteq> NULL" "w_faults w = []" "sessions t (unat n) = Some (a, k, u)" "k \<noteq> 0"
  shows "fst (client_store_release True t n a (Some u) w) = SA_STATUS_OK"
  using reg.release_held [OF sessions_okD(1) [OF assms(1)] assms(2,4-6)] assms(3)
  by (auto simp: client_store_release_def)

text \<open>
  The frame around a handler's body: either the session was refused and nothing changed, or the caller
  owns the session of the slot, the body ran on it, and the session is what the body left. The uses of
  the session are as before, unless giving it back failed or its counter was at its end.
\<close>

lemma with_client_result:
  assumes t: "sessions_ok t" and u: "uuid_ok u"
    and r: "with_client no body t n (Some u) w = Some (s, out, t', w')"
  obtains (refused) "s \<noteq> SA_STATUS_OK" "out = no" "t' = t" "same_device w w'"
  | (ran) a k c c' w1 w2 where "sessions t (unat n) = Some (a, k, u)" "session_at t a = Some c"
      "body c w1 = Some (s, out, c', w2)" "w_faults w = [] \<longrightarrow> w1 = w" "same_device w w1" "sessions_ok t'"
      "ts_heap (ta_clients t') = heap_write (ts_heap (ta_clients t)) a c'"
      "sessions t' = sessions t \<or> sessions t' = (sessions t)(unat n \<mapsto> (a, k + 1, u))"
      "w_faults w2 = [] \<and> k + 1 \<noteq> 0 \<longrightarrow> sessions t' = sessions t" "same_device w2 w'"
proof -
  obtain s1 a t1 w1 where acq: "client_store_acquire True True t n (Some u) w = (s1, a, t1, w1)"
    using prod_cases4 by blast
  from t u acq show ?thesis
  proof (cases rule: client_acquire_result)
    case refused
    moreover have "same_device w w1"
      using acq by (auto simp: client_store_acquire_def Let_def dest!: device split: if_splits prod.splits)
    ultimately show ?thesis using r acq
      by (intro that(1)) (auto simp: with_client_def sessions_okD(2) [OF t] client_store_release_def)
  next
    case (acquired k)
    obtain c where c: "session_at t a = Some c" using sessions_okD(5) [OF t acquired(2)] by blast
    have a: "a \<noteq> NULL" using ts_okD(2) [OF sessions_okD(3) [OF t]] c unfolding heap_ok_def by blast
    obtain out1 c' w2 where b: "body c w1 = Some (s, out1, c', w2)" and out: "out = out1"
      using r acq acquired c by (auto simp: with_client_def sessions_okD(2) [OF t] Let_def split: option.splits prod.splits)
    define t2 where "t2 = t1\<lparr>ta_clients := (ta_clients t1)\<lparr>ts_heap := heap_write (ts_heap (ta_clients t1)) a c'\<rparr>\<rparr>"
    have t2: "sessions_ok t2" "sessions t2 = (sessions t)(unat n \<mapsto> (a, k + 1, u))"
      "ts_heap (ta_clients t2) = heap_write (ts_heap (ta_clients t)) a c'"
      using acquired c reg.coherent_write [of "ts_store (ta_clients t1)" "ts_heap (ta_clients t1)" a c']
      by (auto simp: t2_def sessions_ok_def ts_ok_def)
    obtain s3 t3 w3 where rel: "client_store_release True t2 n a (Some u) w2 = (s3, t3, w3)"
      using prod_cases3 by blast
    have t': "t' = t3"
      using r acq acquired c b rel by (auto simp: with_client_def sessions_okD(2) [OF t] t2_def)
    have w1: "w_faults w = [] \<longrightarrow> w1 = w"
      using acq by (auto simp: client_store_acquire_def Let_def dest: object_store_acquire_quiet split: if_splits prod.splits)
    have dev: "same_device w w1"
      using acq by (auto simp: client_store_acquire_def Let_def dest!: device split: if_splits prod.splits)
    have dev2: "same_device w2 w'"
      using r acq acquired c b rel
      by (auto simp: with_client_def sessions_okD(2) [OF t] t2_def client_store_release_def Let_def dest!: device split: if_splits prod.splits)
    from t2(1) u a rel show ?thesis
    proof (cases rule: client_release_result)
      case (released k')
      then have "k' = k + 1" "sessions t3 = sessions t" using t2(2) acquired(2) by (auto simp: fun_eq_iff)
      with released t2 c acquired(2) b out t' w1 dev dev2 show ?thesis by (intro that(2) [of a k c w1 c' w2]) auto
    next
      case kept
      have "\<not> (w_faults w2 = [] \<and> k + 1 \<noteq> 0)"
        using client_release_calm [OF t2(1) u a, of w2 n "k + 1"] t2(2) rel kept(1) by auto
      with kept t2 c acquired(2) b out t' w1 dev dev2 show ?thesis by (intro that(2) [of a k c w1 c' w2]) auto
    qed
  qed
qed

text \<open>The session a handle stands for, with its owner; and the frame in these terms: one session is touched.\<close>

definition session :: "ta \<Rightarrow> nat \<Rightarrow> (sa_uuid \<times> client) option" where
  "session t n = (case sessions t n of None \<Rightarrow> None | Some (a, k, u) \<Rightarrow> map_option (\<lambda>c. (u, c)) (session_at t a))"

lemma session_written:
  assumes t: "sessions_ok t" and n: "sessions t n = Some (a, k, u)" "session_at t a = Some c"
    and h: "ts_heap (ta_clients t') = heap_write (ts_heap (ta_clients t)) a c'"
    and e: "sessions t' = sessions t \<or> sessions t' = (sessions t)(n \<mapsto> (a, k', u))"
  shows "session t' = (session t)(n \<mapsto> (u, c'))"
proof
  fix m
  show "session t' m = ((session t)(n \<mapsto> (u, c'))) m"
  proof (cases "m = n")
    case True
    with n h e show ?thesis by (auto simp: session_def heap_write_def)
  next
    case False
    have e: "sessions t' m = sessions t m" using e False by auto
    show ?thesis
    proof (cases "sessions t m")
      case (Some x)
      obtain b r v where x: "sessions t m = Some (b, r, v)" using Some by (cases x) auto
      have "b \<noteq> a" using sessions_okD(3) [OF t] n(1) x False unfolding ts_ok_def reg.coherent_def by blast
      with x e False h show ?thesis by (simp add: session_def heap_write_def)
    qed (use e False in \<open>simp add: session_def\<close>)
  qed
qed

lemma with_client_session:
  assumes t: "sessions_ok t" and u: "uuid_ok u"
    and r: "with_client no body t n (Some u) w = Some (s, out, t', w')"
  obtains (refused) "s \<noteq> SA_STATUS_OK" "out = no" "t' = t" "same_device w w'"
  | (ran) c c' w1 w2 where "session t (unat n) = Some (u, c)" "body c w1 = Some (s, out, c', w2)" "same_device w w1"
      "w_faults w = [] \<longrightarrow> w1 = w" "sessions_ok t'" "session t' = (session t)(unat n \<mapsto> (u, c'))" "same_device w2 w'"
proof -
  from t u r show ?thesis
  proof (cases rule: with_client_result)
    case refused
    then show ?thesis using that(1) by blast
  next
    case (ran a k c c' w1 w2)
    have "session t' = (session t)(unat n \<mapsto> (u, c'))"
      by (rule session_written [OF t ran(1,2,7)]) (use ran(8) in blast)
    moreover have "session t (unat n) = Some (u, c)" using ran(1,2) by (simp add: session_def)
    ultimately show ?thesis using ran that(2) by blast
  qed
qed

text \<open>Every session in order: its four stores are.\<close>

definition stores_ok :: "client \<Rightarrow> bool" where
  "stores_ok c \<longleftrightarrow> ts_ok (client_key_store c) \<and> ts_ok (client_cipher_store c) \<and> ts_ok (client_mac_store c) \<and>
     ts_ok (client_svp_store c)"

definition ta_ok :: "ta \<Rightarrow> bool" where
  "ta_ok t \<longleftrightarrow> sessions_ok t \<and> (\<forall>n u c. session t n = Some (u, c) \<longrightarrow> stores_ok c)"

lemma ta_okD: "ta_ok t \<Longrightarrow> sessions_ok t" "ta_ok t \<Longrightarrow> session t n = Some (u, c) \<Longrightarrow> stores_ok c"
  unfolding ta_ok_def by blast+

lemma stores_okD:
  assumes "stores_ok c"
  shows "ts_ok (client_key_store c)" "ts_ok (client_cipher_store c)" "ts_ok (client_mac_store c)" "ts_ok (client_svp_store c)"
  using assms by (simp_all add: stores_ok_def)

end
