(* ===== verification/Exclusive.thy ===== *)
theory Exclusive
  imports Device
begin

text \<open>
  The second frame of the handlers: taking an object of one of the session's stores exclusively, working
  with it and giving it back. The state around the store is a parameter: the locale \<open>store_field\<close> says what
  is needed of the two functions that read the store from it and write it back, and the session's stores
  are its interpretations. Taking an object and giving it back changes nothing but use counts and lock
  depths, which is what \<open>same_objects\<close> expresses.
\<close>

section \<open>Stores with the same objects\<close>

abbreviation unlocked :: "'a lockable_scheme \<Rightarrow> 'a lockable_scheme" where
  "unlocked obj \<equiv> obj\<lparr>lock_depth := 0\<rparr>"

definition same_objects :: "'a lockable_scheme typed_store \<Rightarrow> 'a lockable_scheme typed_store \<Rightarrow> bool" where
  "same_objects ts ts' \<longleftrightarrow>
     (\<forall>n. map_option (\<lambda>(a, r, u). (a, u)) (ts_entries ts' n) = map_option (\<lambda>(a, r, u). (a, u)) (ts_entries ts n)) \<and>
     (\<forall>a. map_option unlocked (cells (ts_heap ts') a) = map_option unlocked (cells (ts_heap ts) a)) \<and>
     next_addr (ts_heap ts') = next_addr (ts_heap ts)"

lemma same_objects_refl [simp]: "same_objects ts ts"
  by (simp add: same_objects_def)

lemma same_objects_trans [trans]: "same_objects a b \<Longrightarrow> same_objects b c \<Longrightarrow> same_objects a c"
  by (simp add: same_objects_def)

lemma same_objects_sym: "same_objects a b \<Longrightarrow> same_objects b a"
  by (simp add: same_objects_def)

lemma same_objects_entry:
  assumes "same_objects ts ts'" "ts_entries ts n = Some (a, r, u)"
  obtains r' where "ts_entries ts' n = Some (a, r', u)"
proof -
  have "map_option (\<lambda>(a, r, u). (a, u)) (ts_entries ts' n) = Some (a, u)"
    using assms by (simp add: same_objects_def)
  then show ?thesis using that by auto
qed

lemma same_objects_none:
  assumes "same_objects ts ts'"
  shows "ts_entries ts' n = None \<longleftrightarrow> ts_entries ts n = None" "cells (ts_heap ts') a = None \<longleftrightarrow> cells (ts_heap ts) a = None"
proof -
  have "map_option (\<lambda>(a, r, u). (a, u)) (ts_entries ts' n) = map_option (\<lambda>(a, r, u). (a, u)) (ts_entries ts n)"
    "map_option unlocked (cells (ts_heap ts') a) = map_option unlocked (cells (ts_heap ts) a)"
    using assms by (simp_all add: same_objects_def)
  then show "ts_entries ts' n = None \<longleftrightarrow> ts_entries ts n = None" "cells (ts_heap ts') a = None \<longleftrightarrow> cells (ts_heap ts) a = None"
    by (auto simp: map_option_is_None dest: arg_cong [where f = "\<lambda>x. x = None"])
qed

lemma same_objects_cell:
  assumes "same_objects ts ts'" "cells (ts_heap ts) a = Some obj"
  obtains obj' where "cells (ts_heap ts') a = Some obj'" "unlocked obj' = unlocked obj"
proof -
  have "map_option unlocked (cells (ts_heap ts') a) = Some (unlocked obj)"
    using assms by (simp add: same_objects_def)
  then show ?thesis using that by auto
qed

lemma acquire_exclusive_same:
  assumes ok: "ts_ok ts" and u: "uuid_ok c" and r: "acquire_exclusive True ts n (Some c) w = (s, a, ts', w')"
  shows "same_objects ts ts'" "ts_ok ts'"
    "a = NULL \<or> (\<exists>k. ts_entries ts (unat n) = Some (a, k, c))" "s = SA_STATUS_OK \<Longrightarrow> a \<noteq> NULL"
proof -
  obtain st where st: "ts_store ts = Some st" using ts_ok_Some [OF ok] by blast
  obtain s1 b st1 w1 where acq: "object_store_acquire True (ts_store ts) n (Some c) w = (s1, b, st1, w1)"
    using prod_cases4 by blast
  show ok': "ts_ok ts'" by (rule acquire_exclusive_ok [OF ok u r])
  show "same_objects ts ts'" "a = NULL \<or> (\<exists>k. ts_entries ts (unat n) = Some (a, k, c))" "s = SA_STATUS_OK \<Longrightarrow> a \<noteq> NULL"
  proof (atomize (full), cases "s1 = SA_STATUS_OK")
    case False
    with reg.acquire_error [OF ts_okD(1) [OF ok] u acq False] r acq st
    show "same_objects ts ts' \<and> (a = NULL \<or> (\<exists>k. ts_entries ts (unat n) = Some (a, k, c))) \<and> (s = SA_STATUS_OK \<longrightarrow> a \<noteq> NULL)"
      by (auto simp: acquire_exclusive_def same_objects_def)
  next
    case True
    from reg.acquire_OK [OF ts_okD(1) [OF ok] u acq [unfolded this]] obtain k where
      k: "ts_entries ts (unat n) = Some (b, k, c)" "entries st1 = (ts_entries ts)(unat n \<mapsto> (b, k + 1, c))" by blast
    obtain locked h w2 where l: "object_lock (ts_heap ts) b w1 = (locked, h, w2)" using prod_cases3 by blast
    have h: "map_option unlocked (cells h x) = map_option unlocked (cells (ts_heap ts) x)"
      "next_addr h = next_addr (ts_heap ts)" for x
      using l by (auto simp: object_lock_def heap_write_def Let_def split: if_splits option.splits prod.splits)
    have b: "locked \<Longrightarrow> b \<noteq> NULL" using l by (auto simp: object_lock_def split: if_splits)
    have "a = b" "ts_heap ts' = h" "ts_store ts' = st1" "s = SA_STATUS_OK \<longrightarrow> locked"
      using r acq st True l by (auto simp: acquire_exclusive_def Let_def split: if_splits)
    with k h b show "same_objects ts ts' \<and> (a = NULL \<or> (\<exists>k. ts_entries ts (unat n) = Some (a, k, c))) \<and> (s = SA_STATUS_OK \<longrightarrow> a \<noteq> NULL)"
      by (auto simp: same_objects_def)
  qed
qed

lemma release_exclusive_same:
  assumes ok: "ts_ok ts" and u: "uuid_ok c" and r: "release_exclusive ts n a (Some c) w = (s, ts', w')"
  shows "same_objects ts ts'" "ts_ok ts'"
proof -
  obtain st where st: "ts_store ts = Some st" using ts_ok_Some [OF ok] by blast
  show "ts_ok ts'" by (rule release_exclusive_ok [OF ok u r])
  obtain s1 st1 w1 where rel: "object_store_release (ts_store ts) n a (Some c) w = (s1, st1, w1)"
    using prod_cases3 by blast
  have e: "map_option (\<lambda>(a, r, u). (a, u)) (entries st1 m) = map_option (\<lambda>(a, r, u). (a, u)) (ts_entries ts m)" for m
  proof (cases "s1 = SA_STATUS_OK")
    case True
    from reg.release_OK [OF ts_okD(1) [OF ok] u rel [unfolded this]] show ?thesis by auto
  next
    case False
    from reg.release_error [OF ts_okD(1) [OF ok] u rel this] show ?thesis by simp
  qed
  have h: "map_option unlocked (cells (object_unlock (ts_heap ts) a) x) = map_option unlocked (cells (ts_heap ts) x)"
    "next_addr (object_unlock (ts_heap ts) a) = next_addr (ts_heap ts)" for x
    by (auto simp: object_unlock_def heap_write_def split: option.splits)
  show "same_objects ts ts'"
    using r rel st e h by (auto simp: release_exclusive_def same_objects_def split: if_splits)
qed

section \<open>Working on an object\<close>

text \<open>
  \<open>no_output\<close> is what the handler leaves in its outputs when the object is refused. A failed lock leaves
  the object's address behind, and the handlers release by the address.
\<close>

definition with_object ::
  "('s \<Rightarrow> 'o lockable_scheme typed_store) \<Rightarrow> ('o lockable_scheme typed_store \<Rightarrow> 's \<Rightarrow> 's) \<Rightarrow> 'a \<Rightarrow>
   ('o lockable_scheme \<Rightarrow> 's \<Rightarrow> world \<Rightarrow> sa_status \<times> 'a \<times> 's \<times> world) \<Rightarrow> u64 \<Rightarrow> sa_uuid option \<Rightarrow> 's \<Rightarrow> world \<Rightarrow>
   sa_status \<times> 'a \<times> 's \<times> world" where
  "with_object get put no_output body slot caller_uuid st w =
     (let (status, a, ts, w) = acquire_exclusive True (get st) slot caller_uuid w; st = put ts st;
          (status, output, st, w) = (if status \<noteq> SA_STATUS_OK then (status, no_output, st, w)
            else (case cells (ts_heap ts) a of None \<Rightarrow> (SA_STATUS_INTERNAL_ERROR, no_output, st, w)
              | Some obj \<Rightarrow> body obj st w)) in
      if a = NULL then (status, output, st, w)
      else let (_, ts, w) = release_exclusive (get st) slot a caller_uuid w in (status, output, put ts st, w))"

locale store_field =
  fixes get :: "'s \<Rightarrow> 'o lockable_scheme typed_store"
    and put :: "'o lockable_scheme typed_store \<Rightarrow> 's \<Rightarrow> 's"
  assumes get_put [simp]: "get (put ts s) = ts"
    and put_get [simp]: "put (get s) s = s"
    and put_put [simp]: "put ts (put ts' s) = put ts s"
begin

text \<open>
  Either the object is refused, or the caller owns it and the body ran; what the frame itself changes in
  the store is use counts and locks.
\<close>

lemma with_object_result:
  assumes ok: "ts_ok (get st)" and u: "uuid_ok u"
    and r: "with_object get put no body n (Some u) st w = (s, out, st', w')"
    and body: "\<And>obj s1 w1 s' o' st2 w2. ts_ok (get s1) \<Longrightarrow> body obj s1 w1 = (s', o', st2, w2) \<Longrightarrow> ts_ok (get st2)"
  obtains (refused) ts' where "s \<noteq> SA_STATUS_OK" "out = no" "st' = put ts' st" "same_objects (get st) ts'" "ts_ok ts'" "same_device w w'"
  | (ran) a k obj ts1 ts2 st1 w1 w2 where
      "ts_entries (get st) (unat n) = Some (a, k, u)" "cells (ts_heap ts1) a = Some obj"
      "same_objects (get st) ts1" "ts_ok ts1" "body obj (put ts1 st) w1 = (s, out, st1, w2)"
      "st' = put ts2 st1" "same_objects (get st1) ts2" "ts_ok ts2" "same_device w w1" "same_device w2 w'"
proof -
  obtain s1 a ts1 w1 where acq: "acquire_exclusive True (get st) n (Some u) w = (s1, a, ts1, w1)"
    using prod_cases4 by blast
  note same = acquire_exclusive_same [OF ok u acq]
  obtain s2 o2 st2 w2 where b: "(if s1 \<noteq> SA_STATUS_OK then (s1, no, put ts1 st, w1)
      else (case cells (ts_heap ts1) a of None \<Rightarrow> (SA_STATUS_INTERNAL_ERROR, no, put ts1 st, w1)
        | Some obj \<Rightarrow> body obj (put ts1 st) w1)) = (s2, o2, st2, w2)" using prod_cases4 by blast
  obtain s3 ts3 w3 where rel: "release_exclusive (get st2) n a (Some u) w2 = (s3, ts3, w3)" using prod_cases3 by blast
  have dev: "same_device w w1" "same_device w2 w'"
    using r acq b rel by (auto simp: with_object_def Let_def dest!: device split: if_splits)
  have res: "s = s2" "out = o2" "st' = (if a = NULL then st2 else put ts3 st2)"
    using r acq b rel by (auto simp: with_object_def Let_def split: if_splits)
  show ?thesis
  proof (cases "s1 = SA_STATUS_OK \<and> cells (ts_heap ts1) a \<noteq> None")
    case False
    then have st2: "s2 \<noteq> SA_STATUS_OK" "o2 = no" "st2 = put ts1 st" "w2 = w1"
      using b by (auto split: if_splits)
    have "same_objects (get st) ts3 \<and> ts_ok ts3"
      using release_exclusive_same [of ts1 u n a w2 s3 ts3 w3] same u rel st2
      by (auto intro: same_objects_trans)
    with st2 same res dev show ?thesis
      by (intro refused [of "if a = NULL then ts1 else ts3"]) (auto intro: same_device_trans)
  next
    case True
    then obtain obj where obj: "cells (ts_heap ts1) a = Some obj" by blast
    from True same obtain k where k: "ts_entries (get st) (unat n) = Some (a, k, u)" "a \<noteq> NULL" by blast
    have run: "body obj (put ts1 st) w1 = (s2, o2, st2, w2)" using b True obj by simp
    have "ts_ok (get st2)" using body [OF _ run] same(2) by simp
    note rel' = release_exclusive_same [OF this u rel]
    show ?thesis
      using ran [OF k(1) obj same(1,2) _ _ rel' dev] run res k(2) by simp
  qed
qed

end

end
