(* ===== verification/Buffer.thy ===== *)
theory Buffer
  imports Client_Store Exclusive
begin

text \<open>
  The buffers a TA passes in, \<^verbatim>\<open>reference/src/taimpl/src/internal/buffer.c\<close>: ordinary memory or an SVP
  buffer, each with an offset. A pointer into memory is its number, 0 for NULL. Pointers to the local
  variables of the callers and to their acquired session are never NULL.
\<close>

datatype sa_buffer =
    Clear_Buffer (clear_buffer: u64) (clear_length: u64) (clear_offset: u64)
  | Svp_Buffer (svp_buffer_handle: u64) (svp_buffer_offset: u64)
  | Other_Buffer u32

text \<open>
  The result: the status, \<open>*bytes\<close> (0 where the code leaves its NULL), \<open>*svp\<close>, which the caller gives back
  whether the call succeeded or not, and the session. For a type that is neither, the code falls
  through to success and sets nothing.
\<close>

definition convert_buffer ::
  "sa_buffer option \<Rightarrow> u64 \<Rightarrow> client \<Rightarrow> sa_uuid option \<Rightarrow> world \<Rightarrow> sa_status \<times> u64 \<times> addr \<times> client \<times> world" where
  "convert_buffer buffer bytes_to_process c caller_uuid w = (case buffer of
      None \<Rightarrow> (SA_STATUS_NULL_PARAMETER, 0, NULL, c, w)
    | Some b \<Rightarrow>
        if caller_uuid = None then (SA_STATUS_NULL_PARAMETER, 0, NULL, c, w)
        else (case b of
          Clear_Buffer buf len offset \<Rightarrow>
            if buf = 0 then (SA_STATUS_NULL_PARAMETER, 0, NULL, c, w)
            else let (carry, memory_range) = add_overflow offset bytes_to_process in
              if carry then (SA_STATUS_INVALID_PARAMETER, 0, NULL, c, w)
              else if memory_range > len then (SA_STATUS_INVALID_PARAMETER, 0, NULL, c, w)
              else if \<not> memory_is_valid_clear buf len then (SA_STATUS_INVALID_PARAMETER, 0, NULL, c, w)
              else let (carry, bytes) = add_overflow buf offset in
                if carry then (SA_STATUS_INVALID_PARAMETER, bytes, NULL, c, w)
                else (SA_STATUS_OK, bytes, NULL, c, w)
        | Svp_Buffer handle offset \<Rightarrow>
            let (status, svp, store, w) = svp_store_acquire_exclusive True (client_svp_store c) handle caller_uuid w;
                c = c\<lparr>client_svp_store := store\<rparr> in
            if status \<noteq> SA_STATUS_OK then (status, 0, svp, c, w)
            else let (carry, memory_range) = add_overflow offset bytes_to_process in
              if carry then (SA_STATUS_INVALID_PARAMETER, 0, svp, c, w)
              else let svp_buffer = svp_get_buffer (cells (ts_heap store) svp);
                       memory_location = svp_get_svp_memory svp_buffer in
                if memory_location = 0 then (SA_STATUS_INVALID_PARAMETER, 0, svp, c, w)
                else if memory_range > svp_get_size svp_buffer then (SA_STATUS_INVALID_PARAMETER, 0, svp, c, w)
                else let (carry, bytes) = add_overflow memory_location offset in
                  if carry then (SA_STATUS_INVALID_PARAMETER, bytes, svp, c, w)
                  else (SA_STATUS_OK, bytes, svp, c, w)
        | Other_Buffer t \<Rightarrow> (SA_STATUS_OK, 0, NULL, c, w)))"

text \<open>The release of what \<open>convert_buffer\<close> acquired, as the callers do it, and the advance of the offset.\<close>

definition release_buffer :: "sa_buffer \<Rightarrow> addr \<Rightarrow> sa_uuid option \<Rightarrow> client \<Rightarrow> world \<Rightarrow> client \<times> world" where
  "release_buffer b svp caller_uuid c w =
     (if svp = NULL then (c, w)
      else let (_, store, w) = svp_store_release_exclusive (client_svp_store c)
             (case b of Svp_Buffer handle offset \<Rightarrow> handle | _ \<Rightarrow> 0) svp caller_uuid w in
        (c\<lparr>client_svp_store := store\<rparr>, w))"

fun advance_buffer :: "u64 \<Rightarrow> sa_buffer \<Rightarrow> sa_buffer" where
  "advance_buffer n (Clear_Buffer buf len offset) = Clear_Buffer buf len (offset + n)"
| "advance_buffer n (Svp_Buffer handle offset) = Svp_Buffer handle (offset + n)"
| "advance_buffer n (Other_Buffer t) = Other_Buffer t"

section \<open>What a converted buffer is\<close>

interpretation svp_field: store_field client_svp_store "\<lambda>ts c. c\<lparr>client_svp_store := ts\<rparr>"
  by unfold_locales simp_all

text \<open>The range of memory that \<open>n\<close> bytes at the buffer's offset are, for the session that owns it.\<close>

definition buffer_range :: "client \<Rightarrow> sa_uuid \<Rightarrow> sa_buffer \<Rightarrow> nat \<Rightarrow> u64 \<Rightarrow> bool" where
  "buffer_range c u b n bytes \<longleftrightarrow> (case b of
      Clear_Buffer buf len offset \<Rightarrow> buf \<noteq> 0 \<and> unat bytes = unat buf + unat offset \<and>
        unat offset + n \<le> unat len \<and> unat buf + unat len < 2 ^ 64
    | Svp_Buffer handle offset \<Rightarrow> (\<exists>a r s b. ts_entries (client_svp_store c) (unat handle) = Some (a, r, u) \<and>
        cells (ts_heap (client_svp_store c)) a = Some s \<and> svp_buf s = Some b \<and> svp_memory b \<noteq> 0 \<and>
        unat bytes = unat (svp_memory b) + unat offset \<and> unat offset + n \<le> unat (svp_size b))
    | Other_Buffer t \<Rightarrow> bytes = 0)"

lemma convert_buffer_same:
  assumes ok: "ts_ok (client_svp_store c)" and u: "uuid_ok u"
    and r: "convert_buffer b n c (Some u) w = (s, bytes, svp, c', w')"
  obtains ts where "c' = c\<lparr>client_svp_store := ts\<rparr>" "same_objects (client_svp_store c) ts" "ts_ok ts" "same_device w w'"
proof (cases "\<exists>handle offset. b = Some (Svp_Buffer handle offset)")
  case True
  then obtain handle offset where b: "b = Some (Svp_Buffer handle offset)" by blast
  obtain s1 a ts w1 where acq: "acquire_exclusive True (client_svp_store c) handle (Some u) w = (s1, a, ts, w1)"
    using prod_cases4 by blast
  have "c' = c\<lparr>client_svp_store := ts\<rparr> \<and> w' = w1"
    using r b acq by (auto simp: convert_buffer_def svp_store_acquire_exclusive_def svp_supported_def Let_def
        split: if_splits prod.splits)
  with acquire_exclusive_same [OF ok u acq] acquire_exclusive_device [OF acq] show ?thesis by (intro that [of ts]) auto
next
  case False
  then have "c' = c \<and> w' = w"
    using r by (auto simp: convert_buffer_def Let_def split: option.splits sa_buffer.splits if_splits prod.splits)
  then show ?thesis using ok by (intro that [of "client_svp_store c"]) auto
qed

lemma convert_buffer_range:
  assumes ok: "ts_ok (client_svp_store c)" and u: "uuid_ok u"
    and r: "convert_buffer (Some b) n c (Some u) w = (SA_STATUS_OK, bytes, svp, c', w')"
  shows "buffer_range c u b (unat n) bytes"
proof (cases b)
  case (Clear_Buffer buf len offset)
  have "\<not> fst (add_overflow offset n)" "snd (add_overflow offset n) \<le> len" "buf \<noteq> 0" "\<not> fst (add_overflow buf len)"
    "\<not> fst (add_overflow buf offset)" "bytes = snd (add_overflow buf offset)"
    using r by (auto simp: convert_buffer_def Clear_Buffer memory_is_valid_clear_def Let_def split: if_splits prod.splits)
  then have "unat (offset + n) = unat offset + unat n" "unat (buf + offset) = unat buf + unat offset" "unat buf + unat len < 2 ^ 64"
    "bytes = buf + offset" "offset + n \<le> len" "buf \<noteq> 0"
    by (auto simp: add_overflow_def unat_word_ariths)
  then show ?thesis by (auto simp: buffer_range_def Clear_Buffer word_le_nat_alt)
next
  case (Svp_Buffer handle offset)
  obtain a ts w1 where acq: "acquire_exclusive True (client_svp_store c) handle (Some u) w = (SA_STATUS_OK, a, ts, w1)"
    and rest: "\<not> fst (add_overflow offset n)" "svp_get_svp_memory (svp_get_buffer (cells (ts_heap ts) a)) \<noteq> 0"
      "snd (add_overflow offset n) \<le> svp_get_size (svp_get_buffer (cells (ts_heap ts) a))"
      "add_overflow (svp_get_svp_memory (svp_get_buffer (cells (ts_heap ts) a))) offset = (False, bytes)"
    using r by (auto simp: convert_buffer_def Svp_Buffer svp_store_acquire_exclusive_def svp_supported_def Let_def
        split: if_splits prod.splits)
  note same = acquire_exclusive_same [OF ok u acq]
  then obtain k where k: "ts_entries (client_svp_store c) (unat handle) = Some (a, k, u)" by auto
  obtain s' where s': "cells (ts_heap ts) a = Some s'" "svp_buf s' \<noteq> None"
    using rest(2) by (auto simp: svp_get_svp_memory_def svp_get_buffer_def split: option.splits)
  have m: "map_option unlocked (cells (ts_heap ts) a) = map_option unlocked (cells (ts_heap (client_svp_store c)) a)"
    using same(1) by (simp add: same_objects_def)
  then obtain s where s: "cells (ts_heap (client_svp_store c)) a = Some s" "unlocked s = unlocked s'"
    using s'(1) by (cases "cells (ts_heap (client_svp_store c)) a") auto
  then have eq: "svp_buf s = svp_buf s'" by (metis lockable.ext_inject lockable.surjective lockable.update_convs(1) svp.select_convs(1) svp.surjective)
  obtain b' where b': "svp_buf s' = Some b'" using s'(2) by blast
  let ?m = "svp_memory b'"
  have v: "svp_get_svp_memory (Some b') \<noteq> 0" "snd (add_overflow offset n) \<le> svp_size b'" "add_overflow (svp_get_svp_memory (Some b')) offset = (False, bytes)"
    using rest(2-4) s'(1) b' by (simp_all add: svp_get_buffer_def svp_get_size_def)
  have mm: "svp_get_svp_memory (Some b') = ?m" "?m \<noteq> 0" using v(1) by (auto simp: svp_get_svp_memory_def split: if_splits)
  have "unat bytes = unat ?m + unat offset" using add_overflow_no [OF v(3)] mm by simp
  moreover have "unat offset + unat n \<le> unat (svp_size b')"
    using rest(1) v(2) by (simp add: add_overflow_def word_le_nat_alt unat_word_ariths)
  ultimately show ?thesis using k s(1) eq b' mm(2) by (auto simp: buffer_range_def Svp_Buffer)
next
  case (Other_Buffer t)
  then show ?thesis using r by (simp add: convert_buffer_def buffer_range_def)
qed

end
