(* ===== verification/Public_Key.thy ===== *)
theory Public_Key
  imports Stored_Key Otp
begin

text \<open>
  The operations on RSA and elliptic-curve keys that the commands of this development use: the checks and
  the decryption of \<^verbatim>\<open>reference/src/taimpl/src/internal/rsa.c\<close> and \<^verbatim>\<open>ec.c\<close>, and the reading of a private key
  in \<^verbatim>\<open>reference/src/util/src/pkcs8.c\<close>. What OpenSSL computes is in the record \<open>crypto\<close>; each of its calls
  can fail.
\<close>

section \<open>Private keys\<close>

text \<open>The bits of the key, for a key of the wanted type.\<close>

definition evp_pkey_from_pkcs8 :: "crypto \<Rightarrow> evp_pkey_type \<Rightarrow> u8 list \<Rightarrow> world \<Rightarrow> nat option \<times> world" where
  "evp_pkey_from_pkcs8 cr type input w =
     (let (ok, w) = draws 2 w in if \<not> ok then (None, w) else (pkcs8_bits cr type input, w))"

section \<open>RSA\<close>

definition rsa_validate_private :: "crypto \<Rightarrow> u8 list option \<Rightarrow> world \<Rightarrow> u64 \<times> world" where
  "rsa_validate_private cr input w = (case input of None \<Rightarrow> (0, w)
     | Some bytes \<Rightarrow> (case evp_pkey_from_pkcs8 cr EVP_PKEY_RSA bytes w of
         (None, w) \<Rightarrow> (0, w) | (Some bits, w) \<Rightarrow> (of_nat (bits div 8), w)))"

text \<open>
  Writing a public key: the length first, then the bytes into a buffer of \<open>len\<close> bytes. The result is
  the status, the value of \<open>*out_length\<close> when it is set, and the bytes.
\<close>

definition write_public ::
  "crypto \<Rightarrow> evp_pkey_type \<Rightarrow> u8 list \<Rightarrow> bool \<Rightarrow> u64 \<Rightarrow> world \<Rightarrow> sa_status \<times> u64 option \<times> u8 list option \<times> world" where
  "write_public cr type key out_given len w = (case evp_pkey_from_pkcs8 cr type key w of
      (None, w) \<Rightarrow> (SA_STATUS_INTERNAL_ERROR, None, None, w)
    | (Some _, w) \<Rightarrow>
        let der = public_key_der cr type key; (ok, w) = draw w in
        if \<not> ok then (SA_STATUS_INTERNAL_ERROR, None, None, w)
        else if \<not> out_given then (SA_STATUS_OK, Some (of_nat (length der)), None, w)
        else if unat len < length der then (SA_STATUS_INVALID_PARAMETER, None, None, w)
        else let (ok, w) = draw w in
          if \<not> ok then (SA_STATUS_INTERNAL_ERROR, None, None, w)
          else (SA_STATUS_OK, Some (of_nat (length der)), Some der, w))"

definition rsa_get_public ::
  "crypto \<Rightarrow> bool \<Rightarrow> u64 option \<Rightarrow> stored_key option \<Rightarrow> world \<Rightarrow> sa_status \<times> u64 option \<times> u8 list option \<times> world" where
  "rsa_get_public cr out_given out_length stored_key w = (case stored_key of
      None \<Rightarrow> (SA_STATUS_NULL_PARAMETER, None, None, w)
    | Some k \<Rightarrow> (case out_length of None \<Rightarrow> (SA_STATUS_NULL_PARAMETER, None, None, w)
      | Some len \<Rightarrow> write_public cr EVP_PKEY_RSA (sk_key k) out_given len w))"

definition rsa_verify_cipher :: "sa_cipher_algorithm \<Rightarrow> sa_cipher_mode \<Rightarrow> bool \<Rightarrow> sa_status" where
  "rsa_verify_cipher algorithm mode parameters_given =
     (if algorithm = SA_CIPHER_ALGORITHM_RSA_OAEP \<and> \<not> parameters_given then SA_STATUS_NULL_PARAMETER
      else SA_STATUS_OK)"

text \<open>
  The two decryptions: the checks of the lengths, so many calls that prepare the context, and the
  decryption itself, whose failure is reported as a failed verification.
\<close>

definition rsa_decrypt_with ::
  "crypto \<Rightarrow> nat \<Rightarrow> u8 list option \<Rightarrow> u8 list \<Rightarrow> u64 \<Rightarrow> nat \<Rightarrow> world \<Rightarrow> sa_status \<times> u8 list option \<times> world" where
  "rsa_decrypt_with cr steps plain key out_length in_length w = (case evp_pkey_from_pkcs8 cr EVP_PKEY_RSA key w of
      (None, w) \<Rightarrow> (SA_STATUS_INTERNAL_ERROR, None, w)
    | (Some bits, w) \<Rightarrow>
        if unat out_length < bits div 8 then (SA_STATUS_INTERNAL_ERROR, None, w)
        else if in_length \<noteq> bits div 8 then (SA_STATUS_INTERNAL_ERROR, None, w)
        else let (ok, w) = draws steps w in
          if \<not> ok then (SA_STATUS_INTERNAL_ERROR, None, w)
          else let (ok, w) = draw w in
            if \<not> ok \<or> plain = None then (SA_STATUS_VERIFICATION_FAILED, None, w) else (SA_STATUS_OK, plain, w))"

definition rsa_decrypt_pkcs1v15 ::
  "crypto \<Rightarrow> bool \<Rightarrow> u64 option \<Rightarrow> stored_key option \<Rightarrow> u8 list option \<Rightarrow> world \<Rightarrow> sa_status \<times> u8 list option \<times> world" where
  "rsa_decrypt_pkcs1v15 cr out_given out_length stored_key input w =
     (if \<not> out_given then (SA_STATUS_NULL_PARAMETER, None, w)
      else (case out_length of None \<Rightarrow> (SA_STATUS_NULL_PARAMETER, None, w)
      | Some len \<Rightarrow> (case stored_key of None \<Rightarrow> (SA_STATUS_NULL_PARAMETER, None, w)
        | Some k \<Rightarrow> (case input of None \<Rightarrow> (SA_STATUS_NULL_PARAMETER, None, w)
          | Some bytes \<Rightarrow>
              rsa_decrypt_with cr 3 (rsa_pkcs1v15_plain cr (sk_key k) bytes) (sk_key k) len (length bytes) w))))"

definition rsa_decrypt_oaep ::
  "crypto \<Rightarrow> bool \<Rightarrow> u64 option \<Rightarrow> stored_key option \<Rightarrow> sa_digest_algorithm \<Rightarrow> sa_digest_algorithm \<Rightarrow> u8 list option \<Rightarrow>
   u64 \<Rightarrow> u8 list option \<Rightarrow> world \<Rightarrow> sa_status \<times> u8 list option \<times> world" where
  "rsa_decrypt_oaep cr out_given out_length stored_key digest_algorithm mgf1_digest_algorithm label label_length input w =
     (if \<not> out_given then (SA_STATUS_NULL_PARAMETER, None, w)
      else (case out_length of None \<Rightarrow> (SA_STATUS_NULL_PARAMETER, None, w)
      | Some len \<Rightarrow> (case stored_key of None \<Rightarrow> (SA_STATUS_NULL_PARAMETER, None, w)
        | Some k \<Rightarrow> (case input of None \<Rightarrow> (SA_STATUS_NULL_PARAMETER, None, w)
          | Some bytes \<Rightarrow>
              let used = (case label of None \<Rightarrow> [] | Some l \<Rightarrow> take (unat label_length) l) in
              rsa_decrypt_with cr (if label \<noteq> None \<and> label_length > 0 then 7 else 5)
                (rsa_oaep_plain cr (sk_key k) digest_algorithm mgf1_digest_algorithm used bytes)
                (sk_key k) len (length bytes) w))))"

section \<open>Elliptic curves\<close>

definition is_pcurve :: "sa_elliptic_curve \<Rightarrow> bool" where
  "is_pcurve curve \<longleftrightarrow> curve = SA_ELLIPTIC_CURVE_NIST_P192 \<or> curve = SA_ELLIPTIC_CURVE_NIST_P224 \<or>
     curve = SA_ELLIPTIC_CURVE_NIST_P256 \<or> curve = SA_ELLIPTIC_CURVE_NIST_P384 \<or> curve = SA_ELLIPTIC_CURVE_NIST_P521"

definition ec_get_type :: "sa_elliptic_curve \<Rightarrow> evp_pkey_type" where
  "ec_get_type curve =
     (if is_pcurve curve then EVP_PKEY_EC
      else if curve = SA_ELLIPTIC_CURVE_ED25519 then EVP_PKEY_ED25519
      else if curve = SA_ELLIPTIC_CURVE_X25519 then EVP_PKEY_X25519
      else if curve = SA_ELLIPTIC_CURVE_ED448 then EVP_PKEY_ED448
      else if curve = SA_ELLIPTIC_CURVE_X448 then EVP_PKEY_X448
      else EVP_PKEY_NONE)"

text \<open>The function returns a size, and the error path for NULL a status, converted to \<open>size_t\<close>.\<close>

definition ec_validate_private :: "crypto \<Rightarrow> sa_elliptic_curve \<Rightarrow> u8 list option \<Rightarrow> world \<Rightarrow> u64 \<times> world" where
  "ec_validate_private cr curve private w = (case private of
      None \<Rightarrow> (of_nat (status_code SA_STATUS_NULL_PARAMETER), w)
    | Some bytes \<Rightarrow> (case evp_pkey_from_pkcs8 cr (ec_get_type curve) bytes w of
        (None, w) \<Rightarrow> (0, w)
      | (Some _, w) \<Rightarrow>
          if is_pcurve curve then
            let (ok, w) = draw w in
            if \<not> ok then (0, w) else if ec_key_curve cr bytes \<noteq> curve then (0, w) else (ec_key_size_from_curve curve, w)
          else (ec_key_size_from_curve curve, w)))"

definition ec_get_public ::
  "crypto \<Rightarrow> bool \<Rightarrow> u64 option \<Rightarrow> stored_key option \<Rightarrow> world \<Rightarrow> sa_status \<times> u64 option \<times> u8 list option \<times> world" where
  "ec_get_public cr out_given out_length stored_key w = (case stored_key of
      None \<Rightarrow> (SA_STATUS_NULL_PARAMETER, None, None, w)
    | Some k \<Rightarrow> (case out_length of None \<Rightarrow> (SA_STATUS_NULL_PARAMETER, None, None, w)
      | Some len \<Rightarrow>
          write_public cr (ec_get_type (tp_curve (hdr_type_parameters (sk_header k)))) (sk_key k) out_given len w))"

definition ec_verify_cipher :: "sa_cipher_mode \<Rightarrow> stored_key option \<Rightarrow> sa_status" where
  "ec_verify_cipher mode stored_key = (case stored_key_get_header stored_key of
      None \<Rightarrow> SA_STATUS_INTERNAL_ERROR
    | Some header \<Rightarrow>
        if \<not> is_pcurve (tp_curve (hdr_type_parameters header)) then SA_STATUS_OPERATION_NOT_ALLOWED else SA_STATUS_OK)"

text \<open>
  For a curve that is no P curve the function sets its status and goes on; the missing group stops it
  later, with that status. \<open>out_given\<close> is false for the request of the length, the third component.
\<close>

definition ec_decrypt_elgamal ::
  "crypto \<Rightarrow> bool \<Rightarrow> u64 option \<Rightarrow> stored_key option \<Rightarrow> u8 list option \<Rightarrow> world \<Rightarrow>
   sa_status \<times> u8 list option \<times> u64 option \<times> world" where
  "ec_decrypt_elgamal cr out_given out_length stored_key input w = (case stored_key of
      None \<Rightarrow> (SA_STATUS_NULL_PARAMETER, None, None, w)
    | Some k \<Rightarrow> (case out_length of None \<Rightarrow> (SA_STATUS_NULL_PARAMETER, None, None, w)
      | Some len \<Rightarrow> (case input of None \<Rightarrow> (SA_STATUS_NULL_PARAMETER, None, None, w)
        | Some bytes \<Rightarrow>
            let header = sk_header k; curve = tp_curve (hdr_type_parameters header); size = unat (hdr_size header);
                status = (if \<not> is_pcurve curve then SA_STATUS_OPERATION_NOT_ALLOWED else SA_STATUS_INTERNAL_ERROR) in
            (case evp_pkey_from_pkcs8 cr (ec_get_type curve) (sk_key k) w of
              (None, w) \<Rightarrow> (status, None, None, w)
            | (Some _, w) \<Rightarrow>
                if \<not> out_given then (SA_STATUS_OK, None, Some (of_nat (size * 4)), w)
                else if unat len < size then (status, None, None, w)
                else if length bytes \<noteq> size * 4 then (status, None, None, w)
                else let (ok, w) = draws 2 w in
                  if \<not> ok \<or> \<not> is_pcurve curve then (status, None, None, w)
                  else if \<not> ec_point_ok cr curve (take (size * 2) bytes) then (status, None, None, w)
                  else let (ok, w) = draw w in
                    if \<not> ok then (status, None, None, w)
                    else if \<not> ec_point_ok cr curve (drop (size * 2) bytes) then (status, None, None, w)
                    else let (ok, w) = draws 7 w in
                      if \<not> ok then (status, None, None, w)
                      else (SA_STATUS_OK,
                        Some (take size (ec_difference cr curve (sk_key k) (take (size * 2) bytes) (drop (size * 2) bytes))),
                        Some (of_nat size), w)))))"

end
