(* ===== verification/Ta_Mac.thy ===== *)
theory Ta_Mac
  imports Client_Store Exclusive
begin

text \<open>
  The message authentication commands, \<^verbatim>\<open>reference/src/taimpl/src/ta_sa_crypto_mac_*.c\<close>. The NULL checks of
  the session in the static functions are left out: \<open>with_client\<close> calls them with an acquired session only.
  A caller's UUID that is a NULL pointer is \<open>None\<close>.
\<close>

interpretation mac_field: store_field client_mac_store "\<lambda>ts c. c\<lparr>client_mac_store := ts\<rparr>"
  by unfold_locales simp_all

interpretation cipher_field: store_field client_cipher_store "\<lambda>ts c. c\<lparr>client_cipher_store := ts\<rparr>"
  by unfold_locales simp_all

abbreviation with_mac where
  "with_mac \<equiv> with_object client_mac_store (\<lambda>ts c. c\<lparr>client_mac_store := ts\<rparr>)"

section \<open>Creating a context\<close>

definition ta_sa_crypto_mac_init_hmac ::
  "crypto \<Rightarrow> bool \<Rightarrow> u64 \<Rightarrow> sa_digest_algorithm option \<Rightarrow> sa_uuid option \<Rightarrow> client \<Rightarrow> world \<Rightarrow>
   sa_status \<times> u64 \<times> client \<times> world" where
  "ta_sa_crypto_mac_init_hmac cr context_given key parameters caller_uuid c w =
     (if \<not> context_given then (SA_STATUS_NULL_PARAMETER, INVALID_HANDLE, c, w)
      else (case parameters of None \<Rightarrow> (SA_STATUS_NULL_PARAMETER, INVALID_HANDLE, c, w)
      | Some digest_algorithm \<Rightarrow>
          if caller_uuid = None then (SA_STATUS_NULL_PARAMETER, INVALID_HANDLE, c, w)
          else let (status, stored_key, store, w) = key_store_unwrap cr True (client_key_store c) key caller_uuid w;
                   c = c\<lparr>client_key_store := store\<rparr> in
            if status \<noteq> SA_STATUS_OK then (status, INVALID_HANDLE, c, w)
            else (case stored_key_get_header stored_key of None \<Rightarrow> (SA_STATUS_NULL_PARAMETER, INVALID_HANDLE, c, w)
            | Some header \<Rightarrow>
                if \<not> rights_allowed_sign (Some (hdr_rights header)) w
                then (SA_STATUS_OPERATION_NOT_ALLOWED, INVALID_HANDLE, c, w)
                else if \<not> key_type_supports_hmac (hdr_type header) (ucast (hdr_size header))
                then (SA_STATUS_INVALID_KEY_TYPE, INVALID_HANDLE, c, w)
                else if digest_algorithm \<noteq> SA_DIGEST_ALGORITHM_SHA1 \<and> digest_algorithm \<noteq> SA_DIGEST_ALGORITHM_SHA256 \<and>
                  digest_algorithm \<noteq> SA_DIGEST_ALGORITHM_SHA384 \<and> digest_algorithm \<noteq> SA_DIGEST_ALGORITHM_SHA512
                then (SA_STATUS_INVALID_PARAMETER, INVALID_HANDLE, c, w)
                else (case hmac_context_create digest_algorithm stored_key w of
                  (None, w) \<Rightarrow> (SA_STATUS_INTERNAL_ERROR, INVALID_HANDLE, c, w)
                | (Some ctx, w) \<Rightarrow>
                    let (x, h) = heap_alloc (client_hmacs c) ctx;
                        (status, slot, _, store, w) = mac_store_add_hmac_context True (client_mac_store c) x caller_uuid w in
                    (status, slot, c\<lparr>client_mac_store := store,
                       client_hmacs := if status = SA_STATUS_OK then h else heap_free h x\<rparr>, w)))))"

definition ta_sa_crypto_mac_init_cmac ::
  "crypto \<Rightarrow> bool \<Rightarrow> u64 \<Rightarrow> sa_uuid option \<Rightarrow> client \<Rightarrow> world \<Rightarrow> sa_status \<times> u64 \<times> client \<times> world" where
  "ta_sa_crypto_mac_init_cmac cr context_given key caller_uuid c w =
     (if \<not> context_given then (SA_STATUS_NULL_PARAMETER, INVALID_HANDLE, c, w)
      else if caller_uuid = None then (SA_STATUS_NULL_PARAMETER, INVALID_HANDLE, c, w)
      else let (status, stored_key, store, w) = key_store_unwrap cr True (client_key_store c) key caller_uuid w;
               c = c\<lparr>client_key_store := store\<rparr> in
        if status \<noteq> SA_STATUS_OK then (status, INVALID_HANDLE, c, w)
        else (case stored_key_get_header stored_key of None \<Rightarrow> (SA_STATUS_NULL_PARAMETER, INVALID_HANDLE, c, w)
        | Some header \<Rightarrow>
            if \<not> rights_allowed_sign (Some (hdr_rights header)) w
            then (SA_STATUS_OPERATION_NOT_ALLOWED, INVALID_HANDLE, c, w)
            else if \<not> key_type_supports_aes (hdr_type header) (ucast (hdr_size header))
            then (SA_STATUS_INVALID_KEY_TYPE, INVALID_HANDLE, c, w)
            else (case cmac_context_create stored_key w of
              (None, w) \<Rightarrow> (SA_STATUS_INTERNAL_ERROR, INVALID_HANDLE, c, w)
            | (Some ctx, w) \<Rightarrow>
                let (x, h) = heap_alloc (client_cmacs c) ctx;
                    (status, slot, _, store, w) = mac_store_add_cmac_context True (client_mac_store c) x caller_uuid w in
                (status, slot, c\<lparr>client_mac_store := store,
                   client_cmacs := if status = SA_STATUS_OK then h else heap_free h x\<rparr>, w))))"

definition ta_sa_crypto_mac_init ::
  "crypto \<Rightarrow> bool \<Rightarrow> sa_mac_algorithm \<Rightarrow> u64 \<Rightarrow> sa_digest_algorithm option \<Rightarrow> ta \<Rightarrow> u64 \<Rightarrow> sa_uuid option \<Rightarrow> world \<Rightarrow>
   (sa_status \<times> u64 \<times> ta \<times> world) option" where
  "ta_sa_crypto_mac_init cr context_given algorithm key parameters t client_slot caller_uuid w =
     (if \<not> context_given then Some (SA_STATUS_NULL_PARAMETER, INVALID_HANDLE, t, w)
      else if caller_uuid = None then Some (SA_STATUS_INTERNAL_ERROR, INVALID_HANDLE, t, w)
      else with_client INVALID_HANDLE (\<lambda>c w.
          if algorithm = SA_MAC_ALGORITHM_HMAC
          then Some (ta_sa_crypto_mac_init_hmac cr context_given key parameters caller_uuid c w)
          else if algorithm = SA_MAC_ALGORITHM_CMAC
          then Some (ta_sa_crypto_mac_init_cmac cr context_given key caller_uuid c w)
          else Some (SA_STATUS_INVALID_PARAMETER, INVALID_HANDLE, c, w)) t client_slot caller_uuid w)"

section \<open>Using a context\<close>

text \<open>The contexts of a MAC object, and their replacement; a NULL pointer points to nothing.\<close>

definition the_hmac :: "client \<Rightarrow> mac \<Rightarrow> hmac_context option" where
  "the_hmac c m = cells (client_hmacs c) (mac_get_hmac_context (Some m))"

definition the_cmac :: "client \<Rightarrow> mac \<Rightarrow> cmac_context option" where
  "the_cmac c m = cells (client_cmacs c) (mac_get_cmac_context (Some m))"

definition put_hmac :: "hmac_context option \<Rightarrow> mac \<Rightarrow> client \<Rightarrow> client" where
  "put_hmac ctx m c = (case ctx of None \<Rightarrow> c
     | Some ctx \<Rightarrow> c\<lparr>client_hmacs := heap_write (client_hmacs c) (mac_get_hmac_context (Some m)) ctx\<rparr>)"

definition put_cmac :: "cmac_context option \<Rightarrow> mac \<Rightarrow> client \<Rightarrow> client" where
  "put_cmac ctx m c = (case ctx of None \<Rightarrow> c
     | Some ctx \<Rightarrow> c\<lparr>client_cmacs := heap_write (client_cmacs c) (mac_get_cmac_context (Some m)) ctx\<rparr>)"

text \<open>What \<open>ta_sa_crypto_mac_process\<close> does with the MAC object it has acquired.\<close>

definition mac_process_body ::
  "u8 list option \<Rightarrow> nat \<Rightarrow> mac \<Rightarrow> client \<Rightarrow> world \<Rightarrow> sa_status \<times> unit \<times> client \<times> world" where
  "mac_process_body input in_length m c w =
     (if mac_get_algorithm (Some m) = Some SA_MAC_ALGORITHM_HMAC then
        if hmac_context_done (the_hmac c m) then (SA_STATUS_INVALID_PARAMETER, (), c, w)
        else let (status, ctx, w) = Mac_Context.hmac_context_update (the_hmac c m) input in_length w in (status, (), put_hmac ctx m c, w)
      else if mac_get_algorithm (Some m) = Some SA_MAC_ALGORITHM_CMAC then
        if cmac_context_done (the_cmac c m) then (SA_STATUS_INVALID_PARAMETER, (), c, w)
        else let (status, ctx, w) = Mac_Context.cmac_context_update (the_cmac c m) input in_length w in (status, (), put_cmac ctx m c, w)
      else (SA_STATUS_INTERNAL_ERROR, (), c, w))"

definition ta_sa_crypto_mac_process ::
  "u64 \<Rightarrow> u8 list option \<Rightarrow> nat \<Rightarrow> ta \<Rightarrow> u64 \<Rightarrow> sa_uuid option \<Rightarrow> world \<Rightarrow> (sa_status \<times> unit \<times> ta \<times> world) option" where
  "ta_sa_crypto_mac_process context input in_length t client_slot caller_uuid w =
     (if caller_uuid = None then Some (SA_STATUS_NULL_PARAMETER, (), t, w)
      else if input = None \<and> in_length > 0 then Some (SA_STATUS_NULL_PARAMETER, (), t, w)
      else with_client () (\<lambda>c w. Some (with_mac () (mac_process_body input in_length) context caller_uuid c w))
        t client_slot caller_uuid w)"

definition mac_process_key_body ::
  "crypto \<Rightarrow> u64 \<Rightarrow> sa_uuid option \<Rightarrow> mac \<Rightarrow> client \<Rightarrow> world \<Rightarrow> sa_status \<times> unit \<times> client \<times> world" where
  "mac_process_key_body cr key caller_uuid m c w =
     (let (status, stored_key, store, w) = key_store_unwrap cr True (client_key_store c) key caller_uuid w;
          c = c\<lparr>client_key_store := store\<rparr> in
      if status \<noteq> SA_STATUS_OK then (status, (), c, w)
      else (case stored_key_get_header stored_key of None \<Rightarrow> (SA_STATUS_NULL_PARAMETER, (), c, w)
      | Some header \<Rightarrow>
          if hdr_type header \<noteq> SA_KEY_TYPE_SYMMETRIC then (SA_STATUS_INVALID_PARAMETER, (), c, w)
          else if mac_get_algorithm (Some m) = Some SA_MAC_ALGORITHM_HMAC then
            if hmac_context_done (the_hmac c m) then (SA_STATUS_INVALID_PARAMETER, (), c, w)
            else let (status, ctx, w) = hmac_context_update_key (the_hmac c m) stored_key w in (status, (), put_hmac ctx m c, w)
          else if mac_get_algorithm (Some m) = Some SA_MAC_ALGORITHM_CMAC then
            if cmac_context_done (the_cmac c m) then (SA_STATUS_INVALID_PARAMETER, (), c, w)
            else let (status, ctx, w) = cmac_context_update_key (the_cmac c m) stored_key w in (status, (), put_cmac ctx m c, w)
          else (SA_STATUS_INTERNAL_ERROR, (), c, w)))"

definition ta_sa_crypto_mac_process_key ::
  "crypto \<Rightarrow> u64 \<Rightarrow> u64 \<Rightarrow> ta \<Rightarrow> u64 \<Rightarrow> sa_uuid option \<Rightarrow> world \<Rightarrow> (sa_status \<times> unit \<times> ta \<times> world) option" where
  "ta_sa_crypto_mac_process_key cr context key t client_slot caller_uuid w =
     (if caller_uuid = None then Some (SA_STATUS_NULL_PARAMETER, (), t, w)
      else with_client () (\<lambda>c w. Some (with_mac () (mac_process_key_body cr key caller_uuid) context caller_uuid c w))
        t client_slot caller_uuid w)"

text \<open>
  The outputs of \<open>ta_sa_crypto_mac_compute\<close>: the bytes written to \<open>out\<close> and the value of \<open>*out_length\<close>
  afterwards, whose value before is \<open>len\<close>.
\<close>

definition mac_compute_body ::
  "crypto \<Rightarrow> bool \<Rightarrow> u64 \<Rightarrow> mac \<Rightarrow> client \<Rightarrow> world \<Rightarrow> sa_status \<times> (u8 list option \<times> u64) \<times> client \<times> world" where
  "mac_compute_body cr out_given len m c w =
     (if mac_get_algorithm (Some m) = Some SA_MAC_ALGORITHM_HMAC then
        (case the_hmac c m of None \<Rightarrow> (SA_STATUS_INTERNAL_ERROR, (None, len), c, w)
         | Some ctx \<Rightarrow>
            let required_length = digest_length (hmac_context_get_digest (Some ctx)) in
            if \<not> out_given
            then (if required_length = - 1 then SA_STATUS_INVALID_PARAMETER else SA_STATUS_OK, (None, required_length), c, w)
            else if hmac_context_done (Some ctx) then (SA_STATUS_INVALID_PARAMETER, (None, len), c, w)
            else if len < required_length then (SA_STATUS_INVALID_PARAMETER, (None, len), c, w)
            else let (status, mac, len', ctx', w) = hmac_context_compute cr True (Some required_length) (Some ctx) w in
              (status, (mac, the len'), put_hmac ctx' m c, w))
      else if mac_get_algorithm (Some m) = Some SA_MAC_ALGORITHM_CMAC then
        if \<not> out_given then (SA_STATUS_OK, (None, of_nat AES_BLOCK_SIZE), c, w)
        else if cmac_context_done (the_cmac c m) then (SA_STATUS_INVALID_PARAMETER, (None, len), c, w)
        else if len < of_nat AES_BLOCK_SIZE then (SA_STATUS_INVALID_PARAMETER, (None, len), c, w)
        else let (status, mac, ctx', w) = cmac_context_compute cr True (the_cmac c m) w in
          (status, (mac, of_nat AES_BLOCK_SIZE), put_cmac ctx' m c, w)
      else (SA_STATUS_INTERNAL_ERROR, (None, len), c, w))"

definition ta_sa_crypto_mac_compute ::
  "crypto \<Rightarrow> bool \<Rightarrow> u64 option \<Rightarrow> u64 \<Rightarrow> ta \<Rightarrow> u64 \<Rightarrow> sa_uuid option \<Rightarrow> world \<Rightarrow>
   (sa_status \<times> (u8 list option \<times> u64) \<times> ta \<times> world) option" where
  "ta_sa_crypto_mac_compute cr out_given out_length context t client_slot caller_uuid w =
     (if caller_uuid = None then Some (SA_STATUS_NULL_PARAMETER, (None, 0), t, w)
      else (case out_length of None \<Rightarrow> Some (SA_STATUS_NULL_PARAMETER, (None, 0), t, w)
      | Some len \<Rightarrow>
          with_client (None, len) (\<lambda>c w. Some (with_mac (None, len) (mac_compute_body cr out_given len) context caller_uuid c w))
            t client_slot caller_uuid w))"

text \<open>Releasing a MAC object frees the contexts it owns.\<close>

definition free_mac_resources :: "mac_resource list \<Rightarrow> client \<Rightarrow> client" where
  "free_mac_resources rs c = fold (\<lambda>r c. case r of Hmac_Context x \<Rightarrow> c\<lparr>client_hmacs := heap_free (client_hmacs c) x\<rparr>
     | Cmac_Context x \<Rightarrow> c\<lparr>client_cmacs := heap_free (client_cmacs c) x\<rparr>) rs c"

definition ta_sa_crypto_mac_release ::
  "interference list \<Rightarrow> u64 \<Rightarrow> ta \<Rightarrow> u64 \<Rightarrow> sa_uuid option \<Rightarrow> world \<Rightarrow> (sa_status \<times> unit \<times> ta \<times> world) option" where
  "ta_sa_crypto_mac_release others context t client_slot caller_uuid w =
     (if caller_uuid = None then Some (SA_STATUS_NULL_PARAMETER, (), t, w)
      else with_client () (\<lambda>c w. map_option (\<lambda>(status, freed, store, w).
            (status, (), free_mac_resources freed (c\<lparr>client_mac_store := store\<rparr>), w))
          (mac_store_remove others (client_mac_store c) context caller_uuid w)) t client_slot caller_uuid w)"

section \<open>What the contexts of a session are\<close>

text \<open>
  The abstract view of a session's MAC contexts: a map from handles to the owner and the state of a
  computation. The invariant \<open>macs_ok\<close> says that every object of the store has the one context its
  algorithm needs, and that no two objects share one.
\<close>

datatype mac_state = Hmac hmac_context | Cmac cmac_context

fun mac_state_done :: "mac_state \<Rightarrow> bool" where
  "mac_state_done (Hmac c) = hc_done c" | "mac_state_done (Cmac c) = cc_done c"

fun mac_state_append :: "mac_state \<Rightarrow> u8 list \<Rightarrow> mac_state" where
  "mac_state_append (Hmac c) bs = Hmac (c\<lparr>hc_data := hc_data c @ bs\<rparr>)"
| "mac_state_append (Cmac c) bs = Cmac (c\<lparr>cc_data := cc_data c @ bs\<rparr>)"

fun mac_state_finish :: "mac_state \<Rightarrow> mac_state" where
  "mac_state_finish (Hmac c) = Hmac (c\<lparr>hc_done := True\<rparr>)" | "mac_state_finish (Cmac c) = Cmac (c\<lparr>cc_done := True\<rparr>)"

fun mac_state_value :: "crypto \<Rightarrow> mac_state \<Rightarrow> u8 list" where
  "mac_state_value cr (Hmac c) = hmac_function cr (hc_digest c) (hc_key c) (hc_data c)"
| "mac_state_value cr (Cmac c) = cmac_function cr (cc_key c) (cc_data c)"

definition mac_at :: "client \<Rightarrow> nat \<Rightarrow> (sa_uuid \<times> mac) option" where
  "mac_at c n = (case ts_entries (client_mac_store c) n of None \<Rightarrow> None
     | Some (a, r, u) \<Rightarrow> map_option (\<lambda>m. (u, unlocked m)) (cells (ts_heap (client_mac_store c)) a))"

definition mac_state_of :: "client \<Rightarrow> mac \<Rightarrow> mac_state option" where
  "mac_state_of c m = (if mac_algorithm m = SA_MAC_ALGORITHM_HMAC then map_option Hmac (the_hmac c m)
     else map_option Cmac (the_cmac c m))"

definition mac_view :: "client \<Rightarrow> nat \<Rightarrow> (sa_uuid \<times> mac_state) option" where
  "mac_view c n = (case mac_at c n of None \<Rightarrow> None | Some (u, m) \<Rightarrow> map_option (\<lambda>s. (u, s)) (mac_state_of c m))"

text \<open>The address of the context, with its kind.\<close>

definition context_of :: "mac \<Rightarrow> mac_resource" where
  "context_of m = (if mac_algorithm m = SA_MAC_ALGORITHM_HMAC then Hmac_Context (hmac_context m)
     else Cmac_Context (cmac_context m))"

definition macs_ok :: "client \<Rightarrow> bool" where
  "macs_ok c \<longleftrightarrow> ts_ok (client_mac_store c) \<and> heap_ok (client_hmacs c) \<and> heap_ok (client_cmacs c) \<and>
     (\<forall>n u m. mac_at c n = Some (u, m) \<longrightarrow>
        mac_algorithm m \<in> {SA_MAC_ALGORITHM_HMAC, SA_MAC_ALGORITHM_CMAC} \<and> mac_state_of c m \<noteq> None \<and>
        mac_free m = [context_of m]) \<and>
     (\<forall>n n' u u' m m'. mac_at c n = Some (u, m) \<longrightarrow> mac_at c n' = Some (u', m') \<longrightarrow>
        context_of m = context_of m' \<longrightarrow> n = n')"

lemma macs_okD:
  assumes "macs_ok c"
  shows "ts_ok (client_mac_store c)" "heap_ok (client_hmacs c)" "heap_ok (client_cmacs c)"
    "mac_at c n = Some (u, m) \<Longrightarrow> mac_algorithm m \<in> {SA_MAC_ALGORITHM_HMAC, SA_MAC_ALGORITHM_CMAC} \<and>
      mac_state_of c m \<noteq> None \<and> mac_free m = [context_of m]"
    "mac_at c n = Some (u, m) \<Longrightarrow> mac_at c n' = Some (u', m') \<Longrightarrow> context_of m = context_of m' \<Longrightarrow> n = n'"
  using assms unfolding macs_ok_def by blast+

text \<open>Use counts and locks are invisible.\<close>

lemma mac_at_same:
  assumes "same_objects (client_mac_store c) ts"
  shows "mac_at (c\<lparr>client_mac_store := ts\<rparr>) = mac_at c"
proof
  fix n
  show "mac_at (c\<lparr>client_mac_store := ts\<rparr>) n = mac_at c n"
  proof (cases "ts_entries (client_mac_store c) n")
    case None
    then show ?thesis using same_objects_none(1) [OF assms, of n] by (simp add: mac_at_def)
  next
    case (Some e)
    obtain a r u where e: "ts_entries (client_mac_store c) n = Some (a, r, u)" using Some by (cases e) auto
    obtain r' where e': "ts_entries ts n = Some (a, r', u)" using same_objects_entry [OF assms e] .
    have "map_option unlocked (cells (ts_heap ts) a) = map_option unlocked (cells (ts_heap (client_mac_store c)) a)"
      using assms by (simp add: same_objects_def)
    then show ?thesis using e e'
      by (cases "cells (ts_heap ts) a"; cases "cells (ts_heap (client_mac_store c)) a") (simp_all add: mac_at_def)
  qed
qed

lemma mac_state_of_same [simp]:
  "mac_state_of (c\<lparr>client_mac_store := ts\<rparr>) m = mac_state_of c m"
  "mac_state_of (c\<lparr>client_key_store := ks\<rparr>) m = mac_state_of c m"
  "mac_state_of c (unlocked m) = mac_state_of c m" "context_of (unlocked m) = context_of m" "mac_free (unlocked m) = mac_free m"
  by (simp_all add: mac_state_of_def the_hmac_def the_cmac_def context_of_def mac_free_def mac_get_hmac_context_def mac_get_cmac_context_def)

lemma mac_view_same:
  assumes "same_objects (client_mac_store c) ts"
  shows "mac_view (c\<lparr>client_mac_store := ts\<rparr>) = mac_view c"
  by (rule ext) (simp add: mac_view_def mac_at_same [OF assms] split: option.split)

lemma macs_ok_same:
  "same_objects (client_mac_store c) ts \<Longrightarrow> ts_ok ts \<Longrightarrow> macs_ok c \<Longrightarrow> macs_ok (c\<lparr>client_mac_store := ts\<rparr>)"
  by (simp add: macs_ok_def mac_at_same)

lemma macs_ok_key_store [simp]:
  "macs_ok (c\<lparr>client_key_store := ks\<rparr>) \<longleftrightarrow> macs_ok c" "mac_view (c\<lparr>client_key_store := ks\<rparr>) = mac_view c"
  "mac_at (c\<lparr>client_key_store := ks\<rparr>) = mac_at c"
  by (simp_all add: macs_ok_def mac_view_def mac_at_def fun_eq_iff cong: option.case_cong)

text \<open>Replacing the state of one object's context.\<close>

definition put_mac_state :: "mac_state \<Rightarrow> mac \<Rightarrow> client \<Rightarrow> client" where
  "put_mac_state s m c = (case s of Hmac x \<Rightarrow> put_hmac (Some x) m c | Cmac x \<Rightarrow> put_cmac (Some x) m c)"

definition same_kind :: "mac_state \<Rightarrow> mac_state \<Rightarrow> bool" where
  "same_kind s s' \<longleftrightarrow> (case (s, s') of (Hmac _, Hmac _) \<Rightarrow> True | (Cmac _, Cmac _) \<Rightarrow> True | _ \<Rightarrow> False)"

lemma put_mac_state_view:
  assumes ok: "macs_ok c" and m: "mac_at c n = Some (u, unlocked m)" and s: "mac_state_of c m = Some s" "same_kind s s'"
  shows "macs_ok (put_mac_state s' m c)" "mac_view (put_mac_state s' m c) = (mac_view c)(n \<mapsto> (u, s'))"
    "client_key_store (put_mac_state s' m c) = client_key_store c"
proof -
  have at: "mac_at (put_mac_state s' m c) = mac_at c"
    by (rule ext) (simp add: put_mac_state_def put_hmac_def put_cmac_def mac_at_def split: mac_state.split option.split)
  have state: "mac_state_of (put_mac_state s' m c) k = (if context_of k = context_of m then Some s' else mac_state_of c k)"
    if "mac_algorithm k \<in> {SA_MAC_ALGORITHM_HMAC, SA_MAC_ALGORITHM_CMAC}" for k
    using s that by (cases s; cases s') (auto simp: put_mac_state_def put_hmac_def put_cmac_def mac_state_of_def same_kind_def
        context_of_def the_hmac_def the_cmac_def mac_get_hmac_context_def mac_get_cmac_context_def heap_write_def split: if_splits)
  have heaps: "heap_ok (client_hmacs (put_mac_state s' m c))" "heap_ok (client_cmacs (put_mac_state s' m c))"
    using macs_okD(2,3) [OF ok] s
    by (cases s; cases s'; auto simp: put_mac_state_def put_hmac_def put_cmac_def same_kind_def mac_state_of_def
        the_hmac_def the_cmac_def intro: heap_ok_write split: if_splits)+
  have same: "client_mac_store (put_mac_state s' m c) = client_mac_store c"
    by (simp add: put_mac_state_def put_hmac_def put_cmac_def split: mac_state.split)
  show "macs_ok (put_mac_state s' m c)"
    unfolding macs_ok_def at same
  proof (intro conjI allI impI)
    fix k v j
    assume j: "mac_at c k = Some (v, j)"
    show "mac_state_of (put_mac_state s' m c) j \<noteq> None" using macs_okD(4) [OF ok j] state by simp
  qed (use heaps macs_okD [OF ok] in blast)+
  show "mac_view (put_mac_state s' m c) = (mac_view c)(n \<mapsto> (u, s'))"
  proof
    fix k
    show "mac_view (put_mac_state s' m c) k = ((mac_view c)(n \<mapsto> (u, s'))) k"
    proof (cases "mac_at c k")
      case None
      then show ?thesis using m by (auto simp: mac_view_def at)
    next
      case (Some e)
      obtain v j where e: "mac_at c k = Some (v, j)" using Some by (cases e) auto
      have "k = n" if "context_of j = context_of m" using macs_okD(5) [OF ok e m] that by simp
      with e m macs_okD(4) [OF ok e] state show ?thesis by (auto simp: mac_view_def at)
    qed
  qed
  show "client_key_store (put_mac_state s' m c) = client_key_store c"
    by (simp add: put_mac_state_def put_hmac_def put_cmac_def split: mac_state.split)
qed

section \<open>What the commands do to the view\<close>

text \<open>What a command's body promises, and what follows for the command: the frame is invisible.\<close>

definition keeps_macs :: "(mac \<Rightarrow> client \<Rightarrow> world \<Rightarrow> sa_status \<times> 'a \<times> client \<times> world) \<Rightarrow> bool" where
  "keeps_macs body \<longleftrightarrow> (\<forall>m c w s out c' w'. body m c w = (s, out, c', w') \<longrightarrow> client_mac_store c' = client_mac_store c)"

lemma with_mac_result:
  assumes ok: "macs_ok c" and u: "uuid_ok u" and body: "keeps_macs body"
    and r: "with_mac no body n (Some u) c w = (s, out, c', w')"
  obtains (refused) ts where "s \<noteq> SA_STATUS_OK" "out = no" "macs_ok c'" "mac_view c' = mac_view c"
      "c' = c\<lparr>client_mac_store := ts\<rparr>" "same_objects (client_mac_store c) ts" "same_device w w'"
  | (ran) m ts1 ts2 c2 w1 w2 where "macs_ok (c\<lparr>client_mac_store := ts1\<rparr>)"
      "mac_view (c\<lparr>client_mac_store := ts1\<rparr>) = mac_view c" "mac_at (c\<lparr>client_mac_store := ts1\<rparr>) (unat n) = Some (u, unlocked m)"
      "body m (c\<lparr>client_mac_store := ts1\<rparr>) w1 = (s, out, c2, w2)" "c' = c2\<lparr>client_mac_store := ts2\<rparr>"
      "same_objects (client_mac_store c2) ts2" "ts_ok ts2" "same_objects (client_mac_store c) ts1" "same_device w w1" "same_device w2 w'"
proof -
  note ts = macs_okD(1) [OF ok]
  have keep: "ts_ok (client_mac_store c1) \<Longrightarrow> body m c1 w1 = (s1, o1, c2, w2) \<Longrightarrow> ts_ok (client_mac_store c2)"
    for m c1 w1 s1 o1 c2 w2
  proof -
    assume "ts_ok (client_mac_store c1)" "body m c1 w1 = (s1, o1, c2, w2)"
    then show "ts_ok (client_mac_store c2)" using body unfolding keeps_macs_def by metis
  qed
  show ?thesis
  proof (rule mac_field.with_object_result [OF ts u r keep])
    fix ts'
    assume "s \<noteq> SA_STATUS_OK" "out = no" "c' = c\<lparr>client_mac_store := ts'\<rparr>" "same_objects (client_mac_store c) ts'" "ts_ok ts'" "same_device w w'"
    then show ?thesis using refused ok by (simp add: mac_view_same macs_ok_same)
  next
    fix a k obj ts1 ts2 st1 w1 w2
    assume e: "ts_entries (client_mac_store c) (unat n) = Some (a, k, u)" "cells (ts_heap ts1) a = Some obj"
      and s: "same_objects (client_mac_store c) ts1" "ts_ok ts1"
      and rest: "body obj (c\<lparr>client_mac_store := ts1\<rparr>) w1 = (s, out, st1, w2)" "c' = st1\<lparr>client_mac_store := ts2\<rparr>"
        "same_objects (client_mac_store st1) ts2" "ts_ok ts2" and dev: "same_device w w1" "same_device w2 w'"
    obtain k' where "ts_entries ts1 (unat n) = Some (a, k', u)" by (rule same_objects_entry [OF s(1) e(1)])
    then have "mac_at (c\<lparr>client_mac_store := ts1\<rparr>) (unat n) = Some (u, unlocked obj)" using e(2) by (simp add: mac_at_def)
    with ran [OF _ _ this rest s(1) dev] s ok show ?thesis by (simp add: mac_view_same macs_ok_same)
  qed
qed

text \<open>
  A command of the owner that updates a context does to the view what \<open>f\<close> does to the state of that
  context when it succeeds, and nothing otherwise.
\<close>

definition updates_view :: "(mac_state \<Rightarrow> mac_state) \<Rightarrow> u64 \<Rightarrow> sa_uuid \<Rightarrow> sa_status \<Rightarrow> client \<Rightarrow> client \<Rightarrow> bool" where
  "updates_view f n u status c c' \<longleftrightarrow> macs_ok c' \<and>
     (if status = SA_STATUS_OK
      then \<exists>s. mac_view c (unat n) = Some (u, s) \<and> \<not> mac_state_done s \<and> mac_view c' = (mac_view c)(unat n \<mapsto> (u, f s))
      else mac_view c' = mac_view c)"

lemma mac_state_cases:
  assumes "macs_ok c" "mac_at c n = Some (u, unlocked m)"
  obtains (hmac) x where "mac_algorithm m = SA_MAC_ALGORITHM_HMAC" "the_hmac c m = Some x" "mac_state_of c m = Some (Hmac x)"
      "mac_view c n = Some (u, Hmac x)" "\<And>x'. put_hmac (Some x') m c = put_mac_state (Hmac x') m c"
  | (cmac) x where "mac_algorithm m = SA_MAC_ALGORITHM_CMAC" "the_cmac c m = Some x" "mac_state_of c m = Some (Cmac x)"
      "mac_view c n = Some (u, Cmac x)" "\<And>x'. put_cmac (Some x') m c = put_mac_state (Cmac x') m c"
proof -
  from macs_okD(4) [OF assms] obtain s where
    a: "mac_algorithm m = SA_MAC_ALGORITHM_HMAC \<or> mac_algorithm m = SA_MAC_ALGORITHM_CMAC" and s: "mac_state_of c m = Some s" by auto
  have v: "mac_view c n = Some (u, s)" using assms(2) s by (simp add: mac_view_def)
  from a show ?thesis
  proof
    assume "mac_algorithm m = SA_MAC_ALGORITHM_HMAC"
    with s v show ?thesis by (intro hmac [of "case s of Hmac x \<Rightarrow> x"]) (auto simp: mac_state_of_def put_mac_state_def)
  next
    assume "mac_algorithm m = SA_MAC_ALGORITHM_CMAC"
    with s v show ?thesis by (intro cmac [of "case s of Cmac x \<Rightarrow> x"]) (auto simp: mac_state_of_def put_mac_state_def)
  qed
qed

lemma updates_view_put:
  assumes ok: "macs_ok c" and m: "mac_at c (unat n) = Some (u, unlocked m)" and v: "mac_view c (unat n) = Some (u, s)"
    and s: "mac_state_of c m = Some s" "same_kind s (f s)" "\<not> mac_state_done s"
  shows "updates_view f n u SA_STATUS_OK c (put_mac_state (f s) m c)"
  using put_mac_state_view [OF ok m s(1,2)] v s(3) by (simp add: updates_view_def)

lemma updates_view_error: "macs_ok c \<Longrightarrow> status \<noteq> SA_STATUS_OK \<Longrightarrow> updates_view f n u status c c"
  by (simp add: updates_view_def)

lemma heap_write_same: "cells h a = Some v \<Longrightarrow> heap_write h a v = h"
  by (simp add: heap_write_def fun_upd_idem)

lemma put_mac_same:
  "the_hmac c m = Some x \<Longrightarrow> put_mac_state (Hmac x) m c = c" "the_cmac c m = Some y \<Longrightarrow> put_mac_state (Cmac y) m c = c"
  by (simp_all add: put_mac_state_def put_hmac_def put_cmac_def the_hmac_def the_cmac_def heap_write_same)

lemma mac_process_body_view:
  assumes ok: "macs_ok c" and m: "mac_at c (unat n) = Some (u, unlocked m)"
    and r: "mac_process_body (Some bs) (length bs) m c w = (s, out, c', w')"
  shows "updates_view (\<lambda>s. mac_state_append s bs) n u s c c'"
  using ok m
proof (cases rule: mac_state_cases)
  case (hmac x)
  note put = updates_view_put [OF ok m hmac(4,3), of "\<lambda>s. mac_state_append s bs"]
  show ?thesis
    using r hmac put updates_view_error [OF ok] put_mac_same(1) [OF hmac(2)]
    by (auto simp: mac_process_body_def mac_get_algorithm_def hmac_context_done_def Mac_Context.hmac_context_update_def
        same_kind_def Let_def split: if_splits prod.splits)
next
  case (cmac x)
  note put = updates_view_put [OF ok m cmac(4,3), of "\<lambda>s. mac_state_append s bs"]
  show ?thesis
    using r cmac put updates_view_error [OF ok] put_mac_same(2) [OF cmac(2)]
    by (auto simp: mac_process_body_def mac_get_algorithm_def cmac_context_done_def Mac_Context.cmac_context_update_def
        same_kind_def Let_def split: if_splits prod.splits)
qed

text \<open>A computation: with an output buffer it delivers the value and ends the context.\<close>

lemma mac_compute_body_view:
  assumes ok: "macs_ok c" and m: "mac_at c (unat n) = Some (u, unlocked m)"
    and r: "mac_compute_body cr True len m c w = (s, (out, len'), c', w')"
  shows "s = SA_STATUS_OK \<Longrightarrow> updates_view mac_state_finish n u s c c' \<and>
      (\<exists>st. mac_view c (unat n) = Some (u, st) \<and> out = Some (mac_state_value cr st))"
    "macs_ok c'" "s \<noteq> SA_STATUS_OK \<Longrightarrow> out = None \<and>
      (mac_view c' = mac_view c \<or> (\<exists>st. mac_view c (unat n) = Some (u, st) \<and> mac_view c' = (mac_view c)(unat n \<mapsto> (u, mac_state_finish st))))"
proof -
  have "(s = SA_STATUS_OK \<longrightarrow> updates_view mac_state_finish n u s c c' \<and>
      (\<exists>st. mac_view c (unat n) = Some (u, st) \<and> out = Some (mac_state_value cr st))) \<and>
    macs_ok c' \<and> (s \<noteq> SA_STATUS_OK \<longrightarrow> out = None \<and>
      (mac_view c' = mac_view c \<or> (\<exists>st. mac_view c (unat n) = Some (u, st) \<and> mac_view c' = (mac_view c)(unat n \<mapsto> (u, mac_state_finish st)))))"
    using ok m
  proof (cases rule: mac_state_cases)
    case (hmac x)
    have put: "updates_view mac_state_finish n u SA_STATUS_OK c (put_mac_state (Hmac (x\<lparr>hc_done := True\<rparr>)) m c)" if "\<not> hc_done x"
      using updates_view_put [OF ok m hmac(4,3), of mac_state_finish] that by (simp add: same_kind_def)
    have fin: "macs_ok (put_mac_state (Hmac (x\<lparr>hc_done := True\<rparr>)) m c)"
      "mac_view (put_mac_state (Hmac (x\<lparr>hc_done := True\<rparr>)) m c) = (mac_view c)(unat n \<mapsto> (u, mac_state_finish (Hmac x)))"
      using put_mac_state_view(1,2) [OF ok m hmac(3), of "Hmac (x\<lparr>hc_done := True\<rparr>)"] by (simp_all add: same_kind_def)
    show ?thesis
      using r hmac put fin ok put_mac_same(1) [OF hmac(2)]
      by (auto simp: mac_compute_body_def mac_get_algorithm_def hmac_context_done_def hmac_context_compute_def
          hmac_context_get_digest_def Let_def split: if_splits prod.splits)
  next
    case (cmac x)
    have put: "updates_view mac_state_finish n u SA_STATUS_OK c (put_mac_state (Cmac (x\<lparr>cc_done := True\<rparr>)) m c)" if "\<not> cc_done x"
      using updates_view_put [OF ok m cmac(4,3), of mac_state_finish] that by (simp add: same_kind_def)
    have fin: "macs_ok (put_mac_state (Cmac (x\<lparr>cc_done := True\<rparr>)) m c)"
      "mac_view (put_mac_state (Cmac (x\<lparr>cc_done := True\<rparr>)) m c) = (mac_view c)(unat n \<mapsto> (u, mac_state_finish (Cmac x)))"
      using put_mac_state_view(1,2) [OF ok m cmac(3), of "Cmac (x\<lparr>cc_done := True\<rparr>)"] by (simp_all add: same_kind_def)
    show ?thesis
      using r cmac put fin ok put_mac_same(2) [OF cmac(2)]
      by (auto simp: mac_compute_body_def mac_get_algorithm_def cmac_context_done_def cmac_context_compute_def
          Let_def split: if_splits prod.splits)
  qed
  then show "s = SA_STATUS_OK \<Longrightarrow> updates_view mac_state_finish n u s c c' \<and>
      (\<exists>st. mac_view c (unat n) = Some (u, st) \<and> out = Some (mac_state_value cr st))"
    "macs_ok c'" "s \<noteq> SA_STATUS_OK \<Longrightarrow> out = None \<and>
      (mac_view c' = mac_view c \<or> (\<exists>st. mac_view c (unat n) = Some (u, st) \<and> mac_view c' = (mac_view c)(unat n \<mapsto> (u, mac_state_finish st))))"
    by blast+
qed

text \<open>A new object of the store whose context is new as well.\<close>

lemma add_mac_view:
  assumes ok: "macs_ok c" and u: "uuid_ok u"
    and add: "typed_add (client_mac_store c) m u w = (SA_STATUS_OK, n, ts, w')"
    and c': "client_mac_store c' = ts" "heap_ok (client_hmacs c')" "heap_ok (client_cmacs c')"
    and heaps: "\<And>x. cells (client_hmacs c) x \<noteq> None \<Longrightarrow> cells (client_hmacs c') x = cells (client_hmacs c) x"
      "\<And>x. cells (client_cmacs c) x \<noteq> None \<Longrightarrow> cells (client_cmacs c') x = cells (client_cmacs c) x"
    and m: "mac_algorithm m \<in> {SA_MAC_ALGORITHM_HMAC, SA_MAC_ALGORITHM_CMAC}" "mac_free m = [context_of m]"
      "mac_state_of c m = None" "mac_state_of c' m = Some s"
  shows "macs_ok c'" "mac_view c (unat n) = None" "mac_view c' = (mac_view c)(unat n \<mapsto> (u, s))"
proof -
  note ts = macs_okD(1) [OF ok]
  obtain a where a: "ts_ok ts" "ts_entries (client_mac_store c) (unat n) = None"
    "ts_entries ts = (ts_entries (client_mac_store c))(unat n \<mapsto> (a, 0, u))" "cells (ts_heap ts) a = Some m"
    "\<And>b. b \<noteq> a \<Longrightarrow> cells (ts_heap ts) b = cells (ts_heap (client_mac_store c)) b"
    and fresh: "\<And>k r v. ts_entries (client_mac_store c) k \<noteq> Some (a, r, v)"
  proof (rule typed_add_result [OF ts u add])
    fix a
    assume r: "ts_ok ts" "ts_entries (client_mac_store c) (unat n) = None"
      "ts_entries ts = (ts_entries (client_mac_store c))(unat n \<mapsto> (a, 0, u))" "cells (ts_heap ts) a = Some m"
      "\<And>b. b \<noteq> a \<Longrightarrow> cells (ts_heap ts) b = cells (ts_heap (client_mac_store c)) b"
    have "ts_entries (client_mac_store c) k \<noteq> Some (a, q, v)" for k q v
    proof
      assume e: "ts_entries (client_mac_store c) k = Some (a, q, v)"
      with r(2,3) have "k \<noteq> unat n" "ts_entries ts k = Some (a, q, v)" "ts_entries ts (unat n) = Some (a, 0, u)" by auto
      with r(1) show False unfolding ts_ok_def reg.coherent_def by blast
    qed
    with r that show ?thesis by blast
  qed simp
  have at: "mac_at c' = (mac_at c)(unat n \<mapsto> (u, unlocked m))"
  proof
    fix k
    show "mac_at c' k = ((mac_at c)(unat n \<mapsto> (u, unlocked m))) k"
    proof (cases "ts_entries (client_mac_store c) k")
      case (Some e)
      obtain b r v where e: "ts_entries (client_mac_store c) k = Some (b, r, v)" using Some by (cases e) auto
      with fresh have "b \<noteq> a" by blast
      with e a show ?thesis by (simp add: mac_at_def c')
    qed (use a in \<open>simp add: mac_at_def c'\<close>)
  qed
  have state: "mac_state_of c' j = mac_state_of c j" if "mac_state_of c j \<noteq> None" for j
    using that heaps by (auto simp: mac_state_of_def the_hmac_def the_cmac_def split: if_splits)
  have new: "context_of j \<noteq> context_of m" if "mac_state_of c j \<noteq> None" for j
    using that m(3) by (auto simp: context_of_def mac_state_of_def the_hmac_def the_cmac_def
        mac_get_hmac_context_def mac_get_cmac_context_def split: if_splits)
  show "macs_ok c'"
    unfolding macs_ok_def
  proof (intro conjI allI impI)
    show "ts_ok (client_mac_store c')" "heap_ok (client_hmacs c')" "heap_ok (client_cmacs c')" using a c' by simp_all
  next
    fix k v j
    assume "mac_at c' k = Some (v, j)"
    with macs_okD(4) [OF ok, of k v j] state [of j] m
    show "mac_algorithm j \<in> {SA_MAC_ALGORITHM_HMAC, SA_MAC_ALGORITHM_CMAC}" "mac_state_of c' j \<noteq> None" "mac_free j = [context_of j]"
      by (auto simp: at split: if_splits)
  next
    fix k k' v v' j j'
    assume j: "mac_at c' k = Some (v, j)" "mac_at c' k' = Some (v', j')" "context_of j = context_of j'"
    show "k = k'"
      using j macs_okD(4,5) [OF ok] new [of j] new [of j'] by (auto simp: at split: if_splits)
  qed
  show "mac_view c (unat n) = None" using a(2) by (simp add: mac_view_def mac_at_def)
  show "mac_view c' = (mac_view c)(unat n \<mapsto> (u, s))"
  proof
    fix k
    show "mac_view c' k = ((mac_view c)(unat n \<mapsto> (u, s))) k"
    proof (cases "mac_at c k")
      case (Some e)
      obtain v j where e: "mac_at c k = Some (v, j)" using Some by (cases e) auto
      then show ?thesis using m(4) macs_okD(4) [OF ok e] state [of j] by (auto simp: mac_view_def at)
    qed (use m(4) in \<open>simp add: mac_view_def at\<close>)
  qed
qed

text \<open>The owner of a handle and the key behind it.\<close>

definition owns_key :: "crypto \<Rightarrow> u8 list \<Rightarrow> wrapped_key typed_store \<Rightarrow> u64 \<Rightarrow> sa_uuid \<Rightarrow> stored_key \<Rightarrow> bool" where
  "owns_key cr root ts key u sk \<longleftrightarrow> (\<exists>a r wk. ts_entries ts (unat key) = Some (a, r, u) \<and>
     cells (ts_heap ts) a = Some wk \<and> wraps cr root wk sk)"

lemma owns_key_same: "same_keys ts ts' \<Longrightarrow> owns_key cr root ts key u sk \<Longrightarrow> owns_key cr root ts' key u sk"
proof -
  assume s: "same_keys ts ts'" and "owns_key cr root ts key u sk"
  then obtain a r wk where e: "ts_entries ts (unat key) = Some (a, r, u)" "cells (ts_heap ts) a = Some wk" "wraps cr root wk sk"
    unfolding owns_key_def by blast
  have "map_option (\<lambda>(a, r, u). (a, u)) (ts_entries ts' (unat key)) = Some (a, u)" using s e(1) by (simp add: same_keys_def)
  then obtain r' where "ts_entries ts' (unat key) = Some (a, r', u)" by auto
  moreover have "cells (ts_heap ts') a = Some wk" using s e(2) by (simp add: same_keys_def)
  ultimately show ?thesis using e(3) unfolding owns_key_def by blast
qed

lemma key_store_unwrap_owner:
  assumes "keys_ok cr (w_root_key w) ts" "uuid_ok u" "crypto_ok cr" "provisioned w"
    "key_store_unwrap cr True ts key (Some u) w = (SA_STATUS_OK, result, ts', w')"
  obtains sk where "result = Some sk" "owns_key cr (w_root_key w) ts key u sk" "may_use (hdr_rights (sk_header sk)) u w"
  using key_store_unwrap_rights [OF assms] unfolding owns_key_def by blast

definition may_sign :: "stored_key \<Rightarrow> sa_uuid \<Rightarrow> world \<Rightarrow> bool" where
  "may_sign sk u w \<longleftrightarrow> may_use (hdr_rights (sk_header sk)) u w \<and>
     SA_USAGE_FLAG_SIGN \<in> usage_flag_set (usage_flags (hdr_rights (sk_header sk)))"

text \<open>
  What the creation of a context does: with a key that its owner may sign with, a fresh handle gets a
  context for the key's bytes; otherwise nothing happens.
\<close>

definition creates_mac ::
  "crypto \<Rightarrow> (u8 list \<Rightarrow> mac_state) \<Rightarrow> u64 \<Rightarrow> sa_uuid \<Rightarrow> world \<Rightarrow> sa_status \<Rightarrow> u64 \<Rightarrow> client \<Rightarrow> client \<Rightarrow> bool" where
  "creates_mac cr start key u w status n c c' \<longleftrightarrow> macs_ok c' \<and> same_keys (client_key_store c) (client_key_store c') \<and>
     (if status = SA_STATUS_OK
      then mac_view c (unat n) = None \<and> (\<exists>sk. owns_key cr (w_root_key w) (client_key_store c) key u sk \<and> may_sign sk u w \<and>
        mac_view c' = (mac_view c)(unat n \<mapsto> (u, start (sk_key sk))))
      else mac_view c' = mac_view c)"

lemma creates_mac_error:
  "macs_ok c \<Longrightarrow> same_keys (client_key_store c) ks \<Longrightarrow> status \<noteq> SA_STATUS_OK \<Longrightarrow>
    creates_mac cr start key u w status n c (c\<lparr>client_key_store := ks\<rparr>)"
  by (simp add: creates_mac_def)

lemma heap_alloc_keeps:
  assumes "heap_ok h" "heap_alloc h v = (x, h')"
  shows "heap_ok h'" "cells h x = None" "cells h' x = Some v" "x \<noteq> NULL" "cells h y \<noteq> None \<Longrightarrow> cells h' y = cells h y"
    "heap_ok (heap_free h' x)" "cells (heap_free h' x) = cells h"
proof -
  have x: "x = next_addr h" "h' = h\<lparr>next_addr := Suc (next_addr h), cells := (cells h)(x \<mapsto> v)\<rparr>"
    using assms(2) by (auto simp: heap_alloc_def)
  show "cells h x = None" using heap_alloc_fresh [OF assms(1)] x by simp
  then show "cells h' x = Some v" "cells h y \<noteq> None \<Longrightarrow> cells h' y = cells h y" "cells (heap_free h' x) = cells h"
    using x by (auto simp: heap_free_def fun_eq_iff)
  show "heap_ok h'" using heap_ok_alloc [OF assms(1), of v] assms(2) by simp
  then show "heap_ok (heap_free h' x)" by (rule heap_ok_free)
  show "x \<noteq> NULL" using assms(1) x by (simp add: heap_ok_def)
qed

text \<open>Adding fails without a trace: the context that was made is freed again.\<close>

lemma add_mac_error_view:
  assumes ok: "macs_ok c" and h: "handed_over (client_mac_store c) r u status n ts" "status \<noteq> SA_STATUS_OK"
    and c': "client_mac_store c' = ts" "heap_ok (client_hmacs c')" "heap_ok (client_cmacs c')"
      "cells (client_hmacs c') = cells (client_hmacs c)" "cells (client_cmacs c') = cells (client_cmacs c)"
  shows "macs_ok c'" "mac_view c' = mac_view c"
proof -
  have s: "ts_ok ts" "ts_entries ts = ts_entries (client_mac_store c)" "cells (ts_heap ts) = cells (ts_heap (client_mac_store c))"
    using h by (simp_all add: handed_over_def)
  have at: "mac_at c' = mac_at c" by (rule ext) (simp add: mac_at_def c' s split: option.split)
  have state: "mac_state_of c' = mac_state_of c"
    by (rule ext) (simp add: mac_state_of_def the_hmac_def the_cmac_def c')
  show "macs_ok c'" using ok s c' unfolding macs_ok_def at state by simp
  show "mac_view c' = mac_view c" unfolding mac_view_def at state by simp
qed

text \<open>The guards in front of the creation of a context: each of them leaves with an error and the session as it is.\<close>

lemma guarded_creation:
  assumes "(if s1 \<noteq> SA_STATUS_OK then (s1, i, c, w1)
    else (case sk of None \<Rightarrow> (SA_STATUS_NULL_PARAMETER, i, c, w1)
    | Some k \<Rightarrow> if \<not> p k then (SA_STATUS_OPERATION_NOT_ALLOWED, i, c, w1)
        else if \<not> q k then (SA_STATUS_INVALID_KEY_TYPE, i, c, w1)
        else if z then (SA_STATUS_INVALID_PARAMETER, i, c, w1)
        else (case made of None \<Rightarrow> (SA_STATUS_INTERNAL_ERROR, i, c, w2) | Some ctx \<Rightarrow> add ctx))) = (s, n, c', w')"
  obtains (error) "s \<noteq> SA_STATUS_OK" "c' = c"
  | (created) k ctx where "s1 = SA_STATUS_OK" "sk = Some k" "made = Some ctx" "p k" "q k" "\<not> z" "add ctx = (s, n, c', w')"
  using assms by (auto split: if_splits option.splits)

lemma mac_init_hmac_view:
  assumes ok: "macs_ok c" and u: "uuid_ok u" and keys: "keys_ok cr (w_root_key w) (client_key_store c)" "crypto_ok cr" "provisioned w"
    and r: "ta_sa_crypto_mac_init_hmac cr True key (Some alg) (Some u) c w = (s, n, c', w')"
  shows "creates_mac cr (\<lambda>bs. Hmac \<lparr>hc_key = bs, hc_data = [], hc_digest = alg, hc_done = False\<rparr>) key u w s n c c'"
proof -
  obtain s1 sk ks w1 where un: "key_store_unwrap cr True (client_key_store c) key (Some u) w = (s1, sk, ks, w1)"
    using prod_cases4 by blast
  have same: "same_keys (client_key_store c) ks" by (rule key_store_unwrap_same [OF keys_okD(1) [OF keys(1)] u un])
  note dev = key_store_unwrap_device [OF un]
  let ?c = "c\<lparr>client_key_store := ks\<rparr>"
  obtain ho w2 where create: "hmac_context_create alg sk w1 = (ho, w2)" by fastforce
  let ?add = "\<lambda>ctx. let (x, h) = heap_alloc (client_hmacs c) ctx;
          (status, slot, _, store, w) = mac_store_add_hmac_context True (client_mac_store c) x (Some u) w2 in
        (status, slot, ?c\<lparr>client_mac_store := store, client_hmacs := if status = SA_STATUS_OK then h else heap_free h x\<rparr>, w)"
  have "(if s1 \<noteq> SA_STATUS_OK then (s1, INVALID_HANDLE, ?c, w1)
      else (case sk of None \<Rightarrow> (SA_STATUS_NULL_PARAMETER, INVALID_HANDLE, ?c, w1)
      | Some k \<Rightarrow>
          if \<not> rights_allowed_sign (Some (hdr_rights (sk_header k))) w1 then (SA_STATUS_OPERATION_NOT_ALLOWED, INVALID_HANDLE, ?c, w1)
          else if \<not> key_type_supports_hmac (hdr_type (sk_header k)) (ucast (hdr_size (sk_header k)))
          then (SA_STATUS_INVALID_KEY_TYPE, INVALID_HANDLE, ?c, w1)
          else if alg \<noteq> SA_DIGEST_ALGORITHM_SHA1 \<and> alg \<noteq> SA_DIGEST_ALGORITHM_SHA256 \<and>
            alg \<noteq> SA_DIGEST_ALGORITHM_SHA384 \<and> alg \<noteq> SA_DIGEST_ALGORITHM_SHA512
          then (SA_STATUS_INVALID_PARAMETER, INVALID_HANDLE, ?c, w1)
          else (case ho of None \<Rightarrow> (SA_STATUS_INTERNAL_ERROR, INVALID_HANDLE, ?c, w2) | Some ctx \<Rightarrow> ?add ctx))) = (s, n, c', w')"
    unfolding r [symmetric] using un create
    by (cases sk; cases ho; simp add: ta_sa_crypto_mac_init_hmac_def stored_key_get_header_def Let_def cong: if_cong split del: if_split)
  then show ?thesis
  proof (cases rule: guarded_creation)
    case error
    then show ?thesis using creates_mac_error [OF ok same] by simp
  next
    case (created k ctx)
    obtain sk' where sk': "sk = Some sk'" "owns_key cr (w_root_key w) (client_key_store c) key u sk'"
      "may_use (hdr_rights (sk_header sk')) u w"
      using key_store_unwrap_owner [OF keys(1) u keys(2,3) un [unfolded created(1)]] by blast
    have sign: "may_sign k u w"
      using created(2,4) sk' by (auto simp: may_sign_def rights_allowed_sign_def split: if_splits)
    have ctx: "ctx = \<lparr>hc_key = sk_key k, hc_data = [], hc_digest = alg, hc_done = False\<rparr>"
      using hmac_create_result create created(2,3) by blast
    obtain x h where al: "heap_alloc (client_hmacs c) ctx = (x, h)" by fastforce
    note hp = heap_alloc_keeps [OF macs_okD(2) [OF ok] al]
    obtain s3 n3 f ts w3 where add: "mac_store_add_hmac_context True (client_mac_store c) x (Some u) w2 = (s3, n3, f, ts, w3)"
      using prod_cases5 by blast
    have res: "s = s3" "n = n3" "c' = ?c\<lparr>client_mac_store := ts, client_hmacs := if s3 = SA_STATUS_OK then h else heap_free h x\<rparr>"
      using created(7) al add by auto
    note ho = mac_add_handed_over(1) [OF macs_okD(1) [OF ok] u add]
    show ?thesis
    proof (cases "s = SA_STATUS_OK")
      case False
      with add_mac_error_view [OF _ _ False [unfolded res], of ?c _ u n3 ts c'] ok hp res macs_okD(3) [OF ok] ho
      show ?thesis by (simp add: creates_mac_def same)
    next
      case True
      let ?m = "\<lparr>lock_depth = 0, mac_algorithm = SA_MAC_ALGORITHM_HMAC, hmac_context = x, cmac_context = NULL\<rparr>"
      obtain w4 where t: "typed_add (client_mac_store c) ?m u w4 = (SA_STATUS_OK, n, ts, w3)"
        using add True res hp(4) by (auto simp: mac_store_add_hmac_context_def mac_allocate_def Let_def split: if_splits prod.splits option.splits)
      have st: "mac_state_of c' ?m = Some (Hmac ctx)" "mac_state_of c ?m = None" "mac_free ?m = [context_of ?m]"
        using hp True res by (simp_all add: mac_state_of_def the_hmac_def mac_get_hmac_context_def context_of_def mac_free_def)
      with add_mac_view [of ?c u ?m w4 n ts w3 c' "Hmac ctx"] ok u t hp macs_okD(3) [OF ok] res
      have "macs_ok c'" "mac_view c (unat n) = None" "mac_view c' = (mac_view c)(unat n \<mapsto> (u, Hmac ctx))" by simp_all
      then show ?thesis using True sk' sign created(2) res by (auto simp: creates_mac_def same ctx)
    qed
  qed
qed

end
