(* ===== verification/Ta_Cipher_Init.thy ===== *)
theory Ta_Cipher_Init
  imports Buffer Public_Key Ta_Mac
begin

text \<open>
  The creation of cipher contexts, \<^verbatim>\<open>reference/src/taimpl/src/ta_sa_crypto_cipher_init.c\<close>. The static functions
  are called with the unwrapped key, the session and the address of the caller's context, which are never
  NULL there. The parameters are the structure of the algorithm, a pointer and a length in it being a list
  of bytes or \<open>None\<close>; a pointer to the structure of another algorithm counts as NULL.
\<close>

datatype sa_cipher_parameters =
    Parameters_Aes_Cbc "u8 list option"
  | Parameters_Aes_Ctr "u8 list option"
  | Parameters_Aes_Gcm "u8 list option" "u8 list option" nat
  | Parameters_Chacha20 "u8 list option" "u8 list option"
  | Parameters_Chacha20_Poly1305 "u8 list option" "u8 list option" nat
  | Parameters_Rsa_Oaep sa_digest_algorithm sa_digest_algorithm "u8 list option" u64

abbreviation with_cipher where
  "with_cipher \<equiv> with_object client_cipher_store (\<lambda>ts c. c\<lparr>client_cipher_store := ts\<rparr>)"

section \<open>Symmetric ciphers\<close>

text \<open>
  The part the six functions share: the cipher is verified, a context is made for the mode, and the store
  takes the context and the key, or the context is freed. The functions for the authenticated
  ciphers look at the handle, not at the status, to see whether the store took it.
\<close>

definition init_symmetric ::
  "bool \<Rightarrow> sa_cipher_algorithm \<Rightarrow> sa_cipher_mode \<Rightarrow> (world \<Rightarrow> symmetric_context option \<times> world) \<Rightarrow>
   (world \<Rightarrow> symmetric_context option \<times> world) \<Rightarrow> stored_key \<Rightarrow> sa_uuid option \<Rightarrow> client \<Rightarrow> world \<Rightarrow>
   sa_status \<times> u64 \<times> client \<times> world" where
  "init_symmetric by_handle algorithm mode create_encrypt create_decrypt k caller_uuid c w =
     (let status = symmetric_verify_cipher algorithm mode in
      if status \<noteq> SA_STATUS_OK then (status, INVALID_HANDLE, c, w)
      else if mode \<noteq> SA_CIPHER_MODE_ENCRYPT \<and> mode \<noteq> SA_CIPHER_MODE_DECRYPT
      then (SA_STATUS_INVALID_PARAMETER, INVALID_HANDLE, c, w)
      else (case (if mode = SA_CIPHER_MODE_ENCRYPT then create_encrypt w else create_decrypt w) of
          (None, w) \<Rightarrow> (SA_STATUS_INTERNAL_ERROR, INVALID_HANDLE, c, w)
        | (Some ctx, w) \<Rightarrow>
            let (x, h) = heap_alloc (client_symmetrics c) ctx;
                (status, slot, freed, store, w) = cipher_store_add_symmetric_context True (client_cipher_store c) algorithm mode
                  x (Some k) caller_uuid w;
                taken = (if by_handle then slot \<noteq> INVALID_HANDLE else status = SA_STATUS_OK) in
            (if by_handle \<and> taken then SA_STATUS_OK else status, slot,
             c\<lparr>client_cipher_store := store, client_symmetrics := if taken then h else heap_free h x\<rparr>, w)))"

definition ta_sa_crypto_cipher_init_aes_ecb ::
  "sa_cipher_algorithm \<Rightarrow> sa_cipher_mode \<Rightarrow> stored_key \<Rightarrow> client \<Rightarrow> sa_uuid option \<Rightarrow> world \<Rightarrow> sa_status \<times> u64 \<times> client \<times> world" where
  "ta_sa_crypto_cipher_init_aes_ecb algorithm mode k c caller_uuid w =
     (if \<not> key_type_supports_aes (hdr_type (sk_header k)) (ucast (hdr_size (sk_header k)))
      then (SA_STATUS_INVALID_KEY_TYPE, INVALID_HANDLE, c, w)
      else if caller_uuid = None then (SA_STATUS_NULL_PARAMETER, INVALID_HANDLE, c, w)
      else let padded = (algorithm = SA_CIPHER_ALGORITHM_AES_ECB_PKCS7) in
        init_symmetric False algorithm mode (symmetric_create_aes_ecb_encrypt_context (Some k) padded)
          (symmetric_create_aes_ecb_decrypt_context (Some k) padded) k caller_uuid c w)"

definition ta_sa_crypto_cipher_init_aes_cbc ::
  "sa_cipher_algorithm \<Rightarrow> sa_cipher_mode \<Rightarrow> stored_key \<Rightarrow> sa_cipher_parameters option \<Rightarrow> client \<Rightarrow> sa_uuid option \<Rightarrow> world \<Rightarrow>
   sa_status \<times> u64 \<times> client \<times> world" where
  "ta_sa_crypto_cipher_init_aes_cbc algorithm mode k parameters c caller_uuid w =
     (if \<not> key_type_supports_aes (hdr_type (sk_header k)) (ucast (hdr_size (sk_header k)))
      then (SA_STATUS_INVALID_KEY_TYPE, INVALID_HANDLE, c, w)
      else if caller_uuid = None then (SA_STATUS_NULL_PARAMETER, INVALID_HANDLE, c, w)
      else (case parameters of
          Some (Parameters_Aes_Cbc (Some iv)) \<Rightarrow>
            if length iv \<noteq> AES_BLOCK_SIZE then (SA_STATUS_INVALID_PARAMETER, INVALID_HANDLE, c, w)
            else let padded = (algorithm = SA_CIPHER_ALGORITHM_AES_CBC_PKCS7) in
              init_symmetric False algorithm mode (symmetric_create_aes_cbc_encrypt_context (Some k) (Some iv) padded)
                (symmetric_create_aes_cbc_decrypt_context (Some k) (Some iv) padded) k caller_uuid c w
        | _ \<Rightarrow> (SA_STATUS_NULL_PARAMETER, INVALID_HANDLE, c, w)))"

definition ta_sa_crypto_cipher_init_aes_ctr ::
  "sa_cipher_mode \<Rightarrow> stored_key \<Rightarrow> sa_cipher_parameters option \<Rightarrow> client \<Rightarrow> sa_uuid option \<Rightarrow> world \<Rightarrow>
   sa_status \<times> u64 \<times> client \<times> world" where
  "ta_sa_crypto_cipher_init_aes_ctr mode k parameters c caller_uuid w =
     (if \<not> key_type_supports_aes (hdr_type (sk_header k)) (ucast (hdr_size (sk_header k)))
      then (SA_STATUS_INVALID_KEY_TYPE, INVALID_HANDLE, c, w)
      else if caller_uuid = None then (SA_STATUS_NULL_PARAMETER, INVALID_HANDLE, c, w)
      else (case parameters of
          Some (Parameters_Aes_Ctr (Some ctr)) \<Rightarrow>
            if length ctr \<noteq> AES_BLOCK_SIZE then (SA_STATUS_INVALID_PARAMETER, INVALID_HANDLE, c, w)
            else init_symmetric False SA_CIPHER_ALGORITHM_AES_CTR mode
              (symmetric_create_aes_ctr_encrypt_context (Some k) (Some ctr))
              (symmetric_create_aes_ctr_decrypt_context (Some k) (Some ctr)) k caller_uuid c w
        | _ \<Rightarrow> (SA_STATUS_NULL_PARAMETER, INVALID_HANDLE, c, w)))"

definition ta_sa_crypto_cipher_init_aes_gcm ::
  "sa_cipher_mode \<Rightarrow> stored_key \<Rightarrow> sa_cipher_parameters option \<Rightarrow> client \<Rightarrow> sa_uuid option \<Rightarrow> world \<Rightarrow>
   sa_status \<times> u64 \<times> client \<times> world" where
  "ta_sa_crypto_cipher_init_aes_gcm mode k parameters c caller_uuid w =
     (if \<not> key_type_supports_aes (hdr_type (sk_header k)) (ucast (hdr_size (sk_header k)))
      then (SA_STATUS_INVALID_KEY_TYPE, INVALID_HANDLE, c, w)
      else if caller_uuid = None then (SA_STATUS_NULL_PARAMETER, INVALID_HANDLE, c, w)
      else (case parameters of
          Some (Parameters_Aes_Gcm (Some iv) aad aad_length) \<Rightarrow>
            if length iv \<noteq> GCM_IV_LENGTH then (SA_STATUS_INVALID_PARAMETER, INVALID_HANDLE, c, w)
            else if aad = None \<and> aad_length > 0 then (SA_STATUS_NULL_PARAMETER, INVALID_HANDLE, c, w)
            else init_symmetric True SA_CIPHER_ALGORITHM_AES_GCM mode
              (symmetric_create_aes_gcm_encrypt_context (Some k) (Some iv) aad aad_length)
              (symmetric_create_aes_gcm_decrypt_context (Some k) (Some iv) aad aad_length) k caller_uuid c w
        | _ \<Rightarrow> (SA_STATUS_NULL_PARAMETER, INVALID_HANDLE, c, w)))"

definition ta_sa_crypto_cipher_init_chacha20 ::
  "sa_cipher_mode \<Rightarrow> stored_key \<Rightarrow> sa_cipher_parameters option \<Rightarrow> client \<Rightarrow> sa_uuid option \<Rightarrow> world \<Rightarrow>
   sa_status \<times> u64 \<times> client \<times> world" where
  "ta_sa_crypto_cipher_init_chacha20 mode k parameters c caller_uuid w =
     (if \<not> key_type_supports_chacha20 (hdr_type (sk_header k)) (ucast (hdr_size (sk_header k)))
      then (SA_STATUS_INVALID_KEY_TYPE, INVALID_HANDLE, c, w)
      else if caller_uuid = None then (SA_STATUS_NULL_PARAMETER, INVALID_HANDLE, c, w)
      else (case parameters of
          Some (Parameters_Chacha20 counter (Some nonce)) \<Rightarrow>
            if length nonce \<noteq> CHACHA20_NONCE_LENGTH then (SA_STATUS_INVALID_PARAMETER, INVALID_HANDLE, c, w)
            else (case counter of None \<Rightarrow> (SA_STATUS_NULL_PARAMETER, INVALID_HANDLE, c, w)
              | Some ctr \<Rightarrow>
                  if length ctr \<noteq> CHACHA20_COUNTER_LENGTH then (SA_STATUS_INVALID_PARAMETER, INVALID_HANDLE, c, w)
                  else init_symmetric False SA_CIPHER_ALGORITHM_CHACHA20 mode
                    (symmetric_create_chacha20_encrypt_context (Some k) (Some nonce) (Some ctr))
                    (symmetric_create_chacha20_decrypt_context (Some k) (Some nonce) (Some ctr)) k caller_uuid c w)
        | _ \<Rightarrow> (SA_STATUS_NULL_PARAMETER, INVALID_HANDLE, c, w)))"

definition ta_sa_crypto_cipher_init_chacha20_poly1305 ::
  "sa_cipher_mode \<Rightarrow> stored_key \<Rightarrow> sa_cipher_parameters option \<Rightarrow> client \<Rightarrow> sa_uuid option \<Rightarrow> world \<Rightarrow>
   sa_status \<times> u64 \<times> client \<times> world" where
  "ta_sa_crypto_cipher_init_chacha20_poly1305 mode k parameters c caller_uuid w =
     (if \<not> key_type_supports_chacha20 (hdr_type (sk_header k)) (ucast (hdr_size (sk_header k)))
      then (SA_STATUS_INVALID_KEY_TYPE, INVALID_HANDLE, c, w)
      else if caller_uuid = None then (SA_STATUS_NULL_PARAMETER, INVALID_HANDLE, c, w)
      else (case parameters of
          Some (Parameters_Chacha20_Poly1305 (Some nonce) aad aad_length) \<Rightarrow>
            if length nonce \<noteq> CHACHA20_NONCE_LENGTH then (SA_STATUS_INVALID_PARAMETER, INVALID_HANDLE, c, w)
            else if aad = None \<and> aad_length > 0 then (SA_STATUS_NULL_PARAMETER, INVALID_HANDLE, c, w)
            else init_symmetric True SA_CIPHER_ALGORITHM_CHACHA20_POLY1305 mode
              (symmetric_create_chacha20_poly1305_encrypt_context (Some k) (Some nonce) aad aad_length)
              (symmetric_create_chacha20_poly1305_decrypt_context (Some k) (Some nonce) aad aad_length) k caller_uuid c w
        | _ \<Rightarrow> (SA_STATUS_NULL_PARAMETER, INVALID_HANDLE, c, w)))"

section \<open>Asymmetric ciphers\<close>

definition ta_sa_crypto_cipher_init_rsa_pkcs1v15 ::
  "sa_cipher_mode \<Rightarrow> stored_key \<Rightarrow> client \<Rightarrow> sa_uuid option \<Rightarrow> world \<Rightarrow> sa_status \<times> u64 \<times> client \<times> world" where
  "ta_sa_crypto_cipher_init_rsa_pkcs1v15 mode k c caller_uuid w =
     (if \<not> key_type_supports_rsa (hdr_type (sk_header k)) (ucast (hdr_size (sk_header k)))
      then (SA_STATUS_INVALID_KEY_TYPE, INVALID_HANDLE, c, w)
      else if caller_uuid = None then (SA_STATUS_NULL_PARAMETER, INVALID_HANDLE, c, w)
      else if mode \<noteq> SA_CIPHER_MODE_DECRYPT then (SA_STATUS_INVALID_PARAMETER, INVALID_HANDLE, c, w)
      else let status = rsa_verify_cipher SA_CIPHER_ALGORITHM_RSA_PKCS1V15 mode False in
        if status \<noteq> SA_STATUS_OK then (status, INVALID_HANDLE, c, w)
        else let (status, slot, freed, store, w) = cipher_store_add_asymmetric_key True (client_cipher_store c)
               SA_CIPHER_ALGORITHM_RSA_PKCS1V15 mode (Some k) caller_uuid w in
          (status, slot, c\<lparr>client_cipher_store := store\<rparr>, w))"

text \<open>
  For OAEP the cipher is taken out of the store again to set its parameters. When that fails, the context
  stays in the store and \<open>*context\<close> stays set.
\<close>

definition ta_sa_crypto_cipher_init_rsa_oaep ::
  "sa_cipher_mode \<Rightarrow> stored_key \<Rightarrow> sa_cipher_parameters option \<Rightarrow> client \<Rightarrow> sa_uuid option \<Rightarrow> world \<Rightarrow>
   sa_status \<times> u64 \<times> client \<times> world" where
  "ta_sa_crypto_cipher_init_rsa_oaep mode k parameters c caller_uuid w = (case parameters of
      Some (Parameters_Rsa_Oaep digest_algorithm mgf1_digest_algorithm label label_length) \<Rightarrow>
        if label = None \<and> label_length \<noteq> 0 then (SA_STATUS_INVALID_PARAMETER, INVALID_HANDLE, c, w)
        else if \<not> key_type_supports_rsa (hdr_type (sk_header k)) (ucast (hdr_size (sk_header k)))
        then (SA_STATUS_INVALID_KEY_TYPE, INVALID_HANDLE, c, w)
        else if caller_uuid = None then (SA_STATUS_NULL_PARAMETER, INVALID_HANDLE, c, w)
        else if mode \<noteq> SA_CIPHER_MODE_DECRYPT then (SA_STATUS_INVALID_PARAMETER, INVALID_HANDLE, c, w)
        else let status = rsa_verify_cipher SA_CIPHER_ALGORITHM_RSA_OAEP mode True in
          if status \<noteq> SA_STATUS_OK then (status, INVALID_HANDLE, c, w)
          else let (status, slot, freed, store, w) = cipher_store_add_asymmetric_key True (client_cipher_store c)
                 SA_CIPHER_ALGORITHM_RSA_OAEP mode (Some k) caller_uuid w in
            if status \<noteq> SA_STATUS_OK then (status, slot, c\<lparr>client_cipher_store := store\<rparr>, w)
            else let (status, a, store, w) = cipher_store_acquire_exclusive True store slot caller_uuid w;
                     (status, store, w) = (if status \<noteq> SA_STATUS_OK then (status, store, w)
                       else let (status, cipher, w) = cipher_set_oaep_parameters (cells (ts_heap store) a)
                              digest_algorithm mgf1_digest_algorithm label label_length w in
                         (status, (case cipher of None \<Rightarrow> store
                            | Some cipher \<Rightarrow> store\<lparr>ts_heap := heap_write (ts_heap store) a cipher\<rparr>), w));
                     (store, w) = (if a = NULL then (store, w)
                       else let (_, store, w) = cipher_store_release_exclusive store slot a caller_uuid w in (store, w)) in
              (status, slot, c\<lparr>client_cipher_store := store\<rparr>, w)
    | _ \<Rightarrow> (SA_STATUS_NULL_PARAMETER, INVALID_HANDLE, c, w))"

definition ta_sa_crypto_cipher_init_ec ::
  "sa_cipher_mode \<Rightarrow> stored_key \<Rightarrow> client \<Rightarrow> sa_uuid option \<Rightarrow> world \<Rightarrow> sa_status \<times> u64 \<times> client \<times> world" where
  "ta_sa_crypto_cipher_init_ec mode k c caller_uuid w =
     (if \<not> key_type_supports_ec (hdr_type (sk_header k)) (tp_curve (hdr_type_parameters (sk_header k))) (ucast (hdr_size (sk_header k)))
      then (SA_STATUS_INVALID_KEY_TYPE, INVALID_HANDLE, c, w)
      else if caller_uuid = None then (SA_STATUS_NULL_PARAMETER, INVALID_HANDLE, c, w)
      else if mode \<noteq> SA_CIPHER_MODE_DECRYPT then (SA_STATUS_INVALID_PARAMETER, INVALID_HANDLE, c, w)
      else let status = ec_verify_cipher mode (Some k) in
        if status \<noteq> SA_STATUS_OK then (status, INVALID_HANDLE, c, w)
        else let (status, slot, freed, store, w) = cipher_store_add_asymmetric_key True (client_cipher_store c)
               SA_CIPHER_ALGORITHM_EC_ELGAMAL mode (Some k) caller_uuid w in
          (status, slot, c\<lparr>client_cipher_store := store\<rparr>, w))"

section \<open>The command\<close>

text \<open>The choice of the function, for the algorithms the command accepts.\<close>

definition cipher_init_algorithm ::
  "sa_cipher_algorithm \<Rightarrow> sa_cipher_mode \<Rightarrow> stored_key \<Rightarrow> sa_cipher_parameters option \<Rightarrow> client \<Rightarrow> sa_uuid option \<Rightarrow> world \<Rightarrow>
   sa_status \<times> u64 \<times> client \<times> world" where
  "cipher_init_algorithm algorithm mode k parameters c caller_uuid w =
     (if algorithm = SA_CIPHER_ALGORITHM_AES_ECB \<or> algorithm = SA_CIPHER_ALGORITHM_AES_ECB_PKCS7
      then ta_sa_crypto_cipher_init_aes_ecb algorithm mode k c caller_uuid w
      else if algorithm = SA_CIPHER_ALGORITHM_AES_CBC \<or> algorithm = SA_CIPHER_ALGORITHM_AES_CBC_PKCS7
      then ta_sa_crypto_cipher_init_aes_cbc algorithm mode k parameters c caller_uuid w
      else if algorithm = SA_CIPHER_ALGORITHM_AES_CTR
      then ta_sa_crypto_cipher_init_aes_ctr mode k parameters c caller_uuid w
      else if algorithm = SA_CIPHER_ALGORITHM_AES_GCM
      then ta_sa_crypto_cipher_init_aes_gcm mode k parameters c caller_uuid w
      else if algorithm = SA_CIPHER_ALGORITHM_CHACHA20
      then ta_sa_crypto_cipher_init_chacha20 mode k parameters c caller_uuid w
      else if algorithm = SA_CIPHER_ALGORITHM_CHACHA20_POLY1305
      then ta_sa_crypto_cipher_init_chacha20_poly1305 mode k parameters c caller_uuid w
      else if algorithm = SA_CIPHER_ALGORITHM_RSA_PKCS1V15
      then ta_sa_crypto_cipher_init_rsa_pkcs1v15 mode k c caller_uuid w
      else if algorithm = SA_CIPHER_ALGORITHM_RSA_OAEP
      then ta_sa_crypto_cipher_init_rsa_oaep mode k parameters c caller_uuid w
      else ta_sa_crypto_cipher_init_ec mode k c caller_uuid w)"

text \<open>
  The output is the handle and the key that is freed at the end: every key that was unwrapped, unless
  the function reported success.
\<close>

definition cipher_init_body ::
  "crypto \<Rightarrow> sa_cipher_algorithm \<Rightarrow> sa_cipher_mode \<Rightarrow> u64 \<Rightarrow> sa_cipher_parameters option \<Rightarrow> sa_uuid option \<Rightarrow> client \<Rightarrow> world \<Rightarrow>
   sa_status \<times> (u64 \<times> stored_key option) \<times> client \<times> world" where
  "cipher_init_body cr algorithm mode key parameters caller_uuid c w =
     (let (status, stored_key, store, w) = key_store_unwrap cr True (client_key_store c) key caller_uuid w;
          c = c\<lparr>client_key_store := store\<rparr> in
      if status \<noteq> SA_STATUS_OK then (status, (INVALID_HANDLE, stored_key), c, w)
      else (case stored_key of None \<Rightarrow> (SA_STATUS_NULL_PARAMETER, (INVALID_HANDLE, None), c, w)
      | Some k \<Rightarrow>
          let header = sk_header k in
          if mode = SA_CIPHER_MODE_ENCRYPT \<and> \<not> rights_allowed_encrypt (Some (hdr_rights header)) (hdr_type header) w
          then (SA_STATUS_OPERATION_NOT_ALLOWED, (INVALID_HANDLE, Some k), c, w)
          else if mode = SA_CIPHER_MODE_DECRYPT \<and> \<not> rights_allowed_decrypt (Some (hdr_rights header)) (hdr_type header) w
          then (SA_STATUS_OPERATION_NOT_ALLOWED, (INVALID_HANDLE, Some k), c, w)
          else if mode \<noteq> SA_CIPHER_MODE_ENCRYPT \<and> mode \<noteq> SA_CIPHER_MODE_DECRYPT
          then (SA_STATUS_INVALID_PARAMETER, (INVALID_HANDLE, Some k), c, w)
          else let (status, slot, c, w) = cipher_init_algorithm algorithm mode k parameters c caller_uuid w in
            (status, (slot, if status \<noteq> SA_STATUS_OK then Some k else None), c, w)))"

definition cipher_algorithm_supported :: "sa_cipher_algorithm \<Rightarrow> bool" where
  "cipher_algorithm_supported algorithm \<longleftrightarrow>
     algorithm = SA_CIPHER_ALGORITHM_AES_ECB \<or> algorithm = SA_CIPHER_ALGORITHM_AES_ECB_PKCS7 \<or>
     algorithm = SA_CIPHER_ALGORITHM_AES_CBC \<or> algorithm = SA_CIPHER_ALGORITHM_AES_CBC_PKCS7 \<or>
     algorithm = SA_CIPHER_ALGORITHM_AES_CTR \<or> algorithm = SA_CIPHER_ALGORITHM_AES_GCM \<or>
     algorithm = SA_CIPHER_ALGORITHM_CHACHA20 \<or> algorithm = SA_CIPHER_ALGORITHM_CHACHA20_POLY1305 \<or>
     algorithm = SA_CIPHER_ALGORITHM_RSA_PKCS1V15 \<or> algorithm = SA_CIPHER_ALGORITHM_RSA_OAEP \<or>
     algorithm = SA_CIPHER_ALGORITHM_EC_ELGAMAL"

definition ta_sa_crypto_cipher_init ::
  "crypto \<Rightarrow> bool \<Rightarrow> sa_cipher_algorithm \<Rightarrow> sa_cipher_mode \<Rightarrow> u64 \<Rightarrow> sa_cipher_parameters option \<Rightarrow> ta \<Rightarrow> u64 \<Rightarrow>
   sa_uuid option \<Rightarrow> world \<Rightarrow> (sa_status \<times> (u64 \<times> stored_key option) \<times> ta \<times> world) option" where
  "ta_sa_crypto_cipher_init cr context_given algorithm mode key parameters t client_slot caller_uuid w =
     (if caller_uuid = None then Some (SA_STATUS_NULL_PARAMETER, (INVALID_HANDLE, None), t, w)
      else if \<not> context_given then Some (SA_STATUS_NULL_PARAMETER, (INVALID_HANDLE, None), t, w)
      else if \<not> cipher_algorithm_supported algorithm then Some (SA_STATUS_INVALID_PARAMETER, (INVALID_HANDLE, None), t, w)
      else if mode \<noteq> SA_CIPHER_MODE_ENCRYPT \<and> mode \<noteq> SA_CIPHER_MODE_DECRYPT
      then Some (SA_STATUS_INVALID_PARAMETER, (INVALID_HANDLE, None), t, w)
      else with_client (INVALID_HANDLE, None) (\<lambda>c w. Some (cipher_init_body cr algorithm mode key parameters caller_uuid c w))
        t client_slot caller_uuid w)"

end
