(* ===== verification/Ta_Cipher.thy ===== *)
theory Ta_Cipher
  imports Ta_Cipher_Init
begin

text \<open>
  Using a cipher context, \<^verbatim>\<open>reference/src/taimpl/src/ta_sa_crypto_cipher_process.c\<close>, \<^verbatim>\<open>_process_last.c\<close>,
  \<^verbatim>\<open>_update_iv.c\<close> and \<^verbatim>\<open>_release.c\<close>. The bytes are read from and written to the memory of the world. The
  static functions get the acquired cipher, which is not NULL, and the addresses of local variables.
\<close>

section \<open>Processing a part of the data\<close>

definition get_required_length :: "cipher \<Rightarrow> u64 \<Rightarrow> bool \<Rightarrow> u64" where
  "get_required_length cipher bytes_to_process apply_padding = (case cipher_algorithm cipher of
      SA_CIPHER_ALGORITHM_AES_CBC \<Rightarrow> bytes_to_process
    | SA_CIPHER_ALGORITHM_AES_CTR \<Rightarrow> bytes_to_process
    | SA_CIPHER_ALGORITHM_AES_ECB \<Rightarrow> bytes_to_process
    | SA_CIPHER_ALGORITHM_AES_GCM \<Rightarrow> bytes_to_process
    | SA_CIPHER_ALGORITHM_CHACHA20 \<Rightarrow> bytes_to_process
    | SA_CIPHER_ALGORITHM_CHACHA20_POLY1305 \<Rightarrow> bytes_to_process
    | SA_CIPHER_ALGORITHM_AES_CBC_PKCS7 \<Rightarrow> bytes_to_process + (if apply_padding then of_nat AES_BLOCK_SIZE else 0)
    | SA_CIPHER_ALGORITHM_AES_ECB_PKCS7 \<Rightarrow> bytes_to_process + (if apply_padding then of_nat AES_BLOCK_SIZE else 0)
    | SA_CIPHER_ALGORITHM_RSA_PKCS1V15 \<Rightarrow> cipher_get_key_size (Some cipher)
    | SA_CIPHER_ALGORITHM_RSA_OAEP \<Rightarrow> cipher_get_key_size (Some cipher)
    | SA_CIPHER_ALGORITHM_EC_ELGAMAL \<Rightarrow> cipher_get_key_size (Some cipher)
    | _ \<Rightarrow> 0)"

text \<open>The effects of the library on the context and on the memory.\<close>

definition the_symmetric :: "client \<Rightarrow> addr \<Rightarrow> symmetric_context option" where
  "the_symmetric c x = cells (client_symmetrics c) x"

definition put_symmetric :: "addr \<Rightarrow> symmetric_context option \<Rightarrow> client \<Rightarrow> client" where
  "put_symmetric x ctx c = (case ctx of None \<Rightarrow> c
     | Some v \<Rightarrow> c\<lparr>client_symmetrics := heap_write (client_symmetrics c) x v\<rparr>)"

definition store_bytes :: "u64 \<Rightarrow> u8 list option \<Rightarrow> world \<Rightarrow> world" where
  "store_bytes out bytes w = (case bytes of None \<Rightarrow> w | Some bs \<Rightarrow> w\<lparr>w_mem := mem_write (w_mem w) out bs\<rparr>)"

text \<open>The functions return the status and the value of \<open>*bytes_to_process\<close> afterwards.\<close>

definition ta_sa_crypto_cipher_process_symmetric ::
  "crypto \<Rightarrow> u64 \<Rightarrow> cipher \<Rightarrow> u64 \<Rightarrow> u64 \<Rightarrow> sa_uuid option \<Rightarrow> client \<Rightarrow> world \<Rightarrow> sa_status \<times> u64 \<times> client \<times> world" where
  "ta_sa_crypto_cipher_process_symmetric cr out cipher input bytes_to_process caller_uuid c w =
     (let algorithm = cipher_algorithm cipher; x = cipher_get_symmetric_context (Some cipher);
          fail = (\<lambda>status. (status, bytes_to_process, c, w)) in
      if caller_uuid = None then fail SA_STATUS_NULL_PARAMETER
      else if (algorithm = SA_CIPHER_ALGORITHM_AES_CBC \<or> algorithm = SA_CIPHER_ALGORITHM_AES_CBC_PKCS7 \<or>
          algorithm = SA_CIPHER_ALGORITHM_AES_ECB \<or> algorithm = SA_CIPHER_ALGORITHM_AES_ECB_PKCS7) \<and>
        unat bytes_to_process mod AES_BLOCK_SIZE \<noteq> 0
      then fail SA_STATUS_INVALID_PARAMETER
      else if out = 0 then fail SA_STATUS_NULL_PARAMETER
      else if input = 0 then fail SA_STATUS_NULL_PARAMETER
      else if x = NULL then fail SA_STATUS_NULL_PARAMETER
      else (case cipher_get_key_rights (Some cipher) of None \<Rightarrow> fail SA_STATUS_INTERNAL_ERROR
      | Some rights \<Rightarrow>
          let bytes = mem_read (w_mem w) input (unat bytes_to_process) in
          if cipher_mode cipher = SA_CIPHER_MODE_ENCRYPT then
            if \<not> rights_allowed_encrypt (Some rights) SA_KEY_TYPE_SYMMETRIC w then fail SA_STATUS_OPERATION_NOT_ALLOWED
            else let (status, result, ctx, w) = symmetric_context_encrypt cr (the_symmetric c x) True (Some bytes) w in
              (status, if status \<noteq> SA_STATUS_OK then bytes_to_process else of_nat (length (the result)),
               put_symmetric x ctx c, store_bytes out result w)
          else if cipher_mode cipher = SA_CIPHER_MODE_DECRYPT then
            if \<not> rights_allowed_decrypt (Some rights) SA_KEY_TYPE_SYMMETRIC w then fail SA_STATUS_OPERATION_NOT_ALLOWED
            else let (status, result, ctx, w) = symmetric_context_decrypt cr (the_symmetric c x) True (Some bytes) w in
              (status, if status \<noteq> SA_STATUS_OK then bytes_to_process else of_nat (length (the result)),
               put_symmetric x ctx c, store_bytes out result w)
          else fail SA_STATUS_INTERNAL_ERROR))"

text \<open>The checks the three asymmetric functions share, for an input of \<open>factor\<close> times the key's size.\<close>

definition asymmetric_checks ::
  "nat \<Rightarrow> sa_key_type \<Rightarrow> u64 \<Rightarrow> cipher \<Rightarrow> u64 \<Rightarrow> u64 \<Rightarrow> sa_uuid option \<Rightarrow> world \<Rightarrow> sa_status" where
  "asymmetric_checks factor key_type out cipher input bytes_to_process caller_uuid w =
     (let key_size = cipher_get_key_size (Some cipher) in
      if caller_uuid = None then SA_STATUS_NULL_PARAMETER
      else if key_size = 0 then SA_STATUS_NULL_PARAMETER
      else if out = 0 then SA_STATUS_NULL_PARAMETER
      else if bytes_to_process \<noteq> key_size * of_nat factor then SA_STATUS_INVALID_PARAMETER
      else if input = 0 then SA_STATUS_NULL_PARAMETER
      else if cipher_mode cipher \<noteq> SA_CIPHER_MODE_DECRYPT then SA_STATUS_INVALID_PARAMETER
      else (case cipher_get_key_rights (Some cipher) of None \<Rightarrow> SA_STATUS_INTERNAL_ERROR
      | Some rights \<Rightarrow>
          if \<not> rights_allowed_decrypt (Some rights) key_type w then SA_STATUS_OPERATION_NOT_ALLOWED
          else if cipher_get_stored_key (Some cipher) = None then SA_STATUS_NULL_PARAMETER
          else SA_STATUS_OK))"

definition ta_sa_crypto_cipher_process_rsa_pkcs1v15 ::
  "crypto \<Rightarrow> u64 \<Rightarrow> u64 \<Rightarrow> cipher \<Rightarrow> u64 \<Rightarrow> u64 \<Rightarrow> sa_uuid option \<Rightarrow> client \<Rightarrow> world \<Rightarrow> sa_status \<times> u64 \<times> client \<times> world" where
  "ta_sa_crypto_cipher_process_rsa_pkcs1v15 cr out out_length cipher input bytes_to_process caller_uuid c w =
     (let status = asymmetric_checks 1 SA_KEY_TYPE_RSA out cipher input bytes_to_process caller_uuid w in
      if status \<noteq> SA_STATUS_OK then (status, bytes_to_process, c, w)
      else let (status, result, w) = rsa_decrypt_pkcs1v15 cr True (Some out_length) (cipher_get_stored_key (Some cipher))
             (Some (mem_read (w_mem w) input (unat bytes_to_process))) w in
        (status, if status \<noteq> SA_STATUS_OK then bytes_to_process else of_nat (length (the result)), c, store_bytes out result w))"

definition ta_sa_crypto_cipher_process_rsa_oaep ::
  "crypto \<Rightarrow> u64 \<Rightarrow> u64 \<Rightarrow> cipher \<Rightarrow> u64 \<Rightarrow> u64 \<Rightarrow> sa_uuid option \<Rightarrow> client \<Rightarrow> world \<Rightarrow> sa_status \<times> u64 \<times> client \<times> world" where
  "ta_sa_crypto_cipher_process_rsa_oaep cr out out_length cipher input bytes_to_process caller_uuid c w =
     (let status = asymmetric_checks 1 SA_KEY_TYPE_RSA out cipher input bytes_to_process caller_uuid w in
      if status \<noteq> SA_STATUS_OK then (status, bytes_to_process, c, w)
      else (case cipher_get_oaep_parameters (Some cipher) True True True True of
          (SA_STATUS_OK, Some (digest_algorithm, mgf1_digest_algorithm, label, label_length)) \<Rightarrow>
            let (status, result, w) = rsa_decrypt_oaep cr True (Some out_length) (cipher_get_stored_key (Some cipher))
              digest_algorithm mgf1_digest_algorithm label label_length
              (Some (mem_read (w_mem w) input (unat bytes_to_process))) w in
            (status, if status \<noteq> SA_STATUS_OK then bytes_to_process else of_nat (length (the result)), c, store_bytes out result w)
        | _ \<Rightarrow> (SA_STATUS_INTERNAL_ERROR, bytes_to_process, c, w)))"

definition ta_sa_crypto_cipher_process_ec_elgamal ::
  "crypto \<Rightarrow> u64 \<Rightarrow> cipher \<Rightarrow> u64 \<Rightarrow> u64 \<Rightarrow> sa_uuid option \<Rightarrow> client \<Rightarrow> world \<Rightarrow> sa_status \<times> u64 \<times> client \<times> world" where
  "ta_sa_crypto_cipher_process_ec_elgamal cr out cipher input bytes_to_process caller_uuid c w =
     (let status = asymmetric_checks 4 SA_KEY_TYPE_EC out cipher input bytes_to_process caller_uuid w in
      if status \<noteq> SA_STATUS_OK then (status, bytes_to_process, c, w)
      else let (status, result, len, w) = ec_decrypt_elgamal cr True (Some bytes_to_process) (cipher_get_stored_key (Some cipher))
             (Some (mem_read (w_mem w) input (unat bytes_to_process))) w in
        if status \<noteq> SA_STATUS_OK then (SA_STATUS_VERIFICATION_FAILED, bytes_to_process, c, w)
        else (SA_STATUS_OK, the len, c, store_bytes out result w))"

text \<open>The choice of the function.\<close>

definition process_algorithm ::
  "crypto \<Rightarrow> u64 \<Rightarrow> u64 \<Rightarrow> cipher \<Rightarrow> u64 \<Rightarrow> u64 \<Rightarrow> sa_uuid option \<Rightarrow> client \<Rightarrow> world \<Rightarrow> sa_status \<times> u64 \<times> client \<times> world" where
  "process_algorithm cr out required_length cipher input bytes_to_process caller_uuid c w =
     (let algorithm = cipher_algorithm cipher in
      if symmetric_algorithm algorithm
      then ta_sa_crypto_cipher_process_symmetric cr out cipher input bytes_to_process caller_uuid c w
      else if algorithm = SA_CIPHER_ALGORITHM_RSA_PKCS1V15
      then ta_sa_crypto_cipher_process_rsa_pkcs1v15 cr out required_length cipher input bytes_to_process caller_uuid c w
      else if algorithm = SA_CIPHER_ALGORITHM_RSA_OAEP
      then ta_sa_crypto_cipher_process_rsa_oaep cr out required_length cipher input bytes_to_process caller_uuid c w
      else if algorithm = SA_CIPHER_ALGORITHM_EC_ELGAMAL
      then ta_sa_crypto_cipher_process_ec_elgamal cr out cipher input bytes_to_process caller_uuid c w
      else (SA_STATUS_INVALID_PARAMETER, bytes_to_process, c, w))"

section \<open>The frame of the two commands\<close>

text \<open>
  The commands \<open>process\<close> and \<open>process_last\<close> differ in the length they require and in the function they
  run, which are parameters here. The result of the work on the acquired cipher: whether the command returns
  from the middle of its loop, leaving everything acquired; the status; \<open>*bytes_to_process\<close> and the
  two buffers afterwards; what the function delivers besides; and the SVP objects that are to be given back.
\<close>

type_synonym 'r cipher_work =
  "bool \<times> sa_status \<times> (u64 \<times> sa_buffer option \<times> sa_buffer option \<times> 'r option) \<times> addr \<times> addr \<times> client \<times> world"

definition authenticated_or_asymmetric :: "sa_cipher_algorithm \<Rightarrow> bool" where
  "authenticated_or_asymmetric a \<longleftrightarrow> a = SA_CIPHER_ALGORITHM_AES_GCM \<or> a = SA_CIPHER_ALGORITHM_CHACHA20_POLY1305 \<or>
     a = SA_CIPHER_ALGORITHM_RSA_OAEP \<or> a = SA_CIPHER_ALGORITHM_RSA_PKCS1V15 \<or> a = SA_CIPHER_ALGORITHM_EC_ELGAMAL"

fun is_clear :: "sa_buffer \<Rightarrow> bool" where
  "is_clear (Clear_Buffer a l n) = True" | "is_clear _ = False"

fun is_svp :: "sa_buffer \<Rightarrow> bool" where
  "is_svp (Svp_Buffer h n) = True" | "is_svp _ = False"

definition cipher_work ::
  "(u64 \<Rightarrow> u64 \<Rightarrow> u64 \<Rightarrow> client \<Rightarrow> world \<Rightarrow> sa_status \<times> u64 \<times> 'r option \<times> client \<times> world) \<Rightarrow> u64 \<Rightarrow> sa_buffer option \<Rightarrow> sa_buffer \<Rightarrow> u64 \<Rightarrow>
   sa_uuid option \<Rightarrow> cipher \<Rightarrow> client \<Rightarrow> world \<Rightarrow> 'r cipher_work" where
  "cipher_work run required_length out inb bytes_to_process caller_uuid cipher c w = (case out of
      None \<Rightarrow> (False, SA_STATUS_OK, (required_length, None, Some inb, None), NULL, NULL, c, w)
    | Some ob \<Rightarrow>
        let unchanged = (bytes_to_process, Some ob, Some inb, None); algorithm = cipher_algorithm cipher in
        if \<not> is_clear ob \<and> \<not> is_svp ob then (True, SA_STATUS_INVALID_PARAMETER, unchanged, NULL, NULL, c, w)
        else if \<not> is_clear inb \<and> \<not> is_svp inb then (True, SA_STATUS_INVALID_PARAMETER, unchanged, NULL, NULL, c, w)
        else if (is_svp ob \<or> is_svp inb) \<and> authenticated_or_asymmetric algorithm
        then (False, SA_STATUS_OPERATION_NOT_ALLOWED, unchanged, NULL, NULL, c, w)
        else if is_clear ob \<and> \<not> is_clear inb then (False, SA_STATUS_INVALID_PARAMETER, unchanged, NULL, NULL, c, w)
        else (case cipher_get_key_rights (Some cipher) of
            None \<Rightarrow> (False, SA_STATUS_INTERNAL_ERROR, unchanged, NULL, NULL, c, w)
          | Some rights \<Rightarrow>
              if is_clear ob \<and> \<not> rights_allowed_clear (Some rights)
              then (False, SA_STATUS_OPERATION_NOT_ALLOWED, unchanged, NULL, NULL, c, w)
              else let (status, out_bytes, out_svp, c, w) = convert_buffer (Some ob) required_length c caller_uuid w in
                if status \<noteq> SA_STATUS_OK then (False, status, unchanged, NULL, out_svp, c, w)
                else let (status, in_bytes, in_svp, c, w) = convert_buffer (Some inb) bytes_to_process c caller_uuid w in
                  if status \<noteq> SA_STATUS_OK then (False, status, unchanged, in_svp, out_svp, c, w)
                  else let (status, n, r, c, w) = run out_bytes in_bytes required_length c w in
                    if status \<noteq> SA_STATUS_OK then (False, status, (n, Some ob, Some inb, r), in_svp, out_svp, c, w)
                    else (False, SA_STATUS_OK, (n, Some (advance_buffer n ob), Some (advance_buffer bytes_to_process inb), r),
                      in_svp, out_svp, c, w)))"

text \<open>
  The acquisition of the cipher, the work, and what is given back after the loop. \<open>report\<close> is the
  status for a failed acquisition.
\<close>

definition with_cipher_buffers ::
  "(sa_status \<Rightarrow> sa_status) \<Rightarrow> (cipher \<Rightarrow> client \<Rightarrow> world \<Rightarrow> 'r cipher_work) \<Rightarrow> u64 \<Rightarrow> u64 \<Rightarrow> sa_buffer option \<Rightarrow> sa_buffer \<Rightarrow>
   sa_uuid option \<Rightarrow> client \<Rightarrow> world \<Rightarrow>
   bool \<times> sa_status \<times> (u64 \<times> sa_buffer option \<times> sa_buffer option \<times> 'r option) \<times> client \<times> world" where
  "with_cipher_buffers report work context bytes_to_process out inb caller_uuid c w =
     (let (status, a, store, w) = cipher_store_acquire_exclusive True (client_cipher_store c) context caller_uuid w;
          c = c\<lparr>client_cipher_store := store\<rparr>;
          (left, status, result, in_svp, out_svp, c, w) =
            (if status \<noteq> SA_STATUS_OK
             then (False, report status, (bytes_to_process, out, Some inb, None), NULL, NULL, c, w)
             else (case cells (ts_heap store) a of
                 None \<Rightarrow> (False, SA_STATUS_INTERNAL_ERROR, (bytes_to_process, out, Some inb, None), NULL, NULL, c, w)
               | Some cipher \<Rightarrow> work cipher c w)) in
      if left then (True, status, result, c, w)
      else let (c, w) = release_buffer inb in_svp caller_uuid c w;
               (c, w) = (case out of None \<Rightarrow> (c, w) | Some ob \<Rightarrow> release_buffer ob out_svp caller_uuid c w);
               (c, w) = (if a = NULL then (c, w)
                 else let (_, store, w) = cipher_store_release_exclusive (client_cipher_store c) context a caller_uuid w in
                   (c\<lparr>client_cipher_store := store\<rparr>, w)) in
        (False, status, result, c, w))"

text \<open>The frame around a session, for a body that may leave without giving the session back.\<close>

definition with_client_leaving ::
  "'a \<Rightarrow> (client \<Rightarrow> world \<Rightarrow> bool \<times> sa_status \<times> 'a \<times> client \<times> world) \<Rightarrow> ta \<Rightarrow> u64 \<Rightarrow> sa_uuid option \<Rightarrow> world \<Rightarrow>
   (sa_status \<times> 'a \<times> ta \<times> world) option" where
  "with_client_leaving no_output body t client_slot caller_uuid w =
     (let (store_given, t, w) = client_store_global t w;
          (status, a, t, w) = client_store_acquire True store_given t client_slot caller_uuid w in
      if status \<noteq> SA_STATUS_OK
      then (let (_, t, w) = client_store_release store_given t client_slot NULL caller_uuid w in
        Some (status, no_output, t, w))
      else (case cells (ts_heap (ta_clients t)) a of None \<Rightarrow> None
        | Some client \<Rightarrow>
            let (left, status, output, client, w) = body client w;
                t = t\<lparr>ta_clients := (ta_clients t)\<lparr>ts_heap := heap_write (ts_heap (ta_clients t)) a client\<rparr>\<rparr> in
            if left then Some (status, output, t, w)
            else let (_, t, w) = client_store_release store_given t client_slot a caller_uuid w in
              Some (status, output, t, w)))"

section \<open>The commands\<close>

text \<open>The outputs of a command that fails before it has a cipher are its inputs.\<close>

definition ta_sa_crypto_cipher_process ::
  "crypto \<Rightarrow> sa_buffer option \<Rightarrow> u64 \<Rightarrow> sa_buffer option \<Rightarrow> u64 option \<Rightarrow> ta \<Rightarrow> u64 \<Rightarrow> sa_uuid option \<Rightarrow> world \<Rightarrow>
   (sa_status \<times> (u64 \<times> sa_buffer option \<times> sa_buffer option \<times> unit option) \<times> ta \<times> world) option" where
  "ta_sa_crypto_cipher_process cr out context inb bytes_to_process t client_slot caller_uuid w =
     (if caller_uuid = None then Some (SA_STATUS_NULL_PARAMETER, (0, out, inb, None), t, w)
      else (case bytes_to_process of None \<Rightarrow> Some (SA_STATUS_NULL_PARAMETER, (0, out, inb, None), t, w)
      | Some n \<Rightarrow> (case inb of None \<Rightarrow> Some (SA_STATUS_NULL_PARAMETER, (n, out, None, None), t, w)
        | Some ib \<Rightarrow>
            with_client_leaving (n, out, Some ib, None)
              (with_cipher_buffers (\<lambda>status. SA_STATUS_INVALID_PARAMETER)
                (\<lambda>cipher. cipher_work
                  (\<lambda>out_bytes in_bytes required_length c w.
                    let (status, m, c, w) = process_algorithm cr out_bytes required_length cipher in_bytes n caller_uuid c w in
                    (status, m, None, c, w))
                  (get_required_length cipher n (out = None \<and> cipher_mode cipher = SA_CIPHER_MODE_ENCRYPT))
                  out ib n caller_uuid cipher)
                context n out ib caller_uuid)
              t client_slot caller_uuid w)))"

section \<open>Processing the last part\<close>

definition get_required_length_last :: "cipher \<Rightarrow> u64 \<Rightarrow> u64" where
  "get_required_length_last cipher bytes_to_process = (case cipher_algorithm cipher of
      SA_CIPHER_ALGORITHM_AES_CBC_PKCS7 \<Rightarrow> of_nat (PADDED_SIZE (unat bytes_to_process))
    | SA_CIPHER_ALGORITHM_AES_ECB_PKCS7 \<Rightarrow> of_nat (PADDED_SIZE (unat bytes_to_process))
    | SA_CIPHER_ALGORITHM_AES_CTR \<Rightarrow> bytes_to_process
    | SA_CIPHER_ALGORITHM_AES_GCM \<Rightarrow> bytes_to_process
    | SA_CIPHER_ALGORITHM_CHACHA20 \<Rightarrow> bytes_to_process
    | SA_CIPHER_ALGORITHM_CHACHA20_POLY1305 \<Rightarrow> bytes_to_process
    | _ \<Rightarrow> 0)"

text \<open>
  The two directions of the last step, for a context at \<open>x\<close>: the status, the length that was
  written, and the rest. What was written before a failing final block stays in the buffer.
\<close>

definition encrypt_last ::
  "crypto \<Rightarrow> u64 \<Rightarrow> addr \<Rightarrow> u64 \<Rightarrow> u64 \<Rightarrow> client \<Rightarrow> world \<Rightarrow> sa_status \<times> u64 \<times> client \<times> world" where
  "encrypt_last cr out x input bytes_to_process c w =
     (let (status, m, result, ctx, w') = symmetric_context_encrypt_last cr (the_symmetric c x) True True
            (Some (mem_read (w_mem w) input (unat bytes_to_process))) (unat bytes_to_process) w in
      (status, of_nat m, put_symmetric x ctx c, store_bytes out result w'))"

definition decrypt_last ::
  "crypto \<Rightarrow> u64 \<Rightarrow> addr \<Rightarrow> u64 \<Rightarrow> u64 \<Rightarrow> client \<Rightarrow> world \<Rightarrow> sa_status \<times> u64 \<times> client \<times> world" where
  "decrypt_last cr out x input bytes_to_process c w =
     (let (status, m, result, ctx, w') = symmetric_context_decrypt_last cr (the_symmetric c x) True True
            (Some (mem_read (w_mem w) input (unat bytes_to_process))) (unat bytes_to_process) w in
      (status, of_nat m, put_symmetric x ctx c, store_bytes out result w'))"

text \<open>
  After a failed encryption the PKCS#7 function stores the untouched length of its output buffer in
  \<open>*bytes_to_process\<close>.
\<close>

definition ta_sa_crypto_cipher_process_last_aes_pkcs7 ::
  "crypto \<Rightarrow> u64 \<Rightarrow> u64 \<Rightarrow> cipher \<Rightarrow> u64 \<Rightarrow> u64 \<Rightarrow> sa_uuid option \<Rightarrow> client \<Rightarrow> world \<Rightarrow> sa_status \<times> u64 \<times> client \<times> world" where
  "ta_sa_crypto_cipher_process_last_aes_pkcs7 cr out out_length cipher input bytes_to_process caller_uuid c w =
     (let x = cipher_get_symmetric_context (Some cipher); fail = (\<lambda>status. (status, bytes_to_process, c, w)) in
      if caller_uuid = None then fail SA_STATUS_NULL_PARAMETER
      else if out = 0 then (SA_STATUS_OK, of_nat AES_BLOCK_SIZE, c, w)
      else if input = 0 then fail SA_STATUS_NULL_PARAMETER
      else if unat bytes_to_process > AES_BLOCK_SIZE then fail SA_STATUS_INVALID_PARAMETER
      else if x = NULL then fail SA_STATUS_NULL_PARAMETER
      else (case cipher_get_key_rights (Some cipher) of None \<Rightarrow> fail SA_STATUS_INTERNAL_ERROR
      | Some rights \<Rightarrow>
          if cipher_mode cipher = SA_CIPHER_MODE_ENCRYPT then
            if \<not> rights_allowed_encrypt (Some rights) SA_KEY_TYPE_SYMMETRIC w then fail SA_STATUS_OPERATION_NOT_ALLOWED
            else let (status, m, c, w) = encrypt_last cr out x input bytes_to_process c w in
              (status, if status \<noteq> SA_STATUS_OK then out_length else m, c, w)
          else if cipher_mode cipher = SA_CIPHER_MODE_DECRYPT then
            if unat bytes_to_process mod AES_BLOCK_SIZE \<noteq> 0 then fail SA_STATUS_INVALID_PARAMETER
            else if \<not> rights_allowed_decrypt (Some rights) SA_KEY_TYPE_SYMMETRIC w then fail SA_STATUS_OPERATION_NOT_ALLOWED
            else let (status, m, c, w) = decrypt_last cr out x input bytes_to_process c w in
              (status, if status \<noteq> SA_STATUS_OK then bytes_to_process else m, c, w)
          else fail SA_STATUS_INTERNAL_ERROR))"

definition ta_sa_crypto_cipher_process_last_aes_ctr ::
  "crypto \<Rightarrow> u64 \<Rightarrow> cipher \<Rightarrow> u64 \<Rightarrow> u64 \<Rightarrow> sa_uuid option \<Rightarrow> client \<Rightarrow> world \<Rightarrow> sa_status \<times> u64 \<times> client \<times> world" where
  "ta_sa_crypto_cipher_process_last_aes_ctr cr out cipher input bytes_to_process caller_uuid c w =
     (let x = cipher_get_symmetric_context (Some cipher); fail = (\<lambda>status. (status, bytes_to_process, c, w)) in
      if caller_uuid = None then fail SA_STATUS_NULL_PARAMETER
      else if out = 0 then fail SA_STATUS_NULL_PARAMETER
      else if input = 0 then fail SA_STATUS_NULL_PARAMETER
      else if x = NULL then fail SA_STATUS_NULL_PARAMETER
      else (case cipher_get_key_rights (Some cipher) of None \<Rightarrow> fail SA_STATUS_INTERNAL_ERROR
      | Some rights \<Rightarrow>
          if cipher_mode cipher = SA_CIPHER_MODE_ENCRYPT then
            if \<not> rights_allowed_encrypt (Some rights) SA_KEY_TYPE_SYMMETRIC w then fail SA_STATUS_OPERATION_NOT_ALLOWED
            else let (status, m, c, w) = encrypt_last cr out x input bytes_to_process c w in
              (status, if status \<noteq> SA_STATUS_OK then bytes_to_process else m, c, w)
          else if cipher_mode cipher = SA_CIPHER_MODE_DECRYPT then
            if \<not> rights_allowed_decrypt (Some rights) SA_KEY_TYPE_SYMMETRIC w then fail SA_STATUS_OPERATION_NOT_ALLOWED
            else let (status, m, c, w) = decrypt_last cr out x input bytes_to_process c w in
              (status, if status \<noteq> SA_STATUS_OK then bytes_to_process else m, c, w)
          else fail SA_STATUS_INTERNAL_ERROR))"

definition ta_sa_crypto_cipher_process_last_chacha20 ::
  "crypto \<Rightarrow> u64 \<Rightarrow> cipher \<Rightarrow> u64 \<Rightarrow> u64 \<Rightarrow> sa_uuid option \<Rightarrow> client \<Rightarrow> world \<Rightarrow> sa_status \<times> u64 \<times> client \<times> world" where
  "ta_sa_crypto_cipher_process_last_chacha20 cr out cipher input bytes_to_process caller_uuid c w =
     (let x = cipher_get_symmetric_context (Some cipher); fail = (\<lambda>status. (status, bytes_to_process, c, w)) in
      if caller_uuid = None then fail SA_STATUS_NULL_PARAMETER
      else if out = 0 then fail SA_STATUS_NULL_PARAMETER
      else if input = 0 then fail SA_STATUS_NULL_PARAMETER
      else if x = NULL then fail SA_STATUS_NULL_PARAMETER
      else (case cipher_get_key_rights (Some cipher) of None \<Rightarrow> fail SA_STATUS_INTERNAL_ERROR
      | Some rights \<Rightarrow>
          if cipher_mode cipher = SA_CIPHER_MODE_ENCRYPT then
            if \<not> rights_allowed_encrypt (Some rights) SA_KEY_TYPE_SYMMETRIC w then fail SA_STATUS_OPERATION_NOT_ALLOWED
            else let (status, m, c, w) = encrypt_last cr out x input bytes_to_process c w in
              (status, if status \<noteq> SA_STATUS_OK then bytes_to_process else m, c, w)
          else if cipher_mode cipher = SA_CIPHER_MODE_DECRYPT then
            if \<not> rights_allowed_decrypt (Some rights) SA_KEY_TYPE_SYMMETRIC w then fail SA_STATUS_OPERATION_NOT_ALLOWED
            else let (status, m, c, w) = decrypt_last cr out x input bytes_to_process c w in
              (status, if status \<noteq> SA_STATUS_OK then bytes_to_process else m, c, w)
          else fail SA_STATUS_INTERNAL_ERROR))"

text \<open>
  The authenticated ciphers: the tag is delivered after an encryption and taken before the last part of a
  decryption. \<open>parameters\<close> is the end parameters, \<open>None\<close> for NULL; its tag buffer is a list of bytes, with the
  length the caller gave, or \<open>None\<close>. The result has the bytes of the tag that was delivered.
\<close>

definition authenticated_last ::
  "crypto \<Rightarrow> u64 \<Rightarrow> cipher \<Rightarrow> sa_rights \<Rightarrow> addr \<Rightarrow> u64 \<Rightarrow> u64 \<Rightarrow> u8 list \<Rightarrow> client \<Rightarrow> world \<Rightarrow>
   sa_status \<times> u64 \<times> u8 list option \<times> client \<times> world" where
  "authenticated_last cr out cipher rights x input bytes_to_process tag c w =
     (let fail = (\<lambda>status. (status, bytes_to_process, None, c, w)) in
      if cipher_mode cipher = SA_CIPHER_MODE_ENCRYPT then
        if \<not> rights_allowed_encrypt (Some rights) SA_KEY_TYPE_SYMMETRIC w then fail SA_STATUS_OPERATION_NOT_ALLOWED
        else let (status, m, c, w) = encrypt_last cr out x input bytes_to_process c w in
          if status \<noteq> SA_STATUS_OK then (status, bytes_to_process, None, c, w)
          else let (status, tag', ctx, w) = symmetric_context_get_tag cr (the_symmetric c x) True (length tag) w;
                   c = put_symmetric x ctx c in
            if status \<noteq> SA_STATUS_OK then (status, bytes_to_process, None, c, w)
            else (SA_STATUS_OK, m, tag', c, w)
      else if cipher_mode cipher = SA_CIPHER_MODE_DECRYPT then
        if \<not> rights_allowed_decrypt (Some rights) SA_KEY_TYPE_SYMMETRIC w then fail SA_STATUS_OPERATION_NOT_ALLOWED
        else let (status, ctx, w) = symmetric_context_set_tag cr (the_symmetric c x) (Some tag) w; c = put_symmetric x ctx c in
          if status \<noteq> SA_STATUS_OK then (status, bytes_to_process, None, c, w)
          else let (status, m, c, w) = decrypt_last cr out x input bytes_to_process c w in
            (status, if status \<noteq> SA_STATUS_OK then bytes_to_process else m, None, c, w)
      else fail SA_STATUS_INTERNAL_ERROR)"

definition ta_sa_crypto_cipher_process_last_aes_gcm ::
  "crypto \<Rightarrow> u64 \<Rightarrow> cipher \<Rightarrow> u64 \<Rightarrow> u64 \<Rightarrow> u8 list option option \<Rightarrow> sa_uuid option \<Rightarrow> client \<Rightarrow> world \<Rightarrow>
   sa_status \<times> u64 \<times> u8 list option \<times> client \<times> world" where
  "ta_sa_crypto_cipher_process_last_aes_gcm cr out cipher input bytes_to_process parameters caller_uuid c w =
     (let x = cipher_get_symmetric_context (Some cipher); fail = (\<lambda>status. (status, bytes_to_process, None, c, w)) in
      if caller_uuid = None then fail SA_STATUS_NULL_PARAMETER
      else if unat bytes_to_process > AES_BLOCK_SIZE then fail SA_STATUS_INVALID_PARAMETER
      else if out = 0 then fail SA_STATUS_NULL_PARAMETER
      else if input = 0 then fail SA_STATUS_NULL_PARAMETER
      else if x = NULL then fail SA_STATUS_NULL_PARAMETER
      else (case cipher_get_key_rights (Some cipher) of None \<Rightarrow> fail SA_STATUS_INTERNAL_ERROR
      | Some rights \<Rightarrow> (case parameters of
            Some (Some tag) \<Rightarrow>
              if length tag > AES_BLOCK_SIZE then fail SA_STATUS_INVALID_PARAMETER
              else authenticated_last cr out cipher rights x input bytes_to_process tag c w
          | _ \<Rightarrow> fail SA_STATUS_NULL_PARAMETER)))"

definition ta_sa_crypto_cipher_process_last_chacha20_poly1305 ::
  "crypto \<Rightarrow> u64 \<Rightarrow> cipher \<Rightarrow> u64 \<Rightarrow> u64 \<Rightarrow> u8 list option option \<Rightarrow> sa_uuid option \<Rightarrow> client \<Rightarrow> world \<Rightarrow>
   sa_status \<times> u64 \<times> u8 list option \<times> client \<times> world" where
  "ta_sa_crypto_cipher_process_last_chacha20_poly1305 cr out cipher input bytes_to_process parameters caller_uuid c w =
     (let x = cipher_get_symmetric_context (Some cipher); fail = (\<lambda>status. (status, bytes_to_process, None, c, w)) in
      if caller_uuid = None then fail SA_STATUS_NULL_PARAMETER
      else if out = 0 then fail SA_STATUS_NULL_PARAMETER
      else if input = 0 then fail SA_STATUS_NULL_PARAMETER
      else if x = NULL then fail SA_STATUS_NULL_PARAMETER
      else (case cipher_get_key_rights (Some cipher) of None \<Rightarrow> fail SA_STATUS_INTERNAL_ERROR
      | Some rights \<Rightarrow> (case parameters of
            Some (Some tag) \<Rightarrow>
              if length tag \<noteq> CHACHA20_TAG_LENGTH then fail SA_STATUS_INVALID_PARAMETER
              else authenticated_last cr out cipher rights x input bytes_to_process tag c w
          | _ \<Rightarrow> fail SA_STATUS_NULL_PARAMETER)))"

definition process_last_algorithm ::
  "crypto \<Rightarrow> u64 \<Rightarrow> u64 \<Rightarrow> cipher \<Rightarrow> u64 \<Rightarrow> u64 \<Rightarrow> u8 list option option \<Rightarrow> sa_uuid option \<Rightarrow> client \<Rightarrow> world \<Rightarrow>
   sa_status \<times> u64 \<times> u8 list option \<times> client \<times> world" where
  "process_last_algorithm cr out required_length cipher input bytes_to_process parameters caller_uuid c w =
     (let algorithm = cipher_algorithm cipher; no_tag = (\<lambda>(status, n, c, w). (status, n, None, c, w)) in
      if algorithm = SA_CIPHER_ALGORITHM_AES_ECB_PKCS7 \<or> algorithm = SA_CIPHER_ALGORITHM_AES_CBC_PKCS7
      then no_tag (ta_sa_crypto_cipher_process_last_aes_pkcs7 cr out required_length cipher input bytes_to_process caller_uuid c w)
      else if algorithm = SA_CIPHER_ALGORITHM_AES_CTR
      then no_tag (ta_sa_crypto_cipher_process_last_aes_ctr cr out cipher input bytes_to_process caller_uuid c w)
      else if algorithm = SA_CIPHER_ALGORITHM_CHACHA20
      then no_tag (ta_sa_crypto_cipher_process_last_chacha20 cr out cipher input bytes_to_process caller_uuid c w)
      else if algorithm = SA_CIPHER_ALGORITHM_AES_GCM
      then ta_sa_crypto_cipher_process_last_aes_gcm cr out cipher input bytes_to_process parameters caller_uuid c w
      else if algorithm = SA_CIPHER_ALGORITHM_CHACHA20_POLY1305
      then ta_sa_crypto_cipher_process_last_chacha20_poly1305 cr out cipher input bytes_to_process parameters caller_uuid c w
      else (SA_STATUS_INVALID_PARAMETER, bytes_to_process, None, c, w))"

definition ta_sa_crypto_cipher_process_last ::
  "crypto \<Rightarrow> sa_buffer option \<Rightarrow> u64 \<Rightarrow> sa_buffer option \<Rightarrow> u64 option \<Rightarrow> u8 list option option \<Rightarrow> ta \<Rightarrow> u64 \<Rightarrow> sa_uuid option \<Rightarrow> world \<Rightarrow>
   (sa_status \<times> (u64 \<times> sa_buffer option \<times> sa_buffer option \<times> u8 list option) \<times> ta \<times> world) option" where
  "ta_sa_crypto_cipher_process_last cr out context inb bytes_to_process parameters t client_slot caller_uuid w =
     (if caller_uuid = None then Some (SA_STATUS_NULL_PARAMETER, (0, out, inb, None), t, w)
      else (case bytes_to_process of None \<Rightarrow> Some (SA_STATUS_NULL_PARAMETER, (0, out, inb, None), t, w)
      | Some n \<Rightarrow> (case inb of None \<Rightarrow> Some (SA_STATUS_NULL_PARAMETER, (n, out, None, None), t, w)
        | Some ib \<Rightarrow>
            with_client_leaving (n, out, Some ib, None)
              (with_cipher_buffers (\<lambda>status. status)
                (\<lambda>cipher. cipher_work
                  (\<lambda>out_bytes in_bytes required_length c w.
                    process_last_algorithm cr out_bytes required_length cipher in_bytes n parameters caller_uuid c w)
                  (get_required_length_last cipher n) out ib n caller_uuid cipher)
                context n out ib caller_uuid)
              t client_slot caller_uuid w)))"

section \<open>The IV and the release\<close>

definition update_iv_body :: "u8 list \<Rightarrow> cipher \<Rightarrow> client \<Rightarrow> world \<Rightarrow> sa_status \<times> unit \<times> client \<times> world" where
  "update_iv_body iv cipher c w =
     (let algorithm = cipher_algorithm cipher; x = cipher_get_symmetric_context (Some cipher) in
      if algorithm = SA_CIPHER_ALGORITHM_AES_CBC \<or> algorithm = SA_CIPHER_ALGORITHM_AES_CBC_PKCS7 \<or>
        algorithm = SA_CIPHER_ALGORITHM_AES_CTR
      then if length iv \<noteq> AES_BLOCK_SIZE then (SA_STATUS_INVALID_PARAMETER, (), c, w)
        else if x = NULL then (SA_STATUS_NULL_PARAMETER, (), c, w)
        else let (status, ctx, w) = symmetric_context_set_iv (the_symmetric c x) (Some iv) w in (status, (), put_symmetric x ctx c, w)
      else (SA_STATUS_INVALID_PARAMETER, (), c, w))"

definition ta_sa_crypto_cipher_update_iv ::
  "u64 \<Rightarrow> u8 list option \<Rightarrow> ta \<Rightarrow> u64 \<Rightarrow> sa_uuid option \<Rightarrow> world \<Rightarrow> (sa_status \<times> unit \<times> ta \<times> world) option" where
  "ta_sa_crypto_cipher_update_iv context iv t client_slot caller_uuid w =
     (if caller_uuid = None then Some (SA_STATUS_NULL_PARAMETER, (), t, w)
      else (case iv of None \<Rightarrow> Some (SA_STATUS_NULL_PARAMETER, (), t, w)
      | Some v \<Rightarrow> with_client () (\<lambda>c w. Some (with_cipher () (update_iv_body v) context caller_uuid c w)) t client_slot caller_uuid w))"

definition free_cipher_resources :: "cipher_resource list \<Rightarrow> client \<Rightarrow> client" where
  "free_cipher_resources rs c = fold (\<lambda>r c. case r of
       Symmetric_Context x \<Rightarrow> c\<lparr>client_symmetrics := heap_free (client_symmetrics c) x\<rparr> | _ \<Rightarrow> c) rs c"

definition ta_sa_crypto_cipher_release ::
  "interference list \<Rightarrow> u64 \<Rightarrow> ta \<Rightarrow> u64 \<Rightarrow> sa_uuid option \<Rightarrow> world \<Rightarrow> (sa_status \<times> unit \<times> ta \<times> world) option" where
  "ta_sa_crypto_cipher_release others context t client_slot caller_uuid w =
     (if caller_uuid = None then Some (SA_STATUS_NULL_PARAMETER, (), t, w)
      else with_client () (\<lambda>c w. map_option (\<lambda>(status, freed, store, w).
            (status, (), free_cipher_resources freed (c\<lparr>client_cipher_store := store\<rparr>), w))
          (cipher_store_remove others (client_cipher_store c) context caller_uuid w)) t client_slot caller_uuid w)"

end
