(* ===== verification/Cenc.thy ===== *)
theory Cenc
  imports Ta_Cipher
begin

text \<open>
  Common encryption, \<^verbatim>\<open>reference/src/taimpl/src/internal/cenc.c\<close> and \<^verbatim>\<open>ta_sa_process_common_encryption.c\<close>: samples of media, cut into
  subsamples with clear and protected bytes, are decrypted with a cipher context of the session. The loop over the stripes of
  a pattern need not end; a function that may run it has \<open>None\<close> as its result then.
\<close>

section \<open>Decrypting a run of bytes\<close>

text \<open>
  What the decryption changes: the number of bytes decrypted so far, its copy of the IV, the symmetric context and the
  world with the memory.
\<close>

record cenc_state =
  enc_byte_count :: u64
  cenc_iv :: "u8 list"
  cenc_context :: "symmetric_context option"
  cenc_world :: world

text \<open>The second half of the IV is a counter in network byte order.\<close>

definition be64toh :: "u8 list \<Rightarrow> u64" where
  "be64toh bs = of_nat (le_value (rev bs))"

definition htobe64 :: "u64 \<Rightarrow> u8 list" where
  "htobe64 x = rev (le_bytes 8 (unat x))"

definition iv_counter :: "u8 list \<Rightarrow> u64" where
  "iv_counter iv = be64toh (drop 8 iv)"

definition set_counter :: "u64 \<Rightarrow> u8 list \<Rightarrow> u8 list" where
  "set_counter x iv = take 8 iv @ htobe64 x"

text \<open>One call on the context for \<open>n\<close> bytes, with the number it has written, and the reset of the IV after some blocks.\<close>

definition decrypt_bytes :: "crypto \<Rightarrow> u64 \<Rightarrow> u64 \<Rightarrow> u64 \<Rightarrow> cenc_state \<Rightarrow> sa_status \<times> u64 \<times> cenc_state" where
  "decrypt_bytes cr out_bytes in_bytes n st =
     (let (status, result, ctx, w) = symmetric_context_decrypt cr (cenc_context st) True
            (Some (mem_read (w_mem (cenc_world st)) in_bytes (unat n))) (cenc_world st) in
      (status, if status \<noteq> SA_STATUS_OK then n else of_nat (length (the result)),
       st\<lparr>cenc_context := ctx, cenc_world := store_bytes out_bytes result w\<rparr>))"

definition reset_iv :: "u8 list \<Rightarrow> cenc_state \<Rightarrow> sa_status \<times> cenc_state" where
  "reset_iv iv st =
     (let (status, ctx, w) = symmetric_context_set_iv (cenc_context st) (Some iv) (cenc_world st) in
      (status, st\<lparr>cenc_iv := iv, cenc_context := ctx, cenc_world := w\<rparr>))"

text \<open>
  A stretch that ends where the counter may roll over: the bytes, then the IV advanced by so many blocks. The
  result has the number of bytes written.
\<close>

definition decrypt_stretch ::
  "crypto \<Rightarrow> u64 \<Rightarrow> u64 \<Rightarrow> u64 \<Rightarrow> u64 \<Rightarrow> cenc_state \<Rightarrow> sa_status \<times> u64 \<times> cenc_state" where
  "decrypt_stretch cr out_bytes in_bytes n blocks st =
     (let (status, len, st) = decrypt_bytes cr out_bytes in_bytes n st in
      if status \<noteq> SA_STATUS_OK then (status, 0, st)
      else let (status, st) = reset_iv (set_counter (iv_counter (cenc_iv st) + blocks) (cenc_iv st)) st in
        if status \<noteq> SA_STATUS_OK then (status, 0, st)
        else (SA_STATUS_OK, len, st\<lparr>enc_byte_count := enc_byte_count st + len\<rparr>))"

text \<open>The other branch of the loop: all that is left; only the copy of the IV is advanced.\<close>

definition decrypt_rest :: "crypto \<Rightarrow> u64 \<Rightarrow> u64 \<Rightarrow> u64 \<Rightarrow> u64 \<Rightarrow> cenc_state \<Rightarrow> sa_status \<times> cenc_state" where
  "decrypt_rest cr out_bytes in_bytes n blocks st =
     (let (status, len, st) = decrypt_bytes cr out_bytes in_bytes n st in
      if status \<noteq> SA_STATUS_OK then (status, st)
      else (SA_STATUS_OK, st\<lparr>enc_byte_count := enc_byte_count st + len,
        cenc_iv := set_counter (iv_counter (cenc_iv st) + blocks) (cenc_iv st)\<rparr>))"

definition leading_bytes :: "u64 \<Rightarrow> u64" where
  "leading_bytes count = (if unat count mod AES_BLOCK_SIZE = 0 then 0 else of_nat (AES_BLOCK_SIZE - unat count mod AES_BLOCK_SIZE))"

definition full_blocks :: "u64 \<Rightarrow> u64 \<Rightarrow> u64" where
  "full_blocks bytes_to_process leading = of_nat (unat (bytes_to_process - leading) div AES_BLOCK_SIZE)"

definition some_block :: "u64 \<Rightarrow> u64" where
  "some_block leading = (if leading > 0 then 1 else 0)"

text \<open>
  The function \<open>decrypt\<close>. Its loop runs the first branch at most once, as that clears \<open>counter_rollover\<close>, and
  then the other one if bytes are left. The differences are those of \<open>size_t\<close>: the first is huge when fewer bytes are to be
  processed than the partial block at the front has.
\<close>

definition cenc_decrypt ::
  "crypto \<Rightarrow> u64 \<Rightarrow> u64 \<Rightarrow> u64 \<Rightarrow> sa_cipher_algorithm \<Rightarrow> cenc_state \<Rightarrow> sa_status \<times> cenc_state" where
  "cenc_decrypt cr out_bytes in_bytes bytes_to_process algorithm st =
     (let leading = leading_bytes (enc_byte_count st);
          full = full_blocks bytes_to_process leading;
          before_rollover = - 1 - iv_counter (cenc_iv st) + 1;
          counter_rollover = (before_rollover \<le> full + some_block leading) in
      if bytes_to_process = 0 then (SA_STATUS_OK, st)
      else if \<not> (counter_rollover \<and> algorithm = SA_CIPHER_ALGORITHM_AES_CTR)
      then decrypt_rest cr out_bytes in_bytes bytes_to_process (full + some_block leading) st
      else let (status, done, st) = (if leading > 0 then decrypt_stretch cr out_bytes in_bytes leading 1 st else (SA_STATUS_OK, 0, st)) in
        if status \<noteq> SA_STATUS_OK then (status, st)
        else let n = min before_rollover full;
               (status, len, st) = (if n > 0 then decrypt_stretch cr (out_bytes + done) (in_bytes + done) (n * of_nat AES_BLOCK_SIZE) n st
                 else (SA_STATUS_OK, 0, st)) in
          if status \<noteq> SA_STATUS_OK then (status, st)
          else let done = done + len in
            if bytes_to_process > done
            then decrypt_rest cr (out_bytes + done) (in_bytes + done) (bytes_to_process - done) (full - n) st
            else (SA_STATUS_OK, st))"

section \<open>Samples\<close>

record sa_sample =
  sample_iv :: "u8 list option"
  crypt_byte_block :: u64
  skip_byte_block :: u64
  subsample_lengths :: "(u64 \<times> u64) list option"
  sample_context :: u64
  sample_out :: "sa_buffer option"
  sample_in :: "sa_buffer option"

definition CENC_OVERFLOW :: u64 where
  "CENC_OVERFLOW = 0"

fun cenc_required_loop :: "u64 \<Rightarrow> (u64 \<times> u64) list \<Rightarrow> u64" where
  "cenc_required_loop required_length [] = required_length"
| "cenc_required_loop required_length ((clear, protected) # rest) =
     (let (carry, subsample_len) = add_overflow clear protected in
      if carry then CENC_OVERFLOW
      else let (carry, new_required_length) = add_overflow required_length subsample_len in
        if carry then CENC_OVERFLOW else cenc_required_loop new_required_length rest)"

definition cenc_get_required_length :: "(u64 \<times> u64) list \<Rightarrow> u64" where
  "cenc_get_required_length subsamples = cenc_required_loop 0 subsamples"

text \<open>Copies of clear bytes.\<close>

definition copy_bytes :: "u64 \<Rightarrow> u64 \<Rightarrow> u64 \<Rightarrow> cenc_state \<Rightarrow> cenc_state" where
  "copy_bytes out_bytes in_bytes n st = st\<lparr>cenc_world := (cenc_world st)\<lparr>w_mem :=
     mem_write (w_mem (cenc_world st)) out_bytes (mem_read (w_mem (cenc_world st)) in_bytes (unat n))\<rparr>\<rparr>"

text \<open>
  The loop over a pattern: stripes of encrypted and of clear blocks. A failed decryption leaves this loop only.
  The result: the status, the bytes that are left, the offset.
\<close>

definition stripe :: "u64 \<Rightarrow> u64 \<Rightarrow> u64" where
  "stripe blocks bytes_left = min (blocks * of_nat AES_BLOCK_SIZE) (of_nat (unat bytes_left div AES_BLOCK_SIZE * AES_BLOCK_SIZE))"

partial_function (option) pattern_loop ::
  "crypto \<Rightarrow> sa_cipher_algorithm \<Rightarrow> u64 \<Rightarrow> u64 \<Rightarrow> u64 \<Rightarrow> u64 \<Rightarrow> sa_status \<Rightarrow> u64 \<Rightarrow> u64 \<Rightarrow> cenc_state \<Rightarrow>
   (sa_status \<times> u64 \<times> u64 \<times> cenc_state) option" where
  "pattern_loop cr algorithm crypt skip out_bytes in_bytes status bytes_left offset st =
     (if unat bytes_left < AES_BLOCK_SIZE then Some (status, bytes_left, offset, st)
      else (let block = stripe crypt bytes_left in
        (case (if block > 0 then cenc_decrypt cr (out_bytes + offset) (in_bytes + offset) block algorithm st else (status, st)) of
          (status, st) \<Rightarrow>
            if block > 0 \<and> status \<noteq> SA_STATUS_OK then Some (status, bytes_left, offset, st)
            else (let skipped = (if skip > 0 then stripe skip (bytes_left - block) else 0) in
              pattern_loop cr algorithm crypt skip out_bytes in_bytes status (bytes_left - block - skipped) (offset + block + skipped)
                (if skipped > 0 then copy_bytes (out_bytes + (offset + block)) (in_bytes + (offset + block)) skipped st else st)))))"

text \<open>
  The loop over the subsamples, from some status and offset. A failure ends it in the mode without a pattern and where the IV
  is reset, but not after the loop over a pattern.
\<close>

fun process_subsamples ::
  "crypto \<Rightarrow> sa_cipher_algorithm \<Rightarrow> sa_sample \<Rightarrow> u64 \<Rightarrow> u64 \<Rightarrow> (u64 \<times> u64) list \<Rightarrow> sa_status \<Rightarrow> u64 \<Rightarrow> cenc_state \<Rightarrow>
   (sa_status \<times> u64 \<times> cenc_state) option" where
  "process_subsamples cr algorithm sample out_bytes in_bytes [] status offset st = Some (status, offset, st)"
| "process_subsamples cr algorithm sample out_bytes in_bytes ((clear, protected) # rest) status offset st =
     (let st = (if clear > 0 then copy_bytes (out_bytes + offset) (in_bytes + offset) clear st else st); offset = offset + clear in
      if protected = 0 then process_subsamples cr algorithm sample out_bytes in_bytes rest status offset st
      else if crypt_byte_block sample = 0 then
        let remainder = (if algorithm = SA_CIPHER_ALGORITHM_AES_CBC then of_nat (unat protected mod AES_BLOCK_SIZE) else 0);
            block = protected - remainder;
            (status, st) = cenc_decrypt cr (out_bytes + offset) (in_bytes + offset) block algorithm st in
        if status \<noteq> SA_STATUS_OK then Some (status, offset, st)
        else let offset = offset + block;
                 st = (if remainder > 0 then copy_bytes (out_bytes + offset) (in_bytes + offset) remainder st else st) in
          process_subsamples cr algorithm sample out_bytes in_bytes rest status (offset + remainder) st
      else let (status, st) = (if algorithm = SA_CIPHER_ALGORITHM_AES_CBC then reset_iv (the (sample_iv sample)) st else (status, st)) in
        if algorithm = SA_CIPHER_ALGORITHM_AES_CBC \<and> status \<noteq> SA_STATUS_OK then Some (status, offset, st)
        else (case pattern_loop cr algorithm (crypt_byte_block sample) (skip_byte_block sample) out_bytes in_bytes status protected offset st of
            None \<Rightarrow> None
          | Some (status, bytes_left, offset, st) \<Rightarrow>
              process_subsamples cr algorithm sample out_bytes in_bytes rest status (offset + bytes_left)
                (if bytes_left > 0 then copy_bytes (out_bytes + offset) (in_bytes + offset) bytes_left st else st)))"

text \<open>
  The frame of the two functions on a sample: the cipher, the work, whose result has the SVP objects of the input and of the
  output, and the releases.
\<close>

definition with_sample_cipher ::
  "'r \<Rightarrow> (cipher \<Rightarrow> client \<Rightarrow> world \<Rightarrow> (sa_status \<times> 'r \<times> addr \<times> addr \<times> client \<times> world) option) \<Rightarrow> sa_sample \<Rightarrow> sa_uuid option \<Rightarrow>
   client \<Rightarrow> world \<Rightarrow> (sa_status \<times> 'r \<times> client \<times> world) option" where
  "with_sample_cipher unchanged work sample caller_uuid c w =
     (let (status, a, store, w) = cipher_store_acquire_exclusive True (client_cipher_store c) (sample_context sample) caller_uuid w;
          c = c\<lparr>client_cipher_store := store\<rparr> in
      (case (if status \<noteq> SA_STATUS_OK then Some (SA_STATUS_INVALID_PARAMETER, unchanged, NULL, NULL, c, w)
             else (case cells (ts_heap store) a of
                 None \<Rightarrow> Some (SA_STATUS_INTERNAL_ERROR, unchanged, NULL, NULL, c, w)
               | Some cipher \<Rightarrow> work cipher c w)) of
        None \<Rightarrow> None
      | Some (status, result, in_svp, out_svp, c, w) \<Rightarrow>
          let (c, w) = release_buffer (the (sample_in sample)) in_svp caller_uuid c w;
              (c, w) = release_buffer (the (sample_out sample)) out_svp caller_uuid c w;
              (c, w) = (if a = NULL then (c, w)
                else let (_, store, w) = cipher_store_release_exclusive (client_cipher_store c) (sample_context sample) a caller_uuid w in
                  (c\<lparr>client_cipher_store := store\<rparr>, w)) in
          Some (status, result, c, w)))"

definition sample_work ::
  "crypto \<Rightarrow> sa_sample \<Rightarrow> sa_uuid option \<Rightarrow> cipher \<Rightarrow> client \<Rightarrow> world \<Rightarrow> (sa_status \<times> sa_sample \<times> addr \<times> addr \<times> client \<times> world) option" where
  "sample_work cr sample caller_uuid cipher c w =
     (let required_length = cenc_get_required_length (the (subsample_lengths sample)) in
      if required_length = CENC_OVERFLOW then Some (SA_STATUS_INVALID_PARAMETER, sample, NULL, NULL, c, w)
      else let (status, out_bytes, out_svp, c, w) = convert_buffer (sample_out sample) required_length c caller_uuid w in
        if status \<noteq> SA_STATUS_OK then Some (status, sample, NULL, out_svp, c, w)
        else let (status, in_bytes, in_svp, c, w) = convert_buffer (sample_in sample) required_length c caller_uuid w in
          if status \<noteq> SA_STATUS_OK then Some (status, sample, in_svp, out_svp, c, w)
          else let algorithm = cipher_algorithm cipher; x = cipher_get_symmetric_context (Some cipher) in
            if x = NULL then Some (SA_STATUS_NULL_PARAMETER, sample, in_svp, out_svp, c, w)
            else let (status, st) = reset_iv (the (sample_iv sample))
                   \<lparr>enc_byte_count = 0, cenc_iv = [], cenc_context = the_symmetric c x, cenc_world = w\<rparr> in
              if status \<noteq> SA_STATUS_OK
              then Some (status, sample, in_svp, out_svp, put_symmetric x (cenc_context st) c, cenc_world st)
              else (case process_subsamples cr algorithm sample out_bytes in_bytes (the (subsample_lengths sample)) status 0 st of
                None \<Rightarrow> None
              | Some (status, offset, st) \<Rightarrow>
                  Some (status, if status = SA_STATUS_OK
                     then sample\<lparr>sample_in := map_option (advance_buffer offset) (sample_in sample),
                       sample_out := map_option (advance_buffer offset) (sample_out sample)\<rparr>
                     else sample, in_svp, out_svp, put_symmetric x (cenc_context st) c, cenc_world st)))"

definition cenc_process_sample ::
  "crypto \<Rightarrow> sa_sample \<Rightarrow> sa_uuid option \<Rightarrow> client \<Rightarrow> world \<Rightarrow> (sa_status \<times> sa_sample \<times> client \<times> world) option" where
  "cenc_process_sample cr sample caller_uuid c w =
     with_sample_cipher sample (sample_work cr sample caller_uuid) sample caller_uuid c w"

section \<open>The command\<close>

text \<open>The range \<open>a\<close> to \<open>b\<close>, both included, has an end of the range \<open>c\<close> to \<open>d\<close>.\<close>

definition ranges_touch :: "u64 \<Rightarrow> u64 \<Rightarrow> u64 \<Rightarrow> u64 \<Rightarrow> bool" where
  "ranges_touch out_bytes out_bytes_end in_bytes in_bytes_end \<longleftrightarrow>
     out_bytes \<ge> in_bytes \<and> out_bytes \<le> in_bytes_end \<or> out_bytes_end \<ge> in_bytes \<and> out_bytes_end \<le> in_bytes_end \<or>
     in_bytes \<ge> out_bytes \<and> in_bytes \<le> out_bytes_end \<or> in_bytes_end \<ge> out_bytes \<and> in_bytes_end \<le> out_bytes_end"

definition verify_work ::
  "sa_sample \<Rightarrow> (u64 \<times> u64) list \<Rightarrow> sa_buffer \<Rightarrow> sa_buffer \<Rightarrow> sa_uuid option \<Rightarrow> cipher \<Rightarrow> client \<Rightarrow> world \<Rightarrow>
   sa_status \<times> addr \<times> addr \<times> client \<times> world" where
  "verify_work sample subsamples ob ib caller_uuid cipher c w =
     (if cipher_mode cipher \<noteq> SA_CIPHER_MODE_DECRYPT then (SA_STATUS_INVALID_PARAMETER, NULL, NULL, c, w)
      else (case cipher_get_key_rights (Some cipher) of None \<Rightarrow> (SA_STATUS_INTERNAL_ERROR, NULL, NULL, c, w)
      | Some rights \<Rightarrow>
          if \<not> rights_allowed_decrypt (Some rights) SA_KEY_TYPE_SYMMETRIC w then (SA_STATUS_OPERATION_NOT_ALLOWED, NULL, NULL, c, w)
          else if \<not> is_clear ob \<and> \<not> is_svp ob then (SA_STATUS_INVALID_PARAMETER, NULL, NULL, c, w)
          else if \<not> is_clear ib \<and> \<not> is_svp ib then (SA_STATUS_INVALID_PARAMETER, NULL, NULL, c, w)
          else if cipher_algorithm cipher \<noteq> SA_CIPHER_ALGORITHM_AES_CTR \<and> cipher_algorithm cipher \<noteq> SA_CIPHER_ALGORITHM_AES_CBC
          then (SA_STATUS_INVALID_PARAMETER, NULL, NULL, c, w)
          else if is_clear ob \<and> \<not> is_clear ib then (SA_STATUS_INVALID_PARAMETER, NULL, NULL, c, w)
          else if is_clear ob \<and> \<not> rights_allowed_clear (Some rights) then (SA_STATUS_OPERATION_NOT_ALLOWED, NULL, NULL, c, w)
          else let required_length = cenc_get_required_length subsamples in
            if required_length = CENC_OVERFLOW then (SA_STATUS_INVALID_PARAMETER, NULL, NULL, c, w)
            else let (status, out_bytes, out_svp, c, w) = convert_buffer (Some ob) required_length c caller_uuid w in
              if status \<noteq> SA_STATUS_OK then (status, NULL, out_svp, c, w)
              else let (status, in_bytes, in_svp, c, w) = convert_buffer (Some ib) required_length c caller_uuid w in
                if status \<noteq> SA_STATUS_OK then (status, in_svp, out_svp, c, w)
                else if ranges_touch out_bytes (out_bytes + required_length) in_bytes (in_bytes + required_length)
                then (SA_STATUS_INVALID_PARAMETER, in_svp, out_svp, c, w)
                else (SA_STATUS_OK, in_svp, out_svp, c, w)))"

definition verify_sample :: "sa_sample \<Rightarrow> sa_uuid option \<Rightarrow> client \<Rightarrow> world \<Rightarrow> (sa_status \<times> client \<times> world) option" where
  "verify_sample sample caller_uuid c w = (case sample_iv sample of
      None \<Rightarrow> Some (SA_STATUS_NULL_PARAMETER, c, w)
    | Some iv \<Rightarrow>
        if length iv \<noteq> AES_BLOCK_SIZE then Some (SA_STATUS_INVALID_PARAMETER, c, w)
        else (case subsample_lengths sample of None \<Rightarrow> Some (SA_STATUS_NULL_PARAMETER, c, w)
        | Some subsamples \<Rightarrow>
            if subsamples = [] then Some (SA_STATUS_INVALID_PARAMETER, c, w)
            else (case sample_out sample of None \<Rightarrow> Some (SA_STATUS_NULL_PARAMETER, c, w)
            | Some ob \<Rightarrow> (case sample_in sample of None \<Rightarrow> Some (SA_STATUS_NULL_PARAMETER, c, w)
              | Some ib \<Rightarrow>
                  if crypt_byte_block sample = 0 \<and> skip_byte_block sample \<noteq> 0 then Some (SA_STATUS_INVALID_PARAMETER, c, w)
                  else map_option (\<lambda>(status, _, c, w). (status, c, w))
                    (with_sample_cipher () (\<lambda>cipher c w.
                      let (status, in_svp, out_svp, c, w) = verify_work sample subsamples ob ib caller_uuid cipher c w in
                      Some (status, (), in_svp, out_svp, c, w)) sample caller_uuid c w)))))"

text \<open>The two loops stop at the first failure.\<close>

fun verify_samples :: "sa_sample list \<Rightarrow> sa_uuid option \<Rightarrow> client \<Rightarrow> world \<Rightarrow> (sa_status \<times> client \<times> world) option" where
  "verify_samples [] caller_uuid c w = Some (SA_STATUS_OK, c, w)"
| "verify_samples (sample # samples) caller_uuid c w = (case verify_sample sample caller_uuid c w of
      None \<Rightarrow> None
    | Some (status, c, w) \<Rightarrow> if status \<noteq> SA_STATUS_OK then Some (status, c, w) else verify_samples samples caller_uuid c w)"

fun process_samples ::
  "crypto \<Rightarrow> sa_sample list \<Rightarrow> sa_uuid option \<Rightarrow> client \<Rightarrow> world \<Rightarrow> (sa_status \<times> sa_sample list \<times> client \<times> world) option" where
  "process_samples cr [] caller_uuid c w = Some (SA_STATUS_OK, [], c, w)"
| "process_samples cr (sample # samples) caller_uuid c w = (case cenc_process_sample cr sample caller_uuid c w of
      None \<Rightarrow> None
    | Some (status, sample, c, w) \<Rightarrow>
        if status \<noteq> SA_STATUS_OK then Some (status, sample # samples, c, w)
        else (case process_samples cr samples caller_uuid c w of
          None \<Rightarrow> None | Some (status, samples, c, w) \<Rightarrow> Some (status, sample # samples, c, w)))"

definition ta_sa_process_common_encryption ::
  "crypto \<Rightarrow> sa_sample list option \<Rightarrow> ta \<Rightarrow> u64 \<Rightarrow> sa_uuid option \<Rightarrow> world \<Rightarrow> (sa_status \<times> sa_sample list \<times> ta \<times> world) option" where
  "ta_sa_process_common_encryption cr samples t client_slot caller_uuid w =
     (if caller_uuid = None then Some (SA_STATUS_NULL_PARAMETER, (case samples of None \<Rightarrow> [] | Some ss \<Rightarrow> ss), t, w)
      else (case samples of None \<Rightarrow> Some (SA_STATUS_NULL_PARAMETER, [], t, w)
      | Some ss \<Rightarrow> with_client ss (\<lambda>c w. case verify_samples ss caller_uuid c w of
            None \<Rightarrow> None
          | Some (status, c, w) \<Rightarrow>
              if status \<noteq> SA_STATUS_OK then Some (status, ss, c, w) else process_samples cr ss caller_uuid c w)
          t client_slot caller_uuid w))"

end
