(* ===== verification/Ta_Cipher_Laws.thy ===== *)
theory Ta_Cipher_Laws
  imports Ta_Cipher
begin

text \<open>
  What the commands that process data can do to the memory of the TAs: one write, at the start of the range
  that the output buffer stands for, and only for the owner of the cipher, in the direction it was made for,
  as long as the rights of its key allow that.
\<close>

section \<open>The contexts keep the device\<close>

lemma evp_step_device [device]: "evp_step cr call x w = (out, x', w') \<Longrightarrow> same_device w w'"
  by (auto simp: evp_step_def Let_def dest!: draw_device split: prod.splits)

lemma evp_last_device [device]: "evp_last cr x bs w = (s, out, x', w') \<Longrightarrow> same_device w w'"
  by (auto simp: evp_last_def dest!: evp_step_device intro: same_device_trans split: prod.splits option.splits)

lemma symmetric_device [device]:
  "symmetric_context_encrypt cr x g input w = (s, out, x', w') \<Longrightarrow> same_device w w'"
  "symmetric_context_decrypt cr x g input w = (s, out, x', w') \<Longrightarrow> same_device w w'"
  "symmetric_context_encrypt_last cr x g lg input n w = (s, m, out, x', w') \<Longrightarrow> same_device w w'"
  "symmetric_context_decrypt_last cr x g lg input n w = (s, m, out, x', w') \<Longrightarrow> same_device w w'"
  "symmetric_context_get_tag cr x tg m w = (s, out, x', w') \<Longrightarrow> same_device w w'"
  "symmetric_context_set_tag cr x t w = (s, x', w') \<Longrightarrow> same_device w w'"
  "symmetric_context_set_iv x iv w = (s, x', w') \<Longrightarrow> same_device w w'"
  by (auto simp: symmetric_context_encrypt_def symmetric_context_decrypt_def symmetric_context_encrypt_last_def
      symmetric_context_decrypt_last_def symmetric_context_get_tag_def symmetric_context_set_tag_def symmetric_context_set_iv_def Let_def
      dest!: evp_step_device evp_last_device draw_device split: prod.splits option.splits if_splits)

lemma evp_pkey_device [device]: "evp_pkey_from_pkcs8 cr t bs w = (k, w') \<Longrightarrow> same_device w w'"
  by (auto simp: evp_pkey_from_pkcs8_def Let_def dest!: draw_device draws_device split: prod.splits option.splits if_splits)

lemma rsa_decrypt_with_device [device]: "rsa_decrypt_with cr n plain k len m w = (s, out, w') \<Longrightarrow> same_device w w'"
  by (auto simp: rsa_decrypt_with_def Let_def dest!: evp_pkey_device draw_device draws_device split: prod.splits option.splits if_splits)
    (meson same_device_trans)+

lemma public_decrypt_device [device]:
  "rsa_decrypt_pkcs1v15 cr g len k input w = (s, out, w') \<Longrightarrow> same_device w w'"
  "rsa_decrypt_oaep cr g len k da ma l ll input w = (s, out, w') \<Longrightarrow> same_device w w'"
  by (auto simp: rsa_decrypt_pkcs1v15_def rsa_decrypt_oaep_def Let_def dest!: rsa_decrypt_with_device split: option.splits if_splits)

lemma elgamal_device [device]: "ec_decrypt_elgamal cr g len k input w = (s, out, n, w') \<Longrightarrow> same_device w w'"
  by (auto simp: ec_decrypt_elgamal_def Let_def dest!: evp_pkey_device draw_device draws_device split: prod.splits option.splits if_splits)
    (meson same_device_trans)+

section \<open>One write\<close>

text \<open>
  \<open>one_write P out w w'\<close>: nothing changes but the memory at \<open>out\<close>, and that only if \<open>P\<close>.
\<close>

definition one_write :: "bool \<Rightarrow> u64 \<Rightarrow> world \<Rightarrow> world \<Rightarrow> bool" where
  "one_write P out w w' \<longleftrightarrow> same_device w (w'\<lparr>w_mem := w_mem w\<rparr>) \<and>
     (w_mem w' = w_mem w \<or> P \<and> (\<exists>data. w_mem w' = mem_write (w_mem w) out data))"

lemma one_write_same: "same_device w w' \<Longrightarrow> one_write P out w w'"
  by (simp add: one_write_def same_device_def)

lemma one_write_store: "same_device w w1 \<Longrightarrow> P \<Longrightarrow> one_write P out w (store_bytes out result w1)"
  by (auto simp: one_write_def store_bytes_def same_device_def provisioned_def split: option.splits)

lemma one_write_before: "same_device w w1 \<Longrightarrow> one_write P out w1 w2 \<Longrightarrow> one_write P out w w2"
  by (auto simp: one_write_def same_device_def provisioned_def)

lemma one_write_after: "one_write P out w w1 \<Longrightarrow> same_device w1 w2 \<Longrightarrow> one_write P out w w2"
  by (auto simp: one_write_def same_device_def provisioned_def)

lemma one_write_mono: "one_write P out w w' \<Longrightarrow> (P \<Longrightarrow> Q) \<Longrightarrow> one_write Q out w w'"
  by (auto simp: one_write_def)

text \<open>The sessions of the stores that the library's effects leave alone.\<close>

definition same_stores :: "client \<Rightarrow> client \<Rightarrow> bool" where
  "same_stores c c' \<longleftrightarrow> client_key_store c' = client_key_store c \<and> client_cipher_store c' = client_cipher_store c \<and>
     client_mac_store c' = client_mac_store c \<and> client_svp_store c' = client_svp_store c"

lemma same_stores_refl [simp]: "same_stores c c" "same_stores c (put_symmetric x ctx c)"
  by (auto simp: same_stores_def put_symmetric_def split: option.splits)

lemma same_stores_trans: "same_stores a b \<Longrightarrow> same_stores b c \<Longrightarrow> same_stores a c"
  by (simp add: same_stores_def)

section \<open>The functions for the algorithms\<close>

text \<open>What the code checks before it delivers anything: the direction, and the rights of the key.\<close>

definition cipher_key_type :: "cipher \<Rightarrow> sa_key_type" where
  "cipher_key_type cipher = (if symmetric_algorithm (cipher_algorithm cipher) then SA_KEY_TYPE_SYMMETRIC
     else if cipher_algorithm cipher = SA_CIPHER_ALGORITHM_EC_ELGAMAL then SA_KEY_TYPE_EC else SA_KEY_TYPE_RSA)"

definition may_process :: "cipher \<Rightarrow> world \<Rightarrow> bool" where
  "may_process cipher w \<longleftrightarrow> cipher_get_key_rights (Some cipher) \<noteq> None \<and>
     (if cipher_mode cipher = SA_CIPHER_MODE_ENCRYPT
      then rights_allowed_encrypt (cipher_get_key_rights (Some cipher)) (cipher_key_type cipher) w
      else rights_allowed_decrypt (cipher_get_key_rights (Some cipher)) (cipher_key_type cipher) w)"

lemma may_process_same: "same_device w w' \<Longrightarrow> may_process cipher w' = may_process cipher w"
  by (simp add: may_process_def same_device_def rights_allowed_encrypt_def rights_allowed_decrypt_def validate_video_output_state_def
      cong: option.case_cong)

text \<open>What is asked of the function that a command runs on a buffer.\<close>

definition run_ok ::
  "(u64 \<Rightarrow> u64 \<Rightarrow> u64 \<Rightarrow> client \<Rightarrow> world \<Rightarrow> sa_status \<times> u64 \<times> 'r option \<times> client \<times> world) \<Rightarrow> cipher \<Rightarrow> bool" where
  "run_ok run cipher \<longleftrightarrow> (\<forall>out input n c w s m r c' w'. run out input n c w = (s, m, r, c', w') \<longrightarrow>
     same_stores c c' \<and> one_write (may_process cipher w) out w w')"

lemma process_symmetric_ok:
  assumes r: "ta_sa_crypto_cipher_process_symmetric cr out cipher input n cu c w = (s, m, c', w')"
    and sym: "symmetric_algorithm (cipher_algorithm cipher)"
  shows "same_stores c c' \<and> one_write (may_process cipher w) out w w'"
  using r sym
  by (auto simp: ta_sa_crypto_cipher_process_symmetric_def Let_def may_process_def cipher_key_type_def
      intro: one_write_same one_write_store dest!: symmetric_device
      split: if_splits option.splits prod.splits)

lemma asymmetric_checks_OK:
  assumes "asymmetric_checks k t out cipher input n cu w = SA_STATUS_OK"
  shows "cipher_mode cipher = SA_CIPHER_MODE_DECRYPT" "cipher_get_key_rights (Some cipher) \<noteq> None"
    "rights_allowed_decrypt (cipher_get_key_rights (Some cipher)) t w"
  using assms by (auto simp: asymmetric_checks_def Let_def split: if_splits option.splits)

lemma process_asymmetric_ok:
  assumes "\<not> symmetric_algorithm (cipher_algorithm cipher)"
  shows "cipher_algorithm cipher \<noteq> SA_CIPHER_ALGORITHM_EC_ELGAMAL \<Longrightarrow>
      ta_sa_crypto_cipher_process_rsa_pkcs1v15 cr out l cipher input n cu c w = (s, m, c', w') \<Longrightarrow>
      same_stores c c' \<and> one_write (may_process cipher w) out w w'"
    "cipher_algorithm cipher \<noteq> SA_CIPHER_ALGORITHM_EC_ELGAMAL \<Longrightarrow>
      ta_sa_crypto_cipher_process_rsa_oaep cr out l cipher input n cu c w = (s, m, c', w') \<Longrightarrow>
      same_stores c c' \<and> one_write (may_process cipher w) out w w'"
    "cipher_algorithm cipher = SA_CIPHER_ALGORITHM_EC_ELGAMAL \<Longrightarrow>
      ta_sa_crypto_cipher_process_ec_elgamal cr out cipher input n cu c w = (s, m, c', w') \<Longrightarrow>
      same_stores c c' \<and> one_write (may_process cipher w) out w w'"
  using assms
  by (auto simp: ta_sa_crypto_cipher_process_rsa_pkcs1v15_def ta_sa_crypto_cipher_process_rsa_oaep_def
      ta_sa_crypto_cipher_process_ec_elgamal_def Let_def may_process_def cipher_key_type_def
      intro: one_write_same one_write_store dest!: public_decrypt_device elgamal_device dest: asymmetric_checks_OK
      split: if_splits option.splits prod.splits sa_status.splits)

lemma process_algorithm_effect:
  assumes r: "process_algorithm cr out l cipher input n cu c w = (s, m, c', w')"
  shows "same_stores c c' \<and> one_write (may_process cipher w) out w w'"
proof (cases "symmetric_algorithm (cipher_algorithm cipher)")
  case True
  with r show ?thesis by (intro process_symmetric_ok) (auto simp: process_algorithm_def Let_def)
next
  case False
  from r process_asymmetric_ok [OF False] show ?thesis
    unfolding process_algorithm_def Let_def by (auto simp: False intro: one_write_same split: if_splits)
qed

lemma process_algorithm_ok:
  "run_ok (\<lambda>out input l c w. let (status, m, c, w) = process_algorithm cr out l cipher input n cu c w in (status, m, None, c, w)) cipher"
  by (auto simp: run_ok_def Let_def dest!: process_algorithm_effect split: prod.splits)

lemma last_effect:
  "encrypt_last cr out x input n c w = (s, m, c', w') \<Longrightarrow> P \<Longrightarrow> same_stores c c' \<and> one_write P out w w'"
  "decrypt_last cr out x input n c w = (s, m, c', w') \<Longrightarrow> P \<Longrightarrow> same_stores c c' \<and> one_write P out w w'"
  by (auto simp: encrypt_last_def decrypt_last_def Let_def intro: one_write_store dest!: symmetric_device split: prod.splits)

lemma authenticated_last_effect:
  assumes r: "authenticated_last cr out cipher rights x input n tag c w = (s, m, t, c', w')"
    and rights: "cipher_get_key_rights (Some cipher) = Some rights" and sym: "symmetric_algorithm (cipher_algorithm cipher)"
  shows "same_stores c c' \<and> one_write (may_process cipher w) out w w'"
proof -
  consider (encrypt) s1 m1 c1 w1 where "may_process cipher w" "encrypt_last cr out x input n c w = (s1, m1, c1, w1)"
      "(w' = w1 \<and> c' = c1) \<or> (same_device w1 w' \<and> same_stores c1 c')"
    | (decrypt) w1 ctx s1 m1 where "may_process cipher w" "same_device w w1"
      "decrypt_last cr out x input n (put_symmetric x ctx c) w1 = (s1, m1, c', w')"
    | (nothing) "same_device w w'" "same_stores c c'"
    using r rights sym
    by (auto simp: authenticated_last_def Let_def may_process_def cipher_key_type_def dest: symmetric_device
        split: if_splits prod.splits)
  then show ?thesis
  proof cases
    case encrypt
    with last_effect(1) [OF encrypt(2,1)] show ?thesis
      by (auto intro: same_stores_trans one_write_after)
  next
    case decrypt
    with last_effect(2) [OF decrypt(3,1)] show ?thesis
      by (auto simp: same_stores_refl intro: same_stores_trans [OF same_stores_refl(2)] one_write_before)
  next
    case nothing
    then show ?thesis by (simp add: one_write_same)
  qed
qed

lemma process_last_effect:
  assumes sym: "symmetric_algorithm (cipher_algorithm cipher)"
  shows "ta_sa_crypto_cipher_process_last_aes_pkcs7 cr out l cipher input n cu c w = (s, m, c', w') \<Longrightarrow>
      same_stores c c' \<and> one_write (may_process cipher w) out w w'"
    "ta_sa_crypto_cipher_process_last_aes_ctr cr out cipher input n cu c w = (s, m, c', w') \<Longrightarrow>
      same_stores c c' \<and> one_write (may_process cipher w) out w w'"
    "ta_sa_crypto_cipher_process_last_chacha20 cr out cipher input n cu c w = (s, m, c', w') \<Longrightarrow>
      same_stores c c' \<and> one_write (may_process cipher w) out w w'"
    "ta_sa_crypto_cipher_process_last_aes_gcm cr out cipher input n ps cu c w = (s, m, t, c', w') \<Longrightarrow>
      same_stores c c' \<and> one_write (may_process cipher w) out w w'"
    "ta_sa_crypto_cipher_process_last_chacha20_poly1305 cr out cipher input n ps cu c w = (s, m, t, c', w') \<Longrightarrow>
      same_stores c c' \<and> one_write (may_process cipher w) out w w'"
  by (auto simp: ta_sa_crypto_cipher_process_last_aes_pkcs7_def ta_sa_crypto_cipher_process_last_aes_ctr_def
      ta_sa_crypto_cipher_process_last_chacha20_def ta_sa_crypto_cipher_process_last_aes_gcm_def
      ta_sa_crypto_cipher_process_last_chacha20_poly1305_def Let_def may_process_def cipher_key_type_def sym
      intro: one_write_same dest!: last_effect authenticated_last_effect [OF _ _ sym]
      split: if_splits option.splits prod.splits)

lemma process_last_algorithm_effect:
  assumes r: "process_last_algorithm cr out l cipher input n ps cu c w = (s, m, t, c', w')"
  shows "same_stores c c' \<and> one_write (may_process cipher w) out w w'"
proof (cases "symmetric_algorithm (cipher_algorithm cipher)")
  case True
  from r process_last_effect [OF True] show ?thesis
    unfolding process_last_algorithm_def Let_def by (auto intro: one_write_same split: if_splits prod.splits)
next
  case False
  with r show ?thesis by (auto simp: process_last_algorithm_def Let_def symmetric_algorithm_def intro: one_write_same split: if_splits)
qed

lemma process_last_algorithm_ok:
  "run_ok (\<lambda>out input l c w. process_last_algorithm cr out l cipher input n ps cu c w) cipher"
  by (auto simp: run_ok_def dest!: process_last_algorithm_effect)

section \<open>The frame\<close>

text \<open>The range a command may write: the output buffer's, of a key that may leave the secure path if it is clear memory.\<close>

definition may_write :: "client \<Rightarrow> sa_uuid \<Rightarrow> cipher \<Rightarrow> sa_buffer option \<Rightarrow> u64 \<Rightarrow> u64 \<Rightarrow> world \<Rightarrow> bool" where
  "may_write c u cipher out l bytes w \<longleftrightarrow> may_process cipher w \<and> (\<exists>ob. out = Some ob \<and> buffer_range c u ob (unat l) bytes \<and>
     (is_clear ob \<or> is_svp ob) \<and> (is_clear ob \<longrightarrow> rights_allowed_clear (cipher_get_key_rights (Some cipher))))"

lemma cipher_work_effect:
  assumes ok: "ts_ok (client_svp_store c)" and u: "uuid_ok u" and run: "run_ok run cipher"
    and r: "cipher_work run l out inb n (Some u) cipher c w = (left, s, res, in_svp, out_svp, c', w')"
  shows "client_cipher_store c' = client_cipher_store c" "ts_ok (client_svp_store c')"
    "\<exists>bytes. one_write (may_write c u cipher out l bytes w) bytes w w'"
proof -
  have "client_cipher_store c' = client_cipher_store c \<and> ts_ok (client_svp_store c') \<and>
    (\<exists>bytes. one_write (may_write c u cipher out l bytes w) bytes w w')"
  proof (cases "c' = c \<and> w' = w")
    case True
    with ok show ?thesis using one_write_same [OF same_device_refl [of w]] by auto
  next
    case False
    then obtain ob where ob: "out = Some ob" "is_clear ob \<or> is_svp ob"
        "is_clear ob \<longrightarrow> rights_allowed_clear (cipher_get_key_rights (Some cipher))"
      using r by (auto simp: cipher_work_def Let_def split: option.splits if_splits)
    obtain s1 out_bytes out_svp1 c1 w1 where v1: "convert_buffer (Some ob) l c (Some u) w = (s1, out_bytes, out_svp1, c1, w1)"
      using prod_cases5 by blast
    obtain s2 in_bytes in_svp1 c2 w2 where v2: "convert_buffer (Some inb) n c1 (Some u) w1 = (s2, in_bytes, in_svp1, c2, w2)"
      using prod_cases5 by blast
    obtain s3 m t c3 w3 where v3: "run out_bytes in_bytes l c2 w2 = (s3, m, t, c3, w3)" using prod_cases5 by blast
    have cases: "(s1 \<noteq> SA_STATUS_OK \<and> c' = c1 \<and> w' = w1) \<or> (s1 = SA_STATUS_OK \<and> s2 \<noteq> SA_STATUS_OK \<and> c' = c2 \<and> w' = w2) \<or>
        (s1 = SA_STATUS_OK \<and> c' = c3 \<and> w' = w3)"
      using r ob False v1 v2 v3 by (auto simp: cipher_work_def Let_def split: option.splits if_splits)
    obtain ts1 where c1: "c1 = c\<lparr>client_svp_store := ts1\<rparr>" "ts_ok ts1" "same_device w w1"
      by (rule convert_buffer_same [OF ok u v1])
    obtain ts2 where c2: "c2 = c1\<lparr>client_svp_store := ts2\<rparr>" "ts_ok ts2" "same_device w1 w2"
      by (rule convert_buffer_same [OF _ u v2]) (use c1 in simp)
    have d: "same_device w w2" using c1 c2 by (meson same_device_trans)
    have run3: "same_stores c2 c3" "one_write (may_process cipher w2) out_bytes w2 w3"
      using run v3 unfolding run_ok_def by blast+
    have "one_write (may_write c u cipher out l out_bytes w) out_bytes w w3" if "s1 = SA_STATUS_OK"
      using convert_buffer_range [OF ok u v1 [unfolded that]] ob may_process_same [OF d]
      by (intro one_write_before [OF d] one_write_mono [OF run3(2)]) (auto simp: may_write_def)
    with cases c1 c2 d run3(1) show ?thesis by (auto simp: same_stores_def intro: one_write_same)
  qed
  then show "client_cipher_store c' = client_cipher_store c" "ts_ok (client_svp_store c')"
    "\<exists>bytes. one_write (may_write c u cipher out l bytes w) bytes w w'" by blast+
qed

lemma release_buffer_effect:
  assumes ok: "ts_ok (client_svp_store c)" and u: "uuid_ok u" and r: "release_buffer b svp (Some u) c w = (c', w')"
  shows "ts_ok (client_svp_store c')" "client_cipher_store c' = client_cipher_store c" "same_device w w'"
proof -
  obtain s1 store w1 where rel: "release_exclusive (client_svp_store c) (case b of Svp_Buffer handle offset \<Rightarrow> handle | _ \<Rightarrow> 0)
      svp (Some u) w = (s1, store, w1)" using prod_cases3 by blast
  show "ts_ok (client_svp_store c')" "client_cipher_store c' = client_cipher_store c" "same_device w w'"
    using r rel ok release_exclusive_same(2) [OF ok u rel] release_exclusive_device [OF rel]
    by (auto simp: release_buffer_def svp_store_release_exclusive_def svp_supported_def split: if_splits)
qed

text \<open>
  The frame adds what it takes: the caller has a cipher under its handle, the one the work was done on.
  \<open>owns_cipher c u n\<close> is that cipher; taking it exclusively changes its lock only.
\<close>

definition owns_cipher :: "client \<Rightarrow> sa_uuid \<Rightarrow> u64 \<Rightarrow> cipher option" where
  "owns_cipher c u n = (case ts_entries (client_cipher_store c) (unat n) of
      None \<Rightarrow> None
    | Some (a, k, v) \<Rightarrow> if v = u then map_option unlocked (cells (ts_heap (client_cipher_store c)) a) else None)"

lemma may_write_unlocked: "may_write c u (unlocked cipher) out l bytes w = may_write c u cipher out l bytes w"
  by (simp add: may_write_def may_process_def cipher_key_type_def cipher_get_key_rights_def)

lemma may_write_same: "same_device w w' \<Longrightarrow> may_write c u cipher out l bytes w' = may_write c u cipher out l bytes w"
  by (simp add: may_write_def may_process_same)

lemma may_write_svp: "may_write (c\<lparr>client_cipher_store := ts\<rparr>) u cipher out l bytes w = may_write c u cipher out l bytes w"
  by (simp add: may_write_def buffer_range_def cong: sa_buffer.case_cong option.case_cong)

lemma with_cipher_buffers_effect:
  assumes ok: "ts_ok (client_cipher_store c)" "ts_ok (client_svp_store c)" and u: "uuid_ok u"
    and run: "\<And>cipher. run_ok (run cipher) cipher"
    and r: "with_cipher_buffers report (\<lambda>cipher. cipher_work (run cipher) (l cipher) out inb n (Some u) cipher) context n out inb (Some u) c w =
      (left, s, res, c', w')"
    and l: "\<And>cipher. l (unlocked cipher) = l cipher"
  shows "same_device w w' \<or> (\<exists>cipher bytes. owns_cipher c u context = Some cipher \<and>
      one_write (may_write c u cipher out (l cipher) bytes w) bytes w w')"
proof -
  obtain s1 a ts w1 where acq: "acquire_exclusive True (client_cipher_store c) context (Some u) w = (s1, a, ts, w1)"
    using prod_cases4 by blast
  note same = acquire_exclusive_same [OF ok(1) u acq]
  note d1 = acquire_exclusive_device [OF acq]
  let ?c = "c\<lparr>client_cipher_store := ts\<rparr>"
  define work where "work = (if s1 \<noteq> SA_STATUS_OK then (False, report s1, (n, out, Some inb, None), NULL, NULL, ?c, w1)
    else (case cells (ts_heap ts) a of None \<Rightarrow> (False, SA_STATUS_INTERNAL_ERROR, (n, out, Some inb, None), NULL, NULL, ?c, w1)
      | Some cipher \<Rightarrow> cipher_work (run cipher) (l cipher) out inb n (Some u) cipher ?c w1))"
  obtain left2 s2 res2 isvp osvp c2 w2 where w2: "work = (left2, s2, res2, isvp, osvp, c2, w2)" using prod_cases7 by blast
  have w2_effect: "client_cipher_store c2 = ts \<and> ts_ok (client_svp_store c2) \<and> (same_device w1 w2 \<or> (\<exists>cipher bytes.
    owns_cipher c u context = Some cipher \<and> one_write (may_write c u cipher out (l cipher) bytes w1) bytes w1 w2))"
  proof (cases "s1 = SA_STATUS_OK \<and> cells (ts_heap ts) a \<noteq> None")
    case False
    with w2 ok show ?thesis by (auto simp: work_def split: if_splits)
  next
    case True
    then obtain cipher where cipher: "cells (ts_heap ts) a = Some cipher" by blast
    have k: "cipher_work (run cipher) (l cipher) out inb n (Some u) cipher ?c w1 = (left2, s2, res2, isvp, osvp, c2, w2)"
      using w2 True cipher by (simp add: work_def)
    have ok': "ts_ok (client_svp_store ?c)" using ok(2) by simp
    note e = cipher_work_effect [OF ok' u run k, unfolded may_write_svp]
    obtain k where "ts_entries (client_cipher_store c) (unat context) = Some (a, k, u)" using same(3,4) True by auto
    moreover obtain cipher0 where "cells (ts_heap (client_cipher_store c)) a = Some cipher0" "unlocked cipher0 = unlocked cipher"
      by (rule same_objects_cell [OF same_objects_sym [OF same(1)] cipher])
    ultimately have "owns_cipher c u context = Some (unlocked cipher)" by (simp add: owns_cipher_def)
    with e show ?thesis by (auto simp: may_write_unlocked l)
  qed
  have "w' = w2 \<or> same_device w2 w'"
  proof (cases left2)
    case True
    then show ?thesis
      using r acq w2 by (auto simp: with_cipher_buffers_def cipher_store_acquire_exclusive_def work_def split: if_splits option.splits)
  next
    case False
    obtain c3 w3 where r3: "release_buffer inb isvp (Some u) c2 w2 = (c3, w3)" by force
    obtain c4 w4 where r4: "(case out of None \<Rightarrow> (c3, w3) | Some ob \<Rightarrow> release_buffer ob osvp (Some u) c3 w3) = (c4, w4)" by force
    obtain s5 ts5 w5 where r5: "release_exclusive (client_cipher_store c4) context a (Some u) w4 = (s5, ts5, w5)"
      using prod_cases3 by blast
    have b3: "ts_ok (client_svp_store c2)" using w2_effect by blast
    note e3 = release_buffer_effect [OF b3 u r3]
    have "same_device w3 w4" using r4 release_buffer_effect(3) [OF e3(1) u] by (cases out) auto
    moreover have "w' = (if a = NULL then w4 else w5)"
      using r acq w2 False r3 r4 r5
      by (simp add: with_cipher_buffers_def cipher_store_acquire_exclusive_def cipher_store_release_exclusive_def work_def [symmetric]
          split: if_splits)
    ultimately show ?thesis using e3(3) release_exclusive_device [OF r5] by (auto intro: same_device_trans)
  qed
  with w2_effect d1 show ?thesis
    by (auto simp: may_write_same [OF d1] intro: same_device_trans dest: one_write_before one_write_after)
qed

text \<open>
  The frame around the session for a body that may leave: as for \<open>with_client\<close>, except that a session
  that was left keeps the use that was taken.
\<close>

lemma with_client_leaving_session:
  assumes t: "sessions_ok t" and u: "uuid_ok u"
    and r: "with_client_leaving no body t n (Some u) w = Some (s, out, t', w')"
  obtains (refused) "s \<noteq> SA_STATUS_OK" "out = no" "t' = t" "same_device w w'"
  | (left) a k c c' w1 where "sessions t (unat n) = Some (a, k, u)" "session_at t a = Some c"
      "body c w1 = (True, s, out, c', w')" "same_device w w1" "w_faults w = [] \<longrightarrow> w1 = w"
      "sessions t' = (sessions t)(unat n \<mapsto> (a, k + 1, u))" "sessions_ok t'"
      "session t' = (session t)(unat n \<mapsto> (u, c'))"
  | (ran) c c' w1 w2 where "session t (unat n) = Some (u, c)" "body c w1 = (False, s, out, c', w2)" "same_device w w1"
      "w_faults w = [] \<longrightarrow> w1 = w" "sessions_ok t'" "session t' = (session t)(unat n \<mapsto> (u, c'))" "same_device w2 w'"
proof -
  obtain s1 a t1 w1 where acq: "client_store_acquire True True t n (Some u) w = (s1, a, t1, w1)"
    using prod_cases4 by blast
  have d1: "w_faults w = [] \<longrightarrow> w1 = w" "same_device w w1"
    using acq by (auto simp: client_store_acquire_def Let_def dest: object_store_acquire_quiet device split: if_splits prod.splits)
  from t u acq show ?thesis
  proof (cases rule: client_acquire_result)
    case refused
    with r acq d1 show ?thesis
      by (intro that(1)) (auto simp: with_client_leaving_def sessions_okD(2) [OF t] client_store_release_def)
  next
    case (acquired k)
    obtain c where c: "session_at t a = Some c" using sessions_okD(5) [OF t acquired(2)] by blast
    obtain leave s2 out2 c' w2 where b: "body c w1 = (leave, s2, out2, c', w2)" using prod_cases5 by blast
    show ?thesis
    proof (cases leave)
      case True
      define t2 where "t2 = t1\<lparr>ta_clients := (ta_clients t1)\<lparr>ts_heap := heap_write (ts_heap (ta_clients t1)) a c'\<rparr>\<rparr>"
      have t2: "sessions_ok t2" "sessions t2 = (sessions t)(unat n \<mapsto> (a, k + 1, u))"
        "ts_heap (ta_clients t2) = heap_write (ts_heap (ta_clients t)) a c'"
        using acquired c reg.coherent_write [of "ts_store (ta_clients t1)" "ts_heap (ta_clients t1)" a c']
        by (auto simp: t2_def sessions_ok_def ts_ok_def)
      moreover have "session t2 = (session t)(unat n \<mapsto> (u, c'))"
        by (rule session_written [OF t acquired(2) c t2(3)]) (use t2(2) in blast)
      moreover have "t' = t2 \<and> s = s2 \<and> out = out2 \<and> w' = w2"
        using r acq acquired c b True by (auto simp: with_client_leaving_def sessions_okD(2) [OF t] t2_def)
      ultimately show ?thesis using that(2) [of a k c w1 c'] acquired c b True d1 by auto
    next
      case False
      have "with_client no (\<lambda>c w. if fst (body c w) then None else Some (snd (body c w))) t n (Some u) w = Some (s, out, t', w')"
        using r acq acquired c b False by (simp add: with_client_leaving_def with_client_def sessions_okD(2) [OF t])
      with t u show ?thesis
      proof (cases rule: with_client_session)
        case refused
        then show ?thesis by (rule that(1))
      next
        case (ran c1 c2 v1 v2)
        then show ?thesis by (intro that(3) [of c1 v1 c2 v2]) (auto simp: prod_eq_iff split: if_splits)
      qed
    qed
  qed
qed

section \<open>Processing, for the caller\<close>

text \<open>
  What the two commands may have done when the memory is not what it was before: \<open>l\<close> is the length the
  command requires.
\<close>

definition processed_for ::
  "ta \<Rightarrow> u64 \<Rightarrow> sa_uuid \<Rightarrow> u64 \<Rightarrow> sa_buffer option \<Rightarrow> (cipher \<Rightarrow> u64) \<Rightarrow> world \<Rightarrow> mem \<Rightarrow> bool" where
  "processed_for t slot u context out l w m \<longleftrightarrow> (\<exists>c cipher ob bytes data. session t (unat slot) = Some (u, c) \<and>
     owns_cipher c u context = Some cipher \<and> may_process cipher w \<and> out = Some ob \<and>
     (is_clear ob \<longrightarrow> rights_allowed_clear (cipher_get_key_rights (Some cipher))) \<and>
     buffer_range c u ob (unat (l cipher)) bytes \<and> m = mem_write (w_mem w) bytes data)"

lemma processes_for:
  assumes t: "ta_ok t" and u: "uuid_ok u" and run: "\<And>cipher. run_ok (run cipher) cipher" and l: "\<And>cipher. l (unlocked cipher) = l cipher"
    and r: "with_client_leaving no (with_cipher_buffers report (\<lambda>cipher. cipher_work (run cipher) (l cipher) out ib n (Some u) cipher)
      context n out ib (Some u)) t slot (Some u) w = Some (s, res, t', w')"
    and changed: "w_mem w' \<noteq> w_mem w"
  shows "processed_for t slot u context out l w (w_mem w')"
proof -
  have effect: ?thesis if c: "session t (unat slot) = Some (u, c)" "same_device w w1" "same_device w2 w'"
    and b: "with_cipher_buffers report (\<lambda>cipher. cipher_work (run cipher) (l cipher) out ib n (Some u) cipher) context n out ib (Some u) c w1 =
      (left, s, res, c', w2)" for c c' left w1 w2
  proof -
    note ok = stores_okD(2,4) [OF ta_okD(2) [OF t c(1)]]
    from with_cipher_buffers_effect [OF ok u run b l] show ?thesis
    proof
      assume "same_device w1 w2"
      with c(2,3) changed show ?thesis by (simp add: same_device_def)
    next
      assume "\<exists>cipher bytes. owns_cipher c u context = Some cipher \<and>
        one_write (may_write c u cipher out (l cipher) bytes w1) bytes w1 w2"
      then obtain cipher bytes where o: "owns_cipher c u context = Some cipher"
        "one_write (may_write c u cipher out (l cipher) bytes w1) bytes w1 w2" by blast
      from one_write_before [OF c(2) one_write_after [OF o(2) c(3)]] changed c(2) show ?thesis
        unfolding processed_for_def one_write_def may_write_same [OF c(2)] using o(1) c(1)
        by (auto simp: may_write_def)
    qed
  qed
  from ta_okD(1) [OF t] u r show ?thesis
  proof (cases rule: with_client_leaving_session)
    case refused
    with changed show ?thesis by (simp add: same_device_def)
  next
    case (left a k c c' w1)
    then show ?thesis by (intro effect [of c w1 w' True c']) (auto simp: session_def)
  next
    case (ran c c' w1 w2)
    then show ?thesis by (intro effect [of c w1 w2 False c']) auto
  qed
qed

lemma required_unlocked [simp]:
  "get_required_length (unlocked cipher) n b = get_required_length cipher n b"
  "get_required_length_last (unlocked cipher) n = get_required_length_last cipher n"
proof -
  have "cipher_get_key_size (Some (unlocked cipher)) = cipher_get_key_size (Some cipher)"
    by (simp add: cipher_get_key_size_def)
  then show "get_required_length (unlocked cipher) n b = get_required_length cipher n b"
    by (cases "cipher_algorithm cipher") (simp_all add: get_required_length_def)
qed (simp add: get_required_length_last_def)



end
