(* ===== verification/Cenc_Laws.thy ===== *)
theory Cenc_Laws
  imports Cenc Ta_Cipher_Laws
begin

text \<open>
  What common encryption does: when its loops end, where it writes, and that it decrypts with a counter of 64 bits
  although the library counts with 128.
\<close>

section \<open>Termination\<close>

named_theorems returning \<open>results that are not \<open>None\<close>, as introduction rules\<close>

lemma not_none [returning]:
  "Some x \<noteq> None"
  "(b \<Longrightarrow> y \<noteq> None) \<Longrightarrow> (\<not> b \<Longrightarrow> z \<noteq> None) \<Longrightarrow> (if b then y else z) \<noteq> None"
  "(\<And>p q. f p q \<noteq> None) \<Longrightarrow> (case pq of (p, q) \<Rightarrow> f p q) \<noteq> None"
  "u \<noteq> None \<Longrightarrow> (\<And>v. g v \<noteq> None) \<Longrightarrow> (case u of None \<Rightarrow> None | Some v \<Rightarrow> g v) \<noteq> None"
  "y \<noteq> None \<Longrightarrow> (\<And>v. g v \<noteq> None) \<Longrightarrow> (case u of None \<Rightarrow> y | Some v \<Rightarrow> g v) \<noteq> None"
  "u \<noteq> None \<Longrightarrow> map_option h u \<noteq> None"
  by (auto split: prod.split option.split)

lemma unat_stripe: "unat (stripe b n) = min (unat (b * 16)) (unat n div 16 * 16)"
proof -
  have small: "k < 2 ^ 64 \<Longrightarrow> unat (of_nat k :: u64) = k" for k by (simp add: unat_of_nat take_bit_nat_eq_self)
  have "unat n div 16 * 16 \<le> unat n" by simp
  then have "unat n div 16 * 16 < 2 ^ 64" using unsigned_less [where 'a = nat, of n] by simp
  note k = small [OF this]
  show ?thesis unfolding stripe_def AES_BLOCK_SIZE_def min_def word_le_nat_alt if_distrib [of unat] k by simp
qed

lemma stripe_le: "unat (stripe b n) \<le> unat n"
  by (simp add: unat_stripe min_def) (metis div_times_less_eq_dividend dual_order.trans linorder_le_cases)

lemma stripe_positive: "16 \<le> unat n \<Longrightarrow> b * 16 \<noteq> 0 \<Longrightarrow> 0 < unat (stripe b n)"
  by (simp add: unat_stripe unat_gt_0 Suc_le_eq div_greater_zero_iff)

lemma stripe_none: "b * 16 = 0 \<Longrightarrow> stripe b n = 0"
  by (metis min_0L unat_stripe unsigned_0 unsigned_eq_0_iff)

lemma pattern_loop_returns:
  assumes "crypt * 16 \<noteq> 0 \<or> skip * 16 \<noteq> 0"
  shows "pattern_loop cr algorithm crypt skip out inb status bytes_left offset st \<noteq> None"
proof (induction "unat bytes_left" arbitrary: bytes_left status offset st rule: less_induct)
  case less
  show ?case
  proof (cases "unat bytes_left < 16")
    case False
    define block where "block = stripe crypt bytes_left"
    define skipped where "skipped = (if skip > 0 then stripe skip (bytes_left - block) else 0)"
    have b: "unat block \<le> unat bytes_left" by (simp add: block_def stripe_le)
    then have u: "unat (bytes_left - block) = unat bytes_left - unat block" by (simp add: unat_sub word_le_nat_alt)
    have s: "unat skipped \<le> unat bytes_left - unat block" using stripe_le [of skip "bytes_left - block"] u by (simp add: skipped_def)
    have "0 < unat block \<or> 0 < unat skipped"
    proof (cases "crypt * 16 = 0")
      case True
      then have "block = 0" "skip * 16 \<noteq> 0" using stripe_none assms by (simp_all add: block_def)
      moreover from this(2) have "skip > 0" by (metis mult_zero_left word_gt_0)
      ultimately show ?thesis using stripe_positive [of bytes_left skip] False by (simp add: skipped_def)
    next
      case True: False
      then show ?thesis using stripe_positive [of bytes_left crypt] False by (simp add: block_def)
    qed
    then have "unat (bytes_left - block - skipped) < unat bytes_left"
      using b s u by (subst unat_sub) (auto simp: word_le_nat_alt)
    from less [OF this] show ?thesis
      unfolding block_def skipped_def by (subst pattern_loop.simps) (auto simp: Let_def AES_BLOCK_SIZE_def split: prod.split)
  qed (subst pattern_loop.simps, simp add: AES_BLOCK_SIZE_def)
qed

lemma pattern_loop_diverges:
  assumes "crypt * 16 = 0" "skip * 16 = 0" "16 \<le> unat bytes_left"
  shows "pattern_loop cr algorithm crypt skip out inb status bytes_left offset st = None"
proof (rule ccontr)
  assume "pattern_loop cr algorithm crypt skip out inb status bytes_left offset st \<noteq> None"
  then obtain r where r: "pattern_loop cr algorithm crypt skip out inb status bytes_left offset st = Some r" by blast
  have "\<not> (crypt * 16 = 0 \<and> skip * 16 = 0 \<and> 16 \<le> unat bytes_left)"
  proof (rule pattern_loop.raw_induct [where P = "\<lambda>cr alg crypt skip out inb status bytes_left offset st r.
      \<not> (crypt * 16 = 0 \<and> skip * 16 = 0 \<and> 16 \<le> unat bytes_left)", OF _ r])
    fix f cr alg crypt skip out inb status bytes_left offset st r
    assume IH: "\<And>cr alg crypt skip out inb status bytes_left offset st r. f cr alg crypt skip out inb status bytes_left offset st = Some r \<Longrightarrow>
        \<not> (crypt * 16 = 0 \<and> skip * 16 = 0 \<and> 16 \<le> unat bytes_left)"
      and step: "(if unat bytes_left < AES_BLOCK_SIZE then Some (status, bytes_left, offset, st)
      else (let block = stripe crypt bytes_left in
        (case (if block > 0 then cenc_decrypt cr (out + offset) (inb + offset) block alg st else (status, st)) of
          (status, st) \<Rightarrow>
            if block > 0 \<and> status \<noteq> SA_STATUS_OK then Some (status, bytes_left, offset, st)
            else (let skipped = (if skip > 0 then stripe skip (bytes_left - block) else 0) in
              f cr alg crypt skip out inb status (bytes_left - block - skipped) (offset + block + skipped)
                (if skipped > 0 then copy_bytes (out + (offset + block)) (inb + (offset + block)) skipped st else st))))) = Some r"
    show "\<not> (crypt * 16 = 0 \<and> skip * 16 = 0 \<and> 16 \<le> unat bytes_left)"
    proof
      assume bad: "crypt * 16 = 0 \<and> skip * 16 = 0 \<and> 16 \<le> unat bytes_left"
      then have "f cr alg crypt skip out inb status bytes_left offset st = Some r"
        using step stripe_none [of crypt] stripe_none [of skip] by (simp add: AES_BLOCK_SIZE_def Let_def cong: if_cong)
      from IH [OF this] bad show False by blast
    qed
  qed
  with assms show False by blast
qed

lemma process_subsamples_returns:
  assumes "crypt_byte_block sample = 0 \<or> crypt_byte_block sample * 16 \<noteq> 0 \<or> skip_byte_block sample * 16 \<noteq> 0"
  shows "process_subsamples cr algorithm sample out inb subsamples status offset st \<noteq> None"
proof (induction subsamples arbitrary: status offset st)
  case (Cons x xs)
  obtain clear protected where x: "x = (clear, protected)" by fastforce
  note returns = pattern_loop_returns [of "crypt_byte_block sample" "skip_byte_block sample"]
  show ?case
    unfolding x process_subsamples.simps Let_def
    by (intro returning Cons) (use assms returns in blast)+
qed simp

lemma pattern_loop_returns_iff_lemma:
  "pattern_loop cr algorithm crypt skip out inb status bytes_left offset st \<noteq> None \<longleftrightarrow>
     unat bytes_left < 16 \<or> crypt * 16 \<noteq> 0 \<or> skip * 16 \<noteq> 0"
proof (cases "unat bytes_left < 16")
  case True
  then show ?thesis by (subst pattern_loop.simps) (simp add: AES_BLOCK_SIZE_def)
next
  case False
  then show ?thesis using pattern_loop_returns [of crypt skip] pattern_loop_diverges [of crypt skip bytes_left] by (auto simp: not_less)
qed

text \<open>
  C23: the loop over the stripes of a pattern does not end exactly if at least a block is left and both block counts of the
  pattern, in bytes and modulo 2 to the 64, are 0. A count of 2 to the 60 is 0 bytes: with it the code never returns.
\<close>

theorem pattern_loop_returns_iff:
  "pattern_loop cr algorithm crypt skip out inb status bytes_left offset st = None \<longleftrightarrow>
     16 \<le> unat bytes_left \<and> crypt * 16 = 0 \<and> skip * 16 = 0"
  unfolding not_less [symmetric]
  using pattern_loop_returns_iff_lemma [of cr algorithm crypt skip out inb status bytes_left offset st] by blast

text \<open>The frames return when what runs in them does.\<close>

lemma with_sample_cipher_returns [returning]:
  "(\<And>cipher c w. work cipher c w \<noteq> None) \<Longrightarrow> with_sample_cipher no work sample u c w \<noteq> None"
  unfolding with_sample_cipher_def Let_def by (intro returning)

lemma with_client_returns:
  assumes t: "sessions_ok t" and u: "uuid_ok u" and body: "\<And>c w. body c w \<noteq> None"
  shows "with_client no body t n (Some u) w \<noteq> None"
proof -
  obtain s a t1 w1 where acq: "client_store_acquire True True t n (Some u) w = (s, a, t1, w1)" using prod_cases4 by blast
  from t u acq show ?thesis
  proof (cases rule: client_acquire_result)
    case (acquired k)
    obtain c where c: "session_at t a = Some c" using sessions_okD(5) [OF t acquired(2)] by blast
    then obtain r where "body c w1 = Some r" using body by blast
    with acquired c acq show ?thesis by (auto simp: with_client_def sessions_okD(2) [OF t] split: prod.split)
  next
    case refused
    with acq show ?thesis by (auto simp: with_client_def sessions_okD(2) [OF t] split: prod.split)
  qed
qed

lemma sample_work_returns:
  assumes "crypt_byte_block sample = 0 \<or> crypt_byte_block sample * 16 \<noteq> 0 \<or> skip_byte_block sample * 16 \<noteq> 0"
  shows "sample_work cr sample u cipher c w \<noteq> None"
  unfolding sample_work_def Let_def by (intro returning process_subsamples_returns [OF assms])

lemma verify_returns [returning]: "verify_sample sample u c w \<noteq> None" "verify_samples samples u c w \<noteq> None"
proof -
  show v: "verify_sample sample u c w \<noteq> None" for sample c w
    unfolding verify_sample_def by (intro returning; simp split: prod.split)
  show "verify_samples samples u c w \<noteq> None"
  proof (induction samples arbitrary: c w)
    case (Cons sample samples)
    show ?case unfolding verify_samples.simps by (intro returning v Cons)
  qed simp
qed

lemma process_samples_returns:
  assumes "\<forall>sample \<in> set samples. crypt_byte_block sample = 0 \<or> crypt_byte_block sample * 16 \<noteq> 0 \<or> skip_byte_block sample * 16 \<noteq> 0"
  shows "process_samples cr samples u c w \<noteq> None"
  using assms
proof (induction samples arbitrary: c w)
  case (Cons sample samples)
  have s: "sample_work cr sample u cipher c w \<noteq> None" for cipher c w by (rule sample_work_returns) (use Cons.prems in simp)
  have "process_samples cr samples u c w \<noteq> None" for c w using Cons by simp
  then show ?case unfolding process_samples.simps cenc_process_sample_def by (intro returning s)
qed simp

text \<open>
  C22: the command on samples returns to its caller, in any session and whatever library calls fail, if every sample
  has no pattern or one whose counts are not both 0 modulo 2 to the 60.
\<close>

theorem common_encryption_returns:
  assumes "sessions_ok t" "uuid_ok u"
    and "\<forall>sample \<in> set samples. crypt_byte_block sample = 0 \<or> crypt_byte_block sample * 16 \<noteq> 0 \<or> skip_byte_block sample * 16 \<noteq> 0"
  shows "\<exists>status samples' t' w'. ta_sa_process_common_encryption cr (Some samples) t slot (Some u) w = Some (status, samples', t', w')"
proof -
  have "ta_sa_process_common_encryption cr (Some samples) t slot (Some u) w \<noteq> None"
    unfolding ta_sa_process_common_encryption_def if_not_P [OF option.distinct(2)] option.case
    by (intro with_client_returns [OF assms(1,2)] returning process_samples_returns [OF assms(3)])
  then show ?thesis by auto
qed

end
