(* ===== verification/Cenc_Ctr.thy ===== *)
theory Cenc_Ctr
  imports Cenc_Laws
begin

text \<open>
  Counter mode in common encryption. The counter of a sample has 64 bits and wraps around, and the library counts
  with all 128 bits of the block; \<open>decrypt\<close> splits its calls where the two differ. With whole blocks, a sample decrypts
  to what the standard says, in the mode without a pattern and in the one with a pattern.
\<close>

section \<open>Counters\<close>

definition add128 :: "u8 list \<Rightarrow> nat \<Rightarrow> u8 list" where
  "add128 iv n = rev (le_bytes 16 ((le_value (rev iv) + n) mod 2 ^ 128))"

definition add64 :: "u8 list \<Rightarrow> nat \<Rightarrow> u8 list" where
  "add64 iv n = set_counter (iv_counter iv + of_nat n) iv"

text \<open>The key stream \<open>ks\<close> of the counter blocks from \<open>iv\<close> on, and a text under it.\<close>

definition key_stream :: "(u8 list \<Rightarrow> nat \<Rightarrow> u8 list) \<Rightarrow> (u8 list \<Rightarrow> u8 list) \<Rightarrow> u8 list \<Rightarrow> nat \<Rightarrow> u8 list" where
  "key_stream add ks iv n = concat (map (\<lambda>i. ks (add iv i)) [0..<n])"

definition under_stream ::
  "(u8 list \<Rightarrow> nat \<Rightarrow> u8 list) \<Rightarrow> (u8 list \<Rightarrow> u8 list) \<Rightarrow> u8 list \<Rightarrow> u8 list \<Rightarrow> u8 list" where
  "under_stream add ks iv d = map2 (XOR) d (key_stream add ks iv (length d div 16))"

lemma le_value_append: "le_value (xs @ ys) = le_value xs + 256 ^ length xs * le_value ys"
  by (induction xs) (simp_all add: algebra_simps)

lemma byte: "(256 :: u8) * x = 0"
proof -
  have "(256 :: u8) = 0" by simp
  then show ?thesis by (simp only: mult_zero_left)
qed

lemma le_bytes_value: "length bs = n \<Longrightarrow> le_bytes n (le_value bs) = bs"
proof (induction bs arbitrary: n)
  case (Cons b bs)
  have "unat b < 256" using unsigned_less [where 'a = nat, of b] by simp
  then have "(unat b + 256 * le_value bs) div 256 = le_value bs" by simp
  moreover have "of_nat (unat b + 256 * le_value bs) = b" using byte by simp
  ultimately show ?case using Cons by (cases n) auto
qed simp

lemma le_bytes_append: "le_bytes (m + n) (x + 256 ^ m * y) = le_bytes m x @ le_bytes n y" if "x < 256 ^ m"
  using that
proof (induction m arbitrary: x)
  case (Suc m)
  have "(x + 256 * 256 ^ m * y) div 256 = x div 256 + 256 ^ m * y"
    by (simp add: mult.assoc)
  moreover have "of_nat (x + 256 * 256 ^ m * y) = (of_nat x :: u8)"
    using byte by (simp add: mult.assoc of_nat_mult)
  moreover have "x div 256 < 256 ^ m" using Suc.prems by (simp add: div_less_iff_less_mult mult.commute)
  ultimately show ?case using Suc.IH by simp
qed simp

lemma length_set_counter [simp]: "length iv = 16 \<Longrightarrow> length (set_counter x iv) = 16"
  by (simp add: set_counter_def htobe64_def)

lemma be64toh_htobe64 [simp]: "be64toh (htobe64 x) = x"
  using le_value_bytes [of "unat x" 8] unsigned_less [where 'a = nat, of x] by (simp add: be64toh_def htobe64_def)

lemma le_bytes_mod: "le_bytes n (x mod 256 ^ n) = le_bytes n x"
proof (induction n arbitrary: x)
  case (Suc n)
  have "x mod (256 * 256 ^ n) div 256 = (x div 256) mod 256 ^ n"
    by (simp add: mod_mult2_eq)
  moreover have "of_nat (x mod (256 * 256 ^ n)) = (of_nat x :: u8)"
  proof -
    have "of_nat x = (of_nat (x mod (256 * 256 ^ n) + 256 * 256 ^ n * (x div (256 * 256 ^ n))) :: u8)" by simp
    then show ?thesis using byte by (simp only: of_nat_add of_nat_mult of_nat_numeral) simp
  qed
  ultimately show ?case using Suc.IH [of "x div 256"] by simp
qed simp

text \<open>Up to the end of the 64 bits, the two counters agree.\<close>

lemma unat_iv_counter: "length iv = 16 \<Longrightarrow> unat (iv_counter iv) = le_value (rev (drop 8 iv))"
  using le_value_bound [of "rev (drop 8 iv)"] by (simp add: iv_counter_def be64toh_def unat_of_nat take_bit_nat_eq_self)

lemma add128_add64:
  assumes iv: "length iv = 16" and n: "unat (iv_counter iv) + n < 2 ^ 64"
  shows "add128 iv n = add64 iv n"
proof -
  let ?lo = "le_value (rev (drop 8 iv)) + n" and ?hi = "le_value (rev (take 8 iv))"
  have lo: "?lo < 256 ^ 8" using n unat_iv_counter [OF iv] by simp
  have "rev iv = rev (drop 8 iv) @ rev (take 8 iv)" by (metis append_take_drop_id rev_append)
  then have v: "le_value (rev iv) + n = ?lo + 256 ^ 8 * ?hi" using iv by (simp add: le_value_append)
  have "add128 iv n = rev (le_bytes (8 + 8) (?lo + 256 ^ 8 * ?hi))"
    unfolding add128_def v using le_bytes_mod [of 16 "?lo + 256 ^ 8 * ?hi"] by simp
  also have "\<dots> = rev (le_bytes 8 ?hi) @ rev (le_bytes 8 ?lo)" unfolding le_bytes_append [OF lo] by simp
  also have "rev (le_bytes 8 ?hi) = take 8 iv" using le_bytes_value [of "rev (take 8 iv)" 8] iv by simp
  also have "rev (le_bytes 8 ?lo) = htobe64 (iv_counter iv + of_nat n)"
  proof -
    have "unat (iv_counter iv + of_nat n) = ?lo"
      using n unat_iv_counter [OF iv] by (simp add: unat_word_ariths unat_of_nat take_bit_nat_eq_self)
    then show ?thesis by (simp add: htobe64_def)
  qed
  finally show ?thesis by (simp add: add64_def set_counter_def)
qed

lemma iv_counter_set [simp]: "length iv = 16 \<Longrightarrow> iv_counter (set_counter x iv) = x"
  by (simp add: iv_counter_def set_counter_def)

lemma set_counter_set [simp]: "length iv = 16 \<Longrightarrow> set_counter y (set_counter x iv) = set_counter y iv"
  by (simp add: set_counter_def)

lemma add64_props:
  assumes "length iv = 16"
  shows "length (add64 iv n) = 16" "add64 (add64 iv m) n = add64 iv (m + n)" "iv_counter (add64 iv n) = iv_counter iv + of_nat n"
    "add64 iv 0 = iv"
proof -
  have "rev (le_bytes 8 (unat (iv_counter iv))) = drop 8 iv"
    unfolding unat_iv_counter [OF assms] using le_bytes_value [of "rev (drop 8 iv)" 8] assms by (simp del: le_bytes.simps)
  then have "set_counter (iv_counter iv) iv = take 8 iv @ drop 8 iv" by (simp only: set_counter_def htobe64_def)
  then show "add64 iv 0 = iv" by (simp add: add64_def)
  show "length (add64 iv n) = 16" "iv_counter (add64 iv n) = iv_counter iv + of_nat n" using assms by (simp_all add: add64_def)
  show "add64 (add64 iv m) n = add64 iv (m + n)" using assms by (simp add: add64_def add.assoc)
qed

text \<open>Streams in two parts.\<close>

lemma key_stream_append:
  assumes "\<And>i. add (add iv m) i = add iv (m + i)"
  shows "key_stream add ks iv (m + n) = key_stream add ks iv m @ key_stream add ks (add iv m) n"
proof -
  have "[0..<m + n] = [0..<m] @ map (\<lambda>i. m + i) [0..<n]"
    using upt_add_eq_append [of 0 m n] map_add_upt [of m n] by (simp add: add.commute)
  then show ?thesis using assms by (simp add: key_stream_def comp_def)
qed

lemma length_key_stream: "\<forall>b. length (ks b) = 16 \<Longrightarrow> length (key_stream add ks iv n) = 16 * n"
  by (induction n) (simp_all add: key_stream_def)

lemma under_stream_append:
  assumes ks: "\<forall>b. length (ks b) = 16" and iv: "length iv = 16" and d: "length d mod 16 = 0"
  shows "under_stream add64 ks iv (d @ e) = under_stream add64 ks iv d @ under_stream add64 ks (add64 iv (length d div 16)) e"
proof -
  obtain k where k: "length d = 16 * k" using d by (auto simp: mod_eq_0_iff_dvd)
  have "length (d @ e) div 16 = k + length e div 16" using k by simp
  then show ?thesis
    using k length_key_stream [OF ks, of add64 iv k] add64_props(2) [OF iv]
    by (simp add: under_stream_def key_stream_append)
qed

lemma length_under_stream: "\<forall>b. length (ks b) = 16 \<Longrightarrow> length d mod 16 = 0 \<Longrightarrow> length (under_stream add ks iv d) = length d"
  by (auto simp: under_stream_def length_key_stream mod_eq_0_iff_dvd)

lemma under_stream_64:
  assumes "length iv = 16" "unat (iv_counter iv) + length d div 16 \<le> 2 ^ 64"
  shows "under_stream add128 ks iv d = under_stream add64 ks iv d"
proof -
  have "add128 iv i = add64 iv i" if "i < length d div 16" for i
    by (rule add128_add64) (use assms that in auto)
  then have "key_stream add128 ks iv (length d div 16) = key_stream add64 ks iv (length d div 16)"
    unfolding key_stream_def by (intro arg_cong [where f = concat] map_cong) auto
  then show ?thesis by (simp add: under_stream_def)
qed

section \<open>Memory\<close>

lemma unat_minus_nat:
  fixes z :: u64
  assumes "m < 2 ^ 64"
  shows "unat (z - of_nat m) = (if m \<le> unat z then unat z - m else 2 ^ 64 + unat z - m)"
  using assms by (auto simp: unat_sub_if' unat_of_nat take_bit_nat_eq_self word_le_nat_alt)

lemma mem_write_append:
  assumes "length xs + length ys \<le> 2 ^ 64"
  shows "mem_write (mem_write m a xs) (a + of_nat (length xs)) ys = mem_write m a (xs @ ys)"
proof
  fix b
  let ?k = "unat (b - a)" and ?l = "unat (b - (a + of_nat (length xs)))"
  have k: "?k < 2 ^ 64" using unsigned_less [where 'a = nat, of "b - a"] by simp
  have "b - (a + of_nat (length xs)) = (b - a) - of_nat (length xs)" by simp
  then have l: "?l = (if length xs \<le> ?k then ?k - length xs else 2 ^ 64 + ?k - length xs)" if "length xs < 2 ^ 64"
    by (simp only: unat_minus_nat [OF that])
  show "mem_write (mem_write m a xs) (a + of_nat (length xs)) ys b = mem_write m a (xs @ ys) b"
  proof (cases "length xs < 2 ^ 64")
    case True
    from l [OF this] assms k show ?thesis by (auto simp: mem_write_def nth_append)
  next
    case False
    with assms have "length ys = 0" "length xs = 2 ^ 64" by linarith+
    with k show ?thesis by (simp add: mem_write_def)
  qed
qed

lemma mem_write_nil [simp]: "mem_write m a [] = m"
  by (simp add: mem_write_def)

text \<open>The ranges of \<open>n\<close> bytes are apart: what is written to the one does not change what is read from the other.\<close>

definition apart :: "u64 \<Rightarrow> u64 \<Rightarrow> nat \<Rightarrow> bool" where
  "apart out_bytes in_bytes n \<longleftrightarrow> n < 2 ^ 64 \<and> (\<forall>i < n. n \<le> unat (in_bytes + of_nat i - out_bytes))"

lemma apart_read:
  assumes "apart out inb n" "length bs \<le> n" "off + k \<le> n"
  shows "mem_read (mem_write m out bs) (inb + of_nat off) k = mem_read m (inb + of_nat off) k"
proof -
  have "mem_write m out bs (inb + of_nat off + of_nat i) = m (inb + of_nat off + of_nat i)" if "i < k" for i
  proof -
    have "off + i < n" using assms(3) that by simp
    then have "n \<le> unat (inb + of_nat (off + i) - out)" using assms(1) unfolding apart_def by blast
    then have "\<not> unat (inb + of_nat off + of_nat i - out) < length bs" using assms(2) by (simp add: add.assoc)
    then show ?thesis by (simp only: mem_write_def if_False)
  qed
  then show ?thesis by (simp add: mem_read_def)
qed

lemma mem_read_append: "mem_read m a (i + j) = mem_read m a i @ mem_read m (a + of_nat i) j"
proof -
  have "[0..<i + j] = [0..<i] @ map (\<lambda>k. k + i) [0..<j]"
    using upt_add_eq_append [of 0 i j] map_add_upt [of i j] by (simp add: add.commute)
  then show ?thesis by (simp add: mem_read_def add.commute add.left_commute)
qed

section \<open>The library's counter mode\<close>

text \<open>After an IV was set, the updates with whole blocks are under the stream of 128-bit counters from the IV on.\<close>

definition ctr_documented :: "crypto \<Rightarrow> (u8 list \<Rightarrow> u8 list) \<Rightarrow> symmetric_context \<Rightarrow> bool" where
  "ctr_documented cr ks x0 \<longleftrightarrow> (\<forall>b. length (ks b) = 16) \<and>
     (\<forall>later v ds d. length v = 16 \<longrightarrow> (\<forall>b \<in> set (d # ds). length b mod 16 = 0) \<longrightarrow>
       evp_output cr (sc_calls x0 @ later @ EVP_Set_Iv v # map EVP_Update ds @ [EVP_Update d]) =
         Some (under_stream add128 ks (add128 v (length (concat ds) div 16)) d))"

text \<open>The state of the context: so many blocks after an IV, and the copy of the IV stands there.\<close>

definition positioned :: "symmetric_context \<Rightarrow> cenc_state \<Rightarrow> bool" where
  "positioned x0 st \<longleftrightarrow> (\<exists>x later v ds. cenc_context st = Some x \<and> sc_algorithm x = SA_CIPHER_ALGORITHM_AES_CTR \<and>
     sc_mode x = SA_CIPHER_MODE_DECRYPT \<and> sc_calls x = sc_calls x0 @ later @ EVP_Set_Iv v # map EVP_Update ds \<and>
     (\<forall>d \<in> set ds. length d mod 16 = 0) \<and> length v = 16 \<and> cenc_iv st = add64 v (length (concat ds) div 16) \<and>
     unat (iv_counter v) + length (concat ds) div 16 < 2 ^ 64)"

lemma positioned_iv: "positioned x0 st \<Longrightarrow> length (cenc_iv st) = 16"
  by (auto simp: positioned_def add64_props)

lemma concat_blocks: "\<forall>d \<in> set ds. length d mod 16 = 0 \<Longrightarrow> length (concat ds) mod 16 = 0"
  by (induction ds) (auto simp: mod_eq_0_iff_dvd)

text \<open>
  One update: the text it gives is that of the 64-bit counter if the counter does not pass its end within it; where the context
  stands then.
\<close>

lemma decrypt_bytes_result:
  assumes doc: "ctr_documented cr ks x0" and pos: "positioned x0 st" and n: "unat n mod 16 = 0"
    and room: "unat (iv_counter (cenc_iv st)) + unat n div 16 \<le> 2 ^ 64"
    and r: "decrypt_bytes cr out inb n st = (SA_STATUS_OK, len, st')"
  shows "len = n" "w_mem (cenc_world st') = mem_write (w_mem (cenc_world st)) out
      (under_stream add64 ks (cenc_iv st) (mem_read (w_mem (cenc_world st)) inb (unat n)))"
    "cenc_iv st' = cenc_iv st" "enc_byte_count st' = enc_byte_count st"
    "\<exists>x. cenc_context st' = Some x \<and> sc_algorithm x = SA_CIPHER_ALGORITHM_AES_CTR \<and> sc_mode x = SA_CIPHER_MODE_DECRYPT \<and>
       (\<exists>later. sc_calls x = sc_calls x0 @ later)"
    "unat (iv_counter (cenc_iv st)) + unat n div 16 < 2 ^ 64 \<Longrightarrow>
       positioned x0 (st'\<lparr>cenc_iv := add64 (cenc_iv st) (unat n div 16)\<rparr>)"
    "same_device (cenc_world st) ((cenc_world st')\<lparr>w_mem := w_mem (cenc_world st)\<rparr>)"
proof -
  let ?d = "mem_read (w_mem (cenc_world st)) inb (unat n)"
  obtain x later v ds where x: "cenc_context st = Some x" "sc_algorithm x = SA_CIPHER_ALGORITHM_AES_CTR"
     "sc_mode x = SA_CIPHER_MODE_DECRYPT" "sc_calls x = sc_calls x0 @ later @ EVP_Set_Iv v # map EVP_Update ds"
     "\<forall>d \<in> set ds. length d mod 16 = 0" "length v = 16" "cenc_iv st = add64 v (length (concat ds) div 16)"
     "unat (iv_counter v) + length (concat ds) div 16 < 2 ^ 64" using pos unfolding positioned_def by blast
  let ?b = "length (concat ds) div 16"
  obtain out1 x1 w1 where e: "evp_step cr (EVP_Update ?d) x (cenc_world st) = (out1, x1, w1)" using prod_cases3 by blast
  have o: "evp_output cr (sc_calls x @ [EVP_Update ?d]) = Some (under_stream add128 ks (add128 v ?b) ?d)"
    using doc x(4-6) n unfolding ctr_documented_def by simp
  have iv: "add128 v ?b = cenc_iv st" unfolding x(7) by (rule add128_add64 [OF x(6,8)])
  have t: "under_stream add128 ks (cenc_iv st) ?d = under_stream add64 ks (cenc_iv st) ?d"
    by (rule under_stream_64 [OF positioned_iv [OF pos]]) (use room in simp)
  have ok: "out1 = Some (under_stream add64 ks (cenc_iv st) ?d)" "len = of_nat (length (the out1))"
    "st' = st\<lparr>cenc_context := Some x1, cenc_world := store_bytes out out1 w1\<rparr>"
    "x1 = x\<lparr>sc_calls := sc_calls x @ [EVP_Update ?d]\<rparr>"
    using r x(1-3) e o unfolding iv t
    by (auto simp: decrypt_bytes_def symmetric_context_decrypt_def evp_step_def stream_algorithm_def Let_def split: prod.splits option.splits if_splits)
  have dev: "same_device (cenc_world st) w1" by (rule evp_step_device [OF e])
  have "\<forall>b. length (ks b) = 16" using doc by (simp add: ctr_documented_def)
  from length_under_stream [OF this, of ?d add64 "cenc_iv st"] show "len = n" using ok(1,2) n by simp
  show "w_mem (cenc_world st') = mem_write (w_mem (cenc_world st)) out (under_stream add64 ks (cenc_iv st) ?d)"
    using ok(1,3) dev by (simp add: store_bytes_def same_device_def)
  show "cenc_iv st' = cenc_iv st" "enc_byte_count st' = enc_byte_count st" using ok(3) by simp_all
  show "\<exists>x. cenc_context st' = Some x \<and> sc_algorithm x = SA_CIPHER_ALGORITHM_AES_CTR \<and> sc_mode x = SA_CIPHER_MODE_DECRYPT \<and>
       (\<exists>later. sc_calls x = sc_calls x0 @ later)" using ok(3,4) x by simp
  show "same_device (cenc_world st) ((cenc_world st')\<lparr>w_mem := w_mem (cenc_world st)\<rparr>)"
    using dev ok(1,3) by (simp add: store_bytes_def same_device_def provisioned_def)
  assume room': "unat (iv_counter (cenc_iv st)) + unat n div 16 < 2 ^ 64"
  have c: "unat (iv_counter (cenc_iv st)) = unat (iv_counter v) + ?b"
    using x(6-8) by (simp add: add64_props unat_word_ariths unat_of_nat take_bit_nat_eq_self)
  have l: "length (concat (ds @ [?d])) div 16 = ?b + unat n div 16"
    using concat_blocks [OF x(5)] n by (auto simp: mod_eq_0_iff_dvd)
  show "positioned x0 (st'\<lparr>cenc_iv := add64 (cenc_iv st) (unat n div 16)\<rparr>)"
    unfolding positioned_def
  proof (intro exI conjI)
    show "sc_calls x1 = sc_calls x0 @ later @ EVP_Set_Iv v # map EVP_Update (ds @ [?d])" using ok(4) x(4) by simp
    show "cenc_iv (st'\<lparr>cenc_iv := add64 (cenc_iv st) (unat n div 16)\<rparr>) = add64 v (length (concat (ds @ [?d])) div 16)"
      unfolding l using x(6,7) by (simp add: add64_props)
    show "unat (iv_counter v) + length (concat (ds @ [?d])) div 16 < 2 ^ 64" unfolding l using room' c by simp
  qed (use ok(3,4) x n in auto)
qed

section \<open>One run of bytes\<close>

text \<open>What the state is after \<open>n\<close> more bytes, when \<open>data\<close> is what they give.\<close>

definition advanced :: "symmetric_context \<Rightarrow> u64 \<Rightarrow> u8 list \<Rightarrow> cenc_state \<Rightarrow> cenc_state \<Rightarrow> bool" where
  "advanced x0 out data st st' \<longleftrightarrow> positioned x0 st' \<and> w_mem (cenc_world st') = mem_write (w_mem (cenc_world st)) out data \<and>
     cenc_iv st' = add64 (cenc_iv st) (length data div 16) \<and> enc_byte_count st' = enc_byte_count st + of_nat (length data) \<and>
     length data mod 16 = 0"

lemma decrypt_stretch_advances:
  assumes doc: "ctr_documented cr ks x0" and pos: "positioned x0 st"
    and n: "unat n = 16 * unat blocks" and room: "unat (iv_counter (cenc_iv st)) + unat blocks \<le> 2 ^ 64"
    and r: "decrypt_stretch cr out inb n blocks st = (SA_STATUS_OK, len, st')"
  shows "len = n \<and> advanced x0 out (under_stream add64 ks (cenc_iv st) (mem_read (w_mem (cenc_world st)) inb (unat n))) st st'"
proof -
  obtain s1 l1 st1 where b: "decrypt_bytes cr out inb n st = (s1, l1, st1)" using prod_cases3 by blast
  have s1: "s1 = SA_STATUS_OK" using r b by (auto simp: decrypt_stretch_def split: if_splits)
  note res = decrypt_bytes_result [OF doc pos _ _ b [unfolded s1]]
  have n': "unat n mod 16 = 0" "unat n div 16 = unat blocks" using n by simp_all
  note res = res [OF n'(1), unfolded n'(2), OF room]
  obtain x later where x: "cenc_context st1 = Some x" "sc_algorithm x = SA_CIPHER_ALGORITHM_AES_CTR" "sc_mode x = SA_CIPHER_MODE_DECRYPT"
    "sc_calls x = sc_calls x0 @ later" using res(5) by blast
  have iv: "set_counter (iv_counter (cenc_iv st1) + blocks) (cenc_iv st1) = add64 (cenc_iv st) (unat blocks)" using res(3) by (simp add: add64_def)
  have l: "length (add64 (cenc_iv st) (unat blocks)) = 16" using positioned_iv [OF pos] by (simp add: add64_props)
  obtain ok w1 where d: "draw (cenc_world st1) = (ok, w1)" by fastforce
  have m: "w_mem w1 = w_mem (cenc_world st1)" using draw_device [OF d] by (simp add: same_device_def)
  have f: "st' = st1\<lparr>cenc_iv := add64 (cenc_iv st) (unat blocks), cenc_context := Some (x\<lparr>sc_calls := sc_calls x @ [EVP_Set_Iv (add64 (cenc_iv st) (unat blocks))]\<rparr>),
      cenc_world := w1, enc_byte_count := enc_byte_count st1 + len\<rparr>" "len = l1"
    using r b s1 x d l unfolding decrypt_stretch_def reset_iv_def iv [symmetric]
    by (auto simp: symmetric_context_set_iv_def AES_BLOCK_SIZE_def Let_def split: if_splits)
  have pos': "positioned x0 st'"
    unfolding positioned_def
    by (rule exI [of _ "x\<lparr>sc_calls := sc_calls x @ [EVP_Set_Iv (add64 (cenc_iv st) (unat blocks))]\<rparr>"], rule exI [of _ later],
        rule exI [of _ "add64 (cenc_iv st) (unat blocks)"], rule exI [of _ "[]"])
      (use f x l unsigned_less [where 'a = nat, of "iv_counter (add64 (cenc_iv st) (unat blocks))"] in \<open>simp add: add64_props\<close>)
  have "\<forall>b. length (ks b) = 16" using doc by (simp add: ctr_documented_def)
  then have "length (under_stream add64 ks (cenc_iv st) (mem_read (w_mem (cenc_world st)) inb (unat n))) = unat n"
    using n'(1) by (simp add: length_under_stream)
  with pos' f res(1,2,4) m n' show ?thesis by (simp add: advanced_def)
qed

lemma decrypt_rest_advances:
  assumes doc: "ctr_documented cr ks x0" and pos: "positioned x0 st"
    and n: "unat n = 16 * unat blocks" and room: "unat (iv_counter (cenc_iv st)) + unat blocks < 2 ^ 64"
    and r: "decrypt_rest cr out inb n blocks st = (SA_STATUS_OK, st')"
  shows "advanced x0 out (under_stream add64 ks (cenc_iv st) (mem_read (w_mem (cenc_world st)) inb (unat n))) st st'"
proof -
  obtain s1 l1 st1 where b: "decrypt_bytes cr out inb n st = (s1, l1, st1)" using prod_cases3 by blast
  have s1: "s1 = SA_STATUS_OK" using r b by (auto simp: decrypt_rest_def split: if_splits)
  have n': "unat n mod 16 = 0" "unat n div 16 = unat blocks" using n by simp_all
  note res = decrypt_bytes_result [OF doc pos n'(1) _ b [unfolded s1], unfolded n'(2)]
  have le: "unat (iv_counter (cenc_iv st)) + unat blocks \<le> 2 ^ 64" using room by simp
  note res = res [OF le]
  have f: "st' = st1\<lparr>enc_byte_count := enc_byte_count st1 + l1, cenc_iv := add64 (cenc_iv st) (unat blocks)\<rparr>"
    using r b s1 res(3) by (auto simp: decrypt_rest_def add64_def)
  have "positioned x0 (st1\<lparr>cenc_iv := add64 (cenc_iv st) (unat blocks)\<rparr>)" by (rule res(6) [OF room])
  then have pos': "positioned x0 st'" unfolding f positioned_def by simp
  have "\<forall>b. length (ks b) = 16" using doc by (simp add: ctr_documented_def)
  then have "length (under_stream add64 ks (cenc_iv st) (mem_read (w_mem (cenc_world st)) inb (unat n))) = unat n"
    using n'(1) by (simp add: length_under_stream)
  with pos' f res(1,2,4) n' show ?thesis by (simp add: advanced_def)
qed

text \<open>Two runs one after the other, when the input is not where the first one wrote.\<close>

lemma advanced_trans:
  assumes ks: "\<forall>b. length (ks b) = 16" and iv: "length (cenc_iv st) = 16" and a: "apart out inb n" and k: "i + j \<le> n" "i mod 16 = 0" "j mod 16 = 0"
    and one: "advanced x0 out (under_stream add64 ks (cenc_iv st) (mem_read (w_mem (cenc_world st)) inb i)) st st1"
    and two: "advanced x0 (out + of_nat i) (under_stream add64 ks (cenc_iv st1) (mem_read (w_mem (cenc_world st1)) (inb + of_nat i) j)) st1 st2"
  shows "advanced x0 out (under_stream add64 ks (cenc_iv st) (mem_read (w_mem (cenc_world st)) inb (i + j))) st st2"
proof -
  let ?m = "w_mem (cenc_world st)" and ?iv = "cenc_iv st"
  let ?x = "under_stream add64 ks ?iv (mem_read ?m inb i)"
  have x: "length ?x = i" using length_under_stream [OF ks, of "mem_read ?m inb i"] k by simp
  have iv1: "cenc_iv st1 = add64 ?iv (i div 16)" using one x by (simp add: advanced_def)
  have "w_mem (cenc_world st1) = mem_write ?m out ?x" using one by (simp add: advanced_def)
  then have r: "mem_read (w_mem (cenc_world st1)) (inb + of_nat i) j = mem_read ?m (inb + of_nat i) j"
    using apart_read [OF a, of ?x i j ?m] x k by simp
  let ?y = "under_stream add64 ks (add64 ?iv (i div 16)) (mem_read ?m (inb + of_nat i) j)"
  have y: "length ?y = j" using length_under_stream [OF ks, of "mem_read ?m (inb + of_nat i) j"] k by simp
  have xy: "under_stream add64 ks ?iv (mem_read ?m inb (i + j)) = ?x @ ?y"
    unfolding mem_read_append by (subst under_stream_append [OF ks iv]) (use k in simp_all)
  have n: "n < 2 ^ 64" using a by (simp add: apart_def)
  have m: "mem_write (mem_write ?m out ?x) (out + of_nat i) ?y = mem_write ?m out (?x @ ?y)"
    using mem_write_append [of ?x ?y ?m out] x y k n by simp
  have l: "(i + j) div 16 = i div 16 + j div 16" using k by (auto simp: mod_eq_0_iff_dvd)
  show ?thesis
    using one two iv1 r m x y l k add64_props(2) [OF iv] unfolding advanced_def xy
    by (simp add: add.assoc mod_eq_0_iff_dvd)
qed

text \<open>The function, for whole blocks that follow whole blocks.\<close>

lemma unat_before_rollover:
  fixes c :: u64
  shows "unat (- 1 - c + 1) = (if unat c = 0 then 0 else 2 ^ 64 - unat c)"
proof -
  have "- 1 - c + 1 = 0 - of_nat (unat c)" by simp
  moreover have "unat c < 2 ^ 64" using unsigned_less [where 'a = nat, of c] by simp
  ultimately show ?thesis using unat_minus_nat [of "unat c" 0] by simp
qed

lemma cenc_decrypt_advances:
  assumes doc: "ctr_documented cr ks x0" and pos: "positioned x0 st" and e: "unat (enc_byte_count st) mod 16 = 0"
    and n: "unat n mod 16 = 0" and a: "apart out inb (unat n)"
    and r: "cenc_decrypt cr out inb n SA_CIPHER_ALGORITHM_AES_CTR st = (SA_STATUS_OK, st')"
  shows "advanced x0 out (under_stream add64 ks (cenc_iv st) (mem_read (w_mem (cenc_world st)) inb (unat n))) st st'"
proof -
  let ?c = "iv_counter (cenc_iv st)"
  define full where "full = full_blocks n 0"
  have ks: "\<forall>b. length (ks b) = 16" using doc by (simp add: ctr_documented_def)
  note iv = positioned_iv [OF pos]
  have nb: "unat n < 2 ^ 64" using unsigned_less [where 'a = nat, of n] by simp
  have full: "unat full * 16 = unat n" "unat full < 2 ^ 60"
    using n nb by (auto simp: full_def full_blocks_def AES_BLOCK_SIZE_def unat_of_nat take_bit_nat_eq_self mod_eq_0_iff_dvd)
  have lead: "leading_bytes (enc_byte_count st) = 0" using e by (simp add: leading_bytes_def AES_BLOCK_SIZE_def)
  have c: "unat ?c < 2 ^ 64" using unsigned_less [where 'a = nat, of ?c] by simp
  let ?before = "- 1 - ?c + 1"
  note before = unat_before_rollover [of ?c]
  note unf = cenc_decrypt_def Let_def lead some_block_def full_def [symmetric]
  show ?thesis
  proof (cases "n = 0")
    case True
    then have "st' = st" using r by (simp add: cenc_decrypt_def)
    with True pos add64_props(4) [OF iv] show ?thesis by (simp add: advanced_def under_stream_def mem_read_def)
  next
    case nz: False
    show ?thesis
    proof (cases "?before \<le> full")
      case False
      then have "unat full < unat ?before" by (simp only: word_le_nat_alt not_le)
      then have "unat ?c + unat full < 2 ^ 64" using before c by (auto split: if_splits)
      moreover have "decrypt_rest cr out inb n full st = (SA_STATUS_OK, st')"
        using r nz False unfolding unf by simp
      ultimately show ?thesis by (intro decrypt_rest_advances [OF doc pos]) (use full in simp_all)
    next
      case True
      define m where "m = min ?before full"
      have m: "unat m = min (unat ?before) (unat full)" by (simp add: m_def min_def word_le_nat_alt)
      have m16: "unat (m * of_nat AES_BLOCK_SIZE) = 16 * unat m"
        using m full by (simp add: AES_BLOCK_SIZE_def unat_word_ariths)
      show ?thesis
      proof (cases "m > 0")
        case False
        then have "m = 0" by (simp only: word_gt_0 not_not)
        then have "unat m = 0" by simp
        moreover have "unat n \<noteq> 0" using nz by (simp only: unsigned_eq_0_iff not_False_eq_True)
        then have "unat full \<noteq> 0" using full(1) by simp
        ultimately have "unat ?before = 0" using m by simp
        then have "unat ?c = 0" using before c by (auto split: if_splits)
        moreover have "decrypt_rest cr out inb n full st = (SA_STATUS_OK, st')"
          using r nz True False unfolding unf m_def [symmetric] by (simp add: word_gt_0)
        ultimately show ?thesis by (intro decrypt_rest_advances [OF doc pos]) (use full in simp_all)
      next
        case mp: True
        obtain s len st1 where s: "decrypt_stretch cr out inb (m * of_nat AES_BLOCK_SIZE) m st = (s, len, st1)" using prod_cases3 by blast
        have ok: "s = SA_STATUS_OK" using r nz True mp s unfolding unf m_def [symmetric] by (auto split: if_splits)
        have room: "unat ?c + unat m \<le> 2 ^ 64" using before c m by (auto split: if_splits)
        from decrypt_stretch_advances [OF doc pos m16 room s [unfolded ok]]
        have len: "len = m * of_nat AES_BLOCK_SIZE"
          and one: "advanced x0 out (under_stream add64 ks (cenc_iv st) (mem_read (w_mem (cenc_world st)) inb (unat len))) st st1" by simp_all
        have len16: "unat len = 16 * unat m" using len m16 by simp
        show ?thesis
        proof (cases "n > len")
          case False
          then have "unat n \<le> unat len" by (simp add: word_le_nat_alt not_less)
          moreover have "unat m \<le> unat full" using m by simp
          ultimately have "unat n = unat len" using len16 full(1) by simp
          moreover have "st' = st1" using r nz True mp s ok False unfolding unf m_def [symmetric] by (simp add: len)
          ultimately show ?thesis using one by simp
        next
          case more: True
          have rest: "decrypt_rest cr (out + len) (inb + len) (n - len) (full - m) st1 = (SA_STATUS_OK, st')"
            using r nz True mp s ok more unfolding unf m_def [symmetric] by (simp add: len)
          have lt: "unat len < unat n" using more by (simp add: word_less_nat_alt)
          then have "unat m < unat full" using len16 full(1) by simp
          then have mb: "unat m = unat ?before" using m by simp
          have pos1: "positioned x0 st1" and iv1: "cenc_iv st1 = add64 (cenc_iv st) (unat m)"
            using one length_under_stream [OF ks, of "mem_read (w_mem (cenc_world st)) inb (unat len)"] len16 by (simp_all add: advanced_def)
          have "m = ?before" using mb by (simp only: word_unat_eq_iff)
          then have "iv_counter (cenc_iv st1) = 0" using iv by (simp add: iv1 add64_props)
          moreover have d: "unat (n - len) = unat n - unat len" "unat (full - m) = unat full - unat m"
            using lt \<open>unat m < unat full\<close> by (simp_all add: unat_sub word_le_nat_alt)
          moreover have "unat (n - len) = 16 * unat (full - m)" using d len16 full(1) by simp
          ultimately have two: "advanced x0 (out + len)
              (under_stream add64 ks (cenc_iv st1) (mem_read (w_mem (cenc_world st1)) (inb + len) (unat (n - len)))) st1 st'"
            by (intro decrypt_rest_advances [OF doc pos1 _ _ rest]) (use full(2) in simp_all)
          have two': "advanced x0 (out + of_nat (unat len))
              (under_stream add64 ks (cenc_iv st1) (mem_read (w_mem (cenc_world st1)) (inb + of_nat (unat len)) (unat n - unat len))) st1 st'"
            using two d by simp
          have "advanced x0 out (under_stream add64 ks (cenc_iv st) (mem_read (w_mem (cenc_world st)) inb (unat len + (unat n - unat len)))) st st'"
          proof (rule advanced_trans [OF ks iv a _ _ _ one two'])
            have "unat n - unat len = 16 * (unat full - unat m)" using len16 full(1) by simp
            then show "(unat n - unat len) mod 16 = 0" by simp
          qed (use lt len16 in auto)
          then show ?thesis using lt by simp
        qed
      qed
    qed
  qed
qed

section \<open>Without failing calls, the decryption succeeds\<close>

lemma decrypt_bytes_calm:
  assumes doc: "ctr_documented cr ks x0" and pos: "positioned x0 st" and n: "unat n mod 16 = 0" and w: "w_faults (cenc_world st) = []"
  shows "\<exists>st'. decrypt_bytes cr out inb n st = (SA_STATUS_OK, n, st') \<and> w_faults (cenc_world st') = []"
proof -
  obtain x later v ds where x: "cenc_context st = Some x" "sc_algorithm x = SA_CIPHER_ALGORITHM_AES_CTR"
     "sc_mode x = SA_CIPHER_MODE_DECRYPT" "sc_calls x = sc_calls x0 @ later @ EVP_Set_Iv v # map EVP_Update ds"
     "\<forall>d \<in> set ds. length d mod 16 = 0" "length v = 16" using pos unfolding positioned_def by blast
  let ?d = "mem_read (w_mem (cenc_world st)) inb (unat n)"
  have o: "evp_output cr (sc_calls x @ [EVP_Update ?d]) = Some (under_stream add128 ks (add128 v (length (concat ds) div 16)) ?d)"
    using doc x(4-6) n unfolding ctr_documented_def by simp
  have "\<forall>b. length (ks b) = 16" using doc by (simp add: ctr_documented_def)
  from length_under_stream [OF this, of ?d] have "length (under_stream add128 ks (add128 v (length (concat ds) div 16)) ?d) = unat n"
    using n by simp
  then show ?thesis using evp_step_calm [OF w o] x(1-3) w
    by (simp add: decrypt_bytes_def symmetric_context_decrypt_def stream_algorithm_def store_bytes_def)
qed

lemma reset_iv_calm:
  assumes "cenc_context st = Some x" "sc_algorithm x = SA_CIPHER_ALGORITHM_AES_CTR" "sc_mode x = SA_CIPHER_MODE_DECRYPT" "length iv = 16"
    "w_faults (cenc_world st) = []"
  shows "reset_iv iv st = (SA_STATUS_OK, st\<lparr>cenc_iv := iv, cenc_context := Some (x\<lparr>sc_calls := sc_calls x @ [EVP_Set_Iv iv]\<rparr>)\<rparr>)"
  using assms by (simp add: reset_iv_def symmetric_context_set_iv_def AES_BLOCK_SIZE_def)

lemma decrypt_stretch_calm:
  assumes doc: "ctr_documented cr ks x0" and pos: "positioned x0 st" and n: "unat n = 16 * unat blocks"
    and room: "unat (iv_counter (cenc_iv st)) + unat blocks \<le> 2 ^ 64" and w: "w_faults (cenc_world st) = []"
  shows "\<exists>len st'. decrypt_stretch cr out inb n blocks st = (SA_STATUS_OK, len, st') \<and> w_faults (cenc_world st') = []"
proof -
  have n': "unat n mod 16 = 0" "unat n div 16 = unat blocks" using n by simp_all
  obtain st1 where b: "decrypt_bytes cr out inb n st = (SA_STATUS_OK, n, st1)" "w_faults (cenc_world st1) = []"
    using decrypt_bytes_calm [OF doc pos n'(1) w] by blast
  note res = decrypt_bytes_result [OF doc pos n'(1) _ b(1), unfolded n'(2), OF room]
  obtain x where x: "cenc_context st1 = Some x" "sc_algorithm x = SA_CIPHER_ALGORITHM_AES_CTR" "sc_mode x = SA_CIPHER_MODE_DECRYPT"
    using res(5) by blast
  have "length (set_counter (iv_counter (cenc_iv st1) + blocks) (cenc_iv st1)) = 16"
    using positioned_iv [OF pos] res(3) by simp
  from reset_iv_calm [OF x this b(2)] b show ?thesis by (simp add: decrypt_stretch_def)
qed

lemma decrypt_rest_calm:
  assumes "ctr_documented cr ks x0" "positioned x0 st" "unat n mod 16 = 0" "w_faults (cenc_world st) = []"
  shows "\<exists>st'. decrypt_rest cr out inb n blocks st = (SA_STATUS_OK, st') \<and> w_faults (cenc_world st') = []"
  using decrypt_bytes_calm [OF assms, of out inb] by (auto simp: decrypt_rest_def)

lemma cenc_decrypt_calm:
  assumes doc: "ctr_documented cr ks x0" and pos: "positioned x0 st" and e: "unat (enc_byte_count st) mod 16 = 0"
    and n: "unat n mod 16 = 0" and w: "w_faults (cenc_world st) = []"
  shows "\<exists>st'. cenc_decrypt cr out inb n SA_CIPHER_ALGORITHM_AES_CTR st = (SA_STATUS_OK, st') \<and> w_faults (cenc_world st') = []"
proof -
  let ?c = "iv_counter (cenc_iv st)" and ?full = "full_blocks n 0"
  let ?before = "- 1 - ?c + 1"
  define m where "m = min ?before ?full"
  have nb: "unat n < 2 ^ 64" using unsigned_less [where 'a = nat, of n] by simp
  have full: "unat ?full * 16 = unat n"
    using n nb by (auto simp: full_blocks_def AES_BLOCK_SIZE_def unat_of_nat take_bit_nat_eq_self mod_eq_0_iff_dvd)
  have lead: "leading_bytes (enc_byte_count st) = 0" using e by (simp add: leading_bytes_def AES_BLOCK_SIZE_def)
  have c: "unat ?c < 2 ^ 64" using unsigned_less [where 'a = nat, of ?c] by simp
  have m: "unat m = min (unat ?before) (unat ?full)" by (simp add: m_def min_def word_le_nat_alt)
  have m16: "unat (m * of_nat AES_BLOCK_SIZE) = 16 * unat m"
    using m full nb by (simp add: AES_BLOCK_SIZE_def unat_word_ariths)
  have room: "unat ?c + unat m \<le> 2 ^ 64" using unat_before_rollover [of ?c] c m by (auto split: if_splits)
  obtain st0 where rest0: "decrypt_rest cr out inb n ?full st = (SA_STATUS_OK, st0)" "w_faults (cenc_world st0) = []"
    using decrypt_rest_calm [OF doc pos n w] by blast
  obtain len st1 where s: "decrypt_stretch cr out inb (m * of_nat AES_BLOCK_SIZE) m st = (SA_STATUS_OK, len, st1)" "w_faults (cenc_world st1) = []"
    using decrypt_stretch_calm [OF doc pos m16 room w] by blast
  note adv = decrypt_stretch_advances [OF doc pos m16 room s(1)]
  have rest1: "\<exists>st2. decrypt_rest cr (out + len) (inb + len) (n - len) (?full - m) st1 = (SA_STATUS_OK, st2) \<and> w_faults (cenc_world st2) = []"
    if "n > len"
  proof (rule decrypt_rest_calm [OF doc _ _ s(2)])
    show "positioned x0 st1" using adv by (simp add: advanced_def)
    have "unat (n - len) = 16 * (unat ?full - unat m)" using that adv m16 full by (simp add: unat_sub word_le_nat_alt word_less_nat_alt)
    then show "unat (n - len) mod 16 = 0" by simp
  qed
  note unf = cenc_decrypt_def Let_def lead some_block_def m_def [symmetric]
  show ?thesis
  proof (cases "n = 0 \<or> \<not> ?before \<le> ?full")
    case True
    then show ?thesis using rest0 w unfolding unf by (auto simp del: of_nat_mult)
  next
    case roll: False
    show ?thesis
    proof (cases "m = 0")
      case True
      then show ?thesis using rest0 roll unfolding unf by (auto simp: word_gt_0)
    next
      case False
      then have "m > 0" by (simp add: word_gt_0)
      then show ?thesis using s rest1 roll unfolding unf by (cases "n > len") auto
    qed
  qed
qed

end
