(* ===== verification/Cenc_Samples.thy ===== *)
theory Cenc_Samples
  imports Cenc_Ctr
begin

text \<open>
  What a sample decrypts to in counter mode: the specification cuts its bytes into segments, the encrypted ones under one
  key stream which the clear ones do not use up, and the loops over subsamples and stripes compute it.
\<close>

section \<open>The segments of a sample\<close>

text \<open>The stripes of so many blocks in a pattern.\<close>

function stripes :: "nat \<Rightarrow> nat \<Rightarrow> nat \<Rightarrow> (bool \<times> nat) list" where
  "stripes crypt skip blocks =
     (if blocks = 0 \<or> crypt = 0 then []
      else (True, 16 * min crypt blocks) # (False, 16 * min skip (blocks - min crypt blocks)) #
        stripes crypt skip (blocks - min crypt blocks - min skip (blocks - min crypt blocks)))"
  by pat_completeness auto
termination by (relation "measure (\<lambda>(crypt, skip, blocks). blocks)") simp_all

declare stripes.simps [simp del]

definition protected_segments :: "sa_sample \<Rightarrow> nat \<Rightarrow> (bool \<times> nat) list" where
  "protected_segments sample protected =
     (if protected = 0 then [] else if crypt_byte_block sample = 0 then [(True, protected)]
      else stripes (unat (crypt_byte_block sample)) (unat (skip_byte_block sample)) (protected div 16) @ [(False, protected mod 16)])"

definition segments :: "sa_sample \<Rightarrow> (u64 \<times> u64) list \<Rightarrow> (bool \<times> nat) list" where
  "segments sample subsamples =
     concat (map (\<lambda>(clear, protected). (False, unat clear) # protected_segments sample (unat protected)) subsamples)"

fun decode :: "(u8 list \<Rightarrow> u8 list) \<Rightarrow> u8 list \<Rightarrow> (bool \<times> nat) list \<Rightarrow> u8 list \<Rightarrow> u8 list" where
  "decode ks iv [] bs = []"
| "decode ks iv ((encrypted, n) # ss) bs =
     (if encrypted then under_stream add64 ks iv (take n bs) @ decode ks (add64 iv (n div 16)) ss (drop n bs)
      else take n bs @ decode ks iv ss (drop n bs))"

fun blocks_of :: "(bool \<times> nat) list \<Rightarrow> nat" where
  "blocks_of [] = 0"
| "blocks_of ((encrypted, n) # ss) = (if encrypted then n div 16 else 0) + blocks_of ss"

abbreviation size_of :: "(bool \<times> nat) list \<Rightarrow> nat" where
  "size_of ss \<equiv> sum_list (map snd ss)"

lemma size_stripes: "0 < crypt \<Longrightarrow> size_of (stripes crypt skip blocks) = 16 * blocks"
proof (induction blocks rule: less_induct)
  case (less blocks)
  show ?case
  proof (cases "blocks = 0")
    case False
    define b where "b = min crypt blocks"
    define s where "s = min skip (blocks - b)"
    have "b \<le> blocks" "0 < b" "s \<le> blocks - b" using False less.prems by (simp_all add: b_def s_def)
    then have lt: "blocks - b - s < blocks" and sum: "16 * b + (16 * s + 16 * (blocks - b - s)) = 16 * blocks" by linarith+
    have "stripes crypt skip blocks = (True, 16 * b) # (False, 16 * s) # stripes crypt skip (blocks - b - s)"
      using False less.prems by (subst stripes.simps) (simp add: b_def s_def)
    then show ?thesis using less.IH [OF lt less.prems] sum by simp
  qed (simp add: stripes.simps)
qed

lemma size_protected: "size_of (protected_segments sample n) = n"
  by (auto simp: protected_segments_def size_stripes unat_gt_0 mult_div_mod_eq)

section \<open>The state on the way\<close>

text \<open>So far \<open>done\<close> was written, the context is calm and stands at the start of a block.\<close>

definition on_the_way :: "symmetric_context \<Rightarrow> mem \<Rightarrow> u64 \<Rightarrow> nat \<Rightarrow> u8 list \<Rightarrow> cenc_state \<Rightarrow> bool" where
  "on_the_way x0 m out n done st \<longleftrightarrow> positioned x0 st \<and> unat (enc_byte_count st) mod 16 = 0 \<and> w_faults (cenc_world st) = [] \<and>
     w_mem (cenc_world st) = mem_write m out done \<and> length done \<le> n"

lemma apart_sub:
  assumes "apart out inb n" "off + k \<le> n"
  shows "apart (out + of_nat off) (inb + of_nat off) k"
  unfolding apart_def
proof (intro conjI allI impI)
  show "k < 2 ^ 64" using assms by (simp add: apart_def)
  fix i assume "i < k"
  then have "i < n" using assms(2) by simp
  then have "n \<le> unat (inb + of_nat i - out)" using assms(1) by (simp add: apart_def)
  then show "k \<le> unat (inb + of_nat off + of_nat i - (out + of_nat off))" using assms(2) by (simp add: algebra_simps)
qed

lemma on_the_way_decrypt:
  assumes doc: "ctr_documented cr ks x0" and st: "on_the_way x0 m out n done st" and a: "apart out inb n"
    and k: "length done + unat k \<le> n" "unat k mod 16 = 0"
  shows "\<exists>st'. cenc_decrypt cr (out + of_nat (length done)) (inb + of_nat (length done)) k SA_CIPHER_ALGORITHM_AES_CTR st = (SA_STATUS_OK, st') \<and>
    on_the_way x0 m out n (done @ under_stream add64 ks (cenc_iv st) (mem_read m (inb + of_nat (length done)) (unat k))) st' \<and>
    cenc_iv st' = add64 (cenc_iv st) (unat k div 16)"
proof -
  let ?o = "of_nat (length done) :: u64"
  let ?d = "mem_read m (inb + ?o) (unat k)"
  have s: "positioned x0 st" "unat (enc_byte_count st) mod 16 = 0" "w_faults (cenc_world st) = []"
    "w_mem (cenc_world st) = mem_write m out done" "length done \<le> n" using st by (simp_all add: on_the_way_def)
  obtain st' where r: "cenc_decrypt cr (out + ?o) (inb + ?o) k SA_CIPHER_ALGORITHM_AES_CTR st = (SA_STATUS_OK, st')"
    and w: "w_faults (cenc_world st') = []" using cenc_decrypt_calm [OF doc s(1,2) k(2) s(3)] by blast
  have "mem_read (w_mem (cenc_world st)) (inb + ?o) (unat k) = ?d"
    unfolding s(4) by (rule apart_read [OF a]) (use k s(5) in simp_all)
  with cenc_decrypt_advances [OF doc s(1,2) k(2) apart_sub [OF a k(1)] r]
  have adv: "advanced x0 (out + ?o) (under_stream add64 ks (cenc_iv st) ?d) st st'" by simp
  have "\<forall>b. length (ks b) = 16" using doc by (simp add: ctr_documented_def)
  then have l: "length (under_stream add64 ks (cenc_iv st) ?d) = unat k" using k(2) by (simp add: length_under_stream)
  have n: "n < 2 ^ 64" using a by (simp add: apart_def)
  have "w_mem (cenc_world st') = mem_write m out (done @ under_stream add64 ks (cenc_iv st) ?d)"
    using adv mem_write_append [of "done" "under_stream add64 ks (cenc_iv st) ?d" m out] l k(1) n s(4) by (simp add: advanced_def)
  moreover have "unat (enc_byte_count st + k) mod 16 = 0"
  proof -
    have "unat (enc_byte_count st + k) = (unat (enc_byte_count st) + unat k) mod 2 ^ 64" by (simp add: unat_word_ariths)
    moreover have "(16 :: nat) dvd 2 ^ 64" by simp
    ultimately have "unat (enc_byte_count st + k) mod 16 = (unat (enc_byte_count st) + unat k) mod 16" by (simp only: mod_mod_cancel)
    then show ?thesis using s(2) k(2) by (auto simp: mod_eq_0_iff_dvd)
  qed
  ultimately show ?thesis using r w adv l k by (auto simp: on_the_way_def advanced_def)
qed

lemma on_the_way_copy:
  assumes st: "on_the_way x0 m out n done st" and a: "apart out inb n" and k: "length done + unat k \<le> n"
  shows "on_the_way x0 m out n (done @ mem_read m (inb + of_nat (length done)) (unat k))
    (copy_bytes (out + of_nat (length done)) (inb + of_nat (length done)) k st)"
    "cenc_iv (copy_bytes (out + of_nat (length done)) (inb + of_nat (length done)) k st) = cenc_iv st"
proof -
  let ?o = "of_nat (length done) :: u64"
  have s: "w_mem (cenc_world st) = mem_write m out done" "length done \<le> n" "n < 2 ^ 64" using st a by (simp_all add: on_the_way_def apart_def)
  have "mem_read (w_mem (cenc_world st)) (inb + ?o) (unat k) = mem_read m (inb + ?o) (unat k)"
    unfolding s(1) by (rule apart_read [OF a]) (use k s(2) in simp_all)
  moreover have "mem_write (w_mem (cenc_world st)) (out + ?o) (mem_read m (inb + ?o) (unat k)) =
      mem_write m out (done @ mem_read m (inb + ?o) (unat k))"
    unfolding s(1) by (rule mem_write_append) (use k s(3) in simp)
  ultimately show "on_the_way x0 m out n (done @ mem_read m (inb + ?o) (unat k)) (copy_bytes (out + ?o) (inb + ?o) k st)"
    using st k unfolding on_the_way_def copy_bytes_def positioned_def by simp
qed (simp add: copy_bytes_def)

lemma copy_nothing [simp]: "(if k > 0 then copy_bytes a b k st else st) = copy_bytes a b k st"
proof (cases "k > 0")
  case False
  then have "k = 0" by (simp add: word_gt_0)
  then show ?thesis by (simp add: copy_bytes_def mem_read_def)
qed simp

section \<open>The loops\<close>

lemma take_mem_read [simp]: "k \<le> n \<Longrightarrow> take k (mem_read m a n) = mem_read m a k"
  using mem_read_append [of m a k "n - k"] by simp

lemma drop_mem_read [simp]: "k \<le> n \<Longrightarrow> drop k (mem_read m a n) = mem_read m (a + of_nat k) (n - k)"
  using mem_read_append [of m a k "n - k"] by simp

lemma unat_stripe_small: "unat b < 2 ^ 60 \<Longrightarrow> unat (stripe b n) = 16 * min (unat b) (unat n div 16)"
  unfolding unat_stripe by (simp add: unat_word_ariths min_mult_distrib_left mult.commute)

lemma length_decode:
  assumes "\<forall>b. length (ks b) = 16"
  shows "\<forall>(encrypted, n) \<in> set ss. encrypted \<longrightarrow> n mod 16 = 0 \<Longrightarrow> size_of ss \<le> length bs \<Longrightarrow> length (decode ks iv ss bs) = size_of ss"
proof (induction ss arbitrary: iv bs)
  case (Cons s ss)
  obtain encrypted n where s: "s = (encrypted, n)" by fastforce
  with Cons.prems have "size_of ss \<le> length (drop n bs)" "encrypted \<Longrightarrow> length (take n bs) mod 16 = 0" "length (take n bs) = n" by auto
  with Cons length_under_stream [OF assms, of "take n bs"] s show ?case by simp
qed simp

lemma stripes_whole: "(encrypted, n) \<in> set (stripes crypt skip blocks) \<Longrightarrow> n mod 16 = 0"
proof (induction blocks rule: less_induct)
  case (less blocks)
  show ?case
  proof (cases "blocks = 0 \<or> crypt = 0")
    case False
    then have "blocks - min crypt blocks - min skip (blocks - min crypt blocks) < blocks" by simp
    note IH = less.IH [OF this]
    from less.prems False have "n = 16 * min crypt blocks \<or> n = 16 * min skip (blocks - min crypt blocks) \<or>
        (encrypted, n) \<in> set (stripes crypt skip (blocks - min crypt blocks - min skip (blocks - min crypt blocks)))"
      by (subst (asm) stripes.simps) auto
    with IH show ?thesis by auto
  qed (use less.prems in \<open>simp add: stripes.simps\<close>)
qed

lemma pattern_loop_decodes:
  assumes doc: "ctr_documented cr ks x0" and a: "apart out inb n" and crypt: "crypt \<noteq> 0" "unat crypt < 2 ^ 60" and skip: "unat skip < 2 ^ 60"
  shows "on_the_way x0 m out n done st \<Longrightarrow> length done + unat left \<le> n \<Longrightarrow>
    \<exists>st'. pattern_loop cr SA_CIPHER_ALGORITHM_AES_CTR crypt skip out inb SA_STATUS_OK left (of_nat (length done)) st =
        Some (SA_STATUS_OK, of_nat (unat left mod 16), of_nat (length done + 16 * (unat left div 16)), st') \<and>
      on_the_way x0 m out n (done @ decode ks (cenc_iv st) (stripes (unat crypt) (unat skip) (unat left div 16))
        (mem_read m (inb + of_nat (length done)) (16 * (unat left div 16)))) st' \<and>
      cenc_iv st' = add64 (cenc_iv st) (blocks_of (stripes (unat crypt) (unat skip) (unat left div 16)))"
proof (induction "unat left" arbitrary: left "done" st rule: less_induct)
  case less
  note way = less.prems(1) and room = less.prems(2)
  have ks: "\<forall>b. length (ks b) = 16" using doc by (simp add: ctr_documented_def)
  have iv: "length (cenc_iv st) = 16" using positioned_iv way by (auto simp: on_the_way_def)
  show ?case
  proof (cases "unat left < 16")
    case True
    with way add64_props(4) [OF iv] show ?thesis by (subst pattern_loop.simps) (simp add: AES_BLOCK_SIZE_def stripes.simps mem_read_def)
  next
    case False
    define B where "B = unat left div 16"
    define b where "b = min (unat crypt) B"
    define s where "s = min (unat skip) (B - b)"
    define block where "block = stripe crypt left"
    define skipped where "skipped = (if skip > 0 then stripe skip (left - block) else 0)"
    have B: "0 < B" "16 * B \<le> unat left" using False by (simp_all add: B_def div_greater_zero_iff)
    have block: "unat block = 16 * b" unfolding block_def b_def B_def by (rule unat_stripe_small [OF crypt(2)])
    have b: "0 < b" "b \<le> B" using B crypt(1) by (simp_all add: b_def unat_gt_0)
    have left1: "unat (left - block) = unat left - 16 * b" using b B block by (simp add: unat_sub word_le_nat_alt)
    have div1: "(unat left - 16 * b) div 16 = B - b" using b by (simp add: B_def)
    have skipped: "unat skipped = 16 * s"
      using unat_stripe_small [OF skip, of "left - block"] unfolding left1 div1 s_def skipped_def by (auto simp: word_gt_0)
    have s: "s \<le> B - b" by (simp add: s_def)
    define left2 where "left2 = left - block - skipped"
    have left2: "unat left2 = unat left - 16 * b - 16 * s"
      using left1 s b B skipped unfolding left2_def by (simp add: unat_sub word_le_nat_alt)
    have div2: "unat left2 div 16 = B - b - s" and mod2: "unat left2 mod 16 = unat left mod 16"
    proof -
      have "unat left = unat left2 + (b + s) * 16" using left2 s b B by simp
      then have "unat left mod 16 = unat left2 mod 16" "B = unat left2 div 16 + (b + s)" unfolding B_def by (simp_all only: mod_mult_self1 div_mult_self1 zero_neq_numeral not_False_eq_True)
      then show "unat left2 mod 16 = unat left mod 16" "unat left2 div 16 = B - b - s" by simp_all
    qed
    let ?iv = "cenc_iv st" and ?at = "\<lambda>k. inb + of_nat k"
    let ?one = "under_stream add64 ks ?iv (mem_read m (?at (length done)) (16 * b))"
    have one: "length ?one = 16 * b" by (simp add: length_under_stream [OF ks])
    obtain st1 where dec: "cenc_decrypt cr (out + of_nat (length done)) (inb + of_nat (length done)) block SA_CIPHER_ALGORITHM_AES_CTR st = (SA_STATUS_OK, st1)"
      and way1: "on_the_way x0 m out n (done @ ?one) st1" and iv1: "cenc_iv st1 = add64 ?iv b"
      using on_the_way_decrypt [OF doc way a, of block] block room b B by auto
    let ?done1 = "done @ ?one"
    define st2 where "st2 = copy_bytes (out + of_nat (length ?done1)) (inb + of_nat (length ?done1)) skipped st1"
    let ?two = "mem_read m (?at (length ?done1)) (16 * s)"
    have room1: "length ?done1 + unat skipped \<le> n" using one skipped s b B room by simp
    have way2: "on_the_way x0 m out n (?done1 @ ?two) st2" and iv2: "cenc_iv st2 = add64 ?iv b"
      using on_the_way_copy [OF way1 a room1] iv1 skipped by (simp_all add: st2_def)
    let ?done2 = "?done1 @ ?two"
    have d2: "length ?done2 = length done + 16 * b + 16 * s" using one by simp
    have lt: "unat left2 < unat left" using left2 b B by simp
    have room2: "length ?done2 + unat left2 \<le> n" using d2 left2 s b B room by simp
    have off: "of_nat (length done) + block + skipped = (of_nat (length ?done2) :: u64)"
      "out + (of_nat (length done) + block) = out + of_nat (length ?done1)" "inb + (of_nat (length done) + block) = inb + of_nat (length ?done1)"
    proof -
      have "block = of_nat (16 * b)" "skipped = of_nat (16 * s)" unfolding block [symmetric] skipped [symmetric] by simp_all
      then show "of_nat (length done) + block + skipped = (of_nat (length ?done2) :: u64)"
        "out + (of_nat (length done) + block) = out + of_nat (length ?done1)" "inb + (of_nat (length done) + block) = inb + of_nat (length ?done1)"
        using one d2 by (simp_all only: length_append of_nat_add)
    qed
    obtain st3 where rec: "pattern_loop cr SA_CIPHER_ALGORITHM_AES_CTR crypt skip out inb SA_STATUS_OK left2 (of_nat (length ?done2)) st2 =
        Some (SA_STATUS_OK, of_nat (unat left mod 16), of_nat (length ?done2 + 16 * (B - b - s)), st3)"
      and way3: "on_the_way x0 m out n (?done2 @ decode ks (add64 ?iv b) (stripes (unat crypt) (unat skip) (B - b - s))
        (mem_read m (?at (length ?done2)) (16 * (B - b - s)))) st3"
      and iv3: "cenc_iv st3 = add64 (add64 ?iv b) (blocks_of (stripes (unat crypt) (unat skip) (B - b - s)))"
      using less.hyps [OF lt way2 room2] unfolding iv2 div2 mod2 by blast
    have step: "pattern_loop cr SA_CIPHER_ALGORITHM_AES_CTR crypt skip out inb SA_STATUS_OK left (of_nat (length done)) st =
        pattern_loop cr SA_CIPHER_ALGORITHM_AES_CTR crypt skip out inb SA_STATUS_OK left2 (of_nat (length ?done2)) st2"
    proof -
      have "block > 0" using block b by (metis nat_0_less_mult_iff unat_gt_0 word_gt_0 zero_less_numeral)
      with False dec show ?thesis
        by (subst pattern_loop.simps)
          (simp only: AES_BLOCK_SIZE_def Let_def block_def [symmetric] skipped_def [symmetric] left2_def [symmetric] off copy_nothing
            st2_def [symmetric] if_True if_False prod.case simp_thms)
    qed
    have str: "stripes (unat crypt) (unat skip) B = (True, 16 * b) # (False, 16 * s) # stripes (unat crypt) (unat skip) (B - b - s)"
      using B crypt(1) by (subst stripes.simps) (simp add: b_def s_def unat_eq_zero)
    have total: "length ?done2 + 16 * (B - b - s) = length done + 16 * B" using d2 s b by simp
    have dec': "decode ks ?iv (stripes (unat crypt) (unat skip) B) (mem_read m (?at (length done)) (16 * B)) =
        ?one @ ?two @ decode ks (add64 ?iv b) (stripes (unat crypt) (unat skip) (B - b - s)) (mem_read m (?at (length ?done2)) (16 * (B - b - s)))"
      unfolding str using s b one by (simp add: diff_mult_distrib2 add.assoc)
    show ?thesis
      unfolding B_def [symmetric]
    proof (intro exI conjI)
      show "pattern_loop cr SA_CIPHER_ALGORITHM_AES_CTR crypt skip out inb SA_STATUS_OK left (of_nat (length done)) st =
          Some (SA_STATUS_OK, of_nat (unat left mod 16), of_nat (length done + 16 * B), st3)"
        by (simp only: step rec total)
      show "on_the_way x0 m out n (done @ decode ks ?iv (stripes (unat crypt) (unat skip) B) (mem_read m (?at (length done)) (16 * B))) st3"
        using way3 by (simp only: dec' append_assoc)
      show "cenc_iv st3 = add64 ?iv (blocks_of (stripes (unat crypt) (unat skip) B))"
        unfolding str iv3 using add64_props(2) [OF iv] by simp
    qed
  qed
qed

lemma decode_append:
  "length iv = 16 \<Longrightarrow> decode ks iv (s @ t) bs = decode ks iv s bs @ decode ks (add64 iv (blocks_of s)) t (drop (size_of s) bs)"
proof (induction s arbitrary: iv bs)
  case (Cons x s)
  then show ?case by (cases x) (simp add: add64_props add.commute)
qed (simp add: add64_props)

lemma blocks_append: "blocks_of (s @ t) = blocks_of s + blocks_of t"
  by (induction s rule: blocks_of.induct) simp_all

lemma decode_take: "size_of s \<le> k \<Longrightarrow> decode ks iv s (take k bs) = decode ks iv s bs"
proof (induction s arbitrary: iv bs k)
  case (Cons x s)
  obtain encrypted n where x: "x = (encrypted, n)" by fastforce
  with Cons.prems have "size_of s \<le> k - n" "min n k = n" by simp_all
  with Cons.IH [of "k - n"] x show ?case by (simp add: drop_take)
qed simp

definition whole_blocks :: "sa_sample \<Rightarrow> (u64 \<times> u64) list \<Rightarrow> bool" where
  "whole_blocks sample subsamples \<longleftrightarrow> (if crypt_byte_block sample = 0 then \<forall>(clear, protected) \<in> set subsamples. unat protected mod 16 = 0
     else unat (crypt_byte_block sample) < 2 ^ 60 \<and> unat (skip_byte_block sample) < 2 ^ 60)"

text \<open>The protected bytes of one subsample, in either mode.\<close>

definition process_protected ::
  "crypto \<Rightarrow> sa_sample \<Rightarrow> u64 \<Rightarrow> u64 \<Rightarrow> u64 \<Rightarrow> u64 \<Rightarrow> cenc_state \<Rightarrow> (sa_status \<times> u64 \<times> cenc_state) option" where
  "process_protected cr sample out_bytes in_bytes protected offset st =
     process_subsamples cr SA_CIPHER_ALGORITHM_AES_CTR sample out_bytes in_bytes [(0, protected)] SA_STATUS_OK offset st"

lemma protected_decodes:
  assumes doc: "ctr_documented cr ks x0" and a: "apart out inb n" and whole: "whole_blocks sample [(c, protected)]"
    and way: "on_the_way x0 m out n done st" and room: "length done + unat protected \<le> n"
  shows "\<exists>st' data. process_protected cr sample out inb protected (of_nat (length done)) st =
      Some (SA_STATUS_OK, of_nat (length done + unat protected), st') \<and> on_the_way x0 m out n (done @ data) st' \<and>
      data = decode ks (cenc_iv st) (protected_segments sample (unat protected)) (mem_read m (inb + of_nat (length done)) (unat protected)) \<and>
      length data = unat protected \<and> cenc_iv st' = add64 (cenc_iv st) (blocks_of (protected_segments sample (unat protected)))"
proof -
  let ?d = "mem_read m (inb + of_nat (length done)) (unat protected)"
  have ks: "\<forall>b. length (ks b) = 16" using doc by (simp add: ctr_documented_def)
  have iv: "length (cenc_iv st) = 16" using positioned_iv way by (auto simp: on_the_way_def)
  consider (none) "protected = 0" | (all) "protected \<noteq> 0" "crypt_byte_block sample = 0" | (pattern) "protected \<noteq> 0" "crypt_byte_block sample \<noteq> 0" by blast
  then show ?thesis
  proof cases
    case none
    with way add64_props(4) [OF iv] show ?thesis by (simp add: process_protected_def protected_segments_def)
  next
    case all
    then have p: "unat protected mod 16 = 0" using whole by (simp add: whole_blocks_def)
    obtain st' where r: "cenc_decrypt cr (out + of_nat (length done)) (inb + of_nat (length done)) protected SA_CIPHER_ALGORITHM_AES_CTR st = (SA_STATUS_OK, st')"
      "on_the_way x0 m out n (done @ under_stream add64 ks (cenc_iv st) ?d) st'" "cenc_iv st' = add64 (cenc_iv st) (unat protected div 16)"
      using on_the_way_decrypt [OF doc way a room p] by blast
    have "copy_bytes a b 0 st = st" for a b st by (simp add: copy_bytes_def mem_read_def)
    with r all p show ?thesis
      by (simp add: process_protected_def protected_segments_def unat_eq_zero length_under_stream [OF ks])
  next
    case pattern
    let ?B = "unat protected div 16" and ?r = "unat protected mod 16"
    let ?ss = "stripes (unat (crypt_byte_block sample)) (unat (skip_byte_block sample)) ?B"
    let ?one = "decode ks (cenc_iv st) ?ss (mem_read m (inb + of_nat (length done)) (16 * ?B))"
    have small: "unat (crypt_byte_block sample) < 2 ^ 60" "unat (skip_byte_block sample) < 2 ^ 60"
      using whole pattern by (simp_all add: whole_blocks_def)
    obtain st1 where loop: "pattern_loop cr SA_CIPHER_ALGORITHM_AES_CTR (crypt_byte_block sample) (skip_byte_block sample) out inb SA_STATUS_OK
          protected (of_nat (length done)) st = Some (SA_STATUS_OK, of_nat ?r, of_nat (length done + 16 * ?B), st1)"
      and way1: "on_the_way x0 m out n (done @ ?one) st1" and iv1: "cenc_iv st1 = add64 (cenc_iv st) (blocks_of ?ss)"
      using pattern_loop_decodes [OF doc a pattern(2) small way room] by blast
    have size: "size_of ?ss = 16 * ?B" using pattern by (simp add: size_stripes unat_gt_0)
    have one: "length ?one = 16 * ?B"
      by (subst length_decode [OF ks]) (use stripes_whole size in \<open>auto simp: prod.case_eq_if\<close>)
    have r: "unat (of_nat ?r :: u64) = ?r" by (simp add: unat_of_nat take_bit_nat_eq_self)
    have parts: "16 * ?B + ?r = unat protected" by (rule mult_div_mod_eq)
    have room1: "length (done @ ?one) + unat (of_nat ?r :: u64) \<le> n" using room one parts r by simp
    note two = on_the_way_copy [OF way1 a room1, unfolded r]
    have at: "of_nat (length (done @ ?one)) = (of_nat (length done + 16 * ?B) :: u64)" by (simp only: length_append one)
    have rest: "drop (16 * ?B) ?d = mem_read m (inb + of_nat (length (done @ ?one))) ?r"
      unfolding at by (simp add: add.assoc minus_mult_div_eq_mod)
    have run: "process_protected cr sample out inb protected (of_nat (length done)) st = Some (SA_STATUS_OK, of_nat (length done + unat protected),
        copy_bytes (out + of_nat (length (done @ ?one))) (inb + of_nat (length (done @ ?one))) (of_nat ?r) st1)"
    proof -
      have "of_nat (length done + 16 * ?B) + of_nat ?r = (of_nat (length done + unat protected) :: u64)"
      proof -
        have "of_nat (length done + 16 * ?B) + of_nat ?r = (of_nat (length done + (16 * ?B + ?r)) :: u64)"
          by (simp only: of_nat_add add.assoc)
        then show ?thesis by (simp only: parts)
      qed
      with loop pattern show ?thesis unfolding at by (simp add: process_protected_def del: of_nat_add)
    qed
    have prot: "protected_segments sample (unat protected) = ?ss @ [(False, ?r)]"
      using pattern by (simp add: protected_segments_def unat_eq_zero)
    have data: "decode ks (cenc_iv st) (protected_segments sample (unat protected)) ?d = ?one @ mem_read m (inb + of_nat (length (done @ ?one))) ?r"
    proof -
      have "16 * ?B \<le> unat protected" using parts by linarith
      then have "take (16 * ?B) ?d = mem_read m (inb + of_nat (length done)) (16 * ?B)" by (rule take_mem_read)
      moreover have "decode ks (cenc_iv st) ?ss ?d = decode ks (cenc_iv st) ?ss (take (16 * ?B) ?d)"
        by (simp only: decode_take size order_refl)
      ultimately show ?thesis unfolding prot decode_append [OF iv] size rest by simp
    qed
    let ?data = "?one @ mem_read m (inb + of_nat (length (done @ ?one))) ?r"
    show ?thesis
    proof (intro exI conjI)
      show "process_protected cr sample out inb protected (of_nat (length done)) st = Some (SA_STATUS_OK, of_nat (length done + unat protected),
        copy_bytes (out + of_nat (length (done @ ?one))) (inb + of_nat (length (done @ ?one))) (of_nat ?r) st1)" by (rule run)
      show "on_the_way x0 m out n (done @ ?data) (copy_bytes (out + of_nat (length (done @ ?one))) (inb + of_nat (length (done @ ?one))) (of_nat ?r) st1)"
        using two(1) by (simp only: append_assoc)
      show "?data = decode ks (cenc_iv st) (protected_segments sample (unat protected)) ?d" by (rule data [symmetric])
      show "length ?data = unat protected" by (simp only: length_append one Svp.length_mem_read parts)
      show "cenc_iv (copy_bytes (out + of_nat (length (done @ ?one))) (inb + of_nat (length (done @ ?one))) (of_nat ?r) st1) =
          add64 (cenc_iv st) (blocks_of (protected_segments sample (unat protected)))"
        unfolding two(2) iv1 prot blocks_append by simp
    qed
  qed
qed

lemma process_subsamples_step:
  assumes "process_protected cr sample out inb protected (offset + clear) (copy_bytes (out + offset) (inb + offset) clear st) =
      Some (SA_STATUS_OK, offset', st')"
  shows "process_subsamples cr SA_CIPHER_ALGORITHM_AES_CTR sample out inb ((clear, protected) # rest) SA_STATUS_OK offset st =
    process_subsamples cr SA_CIPHER_ALGORITHM_AES_CTR sample out inb rest SA_STATUS_OK offset' st'"
proof -
  have nothing: "copy_bytes a b 0 t = t" for a b t by (simp add: copy_bytes_def mem_read_def)
  consider "protected = 0" | "protected \<noteq> 0" "crypt_byte_block sample = 0" | "protected \<noteq> 0" "crypt_byte_block sample \<noteq> 0" by blast
  then show ?thesis
    by cases (use assms in \<open>auto simp: process_protected_def Let_def nothing split: option.splits prod.splits if_splits\<close>)
qed

lemma process_subsamples_decodes:
  assumes doc: "ctr_documented cr ks x0" and a: "apart out inb n"
  shows "whole_blocks sample subsamples \<Longrightarrow> on_the_way x0 m out n done st \<Longrightarrow>
    length done + size_of (segments sample subsamples) \<le> n \<Longrightarrow>
    \<exists>st'. process_subsamples cr SA_CIPHER_ALGORITHM_AES_CTR sample out inb subsamples SA_STATUS_OK (of_nat (length done)) st =
        Some (SA_STATUS_OK, of_nat (length done + size_of (segments sample subsamples)), st') \<and>
      on_the_way x0 m out n (done @ decode ks (cenc_iv st) (segments sample subsamples)
        (mem_read m (inb + of_nat (length done)) (size_of (segments sample subsamples)))) st'"
proof (induction subsamples arbitrary: "done" st)
  case (Cons x subsamples)
  obtain clear protected where x: "x = (clear, protected)" by fastforce
  let ?c = "unat clear" and ?p = "unat protected" and ?rest = "size_of (segments sample subsamples)"
  have seg: "segments sample (x # subsamples) = (False, ?c) # protected_segments sample ?p @ segments sample subsamples"
    by (simp add: segments_def x)
  then have size: "size_of (segments sample (x # subsamples)) = ?c + (?p + ?rest)" by (simp add: size_protected)
  have iv: "length (cenc_iv st) = 16" using positioned_iv Cons.prems(2) by (auto simp: on_the_way_def)
  have room: "length done + ?c \<le> n" using Cons.prems(3) size by simp
  define st1 where "st1 = copy_bytes (out + of_nat (length done)) (inb + of_nat (length done)) clear st"
  let ?one = "mem_read m (inb + of_nat (length done)) ?c"
  have way1: "on_the_way x0 m out n (done @ ?one) st1" and iv1: "cenc_iv st1 = cenc_iv st"
    using on_the_way_copy [OF Cons.prems(2) a room] by (simp_all add: st1_def)
  have l1: "length (done @ ?one) = length done + ?c" by simp
  have whole: "whole_blocks sample [(clear, protected)]" "whole_blocks sample subsamples"
    using Cons.prems(1) x by (auto simp: whole_blocks_def split: if_splits)
  have room1: "length (done @ ?one) + ?p \<le> n" using Cons.prems(3) size l1 by linarith
  obtain st2 two where p: "process_protected cr sample out inb protected (of_nat (length (done @ ?one))) st1 =
      Some (SA_STATUS_OK, of_nat (length (done @ ?one) + ?p), st2)"
    and way2: "on_the_way x0 m out n ((done @ ?one) @ two) st2"
    and two: "two = decode ks (cenc_iv st1) (protected_segments sample ?p) (mem_read m (inb + of_nat (length (done @ ?one))) ?p)"
      "length two = ?p"
    and iv2: "cenc_iv st2 = add64 (cenc_iv st1) (blocks_of (protected_segments sample ?p))"
    using protected_decodes [OF doc a whole(1) way1 room1] by blast
  let ?done2 = "(done @ ?one) @ two"
  have l2: "length ?done2 = length (done @ ?one) + ?p" "length ?done2 = length done + ?c + ?p" using two(2) by simp_all
  have room2: "length ?done2 + ?rest \<le> n" using Cons.prems(3) size l2 by linarith
  obtain st3 where r: "process_subsamples cr SA_CIPHER_ALGORITHM_AES_CTR sample out inb subsamples SA_STATUS_OK (of_nat (length ?done2)) st2 =
      Some (SA_STATUS_OK, of_nat (length ?done2 + ?rest), st3)"
    and way3: "on_the_way x0 m out n (?done2 @ decode ks (cenc_iv st2) (segments sample subsamples)
        (mem_read m (inb + of_nat (length ?done2)) ?rest)) st3"
    using Cons.IH [OF whole(2) way2 room2] by blast
  have "of_nat (length (done @ ?one)) = of_nat (length done) + clear" by (simp add: l1)
  from process_subsamples_step [of cr sample out inb protected "of_nat (length done)" clear st, folded st1_def this, OF p] r
  have run: "process_subsamples cr SA_CIPHER_ALGORITHM_AES_CTR sample out inb (x # subsamples) SA_STATUS_OK (of_nat (length done)) st =
      Some (SA_STATUS_OK, of_nat (length done + (?c + (?p + ?rest))), st3)"
    unfolding x l2(1) [symmetric] by (simp only: l2(2) add.assoc)
  have take2: "decode ks v (protected_segments sample ?p) (mem_read m b (?p + ?rest)) = decode ks v (protected_segments sample ?p) (mem_read m b ?p)" for b v
    using decode_take [of "protected_segments sample ?p" ?p ks v "mem_read m b (?p + ?rest)"] by (simp add: size_protected)
  have data: "decode ks (cenc_iv st) (segments sample (x # subsamples)) (mem_read m (inb + of_nat (length done)) (?c + (?p + ?rest))) =
      ?one @ two @ decode ks (cenc_iv st2) (segments sample subsamples) (mem_read m (inb + of_nat (length ?done2)) ?rest)"
    unfolding seg decode.simps if_False decode_append [OF iv] size_protected
    unfolding iv2 l2(2) iv1 [symmetric] two(1) [symmetric]
    by (simp add: take2 iv1 two(1) add.assoc)
  show ?case unfolding size using run way3 data by (intro exI [of _ st3]) simp
next
  case Nil
  then show ?case by (simp add: segments_def mem_read_def)
qed

section \<open>A whole sample\<close>

lemma required_length_sum:
  "cenc_required_loop r subsamples \<noteq> CENC_OVERFLOW \<Longrightarrow>
    unat (cenc_required_loop r subsamples) = unat r + sum_list (map (\<lambda>(clear, protected). unat clear + unat protected) subsamples)"
proof (induction r subsamples rule: cenc_required_loop.induct)
  case (2 r clear protected rest)
  obtain x where x: "add_overflow clear protected = (False, x)"
    using 2(2) by (cases "add_overflow clear protected") (auto split: if_splits)
  obtain y where y: "add_overflow r x = (False, y)"
    using 2(2) x by (cases "add_overflow r x") (auto split: if_splits)
  from 2 x y add_overflow_no [OF x] add_overflow_no [OF y] show ?case by simp
qed simp

lemma size_segments: "size_of (segments sample subsamples) = sum_list (map (\<lambda>(clear, protected). unat clear + unat protected) subsamples)"
  by (induction subsamples) (auto simp: segments_def size_protected)

lemma apart_ranges:
  assumes no: "\<not> ranges_touch out (out + n) inb (inb + n)" and o: "unat out + unat n < 2 ^ 64" and i: "unat inb + unat n < 2 ^ 64"
  shows "apart out inb (unat n)"
  unfolding apart_def
proof (intro conjI allI impI)
  show "unat n < 2 ^ 64" using o by simp
  fix k assume k: "k < unat n"
  have s: "unat (out + n) = unat out + unat n" "unat (inb + n) = unat inb + unat n" "unat (inb + of_nat k) = unat inb + k"
    using o i k by (simp_all add: unat_word_ariths unat_of_nat take_bit_nat_eq_self)
  have "unat out > unat inb + unat n \<or> unat inb > unat out + unat n"
    using no unfolding ranges_touch_def word_le_nat_alt s by linarith
  moreover have "unat out < 2 ^ 64" using o by simp
  then have "unat (inb + of_nat k - out) = (if unat out \<le> unat inb + k then unat inb + k - unat out else 2 ^ 64 + (unat inb + k) - unat out)"
    using unat_minus_nat [of "unat out" "inb + of_nat k"] s(3) by simp
  ultimately show "unat n \<le> unat (inb + of_nat k - out)" using k o by (auto split: if_splits)
qed


end
