(* ===== verification/Key_Export.thy ===== *)
theory Key_Export
  imports Key_Store_Laws
begin

text \<open>
  Exported key containers: what \<open>key_store_export\<close> writes, \<open>key_store_import_exported\<close> reads back to
  the same key, on the same device and with the same mixin, and what it accepts has exactly the length
  its fields announce and a valid authentication code.
\<close>

section \<open>The container\<close>

definition container :: "u8 list \<Rightarrow> wrapped_key \<Rightarrow> u8 list" where
  "container mixin wk = mixin @ encode_header (wk_header wk) @
     encode_cipher_parameters (wk_iv wk) (wk_ciphertext_length wk) @ the (wk_ciphertext wk) @ wk_mac wk"

definition OVERHEAD :: nat where
  "OVERHEAD = 1744"

lemma wraps_lengths:
  assumes "wraps cr root wk sk" "crypto_ok cr"
  shows "length (encode_header (wk_header wk)) = 1672" "length (wk_iv wk) = 16" "length (wk_mac wk) = 32"
    "length (the (wk_ciphertext wk)) = PADDED_SIZE (length (sk_key sk))"
    "unat (wk_ciphertext_length wk) = PADDED_SIZE (length (sk_key sk))"
  using assms length_encode_header [of "sk_header sk"]
  by (simp_all add: wraps_def sk_valid_def SIZEOF_HEADER_def crypto_ok_def length_pkcs7 container_mac_def
      ciphertext_length_value)

lemma container_slices:
  assumes "wraps cr root wk sk" "crypto_ok cr" "length m = 16"
  shows "slice 0 16 (container m wk) = m"
    "slice 16 1672 (container m wk) = encode_header (wk_header wk)"
    "slice 1688 16 (container m wk) = wk_iv wk"
    "of_nat (le_value (slice 1704 8 (container m wk))) = wk_ciphertext_length wk"
    "slice 1712 (unat (wk_ciphertext_length wk)) (container m wk) = the (wk_ciphertext wk)"
    "slice (1712 + unat (wk_ciphertext_length wk)) 32 (container m wk) = wk_mac wk"
    "length (container m wk) = OVERHEAD + unat (wk_ciphertext_length wk)"
  using wraps_lengths [OF assms(1,2)] assms(3) le_value_bytes_word [of 8 "wk_ciphertext_length wk"]
  by (simp_all add: container_def encode_cipher_parameters_def slice_append1 slice_append2 OVERHEAD_def)

section \<open>Export\<close>

lemma key_store_export_success:
  assumes ok: "keys_ok cr (w_root_key w) ts" "uuid_ok c" "crypto_ok cr" "provisioned w"
    and m: "length m = 16"
    and r: "key_store_export cr True (Some cap) ts n (Some m) (Some c) w = (SA_STATUS_OK, out, len, ts', w')"
  obtains a count wk sk rk where "ts_entries ts (unat n) = Some (a, count, c)"
    "cells (ts_heap ts) a = Some wk" "wraps cr (w_root_key w) wk sk" "wraps cr (w_root_key w) rk sk"
    "wk_derivation_inputs rk = apply_mixin m"
    "SA_USAGE_FLAG_CACHEABLE \<in> usage_flag_set (usage_flags (hdr_rights (sk_header sk)))"
    "out = Some (container m rk)" "len = Some (1744 + wk_ciphertext_length rk)"
    "1744 + wk_ciphertext_length rk \<le> cap"
proof -
  note ts = keys_okD(1) [OF ok(1)]
  obtain s1 a st w1 where acq: "object_store_acquire True (ts_store ts) n (Some c) w = (s1, a, st, w1)"
    using prod_cases4 by blast
  note env = object_store_acquire_env [OF acq]
  have s1: "s1 = SA_STATUS_OK"
    using r acq by (auto simp: key_store_export_def Let_def split: if_splits prod.splits)
  obtain k where e: "ts_entries ts (unat n) = Some (a, k, c)"
    using reg.acquire_OK [OF ts_okD(1) [OF ts] ok(2) acq [unfolded s1]] by blast
  obtain wk where wk: "cells (ts_heap ts) a = Some wk" using ts_okD(3) [OF ts e] by blast
  obtain sk where sk: "wraps cr (w_root_key w) wk sk" using keys_okD(2) [OF ok(1) wk] by blast
  have h: "wk_header wk = sk_header sk" using sk by (simp add: wraps_def)
  have p1: "provisioned w1" using env ok(4) by (simp add: provisioned_def)
  have "\<exists>sk' w2 rk fr w3. wrapped_key_unwrap cr (Some wk) w1 = (Some sk', w2) \<and>
      wrapped_key_create cr (Some (apply_mixin m)) (Some sk') w2 = (Some rk, fr, w3) \<and>
      SA_USAGE_FLAG_CACHEABLE \<in> usage_flag_set (usage_flags (hdr_rights (sk_header sk))) \<and>
      out = Some (container m rk) \<and> len = Some (1744 + wk_ciphertext_length wk) \<and>
      1744 + wk_ciphertext_length wk \<le> cap"
    using r acq s1 wk h m
    by (auto simp: key_store_export_def container_def AES_BLOCK_SIZE_def SIZEOF_HEADER_def
        SIZEOF_CIPHER_PARAMETERS_def SIZEOF_SIGNATURE_def Let_def algebra_simps
        split: if_splits option.splits prod.splits)
  then obtain sk' w2 rk fr w3 where u: "wrapped_key_unwrap cr (Some wk) w1 = (Some sk', w2)"
    and cr: "wrapped_key_create cr (Some (apply_mixin m)) (Some sk') w2 = (Some rk, fr, w3)"
    and rest: "SA_USAGE_FLAG_CACHEABLE \<in> usage_flag_set (usage_flags (hdr_rights (sk_header sk)))"
      "out = Some (container m rk)" "len = Some (1744 + wk_ciphertext_length wk)"
      "1744 + wk_ciphertext_length wk \<le> cap" by blast
  have sk': "sk' = sk" "w_root_key w2 = w_root_key w"
    using wraps_unwrap_success [OF _ ok(3) p1 u, of sk] sk env by simp_all
  have "sk_valid sk" using sk by (simp add: wraps_def)
  then have "wraps cr (w_root_key w) rk sk \<and> wk_derivation_inputs rk = apply_mixin m"
    using wraps_create [OF cr _ _ apply_mixin_ok [OF m]] sk' ok(4) by (simp add: provisioned_def)
  moreover have "wk_ciphertext_length rk = wk_ciphertext_length wk"
    using sk calculation by (simp add: wraps_def)
  ultimately show ?thesis using rest(3,4) by (intro that [OF e wk sk _ _ rest(1,2)]) simp_all
qed

text \<open>Without failing calls, the owner of a cacheable key exports it into a buffer that is long enough.\<close>

lemma key_store_export_succeeds:
  assumes ok: "keys_ok cr (w_root_key w) ts" "ts_running ts" "uuid_ok c" "crypto_ok cr" "provisioned w" "w_faults w = []"
    and e: "ts_entries ts (unat n) = Some (a, k, c)" and wk: "cells (ts_heap ts) a = Some wk"
    and f: "SA_USAGE_FLAG_CACHEABLE \<in> usage_flag_set (usage_flags (hdr_rights (wk_header wk)))"
    and cap: "1744 + wk_ciphertext_length wk \<le> cap" and m: "length m = 16"
  shows "\<exists>out len ts' w'. key_store_export cr True (Some cap) ts n (Some m) (Some c) w = (SA_STATUS_OK, Some out, len, ts', w')"
proof -
  note ts = keys_okD(1) [OF ok(1)]
  obtain st where st: "ts_store ts = Some st" "store_ok st" "\<not> os_is_shutting_down st"
    using ts_ok_Some [OF ts] ok(2) by (auto simp: ts_running_def)
  obtain st' where acq: "object_store_acquire True (ts_store ts) n (Some c) w = (SA_STATUS_OK, a, Some st', w)"
    using object_store_acquire_owner [OF st(2) ok(3,6) _ st(3), of n a k] e st(1) by auto
  obtain sk where sk: "wraps cr (w_root_key w) wk sk" using keys_okD(2) [OF ok(1) wk] by blast
  have un: "wrapped_key_unwrap cr (Some wk) w = (Some sk, w)" by (rule wraps_unwrap [OF sk ok(4-6)])
  obtain rk w2 where cr: "wrapped_key_create cr (Some (apply_mixin m)) (Some sk) w = (Some rk, None, w2)"
    using wrapped_key_create_no_faults [OF ok(6,5,4) apply_mixin_ok [OF m]] by blast
  have bound: "\<not> n \<ge> object_store_size (ts_store ts)"
    using e st store_view_bound [of st "unat n"]
    by (simp add: object_store_size_def store_ok_length word_le_nat_alt)
  have fits: "\<not> 1744 + wk_ciphertext_length wk > cap" using cap by simp
  show ?thesis
    using acq bound st(1) wk un cr f fits m
    by (simp add: key_store_export_def AES_BLOCK_SIZE_def SIZEOF_HEADER_def SIZEOF_CIPHER_PARAMETERS_def
        SIZEOF_SIGNATURE_def Let_def algebra_simps split: prod.split)
qed

text \<open>
  only a key whose rights have the CACHEABLE flag leaves the store, and only for the TA that owns
  the handle. The container fits the caller's buffer, and the length that is reported is the number
  of bytes that were written, which is what a query without a buffer announces.
\<close>

theorem key_store_export_bounds:
  assumes "keys_ok cr (w_root_key w) ts" "uuid_ok c" "crypto_ok cr" "provisioned w" "length m = 16"
    and "key_store_export cr True (Some cap) ts n (Some m) (Some c) w = (SA_STATUS_OK, Some out, len, ts', w')"
  shows "\<exists>a count wk. ts_entries ts (unat n) = Some (a, count, c) \<and> cells (ts_heap ts) a = Some wk \<and>
    SA_USAGE_FLAG_CACHEABLE \<in> usage_flag_set (usage_flags (hdr_rights (wk_header wk))) \<and>
    length out \<le> unat cap \<and> len = Some (of_nat (length out)) \<and>
    length out = OVERHEAD + unat (wk_ciphertext_length wk)"
  using assms
proof (rule key_store_export_success)
  fix a count wk sk rk
  assume e: "ts_entries ts (unat n) = Some (a, count, c)" "cells (ts_heap ts) a = Some wk"
    and wr: "wraps cr (w_root_key w) wk sk" "wraps cr (w_root_key w) rk sk"
    and f: "SA_USAGE_FLAG_CACHEABLE \<in> usage_flag_set (usage_flags (hdr_rights (sk_header sk)))"
    and out: "Some out = Some (container m rk)" "len = Some (1744 + wk_ciphertext_length rk)"
      "1744 + wk_ciphertext_length rk \<le> cap"
  have len: "length out = OVERHEAD + unat (wk_ciphertext_length rk)"
    using container_slices(7) [OF wr(2) assms(3,5)] out(1) by simp
  have same: "wk_ciphertext_length rk = wk_ciphertext_length wk" "wk_header wk = sk_header sk"
    using wr by (simp_all add: wraps_def)
  have small: "unat (wk_ciphertext_length rk) < 2 ^ 33"
    using wraps_lengths(5) [OF wr(2) assms(3)] wr(2) pad_len_bounds(2) [of "length (sk_key sk)"]
    by (simp add: wraps_def sk_valid_def PADDED_SIZE_eq)
  have "unat (1744 + wk_ciphertext_length rk) = length out"
    using small by (simp add: unat_word_ariths len OVERHEAD_def)
  then have "length out \<le> unat cap" "of_nat (length out) = 1744 + wk_ciphertext_length rk"
    using out(3) unfolding word_le_nat_alt by (metis, metis of_nat_unat ucast_id)
  then show ?thesis using e f out(2) len same by auto
qed

section \<open>Import\<close>

lemma small_length: "n < 2 ^ 64 \<Longrightarrow> unat (of_nat n :: u64) = n"
  by (simp add: unat_of_nat take_bit_nat_eq_self)

text \<open>The length checks of the import, on the naturals behind the 64-bit lengths.\<close>

definition lengths_ok :: "u8 list \<Rightarrow> u64 \<Rightarrow> bool" where
  "lengths_ok bs n \<longleftrightarrow> 1760 \<le> length bs \<and> 16 \<le> unat n \<and> unat n mod 16 = 0 \<and> of_nat (length bs) = 1744 + n"

lemma lengths_ok_iff:
  assumes "length bs < 2 ^ 64"
  shows "lengths_ok bs n \<longleftrightarrow> length bs = OVERHEAD + unat n \<and> 16 \<le> unat n \<and> unat n mod 16 = 0"
proof -
  have "of_nat (length bs) = 1744 + n \<longleftrightarrow> length bs = 1744 + unat n" if "1760 \<le> length bs"
  proof
    assume "of_nat (length bs) = 1744 + n"
    then have "n = of_nat (length bs) - 1744" by simp
    also have "\<dots> = of_nat (length bs - 1744)" using that by simp
    finally have n: "n = of_nat (length bs - 1744)" .
    have "unat n = length bs - 1744" unfolding n by (rule small_length) (use assms in simp)
    then show "length bs = 1744 + unat n" using that by simp
  qed simp
  then show ?thesis by (auto simp: lengths_ok_def OVERHEAD_def)
qed

lemma import_exported_eq:
  assumes st: "ts_store ts = Some st" and n: "n = of_nat (le_value (slice 1704 8 bs))"
  shows "key_store_import_exported cr True ts (Some bs) (Some c) w =
    (if validate_header_format (Some (decode_header (slice 16 1672 bs))) \<and> lengths_ok bs n
     then (case unwrap_key cr (Some (apply_mixin (slice 0 16 bs))) (Some (slice 16 1672 bs))
         (Some (slice 1688 16 bs, n)) (Some (slice 1712 (unat n) bs)) (Some (slice (1712 + unat n) 32 bs)) w of
           (None, w) \<Rightarrow> (SA_STATUS_INVALID_KEY_FORMAT, INVALID_HANDLE, ts, w)
         | (sk, w) \<Rightarrow> key_store_import_stored_key cr True ts sk (Some c) w)
     else (SA_STATUS_INVALID_KEY_FORMAT, INVALID_HANDLE, ts, w))"
proof -
  note defs = key_store_import_exported_def AES_BLOCK_SIZE_def SIZEOF_HEADER_def SIZEOF_CIPHER_PARAMETERS_def
    SIZEOF_SIGNATURE_def lengths_ok_def
  show ?thesis
    using n by (simp add: defs st Let_def not_le split: prod.split option.split)
qed

lemma import_container:
  assumes wr: "wraps cr (w_root_key w) wk sk" and di: "wk_derivation_inputs wk = apply_mixin m" and m: "length m = 16"
    and ok: "crypto_ok cr" "provisioned w" "w_faults w = []"
    and st: "ts_store ts \<noteq> None"
  shows "key_store_import_exported cr True ts (Some (container m wk)) (Some c) w =
    key_store_import_stored_key cr True ts (Some sk) (Some c) w"
proof -
  let ?bs = "container m wk" and ?n = "wk_ciphertext_length wk"
  note sl = container_slices [OF wr ok(1) m]
  have sk: "sk_valid sk" "wk_header wk = sk_header sk" using wr by (simp_all add: wraps_def)
  have hd: "decode_header (encode_header (wk_header wk)) = sk_header sk"
    using sk by (simp add: sk_valid_def decode_encode_header)
  have n: "unat ?n = PADDED_SIZE (length (sk_key sk))" using wraps_lengths [OF wr ok(1)] by simp
  have len: "length ?bs < 2 ^ 64"
    using sl(7) n sk(1) pad_len_bounds(2) [of "length (sk_key sk)"]
    by (simp add: OVERHEAD_def PADDED_SIZE_eq sk_valid_def)
  have checks: "lengths_ok ?bs ?n"
    unfolding lengths_ok_iff [OF len] using sl(7) n PADDED_SIZE_facts [of "length (sk_key sk)"] by simp
  have "wrapped_key_unwrap cr (Some wk) w = (Some sk, w)" by (rule wraps_unwrap [OF wr ok])
  moreover have "wk_ciphertext wk = Some (the (wk_ciphertext wk))" using wr by (simp add: wraps_def)
  ultimately have u: "unwrap_key cr (Some (apply_mixin m)) (Some (encode_header (wk_header wk)))
      (Some (wk_iv wk, ?n)) (Some (the (wk_ciphertext wk))) (Some (wk_mac wk)) w = (Some sk, w)"
    by (simp add: wrapped_key_unwrap_def di)
  obtain s where s: "ts_store ts = Some s" using st by blast
  have valid: "validate_header_format (Some (decode_header (slice 16 1672 ?bs)))"
    using sl(2) hd sk by (simp add: sk_valid_def)
  show ?thesis
    unfolding import_exported_eq [OF s sl(4) [symmetric]]
    by (subst if_P) (use checks valid in blast, simp only: sl(1-3,5,6) u prod.case option.case)
qed

text \<open>
  C2: an exported container imports as the key it was made from: on a device with the same root key and
  without failing calls, into any store and for any TA, \<open>key_store_import_exported\<close> of the exported
  bytes is \<open>key_store_import_stored_key\<close> of the key that the exporting store's object wraps.
\<close>

theorem export_import_roundtrip:
  assumes "keys_ok cr (w_root_key w) ts" "uuid_ok c" "crypto_ok cr" "provisioned w" "length m = 16"
    and "key_store_export cr True (Some cap) ts n (Some m) (Some c) w = (SA_STATUS_OK, Some out, len, ts', w')"
    and "w_root_key w2 = w_root_key w" "w_faults w2 = []" "ts_store ts2 \<noteq> None"
  shows "\<exists>a count wk sk. ts_entries ts (unat n) = Some (a, count, c) \<and> cells (ts_heap ts) a = Some wk \<and>
    wraps cr (w_root_key w) wk sk \<and>
    key_store_import_exported cr True ts2 (Some out) (Some c2) w2 =
      key_store_import_stored_key cr True ts2 (Some sk) (Some c2) w2"
  using assms(1-6)
proof (rule key_store_export_success)
  fix a count wk sk rk
  assume e: "ts_entries ts (unat n) = Some (a, count, c)" "cells (ts_heap ts) a = Some wk" "wraps cr (w_root_key w) wk sk"
    and rk: "wraps cr (w_root_key w) rk sk" "wk_derivation_inputs rk = apply_mixin m" "Some out = Some (container m rk)"
  have "provisioned w2" using assms(4,7) by (simp add: provisioned_def)
  with import_container [of cr w2 rk sk m ts2 c2] rk assms(3,5,7-9)
  have "key_store_import_exported cr True ts2 (Some out) (Some c2) w2 =
      key_store_import_stored_key cr True ts2 (Some sk) (Some c2) w2" by simp
  with e show ?thesis by blast
qed

text \<open>
  C3: nothing else is accepted: if an import of a container succeeds, the container is exactly as long as
  its header, its parameters, the announced ciphertext and its signature (no overflow of the 64-bit sum
  can hide a longer announcement), the ciphertext is whole blocks, and the signature is the device's
  authentication code of header, parameters and ciphertext under the container's mixin.
\<close>

theorem import_exported_authentic:
  assumes "key_store_import_exported cr True ts (Some bs) (Some c) w = (SA_STATUS_OK, n, ts', w')"
    and "length bs < 2 ^ 64" "crypto_ok cr" "provisioned w"
  shows "\<exists>k. length bs = OVERHEAD + k \<and> 16 \<le> k \<and> k mod 16 = 0 \<and> le_value (slice 1704 8 bs) = k \<and>
    slice (1712 + k) 32 bs = container_mac cr (w_root_key w) (apply_mixin (slice 0 16 bs)) (slice 16 1672 bs)
      (slice 1688 16 bs) (of_nat k) (slice 1712 k bs)"
proof -
  let ?k = "le_value (slice 1704 8 bs)"
  let ?n = "of_nat ?k :: u64"
  obtain st where st: "ts_store ts = Some st"
    using assms(1) by (cases "ts_store ts") (auto simp: key_store_import_exported_def)
  obtain sk w1 where u: "unwrap_key cr (Some (apply_mixin (slice 0 16 bs))) (Some (slice 16 1672 bs))
      (Some (slice 1688 16 bs, ?n)) (Some (slice 1712 (unat ?n) bs)) (Some (slice (1712 + unat ?n) 32 bs)) w = (sk, w1)"
    using surj_pair by metis
  have all: "validate_header_format (Some (decode_header (slice 16 1672 bs))) \<and> lengths_ok bs ?n" (is ?c)
  proof (rule ccontr)
    assume no: "\<not> ?c"
    show False using assms(1) unfolding import_exported_eq [OF st refl] if_not_P [OF no] by simp
  qed
  have sk: "sk \<noteq> None"
    using assms(1) unfolding import_exported_eq [OF st refl] if_P [OF all] u by (auto split: option.splits)
  have len: "length bs = OVERHEAD + unat ?n" "16 \<le> unat ?n" "unat ?n mod 16 = 0"
    using all unfolding lengths_ok_iff [OF assms(2)] by blast+
  have "length (slice 1704 8 bs) = 8" using len by (intro length_slice) (simp add: OVERHEAD_def)
  then have k: "unat ?n = ?k" using le_value_bound [of "slice 1704 8 bs"] by (intro small_length) simp
  obtain key where key: "sk = Some key" using sk by blast
  have
    "memory_memcmp_constant (container_mac cr (w_root_key w) (apply_mixin (slice 0 16 bs)) (slice 16 1672 bs)
      (slice 1688 16 bs) ?n (take (unat ?n) (slice 1712 (unat ?n) bs))) (slice (1712 + unat ?n) 32 bs) 32 = 0"
    by (rule unwrap_key_success [OF u [unfolded key] assms(4)]) assumption
  moreover have "take (unat ?n) (slice 1712 (unat ?n) bs) = slice 1712 (unat ?n) bs"
    by (simp add: slice_def)
  moreover have "length (slice (1712 + unat ?n) 32 bs) = 32"
    using len by (intro length_slice) (simp add: OVERHEAD_def)
  ultimately have "slice (1712 + unat ?n) 32 bs = container_mac cr (w_root_key w) (apply_mixin (slice 0 16 bs))
      (slice 16 1672 bs) (slice 1688 16 bs) ?n (slice 1712 (unat ?n) bs)"
    using assms(3) by (subst (asm) memcmp_eq_0_iff) (simp_all add: container_mac_def crypto_ok_def)
  then show ?thesis using len unfolding k by (intro exI [of _ ?k] conjI refl)
qed

end
