(* ===== verification/Demo.thy ===== *)
theory Demo
  imports Mac_Store Cipher_Store Svp_Store Key_Export Mac_Context Ta_Mac
begin

text \<open>
  Concrete values the witnesses of the properties are evaluated on: a world without failing calls, a
  TA, an empty store of 32 slots, a key with all rights, and a toy crypto library that behaves as
  documented.
\<close>

section \<open>A world\<close>

definition demo_video :: video_output_state where
  "demo_video = \<lparr>analog_unprotected_count = 0, analog_cgmsa_count = 0, digital_unprotected_count = 0,
     digital_hdcp14_count = 0, digital_hdcp22_count = 1, svp_enabled = True\<rparr>"

definition demo_world :: world where
  "demo_world = \<lparr>w_faults = [], w_rand = [], w_time = 100, w_video = Some demo_video,
     w_root_key = replicate 16 1, w_common_root_key = [], w_device_id = 7,
     w_mem = (\<lambda>a. if a = 0x2000 then 1 else 0)\<rparr>"

definition demo_uuid :: sa_uuid where
  "demo_uuid = replicate 16 9"

lemma demo_world [simp]:
  "w_faults demo_world = []" "w_root_key demo_world = replicate 16 1" "w_time demo_world = 100"
  "w_video demo_world = Some demo_video" "provisioned demo_world"
  by (simp_all add: demo_world_def provisioned_def valid_ladder_key_iff)

lemma demo_uuid [simp]: "uuid_ok demo_uuid"
  by (simp add: demo_uuid_def uuid_ok_def)

section \<open>An empty store\<close>

definition demo_object_store :: object_store where
  "demo_object_store = the (fst (object_store_init True 32 demo_world))"

definition demo_store :: "'a typed_store" where
  "demo_store = \<lparr>ts_heap = empty_heap, ts_store = Some demo_object_store\<rparr>"

lemma demo_init: "object_store_init True 32 demo_world = (Some demo_object_store, demo_world)"
  by (simp add: demo_object_store_def object_store_init_def slots_init_def Let_def)

lemma demo_object_store [simp]:
  "store_ok demo_object_store" "store_view demo_object_store = (\<lambda>_. None)"
  "os_slot_count demo_object_store = 32" "\<not> os_is_shutting_down demo_object_store"
  by (rule object_store_init_ok [OF demo_init], simp add: SLOT_INVALID_def)+

lemma demo_store [simp]:
  "ts_ok demo_store" "ts_running demo_store" "ts_room demo_store" "ts_entries demo_store = (\<lambda>_. None)"
  "ts_store demo_store = Some demo_object_store" "ts_heap demo_store = empty_heap"
  by (auto simp: demo_store_def ts_ok_def reg.coherent_def ts_running_def ts_room_def object_store_size_def
      intro: exI [of _ 0])

text \<open>What is added to it gets some slot, and the store keeps running.\<close>

lemma demo_add:
  obtains n ts where "typed_add demo_store v demo_uuid demo_world = (SA_STATUS_OK, n, ts, demo_world)"
  using typed_add_room [of demo_store demo_world v demo_uuid] by auto

section \<open>A crypto library and a key\<close>

text \<open>A cipher that passes its input on, and whose tags are zero.\<close>

fun demo_evp :: "evp_call list \<Rightarrow> u8 list option" where
  "demo_evp calls = (case last calls of EVP_Update bs \<Rightarrow> Some bs | EVP_Get_Tag \<Rightarrow> Some (replicate 16 0) | _ \<Rightarrow> Some [])"

definition demo_crypto :: crypto where
  "demo_crypto = \<lparr>aes_ecb_decrypt = (\<lambda>k d. d), aes_cbc_encrypt = (\<lambda>k v d. rev d), aes_cbc_decrypt = (\<lambda>k v d. rev d),
     aes_gcm_decrypt = (\<lambda>k v a d. d), aes_gcm_tag = (\<lambda>k v a d. take 16 (a @ d @ replicate 16 0)),
     hmac_function = (\<lambda>alg k d. take (unat (digest_length alg)) (k @ d @ replicate 64 0)), cmac_function = (\<lambda>k d. take 16 (k @ d @ replicate 16 0)),
     digest_function = (\<lambda>alg d. take (unat (digest_length alg)) (d @ replicate 64 0)), evp_output = demo_evp,
     pkcs8_bits = (\<lambda>t k. Some 2048), rsa_pkcs1v15_plain = (\<lambda>k d. Some d), rsa_oaep_plain = (\<lambda>k a b l d. Some d),
     public_key_der = (\<lambda>t k. k), ec_key_curve = (\<lambda>k. SA_ELLIPTIC_CURVE_NIST_P256), ec_point_ok = (\<lambda>c p. True), ec_difference = (\<lambda>c k p q. q),
     generated_key = (\<lambda>r rs. Some (replicate 48 3, rs)), public_key_type = (\<lambda>k. Some EVP_PKEY_DH), shared_secret = (\<lambda>k p. take 128 (k @ p @ replicate 128 0)),
     rsa_signature = (\<lambda>k s pre d rs. Some (replicate 256 2, rs)), ecdsa_signature = (\<lambda>k alg pre d rs. Some ((1, 2), rs)),
     eddsa_signature = (\<lambda>k d. Some (replicate 64 2)), pkcs12_secret = (\<lambda>name. (True, replicate 16 1, [0x67]))\<rparr>"

lemma demo_crypto [simp]: "crypto_ok demo_crypto"
  by (auto simp: demo_crypto_def crypto_ok_def)

definition demo_rights :: sa_rights where
  "demo_rights = \<lparr>rights_id = replicate 64 0, usage_flags = - 1, child_usage_flags = 0, not_before = 0,
     not_on_or_after = 0xFFFFFFFF, allowed_tas = ALL_MATCH # replicate 31 NO_MATCH\<rparr>"

definition demo_key :: stored_key where
  "demo_key = \<lparr>sk_header = \<lparr>hdr_magic = MAGIC, hdr_rights = demo_rights, hdr_type = SA_KEY_TYPE_SYMMETRIC,
     hdr_type_parameters = no_parameters, hdr_size = 16\<rparr>, sk_key = replicate 16 5\<rparr>"

lemma all_ones_bit: "bit (- 1 :: u64) n \<longleftrightarrow> n < 64"
  by (simp add: bit_minus_1_iff possible_bit_def)

lemma demo_tas_ok: "tas_ok demo_rights"
  by (simp add: tas_ok_def demo_rights_def MAX_NUM_ALLOWED_TA_IDS_def uuid_ok_def NO_MATCH_def ALL_MATCH_def)

lemma demo_rights_may_use: "may_use demo_rights demo_uuid demo_world"
proof -
  have "ALL_MATCH \<noteq> NO_MATCH" by (simp add: ALL_MATCH_def NO_MATCH_def)
  then have "rights_allowed_uuid (Some demo_rights) (Some demo_uuid)"
    using rights_allowed_uuid_loop_iff [of "allowed_tas demo_rights" demo_uuid] demo_tas_ok
    by (auto simp: rights_allowed_uuid_def tas_ok_def demo_rights_def)
  then show ?thesis
    by (simp add: may_use_def demo_rights_def within_validity_def outputs_allowed_def all_ones_bit word_less_nat_alt
        demo_video_def)
qed

lemma demo_header_wf: "header_wf (sk_header demo_key)"
  by (simp add: header_wf_def rights_wf_def demo_key_def demo_rights_def MAGIC_def no_parameters_def uuid_ok_def
      NO_MATCH_def ALL_MATCH_def)

lemma demo_key [simp]: "sk_valid demo_key"
  by (simp add: sk_valid_def validate_header_iff [OF demo_header_wf] demo_header_wf,
      simp add: demo_key_def demo_rights_def rights_validate_format_def strnlen_def supports_any_iff)

lemma demo_keys_ok [simp]: "keys_ok demo_crypto root demo_store"
  by (simp add: keys_ok_def empty_heap_def)

end
