(* ===== verification/Witnesses.thy ===== *)
theory Witnesses
  imports Demo
begin

text \<open>
  For every property that has hypotheses, a closed instance: concrete arguments on which the hypotheses
  hold, evaluated by the kernel, and what the property says there.
\<close>

section \<open>Rights and key types\<close>

theorem rights_allowed_uuid_iff_witness: "rights_allowed_uuid (Some demo_rights) (Some demo_uuid)"
  using rights_allowed_uuid_iff [OF demo_tas_ok demo_uuid] by (simp add: demo_rights_def)

theorem video_rights_monotone_witness: "rights_allowed_video_output_state (Some demo_rights) (Some demo_video)"
proof (rule video_rights_monotone [of "demo_rights\<lparr>usage_flags := 2 ^ 10\<rparr>"])
  have b: "bit (1024 :: u64) n \<longleftrightarrow> n = 10" for n
    using bit_exp_iff [where 'a = u64, of 10 n] by (auto simp: possible_bit_def)
  show "usage_flag_set (usage_flags (demo_rights\<lparr>usage_flags := 2 ^ 10\<rparr>)) \<subseteq> usage_flag_set (usage_flags demo_rights)"
    by (auto simp: demo_rights_def all_ones_bit)
  show "rights_allowed_video_output_state (Some (demo_rights\<lparr>usage_flags := 2 ^ 10\<rparr>)) (Some demo_video)"
    by (simp add: rights_allowed_video_output_state_iff outputs_allowed_def demo_video_def b)
qed

theorem key_usage_flags_exact_witness:
  "\<exists>flags'. key_usage_to_usage_flags (Some 0) 2 SA_KEY_TYPE_SYMMETRIC AES_SUBTYPE = (SA_STATUS_OK, Some flags') \<and>
    usage_flag_set flags' \<inter> Collect key_usage_flag = {SA_USAGE_FLAG_UNWRAP}"
proof -
  obtain r where r: "key_usage_to_usage_flags (Some 0) 2 SA_KEY_TYPE_SYMMETRIC AES_SUBTYPE = (SA_STATUS_OK, r)"
    by (simp add: key_usage_to_usage_flags_def Let_def)
  from key_usage_flags_exact [OF r] r show ?thesis by (auto simp: usage_of_container_def)
qed

theorem convert_uuid_roundtrip_witness: "convert_uuid (uuid_text demo_uuid) (replicate 16 0) = (True, demo_uuid)"
  by (rule convert_uuid_roundtrip) simp_all

theorem convert_uuid_accepts_short_witness:
  "convert_uuid (concat (map (\<lambda>b. 0x2D # hex_byte b) (replicate 12 7))) (replicate 16 1) =
    (True, replicate 12 7 @ replicate 4 1)"
  using convert_uuid_accepts_short [of "replicate 12 7" "replicate 16 1"] by simp

theorem key_type_supports_any_iff_witness:
  "key_type_supports_any SA_KEY_TYPE_EC (ucast (curve_code SA_ELLIPTIC_CURVE_NIST_P384)) 48"
  using key_type_supports_any_iff [of SA_ELLIPTIC_CURVE_NIST_P384 SA_KEY_TYPE_EC 48] by simp

section \<open>Stored keys, headers, padding\<close>


theorem key_only_parent_keeps_outputs_witness:
  "SA_USAGE_FLAG_ALLOWED_ANALOG_UNPROTECTED \<in> usage_flag_set (usage_flags
    (restrict_child_rights demo_rights (Some (demo_rights\<lparr>usage_flags := 0, child_usage_flags := 1\<rparr>))))"
proof -
  have k: "key_only_parent (demo_rights\<lparr>usage_flags := 0, child_usage_flags := 1\<rparr>)"
    by (simp add: key_only_parent_def)
  have "SA_USAGE_FLAG_ALLOWED_ANALOG_UNPROTECTED \<in> usage_flag_set (usage_flags demo_rights) \<inter> Collect output_protection"
    by (simp add: demo_rights_def all_ones_bit output_protection_def)
  with key_only_parent_keeps_outputs [OF k, of demo_rights] show ?thesis by blast
qed

theorem stored_key_create_valid_witness:
  "\<exists>k. stored_key_create True (Some demo_rights) None SA_KEY_TYPE_SYMMETRIC no_parameters 16 (Some (replicate 16 5)) demo_world =
    (SA_STATUS_OK, Some k, demo_world) \<and> sk_key k = replicate 16 5 \<and> hdr_size (sk_header k) = 16"
proof -
  have r: "stored_key_create True (Some demo_rights) None SA_KEY_TYPE_SYMMETRIC no_parameters 16 (Some (replicate 16 5)) demo_world =
    (SA_STATUS_OK, Some demo_key, demo_world)"
    using stored_key_create_no_faults [OF demo_world(1) demo_key] by (simp add: demo_key_def)
  from stored_key_create_valid [OF r] have "sk_key demo_key = replicate 16 5" by simp
  with r show ?thesis by (auto simp: demo_key_def)
qed

theorem header_roundtrip_witness: "decode_header (encode_header (sk_header demo_key)) = sk_header demo_key"
  using header_roundtrip [OF demo_header_wf] by blast

theorem pad_roundtrip_witness:
  "\<exists>padded len. pad True (Some [1, 2, 3]) demo_world = (Some padded, len, demo_world) \<and> len = Some 16"
proof -
  obtain padded len w' where r: "pad True (Some [1, 2, 3]) demo_world = (Some padded, len, w')" "w' = demo_world"
    by (auto simp: pad_success)
  then show ?thesis using pad_roundtrip [OF r(1)] by (auto simp: pad_success PADDED_SIZE_def AES_BLOCK_SIZE_def)
qed

theorem pad_check_exact_witness: "pad_check_pkcs7 True (Some (replicate 12 7 @ replicate 4 4)) = (True, Some 4)"
  using pad_check_exact [of "replicate 12 7 @ replicate 4 4" 4] by auto

section \<open>SVP buffers\<close>

abbreviation demo_buffer :: svp_buffer where
  "demo_buffer \<equiv> \<lparr>svp_memory = 4096, svp_size = 16\<rparr>"

abbreviation demo_offset :: sa_svp_offset where
  "demo_offset \<equiv> \<lparr>out_offset = 8, in_offset = 1, offset_length = 2\<rparr>"

lemma demo_write:
  "svp_write (Some demo_buffer) (Some [1, 2, 3]) (Some [demo_offset]) m =
    (True, svp_write_loop m 4096 [1, 2, 3] [demo_offset])"
  by (simp add: svp_write_def svp_validate_buffer_def add_overflow_def)

theorem svp_write_bounds_witness:
  "fst (svp_write (Some demo_buffer) (Some [1, 2, 3]) (Some [demo_offset]) (\<lambda>_. 0)) \<and>
    svp_write_loop (\<lambda>_. 0) 4096 [1, 2, 3] [demo_offset] 4095 = 0"
proof -
  have "\<not> inside demo_buffer 4095"
    by (simp add: inside_def unsigned_minus_1_eq_mask mask_eq_exp_minus_1)
  with svp_write_bounds [OF _ demo_write [of "\<lambda>_. 0"]] show ?thesis by (simp add: demo_write)
qed

theorem svp_copy_bounds_witness:
  "snd (svp_copy (Some demo_buffer) (Some demo_buffer) (Some [demo_offset]) (\<lambda>_. 0)) 0 = 0"
  by (subst svp_copy_bounds) (simp_all add: inside_def unat_word_ariths)


theorem svp_validation_ineffective_witness:
  "svp_validate_buffer (Some \<lparr>svp_memory = - 1, svp_size = 16\<rparr>)"
proof -
  have "\<not> memory_is_valid_svp (- 1) 16"
    by (simp add: memory_is_valid_svp_def add_overflow_def unsigned_minus_1_eq_mask mask_eq_exp_minus_1)
  then show ?thesis using svp_validation_ineffective [of "- 1" 16] by simp
qed

section \<open>Slots and the object store\<close>

theorem slots_allocate_free_witness:
  "fst (slots_allocate (Some \<lparr>bitfield = [0], slot_count = 32, block_count = 1\<rparr>)) = 31 \<and>
    pool_taken (snd (slots_allocate (Some \<lparr>bitfield = [0], slot_count = 32, block_count = 1\<rparr>))) = {31}"
proof -
  let ?s = "\<lparr>bitfield = [0], slot_count = 32, block_count = 1\<rparr>"
  have ok: "slots_ok ?s" by (simp add: slots_ok_def SLOT_INVALID_def)
  have r: "slots_allocate (Some ?s) = (31, Some \<lparr>bitfield = [1], slot_count = 32, block_count = 1\<rparr>)"
    by (simp add: slots_allocate_def ffs_def upt_rec)
  have i: "(31 :: slot_t) \<noteq> SLOT_INVALID" and e: "slots_taken ?s = {}"
    by (auto simp: SLOT_INVALID_def slots_taken_def bits_of_def)
  show ?thesis
    using slots_allocate_free [OF ok r] i unfolding r e by simp
qed

text \<open>A store with one object, not in use.\<close>

abbreviation demo_filled :: object_store where
  "demo_filled \<equiv> the (fst (snd (snd (object_store_add True (Some demo_object_store) 1 (Some demo_uuid) demo_world))))"

lemma demo_filled:
  obtains n where "store_ok demo_filled" "store_view demo_filled (unat n) = Some (1, 0, demo_uuid)"
    "n < os_slot_count demo_filled" "\<not> os_is_shutting_down demo_filled"
proof -
  obtain n st where r: "object_store_add True (Some demo_object_store) 1 (Some demo_uuid) demo_world =
      (SA_STATUS_OK, n, Some st, demo_world)"
    using object_store_add_room [of demo_object_store demo_world 0 1 demo_uuid] by auto
  from demo_object_store(1) demo_uuid r show ?thesis
    by (rule object_store_add_result) (use r in \<open>auto simp: same_frame_def intro!: that [of n]\<close>)
qed

theorem object_store_remove_returns_witness:
  "\<exists>n r. store_view demo_filled (unat n) = Some (1, 0, demo_uuid) \<and>
    object_store_remove [] (Some demo_filled) n (Some demo_uuid) demo_world = Some r"
proof (rule demo_filled)
  fix n :: slot_t
  assume d: "store_ok demo_filled" "store_view demo_filled (unat n) = Some (1, 0, demo_uuid)"
    "n < os_slot_count demo_filled" "\<not> os_is_shutting_down demo_filled"
  show ?thesis
    using object_store_remove_returns [OF d(1) demo_uuid d(3) demo_world(1) d(4), of "[]" 0] d(2) by fastforce
qed

theorem object_store_remove_frees_unused_witness:
  "\<exists>n r. object_store_remove [] (Some demo_filled) n (Some demo_uuid) demo_world = Some (SA_STATUS_OK, 1, r) \<and>
    store_view demo_filled (unat n) = Some (1, 0, demo_uuid)"
proof (rule demo_filled)
  fix n :: slot_t
  assume d: "store_ok demo_filled" "store_view demo_filled (unat n) = Some (1, 0, demo_uuid)"
    "n < os_slot_count demo_filled" "\<not> os_is_shutting_down demo_filled"
  obtain st' where r: "object_store_remove [] (Some demo_filled) n (Some demo_uuid) demo_world =
      Some (SA_STATUS_OK, 1, Some st', demo_world)"
    using object_store_remove_unused [OF d(1) demo_uuid d(3) demo_world(1) d(4,2)] by blast
  from object_store_remove_frees_unused [OF d(1) demo_uuid d(3) demo_world(1) d(4) _ r] r show ?thesis by auto
qed

theorem object_store_acquire_owner_only_witness:
  "\<exists>n. store_view demo_filled (unat n) = Some (1, 0, demo_uuid) \<and>
    fst (object_store_acquire True (Some demo_filled) n (Some (replicate 16 0)) demo_world) \<noteq> SA_STATUS_OK"
proof (rule demo_filled)
  fix n :: slot_t
  assume d: "store_ok demo_filled" "store_view demo_filled (unat n) = Some (1, 0, demo_uuid)"
  have c: "uuid_ok (replicate 16 0)" "demo_uuid \<noteq> replicate 16 0" by (simp_all add: uuid_ok_def demo_uuid_def)
  obtain s a st' w' where r: "object_store_acquire True (Some demo_filled) n (Some (replicate 16 0)) demo_world = (s, a, st', w')"
    using prod_cases4 by blast
  from object_store_acquire_owner_only [OF d(1) c(1) d(2) c(2) r] r d(2) show ?thesis by auto
qed

section \<open>MAC, cipher and SVP stores\<close>

lemma demo_hmac:
  obtains n ts where "mac_store_add_hmac_context True demo_store 5 (Some demo_uuid) demo_world =
    (SA_STATUS_OK, n, [], ts, demo_world)"
proof -
  let ?m = "\<lparr>lock_depth = 0, mac_algorithm = SA_MAC_ALGORITHM_HMAC, hmac_context = 5, cmac_context = NULL\<rparr>"
  obtain n ts where "typed_add demo_store ?m demo_uuid demo_world = (SA_STATUS_OK, n, ts, demo_world)" by (rule demo_add)
  then show ?thesis
    by (intro that [of n ts]) (simp add: mac_store_add_hmac_context_def mac_allocate_def Let_def)
qed

theorem mac_add_ownership_witness:
  "\<exists>n ts. mac_store_add_hmac_context True demo_store 5 (Some demo_uuid) demo_world = (SA_STATUS_OK, n, [], ts, demo_world) \<and>
    handed_over demo_store (Hmac_Context 5) demo_uuid SA_STATUS_OK n ts"
proof (rule demo_hmac)
  fix n ts
  assume r: "mac_store_add_hmac_context True demo_store 5 (Some demo_uuid) demo_world = (SA_STATUS_OK, n, [], ts, demo_world)"
  from mac_add_ownership [OF demo_store(1) demo_uuid, of 5 demo_world] r show ?thesis by auto
qed

theorem mac_add_remove_roundtrip_witness:
  "\<exists>n ts1 ts2. mac_store_add_hmac_context True demo_store 5 (Some demo_uuid) demo_world = (SA_STATUS_OK, n, [], ts1, demo_world) \<and>
    mac_store_remove [] ts1 n (Some demo_uuid) demo_world = Some (SA_STATUS_OK, [Hmac_Context 5], ts2, demo_world)"
proof (rule demo_hmac)
  fix n ts
  assume r: "mac_store_add_hmac_context True demo_store 5 (Some demo_uuid) demo_world = (SA_STATUS_OK, n, [], ts, demo_world)"
  from mac_add_remove_roundtrip [OF demo_store(1) demo_uuid demo_store(2) demo_world(1) r] r show ?thesis by blast
qed

theorem cipher_add_symmetric_ownership_witness:
  "\<exists>n ts. cipher_handed_over demo_store [Symmetric_Context 5, Cipher_Key demo_key] demo_uuid SA_STATUS_OK n ts"
proof -
  let ?r = "cipher_store_add_symmetric_context True demo_store SA_CIPHER_ALGORITHM_AES_CTR SA_CIPHER_MODE_ENCRYPT 5
    (Some demo_key) (Some demo_uuid) demo_world"
  let ?c = "\<lparr>lock_depth = 0, cipher_algorithm = SA_CIPHER_ALGORITHM_AES_CTR, cipher_mode = SA_CIPHER_MODE_ENCRYPT,
    symmetric_context = 5, cipher_stored_key = Some demo_key, oaep_digest_algorithm = SA_DIGEST_ALGORITHM_SHA1,
    oaep_mgf1_digest_algorithm = SA_DIGEST_ALGORITHM_SHA1, oaep_label = None, oaep_label_length = 0\<rparr>"
  obtain n ts where "typed_add demo_store ?c demo_uuid demo_world = (SA_STATUS_OK, n, ts, demo_world)" by (rule demo_add)
  then have r: "?r = (SA_STATUS_OK, n, [], ts, demo_world)"
    by (simp add: cipher_store_add_symmetric_context_def cipher_alloc_def Let_def)
  have "ciphers_ok demo_store" by (simp add: ciphers_ok_def empty_heap_def)
  from cipher_add_symmetric_ownership [OF this demo_uuid r] show ?thesis by blast
qed

theorem cipher_add_without_key_frees_context_witness:
  "cipher_store_add_symmetric_context True demo_store SA_CIPHER_ALGORITHM_AES_CTR SA_CIPHER_MODE_ENCRYPT 5
    None (Some demo_uuid) demo_world = (SA_STATUS_INTERNAL_ERROR, INVALID_HANDLE, [Symmetric_Context 5], demo_store, demo_world)"
  by (rule cipher_add_without_key_frees_context) (simp_all add: symmetric_algorithm_def)

lemma demo_svp:
  assumes "mem' \<noteq> 0" "svp_create_buffer True mem' 16 demo_world = (True, b, demo_world)"
  obtains n ts where "svp_store_create True demo_store mem' 16 (Some demo_uuid) demo_world =
    (SA_STATUS_OK, n, [], ts, demo_world)"
proof -
  obtain n ts where "typed_add demo_store \<lparr>lock_depth = 0, svp_buf = b\<rparr> demo_uuid demo_world =
    (SA_STATUS_OK, n, ts, demo_world)" by (rule demo_add)
  with assms show ?thesis
    by (intro that [of n ts]) (simp add: svp_store_create_def svp_create_def svp_supported_def Let_def)
qed

theorem svp_create_release_roundtrip_witness:
  "\<exists>n ts1 ts2. svp_store_create True demo_store 4096 16 (Some demo_uuid) demo_world = (SA_STATUS_OK, n, [], ts1, demo_world) \<and>
    svp_store_release [] True True ts1 n (Some demo_uuid) demo_world = Some (SA_STATUS_OK, Some (4096, 16), ts2, demo_world)"
proof -
  have v: "memory_is_valid_svp 4096 16" by (simp add: memory_is_valid_svp_def add_overflow_def)
  obtain n ts where r: "svp_store_create True demo_store 4096 16 (Some demo_uuid) demo_world = (SA_STATUS_OK, n, [], ts, demo_world)"
    using demo_svp [OF _ svp_create_buffer_valid [OF v demo_world(1)]] by auto
  from svp_create_release_roundtrip [OF demo_store(1) demo_uuid demo_store(2) demo_world(1) v r] r show ?thesis by blast
qed


section \<open>Key ladder and key store\<close>

theorem otp_wrap_unwrap_roundtrip_witness:
  "\<exists>c. otp_wrap_aes_cbc demo_crypto True (Some zero_ladder_inputs) (Some (replicate 16 3)) (Some (replicate 16 0)) demo_world =
      (SA_STATUS_OK, Some c, demo_world) \<and>
    otp_unwrap_aes_cbc demo_crypto True (Some zero_ladder_inputs) (Some c) (Some (replicate 16 0)) demo_world =
      (SA_STATUS_OK, Some (replicate 16 3), demo_world)"
proof -
  have kl: "inputs_ok zero_ladder_inputs" by (simp add: inputs_ok_def zero_ladder_inputs_def)
  obtain c where r: "otp_wrap_aes_cbc demo_crypto True (Some zero_ladder_inputs) (Some (replicate 16 3))
      (Some (replicate 16 0)) demo_world = (SA_STATUS_OK, Some c, demo_world)"
    using otp_wrap_no_faults [OF demo_world(1,5) demo_crypto kl] by auto
  from otp_wrap_unwrap_roundtrip [OF demo_crypto kl demo_world(5) r demo_world(1) refl] r show ?thesis by blast
qed

theorem device_id_checked_once_witness:
  "\<exists>w1. get_root_key demo_crypto 32 (demo_world\<lparr>w_root_key := []\<rparr>) = (None, w1) \<and>
    get_root_key demo_crypto 32 w1 = (Some (replicate 16 1), w1)"
proof -
  let ?w = "demo_world\<lparr>w_root_key := []\<rparr>"
  have p: "pkcs12_secret demo_crypto [] = (True, replicate 16 1, [0x67])" by (simp add: demo_crypto_def)
  have d: "convert_str_to_int [0x67] = 0" by (simp add: convert_str_to_int_def lower_ascii_def)
  obtain k w1 where r: "get_root_key demo_crypto 32 ?w = (k, w1)" by fastforce
  from device_id_checked_once [OF p _ d _ _ r] r show ?thesis by simp
qed

lemma demo_wrapped:
  obtains wk w1 where "wrapped_key_create demo_crypto (Some (apply_mixin DEFAULT_MIXIN)) (Some demo_key) demo_world = (Some wk, None, w1)"
  using wrapped_key_create_no_faults [OF demo_world(1,5) demo_crypto apply_mixin_ok [of DEFAULT_MIXIN], of demo_key]
  by (auto simp: DEFAULT_MIXIN_def)

theorem wrapped_key_roundtrip_witness:
  "\<exists>wk w1. wrapped_key_create demo_crypto (Some (apply_mixin DEFAULT_MIXIN)) (Some demo_key) demo_world = (Some wk, None, w1) \<and>
    wrapped_key_unwrap demo_crypto (Some wk) demo_world = (Some demo_key, demo_world)"
proof (rule demo_wrapped)
  fix wk w1
  assume r: "wrapped_key_create demo_crypto (Some (apply_mixin DEFAULT_MIXIN)) (Some demo_key) demo_world = (Some wk, None, w1)"
  have di: "di_ok (apply_mixin DEFAULT_MIXIN)" by (rule apply_mixin_ok) (simp add: DEFAULT_MIXIN_def)
  from wrapped_key_roundtrip [OF demo_crypto demo_world(5) demo_key di r refl] r demo_world(1) show ?thesis by blast
qed

theorem failed_pad_faults_witness:
  "\<exists>wk w'. wrapped_key_create demo_crypto (Some (apply_mixin DEFAULT_MIXIN)) (Some demo_key) (demo_world\<lparr>w_faults := [True, False]\<rparr>) =
    (None, Some wk, w') \<and> wrapped_key_free_faults wk"
  by (rule failed_pad_faults) (simp_all add: demo_key_def)

lemma demo_import:
  obtains n ts w where "key_store_import_stored_key demo_crypto True demo_store (Some demo_key) (Some demo_uuid) demo_world =
    (SA_STATUS_OK, n, ts, w)" "w_faults w = []" "w_root_key w = w_root_key demo_world"
  using import_stored_key_succeeds [OF demo_store(1,3) demo_world(1,5) demo_key demo_crypto, of demo_uuid] by blast

theorem key_store_import_keeps_keys_ok_witness:
  "\<exists>n ts w. key_store_import_stored_key demo_crypto True demo_store (Some demo_key) (Some demo_uuid) demo_world =
    (SA_STATUS_OK, n, ts, w) \<and> keys_ok demo_crypto (w_root_key demo_world) ts"
proof (rule demo_import)
  fix n ts w
  assume r: "key_store_import_stored_key demo_crypto True demo_store (Some demo_key) (Some demo_uuid) demo_world = (SA_STATUS_OK, n, ts, w)"
  from key_store_import_keeps_keys_ok [OF demo_keys_ok demo_uuid demo_crypto demo_world(5) demo_key r] r show ?thesis by blast
qed

theorem key_store_import_unwrap_witness:
  "\<exists>n ts1 w1 ts2. key_store_import_stored_key demo_crypto True demo_store (Some demo_key) (Some demo_uuid) demo_world =
      (SA_STATUS_OK, n, ts1, w1) \<and>
    key_store_unwrap demo_crypto True ts1 n (Some demo_uuid) w1 = (SA_STATUS_OK, Some demo_key, ts2, w1)"
proof (rule demo_import)
  fix n ts w
  assume r: "key_store_import_stored_key demo_crypto True demo_store (Some demo_key) (Some demo_uuid) demo_world = (SA_STATUS_OK, n, ts, w)"
  have use: "may_use (hdr_rights (sk_header demo_key)) demo_uuid demo_world"
    using demo_rights_may_use by (simp add: demo_key_def)
  from key_store_import_unwrap [OF demo_keys_ok demo_store(2) demo_uuid demo_crypto demo_world(5) demo_key demo_world(1) r use] r
  show ?thesis by blast
qed

text \<open>A key store with the key in it.\<close>

lemma demo_filled_keys:
  obtains n ts a wk where "keys_ok demo_crypto (w_root_key demo_world) ts" "ts_running ts"
    "ts_entries ts (unat (n :: u64)) = Some (a, 0, demo_uuid)" "cells (ts_heap ts) a = Some wk"
    "wraps demo_crypto (w_root_key demo_world) wk demo_key"
proof (rule demo_wrapped)
  fix wk w1
  assume r: "wrapped_key_create demo_crypto (Some (apply_mixin DEFAULT_MIXIN)) (Some demo_key) demo_world = (Some wk, None, w1)"
  have wr: "wraps demo_crypto (w_root_key demo_world) wk demo_key"
    using wraps_create [OF r demo_world(5) demo_key apply_mixin_ok] by (simp add: DEFAULT_MIXIN_def)
  obtain n ts where add: "typed_add demo_store wk demo_uuid demo_world = (SA_STATUS_OK, n, ts, demo_world)" by (rule demo_add)
  note ok = typed_add_keys_ok [OF demo_keys_ok demo_uuid add wr] typed_add_quiet(2) [OF add demo_world(1) demo_store(2)]
  from demo_store(1) demo_uuid add show ?thesis
    by (rule typed_add_result) (use ok wr in \<open>auto intro: that [of ts n]\<close>)
qed

abbreviation demo_mixin :: "u8 list" where
  "demo_mixin \<equiv> replicate 16 2"

lemma demo_exported:
  obtains n ts out len ts' w' where "keys_ok demo_crypto (w_root_key demo_world) ts"
    "key_store_export demo_crypto True (Some 4096) ts n (Some demo_mixin) (Some demo_uuid) demo_world = (SA_STATUS_OK, Some out, len, ts', w')"
proof (rule demo_filled_keys)
  fix ts and n :: u64 and a wk
  assume d: "keys_ok demo_crypto (w_root_key demo_world) ts" "ts_running ts"
    "ts_entries ts (unat n) = Some (a, 0, demo_uuid)" "cells (ts_heap ts) a = Some wk"
    "wraps demo_crypto (w_root_key demo_world) wk demo_key"
  have len: "wk_ciphertext_length wk = 32"
    using d(5) by (simp add: wraps_def demo_key_def PADDED_SIZE_def AES_BLOCK_SIZE_def)
  have f: "SA_USAGE_FLAG_CACHEABLE \<in> usage_flag_set (usage_flags (hdr_rights (wk_header wk)))"
    using d(5) by (simp add: wraps_def demo_key_def demo_rights_def all_ones_bit)
  have "length demo_mixin = 16" "1744 + wk_ciphertext_length wk \<le> 4096" using len by simp_all
  from key_store_export_succeeds [OF d(1,2) demo_uuid demo_crypto demo_world(5,1) d(3,4) f this(2,1)] d(1) that
  show ?thesis by blast
qed


theorem key_store_unwrap_enforces_rights_witness:
  "\<exists>n ts1 w1 ts2. key_store_unwrap demo_crypto True ts1 n (Some demo_uuid) w1 = (SA_STATUS_OK, Some demo_key, ts2, w1) \<and>
    may_use demo_rights demo_uuid w1"
proof (rule demo_filled_keys)
  fix ts and n :: u64 and a wk
  assume d: "keys_ok demo_crypto (w_root_key demo_world) ts" "ts_running ts"
    "ts_entries ts (unat n) = Some (a, 0, demo_uuid)" "cells (ts_heap ts) a = Some wk"
    "wraps demo_crypto (w_root_key demo_world) wk demo_key"
  have use: "may_use (hdr_rights (wk_header wk)) demo_uuid demo_world"
    using demo_rights_may_use d(5) by (simp add: wraps_def demo_key_def)
  obtain ts2 where r: "key_store_unwrap demo_crypto True ts n (Some demo_uuid) demo_world = (SA_STATUS_OK, Some demo_key, ts2, demo_world)"
    using key_store_unwrap_succeeds [OF d(1,2) demo_uuid demo_crypto demo_world(5,1) d(3,4,5) use] by auto
  from key_store_unwrap_enforces_rights [OF d(1) demo_uuid demo_crypto demo_world(5) r] r demo_rights_may_use
  show ?thesis by blast
qed

theorem key_store_export_bounds_witness:
  "\<exists>n ts out len ts' w'. key_store_export demo_crypto True (Some 4096) ts n (Some demo_mixin) (Some demo_uuid) demo_world =
    (SA_STATUS_OK, Some out, len, ts', w') \<and> length out \<le> 4096"
proof (rule demo_exported)
  fix n ts out len ts' w'
  assume d: "keys_ok demo_crypto (w_root_key demo_world) ts"
    and r: "key_store_export demo_crypto True (Some 4096) ts n (Some demo_mixin) (Some demo_uuid) demo_world = (SA_STATUS_OK, Some out, len, ts', w')"
  have "length demo_mixin = 16" by simp
  from key_store_export_bounds [OF d demo_uuid demo_crypto demo_world(5) this r] have "length out \<le> unat (4096 :: u64)" by blast
  then have "length out \<le> 4096" by simp
  with r show ?thesis by blast
qed

theorem export_import_roundtrip_witness:
  "\<exists>n ts out len ts' w' sk. key_store_export demo_crypto True (Some 4096) ts n (Some demo_mixin) (Some demo_uuid) demo_world =
      (SA_STATUS_OK, Some out, len, ts', w') \<and>
    key_store_import_exported demo_crypto True demo_store (Some out) (Some demo_uuid) demo_world =
      key_store_import_stored_key demo_crypto True demo_store (Some sk) (Some demo_uuid) demo_world"
proof (rule demo_exported)
  fix n ts out len ts' w'
  assume d: "keys_ok demo_crypto (w_root_key demo_world) ts"
    and r: "key_store_export demo_crypto True (Some 4096) ts n (Some demo_mixin) (Some demo_uuid) demo_world = (SA_STATUS_OK, Some out, len, ts', w')"
  have st: "ts_store (demo_store :: wrapped_key typed_store) \<noteq> None" by simp
  from export_import_roundtrip [OF d demo_uuid demo_crypto demo_world(5) _ r refl demo_world(1) st, of demo_uuid] r
  show ?thesis by (metis length_replicate)
qed

theorem import_exported_authentic_witness:
  "\<exists>bs n ts w. key_store_import_exported demo_crypto True demo_store (Some bs) (Some demo_uuid) demo_world = (SA_STATUS_OK, n, ts, w) \<and>
    length bs = OVERHEAD + le_value (slice 1704 8 bs)"
proof (rule demo_import)
  fix n ts w
  assume imp: "key_store_import_stored_key demo_crypto True demo_store (Some demo_key) (Some demo_uuid) demo_world = (SA_STATUS_OK, n, ts, w)"
  have m: "length demo_mixin = 16" by simp
  obtain wk w1 where r: "wrapped_key_create demo_crypto (Some (apply_mixin demo_mixin)) (Some demo_key) demo_world = (Some wk, None, w1)"
    using wrapped_key_create_no_faults [OF demo_world(1,5) demo_crypto apply_mixin_ok [OF m], of demo_key] by blast
  note wr = wraps_create [OF r demo_world(5) demo_key apply_mixin_ok [OF m]]
  have st: "ts_store (demo_store :: wrapped_key typed_store) \<noteq> None" by simp
  have i: "key_store_import_exported demo_crypto True demo_store (Some (container demo_mixin wk)) (Some demo_uuid) demo_world =
      (SA_STATUS_OK, n, ts, w)"
    using import_container [OF _ _ m demo_crypto demo_world(5,1) st, of wk demo_key demo_uuid] wr imp by simp
  have "unat (wk_ciphertext_length wk) = 32"
    using wr by (simp add: wraps_def demo_key_def PADDED_SIZE_def AES_BLOCK_SIZE_def)
  then have "length (container demo_mixin wk) < 2 ^ 64"
    using container_slices(7) [OF conjunct1 [OF wr] demo_crypto m] by (simp add: OVERHEAD_def)
  from import_exported_authentic [OF i this demo_crypto demo_world(5)] i show ?thesis by blast
qed

end
