(* ===== verification/Context_Witnesses.thy ===== *)
theory Context_Witnesses
  imports Witnesses
begin

text \<open>Concrete instances of the properties of the crypto contexts and of the sessions.\<close>

section \<open>MAC contexts\<close>

definition demo_hc :: hmac_context where
  "demo_hc = \<lparr>hc_key = replicate 16 5, hc_data = [], hc_digest = SA_DIGEST_ALGORITHM_SHA256, hc_done = False\<rparr>"

definition demo_cc :: cmac_context where
  "demo_cc = \<lparr>cc_key = replicate 16 5, cc_data = [], cc_done = False\<rparr>"

lemma demo_contexts:
  "hmac_context_create SA_DIGEST_ALGORITHM_SHA256 (Some demo_key) demo_world = (Some demo_hc, demo_world)"
  "cmac_context_create (Some demo_key) demo_world = (Some demo_cc, demo_world)"
  "hmac_updates (Some demo_hc) [Bytes [1], Bytes [2]] demo_world = (SA_STATUS_OK, Some (demo_hc\<lparr>hc_data := [1, 2]\<rparr>), demo_world)"
  "cmac_updates (Some demo_cc) [Bytes [1], Bytes [2]] demo_world = (SA_STATUS_OK, Some (demo_cc\<lparr>cc_data := [1, 2]\<rparr>), demo_world)"
  "hmac_context_compute demo_crypto True (Some 32) (Some (demo_hc\<lparr>hc_data := [1, 2]\<rparr>)) demo_world =
    (SA_STATUS_OK, Some (replicate 16 5 @ [1, 2] @ replicate 14 0), Some 32, Some (demo_hc\<lparr>hc_data := [1, 2], hc_done := True\<rparr>), demo_world)"
  "cmac_context_compute demo_crypto True (Some (demo_cc\<lparr>cc_data := [1, 2]\<rparr>)) demo_world =
    (SA_STATUS_OK, Some (replicate 16 5), Some (demo_cc\<lparr>cc_data := [1, 2], cc_done := True\<rparr>), demo_world)"
  by (simp_all add: demo_hc_def demo_cc_def demo_key_def hmac_context_create_def cmac_context_create_def
      Mac_Context.hmac_context_update_def Mac_Context.cmac_context_update_def hmac_context_compute_def cmac_context_compute_def
      stored_key_get_key_def stored_key_get_length_def stored_key_get_header_def demo_crypto_def key_type_supports_aes_def valid_aes_size_def SYM_128_KEY_SIZE_def AES_BLOCK_SIZE_def Let_def)


section \<open>Symmetric contexts\<close>

lemma demo_output: "evp_output demo_crypto = demo_evp"
  by (simp add: demo_crypto_def)

lemma demo_run_updates: "evp_run demo_crypto h (map EVP_Update cs) = Some (concat cs)"
  by (induction cs arbitrary: h) (simp_all add: demo_output)

lemma demo_run_tags: "tags = [] \<or> tags = [EVP_Set_Tag t] \<Longrightarrow> evp_run demo_crypto h (tags @ [EVP_Update d, EVP_Final]) = Some d"
  by (auto simp: demo_output)

lemma demo_documented: "evp_documented demo_crypto"
  unfolding evp_documented_def evp_inverse_def Let_def
proof (intro conjI allI impI)
  fix ci k iv pad aad cs out n tags ds
  assume run: "evp_run demo_crypto (EVP_Init ci SA_CIPHER_MODE_ENCRYPT k iv pad # map EVP_Aad aad) (map EVP_Update cs @ [EVP_Final]) = Some out"
    and tag: "tag_given demo_crypto ci ((EVP_Init ci SA_CIPHER_MODE_ENCRYPT k iv pad # map EVP_Aad aad) @ map EVP_Update cs @ [EVP_Final]) n tags"
    and ds: "ds \<noteq> []" "concat ds = (out :: u8 list)"
  have "out = concat cs" using run by (simp add: evp_run_append demo_run_updates demo_output)
  moreover have "tags = [] \<or> tags = [EVP_Set_Tag (take n (replicate 16 0))]"
    using tag by (auto simp: tag_given_def demo_output split: if_splits)
  moreover have "concat (butlast ds) @ last ds = concat ds"
    using ds(1) by (metis append_butlast_last_id concat.simps concat_append append_Nil2)
  ultimately show "evp_run demo_crypto (EVP_Init ci SA_CIPHER_MODE_DECRYPT k iv pad # map EVP_Aad aad)
      (map EVP_Update (butlast ds) @ tags @ [EVP_Update (last ds), EVP_Final]) = Some (concat cs)"
    using ds(2) demo_run_tags by (auto simp: evp_run_append [where xs = "map EVP_Update _"] demo_run_updates)
qed (auto simp: demo_output)

lemma demo_encrypted:
  "encrypt_session demo_crypto (Gcm (replicate 12 0) (Some [7])) (Some demo_key) [[1, 2], [3]] [4] 16 demo_world =
    (SA_STATUS_OK, [1, 2, 3, 4], Some (replicate 16 0), demo_world)"
  by (simp add: encrypt_session_def symmetric_create_aes_gcm_encrypt_context_def symmetric_context_encrypt_def
      symmetric_context_encrypt_last_def symmetric_context_get_tag_def evp_step_def demo_output demo_key_def
      stored_key_get_key_def stored_key_get_length_def stored_key_get_header_def new_symmetric_context_def
      evp_last_def AES_BLOCK_SIZE_def GCM_IV_LENGTH_def SYM_128_KEY_SIZE_def SYM_256_KEY_SIZE_def MAX_GCM_TAG_LENGTH_def
      tag_length_refused_def symmetric_generate_key_def aead_cipher_def stream_algorithm_def Let_def)

theorem symmetric_roundtrip_witness:
  "decrypt_session demo_crypto (Gcm (replicate 12 0) (Some [7])) (Some demo_key) [[1], [2, 3]] [4] (Some (replicate 16 0)) demo_world =
    (SA_STATUS_OK, [1, 2, 3, 4], demo_world)"
  using symmetric_roundtrip [OF demo_documented demo_world(1) demo_encrypted, of "[[1], [2, 3]]" "[4]"] by (simp add: stream_algorithm_def)

end
