(* ===== verification/Mac_Session.thy ===== *)
theory Mac_Session
  imports Ta_Mac
begin

text \<open>
  The MAC commands on a session, continued: the creation of a CMAC context, keys as input, the release of
  a context; and what a sequence of commands computes for the caller.
\<close>

section \<open>CMAC contexts and keys\<close>

lemma mac_init_cmac_view:
  assumes ok: "macs_ok c" and u: "uuid_ok u" and keys: "keys_ok cr (w_root_key w) (client_key_store c)" "crypto_ok cr" "provisioned w"
    and r: "ta_sa_crypto_mac_init_cmac cr True key (Some u) c w = (s, n, c', w')"
  shows "creates_mac cr (\<lambda>bs. Cmac \<lparr>cc_key = bs, cc_data = [], cc_done = False\<rparr>) key u w s n c c'"
proof -
  obtain s1 sk ks w1 where un: "key_store_unwrap cr True (client_key_store c) key (Some u) w = (s1, sk, ks, w1)"
    using prod_cases4 by blast
  have same: "same_keys (client_key_store c) ks" by (rule key_store_unwrap_same [OF keys_okD(1) [OF keys(1)] u un])
  let ?c = "c\<lparr>client_key_store := ks\<rparr>"
  obtain ho w2 where create: "cmac_context_create sk w1 = (ho, w2)" by fastforce
  let ?add = "\<lambda>ctx. let (x, h) = heap_alloc (client_cmacs c) ctx;
          (status, slot, _, store, w) = mac_store_add_cmac_context True (client_mac_store c) x (Some u) w2 in
        (status, slot, ?c\<lparr>client_mac_store := store, client_cmacs := if status = SA_STATUS_OK then h else heap_free h x\<rparr>, w)"
  have "(if s1 \<noteq> SA_STATUS_OK then (s1, INVALID_HANDLE, ?c, w1)
      else (case sk of None \<Rightarrow> (SA_STATUS_NULL_PARAMETER, INVALID_HANDLE, ?c, w1)
      | Some k \<Rightarrow>
          if \<not> rights_allowed_sign (Some (hdr_rights (sk_header k))) w1 then (SA_STATUS_OPERATION_NOT_ALLOWED, INVALID_HANDLE, ?c, w1)
          else if \<not> key_type_supports_aes (hdr_type (sk_header k)) (ucast (hdr_size (sk_header k)))
          then (SA_STATUS_INVALID_KEY_TYPE, INVALID_HANDLE, ?c, w1)
          else if False then (SA_STATUS_INVALID_PARAMETER, INVALID_HANDLE, ?c, w1)
          else (case ho of None \<Rightarrow> (SA_STATUS_INTERNAL_ERROR, INVALID_HANDLE, ?c, w2) | Some ctx \<Rightarrow> ?add ctx))) = (s, n, c', w')"
    unfolding r [symmetric] using un create
    by (cases sk; cases ho; simp add: ta_sa_crypto_mac_init_cmac_def stored_key_get_header_def Let_def cong: if_cong split del: if_split)
  then show ?thesis
  proof (cases rule: guarded_creation)
    case error
    then show ?thesis using creates_mac_error [OF ok same] by simp
  next
    case (created k ctx)
    obtain sk' where sk': "sk = Some sk'" "owns_key cr (w_root_key w) (client_key_store c) key u sk'"
      "may_use (hdr_rights (sk_header sk')) u w"
      using key_store_unwrap_owner [OF keys(1) u keys(2,3) un [unfolded created(1)]] by blast
    have sign: "may_sign k u w"
      using created(2,4) sk' by (auto simp: may_sign_def rights_allowed_sign_def split: if_splits)
    have ctx: "ctx = \<lparr>cc_key = sk_key k, cc_data = [], cc_done = False\<rparr>"
      using cmac_create_result create created(2,3) by blast
    obtain x h where al: "heap_alloc (client_cmacs c) ctx = (x, h)" by fastforce
    note hp = heap_alloc_keeps [OF macs_okD(3) [OF ok] al]
    obtain s3 n3 f ts w3 where add: "mac_store_add_cmac_context True (client_mac_store c) x (Some u) w2 = (s3, n3, f, ts, w3)"
      using prod_cases5 by blast
    have res: "s = s3" "n = n3" "c' = ?c\<lparr>client_mac_store := ts, client_cmacs := if s3 = SA_STATUS_OK then h else heap_free h x\<rparr>"
      using created(7) al add by auto
    note ho = mac_add_handed_over(2) [OF macs_okD(1) [OF ok] u add]
    show ?thesis
    proof (cases "s = SA_STATUS_OK")
      case False
      with add_mac_error_view [OF _ _ False [unfolded res], of ?c _ u n3 ts c'] ok hp res macs_okD(2) [OF ok] ho
      show ?thesis by (simp add: creates_mac_def same)
    next
      case True
      let ?m = "\<lparr>lock_depth = 0, mac_algorithm = SA_MAC_ALGORITHM_CMAC, hmac_context = NULL, cmac_context = x\<rparr>"
      obtain w4 where t: "typed_add (client_mac_store c) ?m u w4 = (SA_STATUS_OK, n, ts, w3)"
        using add True res hp(4) by (auto simp: mac_store_add_cmac_context_def mac_allocate_def Let_def split: if_splits prod.splits option.splits)
      have st: "mac_state_of c' ?m = Some (Cmac ctx)" "mac_state_of c ?m = None" "mac_free ?m = [context_of ?m]"
        using hp True res by (simp_all add: mac_state_of_def the_cmac_def mac_get_cmac_context_def context_of_def mac_free_def)
      with add_mac_view [of ?c u ?m w4 n ts w3 c' "Cmac ctx"] ok u t hp macs_okD(2) [OF ok] res
      have "macs_ok c'" "mac_view c (unat n) = None" "mac_view c' = (mac_view c)(unat n \<mapsto> (u, Cmac ctx))" by simp_all
      then show ?thesis using True sk' sign created(2) res by (auto simp: creates_mac_def same ctx)
    qed
  qed
qed

text \<open>The bytes of a key as input: the key is one the caller may use, and its bytes are appended.\<close>

lemma mac_process_key_body_view:
  assumes ok: "macs_ok c" and u: "uuid_ok u" and keys: "keys_ok cr (w_root_key w) (client_key_store c)" "crypto_ok cr" "provisioned w"
    and m: "mac_at c (unat n) = Some (u, unlocked m)"
    and r: "mac_process_key_body cr key (Some u) m c w = (s, out, c', w')"
  shows "same_keys (client_key_store c) (client_key_store c')"
    "s \<noteq> SA_STATUS_OK \<Longrightarrow> macs_ok c' \<and> mac_view c' = mac_view c"
    "s = SA_STATUS_OK \<Longrightarrow> \<exists>sk. owns_key cr (w_root_key w) (client_key_store c) key u sk \<and>
      may_use (hdr_rights (sk_header sk)) u w \<and> updates_view (\<lambda>s. mac_state_append s (sk_key sk)) n u s c c'"
proof -
  obtain s1 sk ks w1 where un: "key_store_unwrap cr True (client_key_store c) key (Some u) w = (s1, sk, ks, w1)"
    using prod_cases4 by blast
  have same: "same_keys (client_key_store c) ks" by (rule key_store_unwrap_same [OF keys_okD(1) [OF keys(1)] u un])
  let ?c = "c\<lparr>client_key_store := ks\<rparr>"
  have okc: "macs_ok ?c" and mc: "mac_at ?c (unat n) = Some (u, unlocked m)" using ok m by simp_all
  have upd: "client_key_store c' = ks \<and> (s1 = SA_STATUS_OK \<or> (s \<noteq> SA_STATUS_OK \<and> c' = ?c)) \<and>
     (\<forall>k. s1 = SA_STATUS_OK \<longrightarrow> sk = Some k \<longrightarrow> updates_view (\<lambda>s. mac_state_append s (sk_key k)) n u s ?c c')"
    if sk: "s1 = SA_STATUS_OK \<Longrightarrow> sk \<noteq> None"
    using okc mc
  proof (cases rule: mac_state_cases)
    case (hmac x)
    have put: "updates_view (\<lambda>s. mac_state_append s (sk_key k)) n u SA_STATUS_OK ?c (put_mac_state (Hmac (x\<lparr>hc_data := hc_data x @ sk_key k\<rparr>)) m ?c)"
      if "\<not> hc_done x" for k
      using updates_view_put [OF okc mc hmac(4,3), of "\<lambda>s. mac_state_append s (sk_key k)"] that by (simp add: same_kind_def)
    have st: "client_key_store (put_mac_state (Hmac y) m ?c) = ks" for y
      by (simp add: put_mac_state_def put_hmac_def)
    show ?thesis
      using r un hmac put updates_view_error [OF okc] put_mac_same(1) [OF hmac(2)] sk
      by (cases "s1 = SA_STATUS_OK") (auto simp: mac_process_key_body_def mac_get_algorithm_def hmac_context_done_def hmac_context_update_key_def
          stored_key_get_header_def stored_key_get_key_def stored_key_get_length_def st Let_def split: if_splits prod.splits)
  next
    case (cmac x)
    have put: "updates_view (\<lambda>s. mac_state_append s (sk_key k)) n u SA_STATUS_OK ?c (put_mac_state (Cmac (x\<lparr>cc_data := cc_data x @ sk_key k\<rparr>)) m ?c)"
      if "\<not> cc_done x" for k
      using updates_view_put [OF okc mc cmac(4,3), of "\<lambda>s. mac_state_append s (sk_key k)"] that by (simp add: same_kind_def)
    have none: "updates_view (\<lambda>s. mac_state_append s []) n u SA_STATUS_OK ?c ?c" if "\<not> cc_done x"
      using updates_view_put [OF okc mc cmac(4,3), of "\<lambda>s. mac_state_append s []"] that put_mac_same(2) [OF cmac(2)]
      by (simp add: same_kind_def)
    have st: "client_key_store (put_mac_state (Cmac y) m ?c) = ks" for y
      by (simp add: put_mac_state_def put_cmac_def)
    show ?thesis
      using r un cmac put none updates_view_error [OF okc] put_mac_same(2) [OF cmac(2)] sk
      by (cases "s1 = SA_STATUS_OK") (auto simp: mac_process_key_body_def mac_get_algorithm_def cmac_context_done_def cmac_context_update_key_def
          stored_key_get_header_def stored_key_get_key_def stored_key_get_length_def st Let_def split: if_splits prod.splits)
  qed
  have owner: "\<exists>k. sk = Some k \<and> owns_key cr (w_root_key w) (client_key_store c) key u k \<and> may_use (hdr_rights (sk_header k)) u w"
    if "s1 = SA_STATUS_OK"
    using key_store_unwrap_owner [OF keys(1) u keys(2,3) un [unfolded that]] by blast
  then have upd: "client_key_store c' = ks" "s1 = SA_STATUS_OK \<or> (s \<noteq> SA_STATUS_OK \<and> c' = ?c)"
     "s1 = SA_STATUS_OK \<Longrightarrow> sk = Some k \<Longrightarrow> updates_view (\<lambda>s. mac_state_append s (sk_key k)) n u s ?c c'" for k
    using upd by blast+
  have view: "updates_view f n u s ?c c' = updates_view f n u s c c'" for f by (simp add: updates_view_def)
  show "same_keys (client_key_store c) (client_key_store c')" using same upd(1) by simp
  show "macs_ok c' \<and> mac_view c' = mac_view c" if "s \<noteq> SA_STATUS_OK"
  proof (cases "s1 = SA_STATUS_OK")
    case True
    with owner upd(3) that show ?thesis by (fastforce simp: updates_view_def)
  next
    case False
    with upd(2) ok show ?thesis by simp
  qed
  show "\<exists>sk. owns_key cr (w_root_key w) (client_key_store c) key u sk \<and>
      may_use (hdr_rights (sk_header sk)) u w \<and> updates_view (\<lambda>s. mac_state_append s (sk_key sk)) n u s c c'" if "s = SA_STATUS_OK"
    using owner upd(2,3) that view by blast
qed

section \<open>The commands in the frame of the MAC store\<close>

lemma updates_view_frame:
  "mac_view c1 = mac_view c \<Longrightarrow> same_objects (client_mac_store c2) ts \<Longrightarrow> ts_ok ts \<Longrightarrow> updates_view f n u s c1 c2 \<Longrightarrow>
    updates_view f n u s c (c2\<lparr>client_mac_store := ts\<rparr>)"
  by (auto simp: updates_view_def mac_view_same macs_ok_same split: if_splits)

lemma mac_bodies_keep_macs:
  "keeps_macs (mac_process_body input len)" "keeps_macs (mac_process_key_body cr key v)" "keeps_macs (mac_compute_body cr g n)"
  unfolding keeps_macs_def
  by (auto simp: mac_process_body_def mac_process_key_body_def mac_compute_body_def put_hmac_def put_cmac_def Let_def
      split: if_splits option.splits prod.splits)

lemma mac_bodies_device [device]:
  "mac_process_body input len m c w = (s, out, c', w') \<Longrightarrow> same_device w w'"
  "mac_process_key_body cr key v m c w = (s, out, c', w') \<Longrightarrow> same_device w w'"
  "mac_compute_body cr g n m c w = (s, outs, c', w') \<Longrightarrow> same_device w w'"
  by (auto simp: mac_process_body_def mac_process_key_body_def mac_compute_body_def Let_def dest!: device
      intro: same_device_trans split: if_splits option.splits prod.splits)

lemma mac_process_view:
  assumes ok: "macs_ok c" and u: "uuid_ok u"
    and r: "with_mac () (mac_process_body (Some bs) (length bs)) n (Some u) c w = (s, out, c', w')"
  shows "updates_view (\<lambda>s. mac_state_append s bs) n u s c c'" "client_key_store c' = client_key_store c" "same_device w w'"
proof -
  have "updates_view (\<lambda>s. mac_state_append s bs) n u s c c' \<and> client_key_store c' = client_key_store c \<and> same_device w w'"
    using ok u mac_bodies_keep_macs(1) r
  proof (cases rule: with_mac_result)
    case refused
    then show ?thesis by (simp add: updates_view_def)
  next
    case (ran m ts1 ts2 c2 w1 w2)
    have "client_key_store c2 = client_key_store c"
      using ran(4) by (auto simp: mac_process_body_def put_hmac_def put_cmac_def Let_def split: if_splits prod.splits option.splits)
    moreover have "same_device w1 w2" by (rule mac_bodies_device(1) [OF ran(4)])
    ultimately show ?thesis
      using updates_view_frame [OF ran(2,6,7) mac_process_body_view [OF ran(1,3,4)]] ran(5,9,10)
      by (auto intro: same_device_trans)
  qed
  then show "updates_view (\<lambda>s. mac_state_append s bs) n u s c c'" "client_key_store c' = client_key_store c" "same_device w w'"
    by blast+
qed

text \<open>What a key is to a TA does not change with the use counts, nor with the library's failures.\<close>

lemma owns_key_iff: "same_keys ts ts' \<Longrightarrow> owns_key cr root ts' key u sk \<longleftrightarrow> owns_key cr root ts key u sk"
proof
  assume s: "same_keys ts ts'" and "owns_key cr root ts' key u sk"
  then obtain a r wk where e: "ts_entries ts' (unat key) = Some (a, r, u)" "cells (ts_heap ts') a = Some wk" "wraps cr root wk sk"
    unfolding owns_key_def by blast
  have "map_option (\<lambda>(a, r, u). (a, u)) (ts_entries ts' (unat key)) = map_option (\<lambda>(a, r, u). (a, u)) (ts_entries ts (unat key))"
    using s unfolding same_keys_def by blast
  then obtain r' where "ts_entries ts (unat key) = Some (a, r', u)" using e(1) by (cases "ts_entries ts (unat key)") auto
  then show "owns_key cr root ts key u sk" using s e(2,3) unfolding owns_key_def same_keys_def by metis
qed (rule owns_key_same)

lemma may_use_same: "same_device w w' \<Longrightarrow> may_use r u w' \<longleftrightarrow> may_use r u w" "same_device w w' \<Longrightarrow> may_sign sk u w' \<longleftrightarrow> may_sign sk u w"
  by (simp_all add: may_sign_def may_use_def same_device_def)

lemma mac_process_key_view:
  assumes ok: "macs_ok c" and u: "uuid_ok u" and keys: "keys_ok cr (w_root_key w) (client_key_store c)" "crypto_ok cr" "provisioned w"
    and r: "with_mac () (mac_process_key_body cr key (Some u)) n (Some u) c w = (s, out, c', w')"
  shows "macs_ok c'" "same_keys (client_key_store c) (client_key_store c')" "s \<noteq> SA_STATUS_OK \<Longrightarrow> mac_view c' = mac_view c"
    "s = SA_STATUS_OK \<Longrightarrow> \<exists>sk. owns_key cr (w_root_key w) (client_key_store c) key u sk \<and>
      may_use (hdr_rights (sk_header sk)) u w \<and> updates_view (\<lambda>s. mac_state_append s (sk_key sk)) n u s c c'"
    "same_device w w'"
proof -
  have "macs_ok c' \<and> same_keys (client_key_store c) (client_key_store c') \<and> (s \<noteq> SA_STATUS_OK \<longrightarrow> mac_view c' = mac_view c) \<and>
    (s = SA_STATUS_OK \<longrightarrow> (\<exists>sk. owns_key cr (w_root_key w) (client_key_store c) key u sk \<and>
      may_use (hdr_rights (sk_header sk)) u w \<and> updates_view (\<lambda>s. mac_state_append s (sk_key sk)) n u s c c')) \<and> same_device w w'"
    using ok u mac_bodies_keep_macs(2) r
  proof (cases rule: with_mac_result)
    case refused
    then show ?thesis using keys_okD(1) [OF keys(1)] by simp
  next
    case (ran m ts1 ts2 c2 w1 w2)
    let ?c1 = "c\<lparr>client_mac_store := ts1\<rparr>"
    note d = same_deviceD [OF ran(9)]
    have k1: "keys_ok cr (w_root_key w1) (client_key_store ?c1)" "provisioned w1" using keys d by simp_all
    note b = mac_process_key_body_view [OF ran(1) u k1(1) keys(2) k1(2) ran(3,4)]
    have f: "mac_view c' = mac_view c2" "macs_ok c2 \<Longrightarrow> macs_ok c'" "same_device w w'"
      using ran mac_bodies_device(2) [OF ran(4)] by (auto simp: mac_view_same macs_ok_same intro: same_device_trans)
    show ?thesis
    proof (cases "s = SA_STATUS_OK")
      case False
      with b(1,2) f ran(2,5) show ?thesis by simp
    next
      case True
      from b(3) [OF this] obtain sk where sk: "owns_key cr (w_root_key w1) (client_key_store ?c1) key u sk"
        "may_use (hdr_rights (sk_header sk)) u w1" "updates_view (\<lambda>s. mac_state_append s (sk_key sk)) n u s ?c1 c2" by blast
      have "updates_view (\<lambda>s. mac_state_append s (sk_key sk)) n u s c c'"
        using updates_view_frame [OF ran(2,6,7) sk(3)] ran(5) by simp
      with True b(1) f sk d(3) [OF keys(3)] ran(5) may_use_same(1) [OF ran(9)] show ?thesis
        by (auto simp: updates_view_def)
    qed
  qed
  then show "macs_ok c'" "same_keys (client_key_store c) (client_key_store c')" "s \<noteq> SA_STATUS_OK \<Longrightarrow> mac_view c' = mac_view c"
    "s = SA_STATUS_OK \<Longrightarrow> \<exists>sk. owns_key cr (w_root_key w) (client_key_store c) key u sk \<and>
      may_use (hdr_rights (sk_header sk)) u w \<and> updates_view (\<lambda>s. mac_state_append s (sk_key sk)) n u s c c'"
    "same_device w w'"
    by blast+
qed

lemma mac_compute_view:
  assumes ok: "macs_ok c" and u: "uuid_ok u"
    and r: "with_mac no (mac_compute_body cr True len) n (Some u) c w = (s, (out, len'), c', w')"
  shows "macs_ok c'" "client_key_store c' = client_key_store c" "same_device w w'"
    "s = SA_STATUS_OK \<Longrightarrow> updates_view mac_state_finish n u s c c' \<and>
      (\<exists>st. mac_view c (unat n) = Some (u, st) \<and> out = Some (mac_state_value cr st))"
proof -
  have "macs_ok c' \<and> client_key_store c' = client_key_store c \<and> same_device w w' \<and>
    (s = SA_STATUS_OK \<longrightarrow> updates_view mac_state_finish n u s c c' \<and>
      (\<exists>st. mac_view c (unat n) = Some (u, st) \<and> out = Some (mac_state_value cr st)))"
    using ok u mac_bodies_keep_macs(3) r
  proof (cases rule: with_mac_result)
    case refused
    then show ?thesis by simp
  next
    case (ran m ts1 ts2 c2 w1 w2)
    note b = mac_compute_body_view [OF ran(1,3,4)]
    have "client_key_store c2 = client_key_store c"
      using ran(4) by (auto simp: mac_compute_body_def put_hmac_def put_cmac_def Let_def split: if_splits prod.splits option.splits)
    moreover have "same_device w1 w2" by (rule mac_bodies_device(3) [OF ran(4)])
    ultimately show ?thesis
      using b(1,2) ran updates_view_frame [OF ran(2,6,7)] by (auto simp: macs_ok_same intro: same_device_trans)
  qed
  then show "macs_ok c'" "client_key_store c' = client_key_store c" "same_device w w'"
    "s = SA_STATUS_OK \<Longrightarrow> updates_view mac_state_finish n u s c c' \<and>
      (\<exists>st. mac_view c (unat n) = Some (u, st) \<and> out = Some (mac_state_value cr st))"
    by blast+
qed

section \<open>Releasing a context\<close>

lemma mac_release_view:
  assumes ok: "macs_ok c" and u: "uuid_ok u"
    and r: "mac_store_remove [] (client_mac_store c) n (Some u) w = Some (s, freed, ts, w')"
    and c': "c' = free_mac_resources freed (c\<lparr>client_mac_store := ts\<rparr>)"
  shows "macs_ok c' \<and> client_key_store c' = client_key_store c \<and>
    (mac_view c' = mac_view c \<or>
     s = SA_STATUS_OK \<and> (\<exists>st. mac_view c (unat n) = Some (u, st)) \<and> mac_view c' = (mac_view c)(unat n := None))"
  using macs_okD(1) [OF ok] u r [unfolded mac_store_remove_def]
proof (cases rule: typed_remove_result)
  case kept
  have at: "mac_at c' = mac_at c" and state: "mac_state_of c' = mac_state_of c"
    by (auto simp: c' kept free_mac_resources_def mac_at_def mac_state_of_def the_hmac_def the_cmac_def fun_eq_iff split: option.split)
  have "mac_view c' = mac_view c" unfolding mac_view_def at state by simp
  moreover have "macs_ok c'" using ok kept unfolding macs_ok_def at state by (simp add: c' free_mac_resources_def)
  ultimately show ?thesis using kept by (simp add: c' free_mac_resources_def)
next
  case (removed a v)
  have at: "mac_at c (unat n) = Some (u, unlocked v)" using removed by (simp add: mac_at_def)
  note m = macs_okD(4) [OF ok at, simplified]
  have same: "client_mac_store c' = ts" "client_key_store c' = client_key_store c"
    using m removed(4) by (auto simp: c' free_mac_resources_def context_of_def)
  have other: "mac_at c' = (mac_at c)(unat n := None)"
  proof
    fix k
    show "mac_at c' k = ((mac_at c)(unat n := None)) k"
    proof (cases "k = unat n \<or> ts_entries (client_mac_store c) k = None")
      case False
      then obtain b r x where e: "ts_entries (client_mac_store c) k = Some (b, r, x)" by auto
      have "b \<noteq> a" using macs_okD(1) [OF ok] e removed(2) False unfolding ts_ok_def reg.coherent_def by blast
      with e False removed show ?thesis by (simp add: mac_at_def same heap_free_def)
    qed (use removed in \<open>auto simp: mac_at_def same\<close>)
  qed
  have state: "mac_state_of c' j = mac_state_of c j"
    if "context_of j \<noteq> context_of v" "mac_algorithm j \<in> {SA_MAC_ALGORITHM_HMAC, SA_MAC_ALGORITHM_CMAC}" for j
    using that m removed(4) by (auto simp: c' free_mac_resources_def mac_state_of_def the_hmac_def the_cmac_def context_of_def
        mac_get_hmac_context_def mac_get_cmac_context_def heap_free_def split: if_splits)
  have keep: "context_of j \<noteq> context_of v \<and> mac_state_of c' j = mac_state_of c j"
    if "mac_at c k = Some (x, j)" "k \<noteq> unat n" for k x j
    using macs_okD(5) [OF ok that(1) at] that(2) state macs_okD(4) [OF ok that(1)] by auto
  have heaps: "heap_ok (client_hmacs c')" "heap_ok (client_cmacs c')"
    using macs_okD(2,3) [OF ok] m removed(4) by (auto simp: c' free_mac_resources_def context_of_def intro: heap_ok_free)
  have "macs_ok c'"
    unfolding macs_ok_def
  proof (intro conjI allI impI)
    fix k x j
    assume "mac_at c' k = Some (x, j)"
    then have j: "mac_at c k = Some (x, j)" "k \<noteq> unat n" by (auto simp: other split: if_splits)
    show "mac_algorithm j \<in> {SA_MAC_ALGORITHM_HMAC, SA_MAC_ALGORITHM_CMAC}" "mac_state_of c' j \<noteq> None" "mac_free j = [context_of j]"
      using keep [OF j] macs_okD(4) [OF ok j(1)] by simp_all
  next
    fix k k' x x' j j'
    assume "mac_at c' k = Some (x, j)" "mac_at c' k' = Some (x', j')" "context_of j = context_of j'"
    then show "k = k'" using macs_okD(5) [OF ok] by (auto simp: other split: if_splits)
  qed (use removed(7) heaps in \<open>simp_all add: same\<close>)
  moreover have "mac_view c' = (mac_view c)(unat n := None)"
  proof
    fix k
    show "mac_view c' k = ((mac_view c)(unat n := None)) k"
      using keep [of k] by (cases "mac_at c k") (auto simp: mac_view_def other)
  qed
  moreover have "\<exists>st. mac_view c (unat n) = Some (u, st)" using at m by (auto simp: mac_view_def)
  ultimately show ?thesis using removed(1) same by blast
qed

section \<open>A computation over several commands\<close>

text \<open>What is fed to a context: bytes, or the handle of a key whose bytes are meant.\<close>

datatype mac_part = Data "u8 list" | Key_Handle u64

definition mac_feed_part ::
  "crypto \<Rightarrow> u64 \<Rightarrow> mac_part \<Rightarrow> ta \<Rightarrow> u64 \<Rightarrow> sa_uuid \<Rightarrow> world \<Rightarrow> (sa_status \<times> unit \<times> ta \<times> world) option" where
  "mac_feed_part cr h p t slot u w = (case p of
      Data bs \<Rightarrow> ta_sa_crypto_mac_process h (Some bs) (length bs) t slot (Some u) w
    | Key_Handle key \<Rightarrow> ta_sa_crypto_mac_process_key cr h key t slot (Some u) w)"

fun mac_feed :: "crypto \<Rightarrow> u64 \<Rightarrow> mac_part list \<Rightarrow> ta \<Rightarrow> u64 \<Rightarrow> sa_uuid \<Rightarrow> world \<Rightarrow> (sa_status \<times> ta \<times> world) option" where
  "mac_feed cr h [] t slot u w = Some (SA_STATUS_OK, t, w)"
| "mac_feed cr h (p # ps) t slot u w = (case mac_feed_part cr h p t slot u w of None \<Rightarrow> None
     | Some (s, _, t, w) \<Rightarrow> if s \<noteq> SA_STATUS_OK then Some (s, t, w) else mac_feed cr h ps t slot u w)"

text \<open>The bytes of a part, for a caller with the given key store.\<close>

definition part_bytes :: "crypto \<Rightarrow> world \<Rightarrow> wrapped_key typed_store \<Rightarrow> sa_uuid \<Rightarrow> mac_part \<Rightarrow> u8 list \<Rightarrow> bool" where
  "part_bytes cr w ks u p bs \<longleftrightarrow> (case p of Data d \<Rightarrow> bs = d
     | Key_Handle key \<Rightarrow> \<exists>sk. owns_key cr (w_root_key w) ks key u sk \<and> may_use (hdr_rights (sk_header sk)) u w \<and> bs = sk_key sk)"

text \<open>The caller's session while a context is in use.\<close>

definition mac_running ::
  "crypto \<Rightarrow> world \<Rightarrow> wrapped_key typed_store \<Rightarrow> u64 \<Rightarrow> sa_uuid \<Rightarrow> u64 \<Rightarrow> mac_state \<Rightarrow> ta \<Rightarrow> world \<Rightarrow> bool" where
  "mac_running cr w0 ks slot u h st t w \<longleftrightarrow> sessions_ok t \<and> same_device w0 w \<and>
     (\<exists>c. session t (unat slot) = Some (u, c) \<and> macs_ok c \<and> same_keys ks (client_key_store c) \<and>
       mac_view c (unat h) = Some (u, st))"

lemma mac_state_append_append [simp]:
  "mac_state_append (mac_state_append st a) b = mac_state_append st (a @ b)" "mac_state_append st [] = st"
  by (cases st; simp)+

lemma mac_running_part:
  assumes run: "mac_running cr w0 ks slot u h st t w" and u: "uuid_ok u"
    and w0: "keys_ok cr (w_root_key w0) ks" "crypto_ok cr" "provisioned w0"
    and r: "mac_feed_part cr h p t slot u w = Some (SA_STATUS_OK, out, t', w')"
  obtains bs where "part_bytes cr w0 ks u p bs" "mac_running cr w0 ks slot u h (mac_state_append st bs) t' w'"
proof -
  obtain c where t: "sessions_ok t" and c: "session t (unat slot) = Some (u, c)" "macs_ok c" "same_keys ks (client_key_store c)"
    "mac_view c (unat h) = Some (u, st)" and d: "same_device w0 w" using run unfolding mac_running_def by blast
  show ?thesis
  proof (cases p)
    case (Data bs)
    then have "with_client () (\<lambda>c w. Some (with_mac () (mac_process_body (Some bs) (length bs)) h (Some u) c w)) t slot (Some u) w =
        Some (SA_STATUS_OK, out, t', w')"
      using r by (simp add: mac_feed_part_def ta_sa_crypto_mac_process_def)
    with t u show ?thesis
    proof (cases rule: with_client_session)
      case (ran c1 c' w1 w2)
      then have v: "with_mac () (mac_process_body (Some bs) (length bs)) h (Some u) c w1 = (SA_STATUS_OK, out, c', w2)"
        using c(1) by simp
      note m = mac_process_view [OF c(2) u v]
      have "same_device w0 w'" using d ran(3,7) m(3) by (meson same_device_trans)
      with m(1,2) c ran(5,6) show ?thesis
        by (intro that [of bs]) (auto simp: part_bytes_def mac_running_def updates_view_def Data)
    qed simp
  next
    case (Key_Handle key)
    then have "with_client () (\<lambda>c w. Some (with_mac () (mac_process_key_body cr key (Some u)) h (Some u) c w)) t slot (Some u) w =
        Some (SA_STATUS_OK, out, t', w')"
      using r by (simp add: mac_feed_part_def ta_sa_crypto_mac_process_key_def)
    with t u show ?thesis
    proof (cases rule: with_client_session)
      case (ran c1 c' w1 w2)
      then have v: "with_mac () (mac_process_key_body cr key (Some u)) h (Some u) c w1 = (SA_STATUS_OK, out, c', w2)"
        using c(1) by simp
      have d1: "same_device w0 w1" using d ran(3) by (rule same_device_trans)
      note e = same_deviceD [OF d1]
      have k: "keys_ok cr (w_root_key w1) (client_key_store c)" "provisioned w1"
        using same_keys_ok [OF c(3)] w0 e by simp_all
      note m = mac_process_key_view [OF c(2) u k(1) w0(2) k(2) v]
      obtain sk where sk: "owns_key cr (w_root_key w0) ks key u sk" "may_use (hdr_rights (sk_header sk)) u w0"
        "updates_view (\<lambda>s. mac_state_append s (sk_key sk)) h u SA_STATUS_OK c c'"
        using m(4) owns_key_iff [OF c(3)] may_use_same(1) [OF d1] e(3) [OF w0(3)] by auto
      have "same_device w0 w'" using d1 ran(7) m(5) by (meson same_device_trans)
      with sk m(1,2) c ran(5,6) show ?thesis
        by (intro that [of "sk_key sk"])
          (auto simp: part_bytes_def mac_running_def updates_view_def Key_Handle intro: same_keys_trans)
    qed simp
  qed
qed

lemma mac_running_feed:
  assumes "mac_running cr w0 ks slot u h st t w" "uuid_ok u" "keys_ok cr (w_root_key w0) ks" "crypto_ok cr" "provisioned w0"
    "mac_feed cr h ps t slot u w = Some (SA_STATUS_OK, t', w')"
  obtains bss where "list_all2 (part_bytes cr w0 ks u) ps bss" "mac_running cr w0 ks slot u h (mac_state_append st (concat bss)) t' w'"
  using assms
proof (induction ps arbitrary: st t w thesis)
  case Nil
  then show ?case by (intro Nil(1) [of "[]"]) simp_all
next
  case (Cons p ps)
  obtain out t1 w1 where r: "mac_feed_part cr h p t slot u w = Some (SA_STATUS_OK, out, t1, w1)"
    and rest: "mac_feed cr h ps t1 slot u w1 = Some (SA_STATUS_OK, t', w')"
    using Cons.prems(7) by (auto split: option.splits if_splits)
  obtain bs where bs: "part_bytes cr w0 ks u p bs" "mac_running cr w0 ks slot u h (mac_state_append st bs) t1 w1"
    using mac_running_part [OF Cons.prems(2-6) r] by blast
  obtain bss where "list_all2 (part_bytes cr w0 ks u) ps bss" "mac_running cr w0 ks slot u h (mac_state_append (mac_state_append st bs) (concat bss)) t' w'"
    using Cons.IH [OF _ bs(2) Cons.prems(3-6) rest] by blast
  with bs(1) show ?case by (intro Cons.prems(1) [of "bs # bss"]) simp_all
qed

lemma mac_init_device [device]:
  "ta_sa_crypto_mac_init_hmac cr g key p v c w = (s, n, c', w') \<Longrightarrow> same_device w w'"
  "ta_sa_crypto_mac_init_cmac cr g key v c w = (s, n, c', w') \<Longrightarrow> same_device w w'"
  by (auto simp: ta_sa_crypto_mac_init_hmac_def ta_sa_crypto_mac_init_cmac_def Let_def dest!: device
      split: if_splits option.splits prod.splits) (meson same_device_trans)+

text \<open>The state a new context starts in: an HMAC with the chosen digest or a CMAC, for the key's bytes.\<close>

definition mac_start :: "sa_mac_algorithm \<Rightarrow> sa_digest_algorithm option \<Rightarrow> u8 list \<Rightarrow> mac_state \<Rightarrow> bool" where
  "mac_start algorithm parameters key st \<longleftrightarrow>
     (algorithm = SA_MAC_ALGORITHM_HMAC \<and>
        (\<exists>d. parameters = Some d \<and> st = Hmac \<lparr>hc_key = key, hc_data = [], hc_digest = d, hc_done = False\<rparr>)) \<or>
     (algorithm = SA_MAC_ALGORITHM_CMAC \<and> st = Cmac \<lparr>cc_key = key, cc_data = [], cc_done = False\<rparr>)"

lemma mac_init_running:
  assumes t: "sessions_ok t" "session t (unat slot) = Some (u, c)" "macs_ok c" and u: "uuid_ok u"
    and keys: "keys_ok cr (w_root_key w) (client_key_store c)" "crypto_ok cr" "provisioned w"
    and r: "ta_sa_crypto_mac_init cr True alg key params t slot (Some u) w = Some (SA_STATUS_OK, h, t', w')"
  obtains sk st where "owns_key cr (w_root_key w) (client_key_store c) key u sk" "may_sign sk u w"
    "mac_start alg params (sk_key sk) st" "mac_running cr w (client_key_store c) slot u h st t' w'"
proof -
  let ?body = "\<lambda>c w. if alg = SA_MAC_ALGORITHM_HMAC then Some (ta_sa_crypto_mac_init_hmac cr True key params (Some u) c w)
          else if alg = SA_MAC_ALGORITHM_CMAC then Some (ta_sa_crypto_mac_init_cmac cr True key (Some u) c w)
          else Some (SA_STATUS_INVALID_PARAMETER, INVALID_HANDLE, c, w)"
  have "with_client INVALID_HANDLE ?body t slot (Some u) w = Some (SA_STATUS_OK, h, t', w')"
    using r by (simp add: ta_sa_crypto_mac_init_def)
  with t(1) u show ?thesis
  proof (cases rule: with_client_session)
    case (ran c1 c' w1 w2)
    have c1: "c1 = c" using ran(1) t(2) by simp
    note e = same_deviceD [OF ran(3)]
    have k: "keys_ok cr (w_root_key w1) (client_key_store c)" "provisioned w1" using keys e by simp_all
    obtain start where cr: "creates_mac cr start key u w1 SA_STATUS_OK h c c'" and s: "\<And>bs. mac_start alg params bs (start bs)"
      and d: "same_device w1 w2"
    proof (cases "alg = SA_MAC_ALGORITHM_HMAC")
      case True
      then have i: "ta_sa_crypto_mac_init_hmac cr True key params (Some u) c w1 = (SA_STATUS_OK, h, c', w2)"
        using ran(2) c1 by simp
      then obtain dg where dg: "params = Some dg" by (cases params) (simp_all add: ta_sa_crypto_mac_init_hmac_def)
      from that [OF mac_init_hmac_view [OF t(3) u k(1) keys(2) k(2) i [unfolded dg]]] mac_init_device(1) [OF i] True dg
      show ?thesis by (simp add: mac_start_def)
    next
      case False
      then have alg: "alg = SA_MAC_ALGORITHM_CMAC" and i: "ta_sa_crypto_mac_init_cmac cr True key (Some u) c w1 = (SA_STATUS_OK, h, c', w2)"
        using ran(2) c1 by (auto split: if_splits)
      from that [OF mac_init_cmac_view [OF t(3) u k(1) keys(2) k(2) i]] mac_init_device(2) [OF i] alg
      show ?thesis by (simp add: mac_start_def)
    qed
    obtain sk where sk: "owns_key cr (w_root_key w1) (client_key_store c) key u sk" "may_sign sk u w1"
      "macs_ok c'" "same_keys (client_key_store c) (client_key_store c')" "mac_view c' (unat h) = Some (u, start (sk_key sk))"
      using cr by (auto simp: creates_mac_def)
    have "same_device w w'" using ran(3,7) d by (meson same_device_trans)
    then have "mac_running cr w (client_key_store c) slot u h (start (sk_key sk)) t' w'"
      using ran(5,6) sk by (auto simp: mac_running_def)
    with that [OF _ _ s this] sk e(3) [OF keys(3)] may_use_same(2) [OF ran(3)] show ?thesis by simp
  qed simp
qed

text \<open>
  C16: what a TA gets from a MAC computation. If its session is in order and the commands init, any mix of
  process and process_key, and compute succeed, then the key was one the TA owns and may sign with under
  the key's rights, every key that was fed is one it may use, and the output is the HMAC (CMAC) of
  the fed bytes under that key, whatever library calls failed on the way.
\<close>

theorem mac_session_computes:
  assumes t: "sessions_ok t" "session t (unat slot) = Some (u, c)" "macs_ok c" and u: "uuid_ok u"
    and keys: "keys_ok cr (w_root_key w) (client_key_store c)" "crypto_ok cr" "provisioned w"
    and init: "ta_sa_crypto_mac_init cr True alg key params t slot (Some u) w = Some (SA_STATUS_OK, h, t1, w1)"
    and feed: "mac_feed cr h ps t1 slot u w1 = Some (SA_STATUS_OK, t2, w2)"
    and compute: "ta_sa_crypto_mac_compute cr True (Some len) h t2 slot (Some u) w2 = Some (SA_STATUS_OK, (out, len'), t3, w3)"
  shows "\<exists>sk bss. owns_key cr (w_root_key w) (client_key_store c) key u sk \<and> may_sign sk u w \<and>
    list_all2 (part_bytes cr w (client_key_store c) u) ps bss \<and>
    out = Some (if alg = SA_MAC_ALGORITHM_HMAC then hmac_function cr (the params) (sk_key sk) (concat bss)
                else cmac_function cr (sk_key sk) (concat bss))"
proof -
  obtain sk st where sk: "owns_key cr (w_root_key w) (client_key_store c) key u sk" "may_sign sk u w"
    and st: "mac_start alg params (sk_key sk) st" and run: "mac_running cr w (client_key_store c) slot u h st t1 w1"
    by (rule mac_init_running [OF t u keys init])
  obtain bss where bss: "list_all2 (part_bytes cr w (client_key_store c) u) ps bss"
    and run2: "mac_running cr w (client_key_store c) slot u h (mac_state_append st (concat bss)) t2 w2"
    by (rule mac_running_feed [OF run u keys feed])
  obtain c2 where c2: "sessions_ok t2" "session t2 (unat slot) = Some (u, c2)" "macs_ok c2"
    "mac_view c2 (unat h) = Some (u, mac_state_append st (concat bss))" using run2 unfolding mac_running_def by blast
  have "with_client (None, len) (\<lambda>c w. Some (with_mac (None, len) (mac_compute_body cr True len) h (Some u) c w)) t2 slot (Some u) w2 =
      Some (SA_STATUS_OK, (out, len'), t3, w3)" using compute by (simp add: ta_sa_crypto_mac_compute_def)
  with c2(1) u have "out = Some (mac_state_value cr (mac_state_append st (concat bss)))"
  proof (cases rule: with_client_session)
    case (ran c1 c' v1 v2)
    then have v: "with_mac (None, len) (mac_compute_body cr True len) h (Some u) c2 v1 = (SA_STATUS_OK, (out, len'), c', v2)"
      using c2(2) by simp
    from mac_compute_view(4) [OF c2(3) u v] c2(4) show ?thesis by auto
  qed simp
  with sk bss st show ?thesis by (intro exI [of _ sk] exI [of _ bss]) (auto simp: mac_start_def)
qed

end
