(* ===== verification/Ta_Cipher_Errors.thy ===== *)
theory Ta_Cipher_Errors
  imports Ta_Cipher_Laws
begin

text \<open>
  Two error paths of the cipher commands that leave the session in a state the code does not mean to:
  a buffer of an unknown type keeps the session acquired, and a failing OAEP set-up frees a key that the store
  still holds.
\<close>

section \<open>The early return\<close>

lemma session_acquired:
  assumes t: "sessions_ok t" and u: "uuid_ok u" and w: "w_faults w = []" and live: "ts_running (ta_clients t)"
    and e: "sessions t (unat slot) = Some (a, k, u)"
  obtains t1 where "client_store_acquire True True t slot (Some u) w = (SA_STATUS_OK, a, t1, w)"
    "sessions t1 = (sessions t)(unat slot \<mapsto> (a, k + 1, u))" "ts_heap (ta_clients t1) = ts_heap (ta_clients t)"
    "sessions_ok t1" "ts_running (ta_clients t1)"
proof -
  obtain st where st: "ts_store (ta_clients t) = Some st" "store_ok st" using ts_ok_Some [OF sessions_okD(3) [OF t]] by blast
  then obtain st' where st': "object_store_acquire True (Some st) slot (Some u) w = (SA_STATUS_OK, a, Some st', w)"
    "\<not> os_is_shutting_down st'"
    using object_store_acquire_owner [OF st(2) u w, of slot a k] e live by (auto simp: ts_running_def)
  let ?t = "t\<lparr>ta_clients := (ta_clients t)\<lparr>ts_store := Some st'\<rparr>\<rparr>"
  have acq: "client_store_acquire True True t slot (Some u) w = (SA_STATUS_OK, a, ?t, w)"
    using st st' sessions_okD(4) [OF t] by (simp add: client_store_acquire_def)
  with t u show ?thesis
  proof (cases rule: client_acquire_result)
    case (acquired k')
    with e that [OF acq] st' show ?thesis by (simp add: ts_running_def)
  qed simp
qed


section \<open>A key with two owners\<close>

text \<open>The store holds a cipher with the key \<open>k\<close> under the handle \<open>n\<close>.\<close>

definition holds_key :: "cipher typed_store \<Rightarrow> sa_uuid \<Rightarrow> u64 \<Rightarrow> stored_key \<Rightarrow> bool" where
  "holds_key ts u n k \<longleftrightarrow> (\<exists>a r v. ts_entries ts (unat n) = Some (a, r, u) \<and> cells (ts_heap ts) a = Some v \<and>
     cipher_stored_key v = Some k)"

lemma holds_key_same:
  assumes "same_objects ts ts'" "holds_key ts u n k"
  shows "holds_key ts' u n k"
proof -
  obtain a r v where e: "ts_entries ts (unat n) = Some (a, r, u)" "cells (ts_heap ts) a = Some v" "cipher_stored_key v = Some k"
    using assms(2) unfolding holds_key_def by blast
  obtain v' where "cells (ts_heap ts') a = Some v'" "unlocked v' = unlocked v"
    by (rule same_objects_cell [OF assms(1) e(2)])
  moreover from this(2) have "cipher_stored_key v' = cipher_stored_key v"
    by (metis lockable.ext_inject lockable.surjective lockable.update_convs(1) cipher.select_convs(4) cipher.surjective)
  ultimately show ?thesis
    using same_objects_entry [OF assms(1) e(1)] e(3) unfolding holds_key_def by metis
qed

lemma add_asymmetric_holds:
  assumes ok: "ts_ok ts" and u: "uuid_ok u"
    and r: "cipher_store_add_asymmetric_key True ts alg mode (Some k) (Some u) w = (s, n, freed, ts', w')"
  shows "(s = SA_STATUS_OK \<and> ts_ok ts' \<and> holds_key ts' u n k) \<or> (s \<noteq> SA_STATUS_OK \<and> n = INVALID_HANDLE \<and> ts_ok ts')"
proof -
  obtain v0 w1 where alloc: "cipher_alloc w = (v0, w1)" by fastforce
  show ?thesis
  proof (cases v0)
    case None
    with r alloc ok show ?thesis
      by (auto simp: cipher_store_add_asymmetric_key_def split: if_splits)
  next
    case (Some v1)
    define v where "v = v1\<lparr>cipher_algorithm := alg, cipher_mode := mode, cipher_stored_key := Some k\<rparr>"
    obtain s2 n2 ts2 w2 where add: "typed_add ts v u w1 = (s2, n2, ts2, w2)" using prod_cases4 by blast
    have "(s \<noteq> SA_STATUS_OK \<and> n = INVALID_HANDLE \<and> ts' = ts) \<or> (s = s2 \<and> n = n2 \<and> ts' = ts2)"
      using r alloc add Some by (auto simp: cipher_store_add_asymmetric_key_def v_def split: if_splits)
    moreover from ok u add have "(s2 = SA_STATUS_OK \<and> ts_ok ts2 \<and> holds_key ts2 u n2 k) \<or> (s2 \<noteq> SA_STATUS_OK \<and> n2 = INVALID_HANDLE \<and> ts_ok ts2)"
      by (cases rule: typed_add_result) (auto simp: holds_key_def v_def)
    ultimately show ?thesis using ok by auto
  qed
qed

lemma oaep_parameters_key:
  "cipher_set_oaep_parameters (Some c) da ma l ll w = (s, Some c', w') \<Longrightarrow> cipher_stored_key c' = cipher_stored_key c"
  by (auto simp: cipher_set_oaep_parameters_def Let_def split: if_splits option.splits prod.splits)

lemma oaep_failure_holds:
  assumes ok: "ts_ok (client_cipher_store c)" and u: "uuid_ok u"
    and r: "ta_sa_crypto_cipher_init_rsa_oaep mode k ps c (Some u) w = (s, n, c', w')"
    and n: "n \<noteq> INVALID_HANDLE"
  shows "holds_key (client_cipher_store c') u n k"
proof -
  obtain da ma l ll where ps: "ps = Some (Parameters_Rsa_Oaep da ma l ll)"
    using r n by (auto simp: ta_sa_crypto_cipher_init_rsa_oaep_def split: option.splits sa_cipher_parameters.splits)
  obtain s1 n1 fr ts1 w1 where add: "cipher_store_add_asymmetric_key True (client_cipher_store c)
      SA_CIPHER_ALGORITHM_RSA_OAEP mode (Some k) (Some u) w = (s1, n1, fr, ts1, w1)" using prod_cases5 by blast
  have n1: "n1 = n" using r n add
    by (auto simp: ta_sa_crypto_cipher_init_rsa_oaep_def ps Let_def split: if_splits prod.splits)
  with add_asymmetric_holds [OF ok u add] n have ts1: "s1 = SA_STATUS_OK" "ts_ok ts1" "holds_key ts1 u n k" by auto
  obtain s2 a ts2 w2 where acq: "acquire_exclusive True ts1 n (Some u) w1 = (s2, a, ts2, w2)" using prod_cases4 by blast
  note same2 = acquire_exclusive_same [OF ts1(2) u acq]
  note h2 = holds_key_same [OF same2(1) ts1(3)]
  obtain s3 ts3 w3 where set: "(if s2 \<noteq> SA_STATUS_OK then (s2, ts2, w2)
      else let (status, cipher, w) = cipher_set_oaep_parameters (cells (ts_heap ts2) a) da ma l ll w2 in
        (status, (case cipher of None \<Rightarrow> ts2
            | Some cipher \<Rightarrow> ts2\<lparr>ts_heap := heap_write (ts_heap ts2) a cipher\<rparr>), w)) = (s3, ts3, w3)"
    using prod_cases3 by blast
  have h3: "holds_key ts3 u n k \<and> ts_ok ts3"
  proof (cases "ts3 = ts2")
    case True
    with h2 same2(2) show ?thesis by simp
  next
    case False
    then obtain v v' where v: "cells (ts_heap ts2) a = Some v" "ts3 = ts2\<lparr>ts_heap := heap_write (ts_heap ts2) a v'\<rparr>"
      "cipher_stored_key v' = cipher_stored_key v"
      using set oaep_parameters_key
      by (cases "cells (ts_heap ts2) a") (auto simp: cipher_set_oaep_parameters_def [of None] split: if_splits prod.splits option.splits)
    then have "ts_ok ts3"
      using same2(2) reg.coherent_write [of "ts_store ts2" "ts_heap ts2" a v'] by (simp add: ts_ok_def)
    with h2 v show ?thesis by (auto simp: holds_key_def heap_write_def)
  qed
  obtain s4 ts4 w4 where rel: "release_exclusive ts3 n a (Some u) w3 = (s4, ts4, w4)" using prod_cases3 by blast
  have "client_cipher_store c' = (if a = NULL then ts3 else ts4)"
    using r n add acq set rel ts1(1) n1
    by (auto simp: ta_sa_crypto_cipher_init_rsa_oaep_def ps cipher_store_acquire_exclusive_def cipher_store_release_exclusive_def
        Let_def split: if_splits prod.splits)
  with h3 holds_key_same [OF release_exclusive_same(1) [OF _ u rel]] show ?thesis by auto
qed

text \<open>
  when the set-up of an OAEP context fails after the context was stored (its lock or the copy of the label
  fails), the command reports the error but delivers a valid handle and frees the key: the
  cipher under the handle still holds that key.
\<close>

theorem cipher_init_oaep_frees_held_key:
  assumes "stores_ok c" "uuid_ok u"
    and "cipher_init_body cr SA_CIPHER_ALGORITHM_RSA_OAEP SA_CIPHER_MODE_DECRYPT key ps (Some u) c w = (s, (n, freed), c', w')"
    and "s \<noteq> SA_STATUS_OK" "n \<noteq> INVALID_HANDLE"
  shows "\<exists>k. freed = Some k \<and> holds_key (client_cipher_store c') u n k"
proof -
  obtain s1 sk ts1 w1 where un: "key_store_unwrap cr True (client_key_store c) key (Some u) w = (s1, sk, ts1, w1)"
    using prod_cases4 by blast
  obtain k c1 where k: "sk = Some k" "freed = Some k"
    "ta_sa_crypto_cipher_init_rsa_oaep SA_CIPHER_MODE_DECRYPT k ps (c\<lparr>client_key_store := ts1\<rparr>) (Some u) w1 = (s, n, c', w')"
    using assms(3-5) un
    by (auto simp: cipher_init_body_def cipher_init_algorithm_def Let_def split: if_splits option.splits prod.splits)
  have "ts_ok (client_cipher_store (c\<lparr>client_key_store := ts1\<rparr>))" using stores_okD(2) [OF assms(1)] by simp
  from oaep_failure_holds [OF this assms(2) k(3) assms(5)] k(2) show ?thesis by blast
qed

end
