(* ===== verification/Demo_Ta.thy ===== *)
theory Demo_Ta
  imports Demo
begin

text \<open>
  A trusted application with one session, and stores with one object in them, for the witnesses of the
  commands.
\<close>

section \<open>A store with one object\<close>

definition demo_entry :: "u64 \<Rightarrow> object_store" where
  "demo_entry r = \<lparr>os_slots = Some \<lparr>bitfield = [1], slot_count = 32, block_count = 1\<rparr>,
     os_objects = replicate 31 \<lparr>object = NULL, reference_count = 0, owner_uuid = replicate 16 0\<rparr> @
       [\<lparr>object = 1, reference_count = r, owner_uuid = demo_uuid\<rparr>],
     os_slot_count = 32, os_is_shutting_down = False, os_release_count = 0\<rparr>"

definition demo_used :: "u64 \<Rightarrow> 'a \<Rightarrow> 'a typed_store" where
  "demo_used r v = \<lparr>ts_heap = \<lparr>next_addr = 2, cells = [Suc 0 \<mapsto> v]\<rparr>, ts_store = Some (demo_entry r)\<rparr>"

lemma demo_view [simp]: "store_view (demo_entry r) = [31 \<mapsto> (Suc 0, r, demo_uuid)]"
  by (auto simp: demo_entry_def store_view_def fun_eq_iff nth_append)

lemma demo_used [simp]:
  "ts_store (demo_used r v) = Some (demo_entry r)" "cells (ts_heap (demo_used r v)) = [Suc 0 \<mapsto> v]"
  "ts_entries (demo_used r v) = [31 \<mapsto> (Suc 0, r, demo_uuid)]"
  by (simp_all add: demo_used_def)

lemma replicate_32: "replicate 32 x = replicate 31 x @ [x]"
  by (simp add: eval_nat_numeral)

lemma demo_used_added: "typed_add demo_store v demo_uuid demo_world = (SA_STATUS_OK, 31, demo_used 0 v, demo_world)"
  by (simp add: typed_add_def demo_store_def demo_used_def demo_entry_def empty_heap_def heap_alloc_def object_store_add_def demo_object_store_def
      object_store_init_def slots_init_def slots_allocate_def ffs_def BLOCK_BITMASK_def BLOCK_IDX_def BLOCK_BIT_def Let_def
      upt_rec SLOT_INVALID_def replicate_32 nth_append list_update_append)

lemma demo_used_ok [simp]: "ts_ok (demo_used 0 v)"
  by (rule typed_add_ok [OF _ _ demo_used_added]) simp_all

lemma demo_acquire [simp]:
  "w_faults w = [] \<Longrightarrow>
    object_store_acquire True (Some (demo_entry r)) 31 (Some demo_uuid) w = (SA_STATUS_OK, Suc 0, Some (demo_entry (r + 1)), w)"
  by (simp add: object_store_acquire_def demo_entry_def nth_append list_update_append)

lemma demo_release [simp]:
  "w_faults w = [] \<Longrightarrow> r \<noteq> 0 \<Longrightarrow>
    object_store_release (Some (demo_entry r)) 31 (Suc 0) (Some demo_uuid) w = (SA_STATUS_OK, Some (demo_entry (r - 1)), w)"
  by (simp add: object_store_release_def demo_entry_def nth_append list_update_append)

lemma demo_exclusive [simp]:
  "w_faults w = [] \<Longrightarrow> acquire_exclusive True (demo_used r v) 31 (Some demo_uuid) w =
    (SA_STATUS_OK, Suc 0, demo_used (r + 1) (v\<lparr>lock_depth := Suc (lock_depth v)\<rparr>), w)"
  "w_faults w = [] \<Longrightarrow> r \<noteq> 0 \<Longrightarrow> release_exclusive (demo_used r v) 31 (Suc 0) (Some demo_uuid) w =
    (SA_STATUS_OK, demo_used (r - 1) (v\<lparr>lock_depth := lock_depth v - 1\<rparr>), w)"
  by (simp_all add: acquire_exclusive_def release_exclusive_def demo_used_def object_lock_def object_unlock_def heap_write_def)

section \<open>A session\<close>

definition demo_session :: "u64 \<Rightarrow> client \<Rightarrow> ta" where
  "demo_session r c = \<lparr>ta_clients = demo_used r c, ta_global = True, ta_once = True, ta_exit_handler = True,
     ta_global_shutdown = False\<rparr>"

lemma demo_session [simp]:
  "sessions_ok (demo_session 0 c)" "sessions (demo_session r c) = [31 \<mapsto> (Suc 0, r, demo_uuid)]"
  "session (demo_session r c) = [31 \<mapsto> (demo_uuid, c)]"
  by (auto simp: demo_session_def sessions_ok_def session_def fun_eq_iff)

lemma demo_client_acquire [simp]:
  "client_store_global (demo_session r c) w = (True, demo_session r c, w)"
  "w_faults w = [] \<Longrightarrow> client_store_acquire True True (demo_session r c) 31 (Some demo_uuid) w = (SA_STATUS_OK, Suc 0, demo_session (r + 1) c, w)"
  "cells (ts_heap (ta_clients (demo_session r c))) = [Suc 0 \<mapsto> c]"
  by (auto simp: demo_session_def client_store_global_def client_store_acquire_def demo_used_def)

lemma demo_client_release [simp]:
  "w_faults w = [] \<Longrightarrow> r \<noteq> 0 \<Longrightarrow>
    client_store_release True (demo_session r c) 31 (Suc 0) (Some demo_uuid) w = (SA_STATUS_OK, demo_session (r - 1) c, w)"
  by (auto simp: demo_session_def client_store_release_def demo_used_def)

lemma demo_client_write [simp]:
  "demo_session r c\<lparr>ta_clients := (ta_clients (demo_session r c))\<lparr>ts_heap := heap_write (ts_heap (ta_clients (demo_session r c))) (Suc 0) c'\<rparr>\<rparr> =
     demo_session r c'"
  by (simp add: demo_session_def demo_used_def heap_write_def)

lemma demo_with_client:
  assumes "w_faults w = []" "body c w = Some (s, out, c', w')" "w_faults w' = []"
  shows "with_client no body (demo_session 0 c) 31 (Some demo_uuid) w = Some (s, out, demo_session 0 c', w')"
  using assms by (simp add: with_client_def Let_def)

lemma demo_with_object:
  assumes "get st = demo_used 0 v" "get (put (demo_used 1 (v\<lparr>lock_depth := Suc (lock_depth v)\<rparr>)) st) = demo_used 1 (v\<lparr>lock_depth := Suc (lock_depth v)\<rparr>)"
    "w_faults w = []" "body (v\<lparr>lock_depth := Suc (lock_depth v)\<rparr>) (put (demo_used 1 (v\<lparr>lock_depth := Suc (lock_depth v)\<rparr>)) st) w = (s, out, st', w')"
    "w_faults w' = []" "get st' = demo_used 1 v'"
  shows "with_object get put no body 31 (Some demo_uuid) st w = (s, out, put (demo_used 0 (v'\<lparr>lock_depth := lock_depth v' - 1\<rparr>)) st', w')"
  using assms by (simp add: with_object_def Let_def)

end
