(* ===== verification/Kdf.thy ===== *)
theory Kdf
  imports Mac_Context
begin

text \<open>
  Key derivation, \<^verbatim>\<open>reference/src/taimpl/src/internal/kdf.c\<close> and \<^verbatim>\<open>netflix.c\<close>, and what the derived bytes are:
  those of RFC 5869, of the one-step functions of NIST SP 800-56A and ANSI X9.63, and of the counter mode of
  NIST SP 800-108, each written down as a reference without the loops and buffers of the code. A pointer and
  a length are a list of bytes, \<open>None\<close> for NULL, and the length.
\<close>

definition DIGEST_MAX_LENGTH :: u64 where "DIGEST_MAX_LENGTH = 64"
definition SHA384_DIGEST_LENGTH :: u64 where "SHA384_DIGEST_LENGTH = 48"

definition given_bytes :: "u8 list option \<Rightarrow> nat \<Rightarrow> u8 list" where
  "given_bytes p n = (case p of None \<Rightarrow> [] | Some bs \<Rightarrow> take n bs)"

text \<open>The end of every derivation: a symmetric key whose rights the parent restricts.\<close>

definition create_derived ::
  "sa_rights \<Rightarrow> sa_rights \<Rightarrow> u64 \<Rightarrow> u8 list \<Rightarrow> world \<Rightarrow> sa_status \<times> stored_key option \<times> world" where
  "create_derived rights parent_rights key_length bytes w =
     stored_key_create True (Some rights) (Some parent_rights) SA_KEY_TYPE_SYMMETRIC no_parameters key_length (Some bytes) w"

section \<open>HKDF\<close>

text \<open>The iterations \<open>is\<close> that are left, with the last tag, the length the tag variable has, and the bytes so far.\<close>

fun hkdf_expand ::
  "crypto \<Rightarrow> sa_digest_algorithm \<Rightarrow> u8 list \<Rightarrow> u8 list \<Rightarrow> nat \<Rightarrow> nat \<Rightarrow> nat list \<Rightarrow> u8 list \<Rightarrow> u64 \<Rightarrow> u8 list \<Rightarrow> world \<Rightarrow>
   sa_status \<times> u8 list \<times> world" where
  "hkdf_expand cr alg info prk r remainder [] tag tag_length derived w = (SA_STATUS_OK, derived, w)"
| "hkdf_expand cr alg info prk r remainder (i # is) tag tag_length derived w =
     (let (status, mac, len, w) = hmac_internal cr True (Some tag_length) alg (if i = 1 then [] else tag) info [of_nat i] (Some prk) w in
      if status \<noteq> SA_STATUS_OK then (status, derived, w)
      else let copy_length = (if i = r \<and> remainder > 0 then remainder else unat (the len)) in
        hkdf_expand cr alg info prk r remainder is (the mac) (the len) (derived @ take copy_length (the mac)) w)"

definition kdf_hkdf_hmac ::
  "crypto \<Rightarrow> sa_rights option \<Rightarrow> sa_digest_algorithm \<Rightarrow> u8 list option \<Rightarrow> nat \<Rightarrow> u8 list option \<Rightarrow> nat \<Rightarrow> u64 \<Rightarrow>
   stored_key option \<Rightarrow> world \<Rightarrow> sa_status \<times> stored_key option \<times> world" where
  "kdf_hkdf_hmac cr rights alg salt salt_length info info_length key_length parent w = (case rights of
      None \<Rightarrow> (SA_STATUS_NULL_PARAMETER, None, w)
    | Some r0 \<Rightarrow>
        if salt = None \<and> salt_length > 0 then (SA_STATUS_NULL_PARAMETER, None, w)
        else if info = None \<and> info_length > 0 then (SA_STATUS_NULL_PARAMETER, None, w)
        else (case parent of None \<Rightarrow> (SA_STATUS_NULL_PARAMETER, None, w)
        | Some p \<Rightarrow>
            let hash_length = digest_length alg in
            if hash_length > DIGEST_MAX_LENGTH then (SA_STATUS_INVALID_PARAMETER, None, w)
            else let (memory_ok, w) = draws 3 w in
              if \<not> memory_ok then (SA_STATUS_INTERNAL_ERROR, None, w)
              else let (status, prk, prk_length, w) = hmac_internal cr True (Some DIGEST_MAX_LENGTH) alg (sk_key p) [] []
                     (map_option (take salt_length) salt) w in
                if status \<noteq> SA_STATUS_OK then (status, None, w)
                else let remainder = unat key_length mod unat hash_length;
                         r = unat key_length div unat hash_length + (if remainder \<noteq> 0 then 1 else 0) in
                  if r > 0xFF then (status, None, w)
                  else let (status, derived, w) = hkdf_expand cr alg (given_bytes info info_length) (the prk) r remainder
                         [1..<Suc r] [] DIGEST_MAX_LENGTH [] w in
                    if status \<noteq> SA_STATUS_OK then (status, None, w)
                    else create_derived r0 (hdr_rights (sk_header p)) key_length derived w))"

section \<open>The one-step functions\<close>

text \<open>
  The loop of the two functions; \<open>ins\<close> has the three inputs of the digest for the counter. The length of the
  output buffer is the digest's from the start.
\<close>

fun digest_expand ::
  "crypto \<Rightarrow> sa_digest_algorithm \<Rightarrow> (u8 list \<Rightarrow> u8 list \<times> u8 list \<times> u8 list) \<Rightarrow> nat \<Rightarrow> nat \<Rightarrow> nat list \<Rightarrow> u64 \<Rightarrow> u8 list \<Rightarrow> world \<Rightarrow>
   sa_status \<times> u8 list \<times> world" where
  "digest_expand cr alg ins r remainder [] hash_length derived w = (SA_STATUS_OK, derived, w)"
| "digest_expand cr alg ins r remainder (i # is) hash_length derived w =
     (let (in1, in2, in3) = ins [0, 0, 0, of_nat i];
          (status, hash, len, w) = digest_sha cr True (Some hash_length) alg in1 in2 in3 w in
      if status \<noteq> SA_STATUS_OK then (status, derived, w)
      else let copy_length = (if i = r \<and> remainder \<noteq> 0 then remainder else unat (the len)) in
        digest_expand cr alg ins r remainder is (the len) (derived @ take copy_length (the hash)) w)"

definition kdf_one_step ::
  "crypto \<Rightarrow> (u8 list \<Rightarrow> u8 list \<Rightarrow> u8 list \<Rightarrow> u8 list \<times> u8 list \<times> u8 list) \<Rightarrow> sa_rights option \<Rightarrow> sa_digest_algorithm \<Rightarrow>
   u8 list option \<Rightarrow> nat \<Rightarrow> u64 \<Rightarrow> stored_key option \<Rightarrow> world \<Rightarrow> sa_status \<times> stored_key option \<times> world" where
  "kdf_one_step cr order rights alg info info_length key_length parent w = (case rights of
      None \<Rightarrow> (SA_STATUS_NULL_PARAMETER, None, w)
    | Some r0 \<Rightarrow>
        if info = None \<and> info_length > 0 then (SA_STATUS_NULL_PARAMETER, None, w)
        else (case parent of None \<Rightarrow> (SA_STATUS_NULL_PARAMETER, None, w)
        | Some p \<Rightarrow>
            let hash_length = digest_length alg in
            if hash_length > DIGEST_MAX_LENGTH then (SA_STATUS_INVALID_PARAMETER, None, w)
            else let (memory_ok, w) = draws 2 w in
              if \<not> memory_ok then (SA_STATUS_INTERNAL_ERROR, None, w)
              else let remainder = unat key_length mod unat hash_length;
                       r = unat key_length div unat hash_length + (if remainder \<noteq> 0 then 1 else 0) in
                if r > 0xFF then (SA_STATUS_INTERNAL_ERROR, None, w)
                else let (status, derived, w) = digest_expand cr alg
                       (\<lambda>counter. order counter (sk_key p) (given_bytes info info_length)) r remainder [1..<Suc r] hash_length [] w in
                  if status \<noteq> SA_STATUS_OK then (status, None, w)
                  else create_derived r0 (hdr_rights (sk_header p)) key_length derived w))"

definition kdf_concat_kdf ::
  "crypto \<Rightarrow> sa_rights option \<Rightarrow> sa_digest_algorithm \<Rightarrow> u8 list option \<Rightarrow> nat \<Rightarrow> u64 \<Rightarrow> stored_key option \<Rightarrow> world \<Rightarrow>
   sa_status \<times> stored_key option \<times> world" where
  "kdf_concat_kdf cr = kdf_one_step cr (\<lambda>counter key info. (counter, key, info))"

definition kdf_ansi_x963 ::
  "crypto \<Rightarrow> sa_rights option \<Rightarrow> sa_digest_algorithm \<Rightarrow> u8 list option \<Rightarrow> nat \<Rightarrow> u64 \<Rightarrow> stored_key option \<Rightarrow> world \<Rightarrow>
   sa_status \<times> stored_key option \<times> world" where
  "kdf_ansi_x963 cr = kdf_one_step cr (\<lambda>counter key info. (key, counter, info))"

section \<open>Counter mode with CMAC\<close>

fun cmac_blocks ::
  "crypto \<Rightarrow> u8 list \<Rightarrow> stored_key \<Rightarrow> nat list \<Rightarrow> u8 list \<Rightarrow> world \<Rightarrow> sa_status \<times> u8 list \<times> world" where
  "cmac_blocks cr other_data p [] full_key w = (SA_STATUS_OK, full_key, w)"
| "cmac_blocks cr other_data p (i # is) full_key w =
     (let (status, mac, w) = cmac cr True [of_nat i] other_data [] (Some p) w in
      if status \<noteq> SA_STATUS_OK then (status, full_key, w) else cmac_blocks cr other_data p is (full_key @ the mac) w)"

definition kdf_ctr_cmac ::
  "crypto \<Rightarrow> sa_rights option \<Rightarrow> u8 list option \<Rightarrow> nat \<Rightarrow> u8 \<Rightarrow> u64 \<Rightarrow> stored_key option \<Rightarrow> world \<Rightarrow>
   sa_status \<times> stored_key option \<times> world" where
  "kdf_ctr_cmac cr rights other_data other_data_length counter key_length parent w = (case rights of
      None \<Rightarrow> (SA_STATUS_NULL_PARAMETER, None, w)
    | Some r0 \<Rightarrow>
        if unat key_length mod unat SYM_128_KEY_SIZE \<noteq> 0 then (SA_STATUS_INVALID_PARAMETER, None, w)
        else if other_data = None \<and> other_data_length > 0 then (SA_STATUS_NULL_PARAMETER, None, w)
        else if counter < 1 \<or> counter > 4 then (SA_STATUS_INVALID_PARAMETER, None, w)
        else if unat key_length div unat SYM_128_KEY_SIZE > 5 - unat counter then (SA_STATUS_INVALID_PARAMETER, None, w)
        else (case parent of None \<Rightarrow> (SA_STATUS_NULL_PARAMETER, None, w)
        | Some p \<Rightarrow>
            let (memory_ok, w) = draws 2 w in
            if \<not> memory_ok then (SA_STATUS_INTERNAL_ERROR, None, w)
            else let (status, full_key, w) = cmac_blocks cr (given_bytes other_data other_data_length) p [1, 2, 3, 4] [] w in
              if status \<noteq> SA_STATUS_OK then (status, None, w)
              else create_derived r0 (hdr_rights (sk_header p)) key_length
                (take (unat key_length) (drop ((unat counter - 1) * AES_BLOCK_SIZE) full_key)) w))"

section \<open>Netflix\<close>

definition NETFLIX_SALT :: "u8 list" where
  "NETFLIX_SALT = [0x02, 0x76, 0x17, 0x98, 0x4F, 0x62, 0x27, 0x53, 0x9A, 0x63, 0x0B, 0x89, 0x7C, 0x01, 0x7D, 0x69]"

definition NETFLIX_INFO :: "u8 list" where
  "NETFLIX_INFO = [0x80, 0x9F, 0x82, 0xA7, 0xAD, 0xDF, 0x54, 0x8D, 0x3E, 0xA9, 0xDD, 0x06, 0x7F, 0xF9, 0xBB, 0x91]"

definition kdf_netflix_wrapping ::
  "crypto \<Rightarrow> sa_rights option \<Rightarrow> sa_rights option \<Rightarrow> stored_key option \<Rightarrow> stored_key option \<Rightarrow> world \<Rightarrow>
   sa_status \<times> stored_key option \<times> world" where
  "kdf_netflix_wrapping cr rights_wrap rights_parent key_enc key_hmac w =
     (case (rights_wrap, rights_parent, key_enc, key_hmac) of
        (Some r0, Some rp, Some enc, Some mac) \<Rightarrow>
          if length (sk_key enc) \<noteq> unat SYM_128_KEY_SIZE then (SA_STATUS_INVALID_PARAMETER, None, w)
          else if length (sk_key mac) \<noteq> unat SYM_256_KEY_SIZE then (SA_STATUS_INVALID_PARAMETER, None, w)
          else let (memory_ok, w) = draws 2 w in
            if \<not> memory_ok then (SA_STATUS_INTERNAL_ERROR, None, w)
            else let (status, temp, temp_length, w) = hmac_internal cr True (Some SYM_256_KEY_SIZE) SA_DIGEST_ALGORITHM_SHA256
                   (sk_key enc) (sk_key mac) [] (Some NETFLIX_SALT) w in
              if status \<noteq> SA_STATUS_OK then (status, None, w)
              else let (status, wrapping, len, w) = hmac_internal cr True (Some (of_nat SHA256_DIGEST_LENGTH)) SA_DIGEST_ALGORITHM_SHA256
                     NETFLIX_INFO [] [] temp w in
                if status \<noteq> SA_STATUS_OK then (status, None, w)
                else create_derived r0 rp (of_nat AES_BLOCK_SIZE) (take AES_BLOCK_SIZE (the wrapping)) w
      | _ \<Rightarrow> (SA_STATUS_NULL_PARAMETER, None, w))"

text \<open>The two keys that are delivered; the first may be there when the second is not.\<close>

definition kdf_netflix_shared_secret ::
  "crypto \<Rightarrow> sa_rights option \<Rightarrow> sa_rights option \<Rightarrow> stored_key option \<Rightarrow> stored_key option \<Rightarrow> world \<Rightarrow>
   sa_status \<times> stored_key option \<times> stored_key option \<times> world" where
  "kdf_netflix_shared_secret cr rights_enc rights_hmac key_in key_shared w =
     (case (rights_enc, rights_hmac, key_in) of
        (Some re, Some rh, Some k) \<Rightarrow>
          if length (sk_key k) \<noteq> unat SYM_128_KEY_SIZE then (SA_STATUS_INVALID_PARAMETER, None, None, w)
          else (case key_shared of None \<Rightarrow> (SA_STATUS_NULL_PARAMETER, None, None, w)
          | Some secret \<Rightarrow>
              let (memory_ok, w) = draws 2 w in
              if \<not> memory_ok then (SA_STATUS_INTERNAL_ERROR, None, None, w)
              else let (status, dig, dig_length, w) = digest_sha cr True (Some SHA384_DIGEST_LENGTH) SA_DIGEST_ALGORITHM_SHA384
                     (sk_key k) [] [] w in
                if status \<noteq> SA_STATUS_OK then (status, None, None, w)
                else if sk_key secret = [] then (status, None, None, w)
                else let zero = (if hd (sk_key secret) \<noteq> 0 then [0] else []);
                         (status, mac, len, w) = hmac_internal cr True (Some SHA384_DIGEST_LENGTH) SA_DIGEST_ALGORITHM_SHA384
                           zero (sk_key secret) [] dig w in
                  if status \<noteq> SA_STATUS_OK then (status, None, None, w)
                  else let parent = hdr_rights (sk_header k);
                           (status, enc, w) = create_derived re parent SYM_128_KEY_SIZE (take (unat SYM_128_KEY_SIZE) (the mac)) w in
                    if status \<noteq> SA_STATUS_OK then (status, None, None, w)
                    else let (status, hk, w) = create_derived rh parent SYM_256_KEY_SIZE
                           (take SHA256_DIGEST_LENGTH (drop (unat SYM_128_KEY_SIZE) (the mac))) w in
                      (status, enc, if status \<noteq> SA_STATUS_OK then None else hk, w))
      | _ \<Rightarrow> (SA_STATUS_NULL_PARAMETER, None, None, w))"

section \<open>The references\<close>

text \<open>What the library documents: the digest and the MAC have the digest's length.\<close>

definition digests_documented :: "crypto \<Rightarrow> bool" where
  "digests_documented cr \<longleftrightarrow> (\<forall>alg k d. digest_string alg \<noteq> None \<longrightarrow>
     length (hmac_function cr alg k d) = unat (digest_length alg) \<and> length (digest_function cr alg d) = unat (digest_length alg)) \<and>
     (\<forall>k d. length (cmac_function cr k d) = 16)"

text \<open>
  RFC 5869: \<open>T(n) = HMAC(PRK, T(n - 1) | info | n)\<close>, and the output is the first \<open>L\<close> bytes of \<open>T(1) | T(2) | ...\<close>,
  of which \<open>L\<close> blocks are always enough. A missing salt is a zero key.
\<close>

primrec hkdf_T :: "crypto \<Rightarrow> sa_digest_algorithm \<Rightarrow> u8 list \<Rightarrow> u8 list \<Rightarrow> nat \<Rightarrow> u8 list" where
  "hkdf_T cr alg prk info 0 = []"
| "hkdf_T cr alg prk info (Suc n) = hmac_function cr alg prk (hkdf_T cr alg prk info n @ info @ [of_nat (Suc n)])"

definition rfc5869 :: "crypto \<Rightarrow> sa_digest_algorithm \<Rightarrow> u8 list option \<Rightarrow> u8 list \<Rightarrow> u8 list \<Rightarrow> nat \<Rightarrow> u8 list" where
  "rfc5869 cr alg salt key info L =
     (let prk = hmac_function cr alg (case salt of None \<Rightarrow> [0] | Some s \<Rightarrow> s) key in
      take L (concat (map (hkdf_T cr alg prk info) [1..<Suc L])))"

text \<open>The one-step functions: \<open>H(1 | Z | info) | H(2 | Z | info) | ...\<close> and \<open>H(Z | 1 | info) | ...\<close>, with the counter in four bytes.\<close>

fun be_bytes :: "nat \<Rightarrow> nat \<Rightarrow> u8 list" where
  "be_bytes 0 x = []" | "be_bytes (Suc n) x = be_bytes n (x div 256) @ [of_nat x]"

definition concat_reference :: "crypto \<Rightarrow> sa_digest_algorithm \<Rightarrow> u8 list \<Rightarrow> u8 list \<Rightarrow> nat \<Rightarrow> u8 list" where
  "concat_reference cr alg z info L = take L (concat (map (\<lambda>i. digest_function cr alg (be_bytes 4 i @ z @ info)) [1..<Suc L]))"

definition x963_reference :: "crypto \<Rightarrow> sa_digest_algorithm \<Rightarrow> u8 list \<Rightarrow> u8 list \<Rightarrow> nat \<Rightarrow> u8 list" where
  "x963_reference cr alg z info L = take L (concat (map (\<lambda>i. digest_function cr alg (z @ be_bytes 4 i @ info)) [1..<Suc L]))"

section \<open>The loops compute the references\<close>

lemma concat_blocks_length:
  "(\<And>j. j \<in> set js \<Longrightarrow> length (f j) = h) \<Longrightarrow> length (concat (map f js)) = length js * h"
  by (induction js) auto

text \<open>The blocks that are needed, the last one cut, are the first bytes of as many blocks as one likes.\<close>

lemma take_blocks:
  fixes L h :: nat
  assumes f: "\<And>j. 1 \<le> j \<Longrightarrow> length (f j) = h" and h: "h > 0"
    and r: "r = L div h + (if L mod h \<noteq> 0 then 1 else 0)"
  shows "concat (map (\<lambda>j. take (if j = r \<and> L mod h \<noteq> 0 then L mod h else h) (f j)) [1..<Suc r]) =
    take L (concat (map f [1..<Suc L]))"
proof -
  have rL: "r \<le> L"
  proof (cases "L = 0")
    case False
    show ?thesis
    proof (cases "L mod h = 0")
      case False
      then have "h \<noteq> 1" by auto
      then have "L div h < L" using h \<open>L \<noteq> 0\<close> by (intro div_less_dividend) auto
      then show ?thesis using r by auto
    qed (use r in simp)
  qed (use r in simp)
  have split: "[1..<Suc L] = [1..<Suc r] @ [Suc r..<Suc L]" using upt_add_eq_append [of 1 "Suc r" "L - r"] rL by simp
  have len: "length (concat (map f [1..<Suc n])) = n * h" for n
    using concat_blocks_length [of "[1..<Suc n]" f h] f by (simp del: upt_Suc)
  show ?thesis
  proof (cases "L mod h = 0")
    case True
    then have "L = r * h" using r div_mult_mod_eq [of L h] by simp
    moreover have "map (\<lambda>j. take (if j = r \<and> L mod h \<noteq> 0 then L mod h else h) (f j)) [1..<Suc r] = map f [1..<Suc r]"
      using True by (intro map_cong refl) (auto intro!: f [THEN eq_imp_le])
    ultimately show ?thesis unfolding split map_append concat_append using len [of r] by (simp only: take_append) simp
  next
    case False
    define q where "q = L div h"
    have q: "r = Suc q" "L = q * h + L mod h" using r False by (simp_all add: q_def div_mult_mod_eq)
    have m: "L mod h < h" using h by simp
    have "map (\<lambda>j. take (if j = r \<and> L mod h \<noteq> 0 then L mod h else h) (f j)) [1..<r] = map f [1..<r]"
      using f by (intro map_cong refl) auto
    moreover have "[1..<Suc r] = [1..<r] @ [r]" using q(1) by simp
    ultimately have "concat (map (\<lambda>j. take (if j = r \<and> L mod h \<noteq> 0 then L mod h else h) (f j)) [1..<Suc r]) =
      concat (map f [1..<Suc q]) @ take (L mod h) (f r)"
      using False q(1) by (simp only: map_append concat_append) simp
    moreover have "take L (concat (map f [1..<Suc L])) = concat (map f [1..<Suc q]) @ take (L mod h) (f r)"
    proof -
      have "[1..<Suc L] = [1..<Suc q] @ Suc q # [Suc (Suc q)..<Suc L]"
        using split q(1) by simp
      moreover have "L - q * h = L mod h" using q(2) by linarith
      ultimately show ?thesis using len [of q] f [of "Suc q"] q m by (simp add: take_append del: upt_Suc)
    qed
    ultimately show ?thesis by simp
  qed
qed

lemma hmac_internal_OK:
  assumes "hmac_internal cr True (Some l) alg a b c k w = (SA_STATUS_OK, m, n, w')"
  shows "m = Some (hmac_function cr alg (case k of None \<Rightarrow> [0] | Some k \<Rightarrow> k) (a @ b @ c)) \<and> n = Some (digest_length alg)"
  using assms by (auto simp: hmac_internal_def Let_def split: if_splits prod.splits)

lemma digest_sha_OK:
  assumes "digest_sha cr True (Some l) alg a b c w = (SA_STATUS_OK, m, n, w')"
  shows "m = Some (digest_function cr alg (a @ b @ c)) \<and> n = Some (digest_length alg)"
  using assms by (auto simp: digest_sha_def Let_def split: if_splits prod.splits)

lemma hkdf_expand_blocks:
  assumes "hkdf_expand cr alg info prk r rem is tag tag_length derived w = (SA_STATUS_OK, out, w')"
    and "is = [Suc k..<Suc r]" "(if k = 0 then [] else tag) = hkdf_T cr alg prk info k"
  shows "out = derived @ concat (map (\<lambda>j. take (if j = r \<and> rem \<noteq> 0 then rem else unat (digest_length alg)) (hkdf_T cr alg prk info j)) is)"
  using assms
proof (induction "is" arbitrary: k tag tag_length derived w)
  case (Cons i "is")
  have i: "i = Suc k" "is = [Suc i..<Suc r]" using Cons.prems(2) [symmetric] by (auto simp: upt_eq_Cons_conv simp del: upt_Suc)
  obtain s m l w1 where h: "hmac_internal cr True (Some tag_length) alg (if k = 0 then [] else tag) info [of_nat i] (Some prk) w = (s, m, l, w1)"
    using prod_cases4 by blast
  then have h': "hmac_internal cr True (Some tag_length) alg (if i = 1 then [] else tag) info [of_nat i] (Some prk) w = (s, m, l, w1)"
    by (simp add: i(1))
  have s: "s = SA_STATUS_OK" using Cons.prems(1) h' by (auto simp del: One_nat_def split: if_splits)
  have m: "m = Some (hkdf_T cr alg prk info i)" "l = Some (digest_length alg)"
    using hmac_internal_OK [OF h [unfolded s]] Cons.prems(3) by (simp_all add: i(1))
  from Cons.prems(1) h' s m have
    "hkdf_expand cr alg info prk r rem is (hkdf_T cr alg prk info i) (digest_length alg)
      (derived @ take (if i = r \<and> rem \<noteq> 0 then rem else unat (digest_length alg)) (hkdf_T cr alg prk info i)) w1 = (SA_STATUS_OK, out, w')"
    by (simp del: One_nat_def hkdf_T.simps cong: if_cong)
  from Cons.IH [OF this i(2)] show ?case by (simp add: i(1) del: hkdf_T.simps)
qed simp

lemma digest_expand_blocks:
  assumes "digest_expand cr alg ins r rem is hash_length derived w = (SA_STATUS_OK, out, w')"
  shows "out = derived @ concat (map (\<lambda>j. take (if j = r \<and> rem \<noteq> 0 then rem else unat (digest_length alg))
    (digest_function cr alg (case ins [0, 0, 0, of_nat j] of (a, b, c) \<Rightarrow> a @ b @ c))) is)"
  using assms
proof (induction "is" arbitrary: hash_length derived w)
  case (Cons i "is")
  obtain a b c where abc: "ins [0, 0, 0, of_nat i] = (a, b, c)" using prod_cases3 by blast
  obtain s m l w1 where h: "digest_sha cr True (Some hash_length) alg a b c w = (s, m, l, w1)" using prod_cases4 by blast
  have s: "s = SA_STATUS_OK" using Cons.prems h abc by (simp split: if_splits)
  have m: "m = Some (digest_function cr alg (a @ b @ c))" "l = Some (digest_length alg)"
    using digest_sha_OK [OF h [unfolded s]] by simp_all
  from Cons.prems have "digest_expand cr alg ins r rem is (digest_length alg)
      (derived @ take (if i = r \<and> rem \<noteq> 0 then rem else unat (digest_length alg)) (digest_function cr alg (a @ b @ c))) w1 = (SA_STATUS_OK, out, w')"
    by (simp add: abc h s m cong: if_cong)
  from Cons.IH [OF this] show ?case by (simp add: abc)
qed simp

lemma be_bytes_small: "i < 256 \<Longrightarrow> be_bytes 4 i = [0, 0, 0, of_nat i]"
proof -
  have four: "4 = Suc (Suc (Suc (Suc 0)))" by simp
  show "i < 256 \<Longrightarrow> be_bytes 4 i = [0, 0, 0, of_nat i]" unfolding four be_bytes.simps by simp
qed

text \<open>The derived key is the given bytes, with rights the parent's restrict.\<close>

lemma create_derived_OK:
  assumes "create_derived r rp n bytes w = (SA_STATUS_OK, Some k, w')"
  shows "sk_key k = bytes" "hdr_rights (sk_header k) = restrict_child_rights r (Some rp)" "hdr_type (sk_header k) = SA_KEY_TYPE_SYMMETRIC"
  using assms by (auto simp: create_derived_def stored_key_create_def Let_def split: if_splits prod.splits)

lemma known_digest: "\<not> digest_length alg > DIGEST_MAX_LENGTH \<Longrightarrow> digest_string alg \<noteq> None \<and> 0 < unat (digest_length alg)"
  by (cases alg) (auto simp: DIGEST_MAX_LENGTH_def)

text \<open>The calls of a derivation that yields a key.\<close>

lemma hkdf_steps:
  assumes "kdf_hkdf_hmac cr rights alg salt salt_length info info_length key_length (Some p) w = (SA_STATUS_OK, Some k, w')"
  obtains r0 w1 w2 m l out w3 blocks rem where "rights = Some r0" "\<not> digest_length alg > DIGEST_MAX_LENGTH"
    "rem = unat key_length mod unat (digest_length alg)"
    "blocks = unat key_length div unat (digest_length alg) + (if rem \<noteq> 0 then 1 else 0)"
    "hmac_internal cr True (Some DIGEST_MAX_LENGTH) alg (sk_key p) [] [] (map_option (take salt_length) salt) w1 = (SA_STATUS_OK, m, l, w2)"
    "hkdf_expand cr alg (given_bytes info info_length) (the m) blocks rem [1..<Suc blocks] [] DIGEST_MAX_LENGTH [] w2 = (SA_STATUS_OK, out, w3)"
    "create_derived r0 (hdr_rights (sk_header p)) key_length out w3 = (SA_STATUS_OK, Some k, w')"
proof -
  obtain r0 where r0: "rights = Some r0" using assms by (cases rights) (simp_all add: kdf_hkdf_hmac_def)
  obtain b w1 where d: "draws 3 w = (b, w1)" by fastforce
  obtain s m l w2 where prk: "hmac_internal cr True (Some DIGEST_MAX_LENGTH) alg (sk_key p) [] []
      (map_option (take salt_length) salt) w1 = (s, m, l, w2)"
    using prod_cases4 by blast
  define rem where "rem = unat key_length mod unat (digest_length alg)"
  define blocks where "blocks = unat key_length div unat (digest_length alg) + (if rem \<noteq> 0 then 1 else 0)"
  obtain s2 out w3 where e: "hkdf_expand cr alg (given_bytes info info_length) (the m) blocks rem [1..<Suc blocks] [] DIGEST_MAX_LENGTH [] w2 = (s2, out, w3)"
    using prod_cases3 by blast
  have "\<not> digest_length alg > DIGEST_MAX_LENGTH \<and> s = SA_STATUS_OK \<and> s2 = SA_STATUS_OK \<and>
    create_derived r0 (hdr_rights (sk_header p)) key_length out w3 = (SA_STATUS_OK, Some k, w')"
    using assms r0 prk e unfolding kdf_hkdf_hmac_def Let_def rem_def [symmetric] blocks_def [symmetric] d
    by (simp add: Let_def rem_def [symmetric] blocks_def [symmetric] d del: upt_Suc One_nat_def split: if_splits)
  then show ?thesis using that [OF r0 _ rem_def blocks_def] prk e by simp
qed

lemma hkdf_computes:
  assumes doc: "digests_documented cr"
    and r: "kdf_hkdf_hmac cr rights alg salt salt_length info info_length key_length (Some p) w = (SA_STATUS_OK, Some k, w')"
  shows "sk_key k = rfc5869 cr alg (map_option (take salt_length) salt) (sk_key p) (given_bytes info info_length) (unat key_length) \<and>
    (\<exists>r0. rights = Some r0 \<and> hdr_rights (sk_header k) = restrict_child_rights r0 (Some (hdr_rights (sk_header p))))"
proof -
  obtain r0 w1 w2 m l out w3 blocks rem where r0: "rights = Some r0" and small: "\<not> digest_length alg > DIGEST_MAX_LENGTH"
    and rem: "rem = unat key_length mod unat (digest_length alg)"
    and blocks: "blocks = unat key_length div unat (digest_length alg) + (if rem \<noteq> 0 then 1 else 0)"
    and prk: "hmac_internal cr True (Some DIGEST_MAX_LENGTH) alg (sk_key p) [] [] (map_option (take salt_length) salt) w1 = (SA_STATUS_OK, m, l, w2)"
    and exp: "hkdf_expand cr alg (given_bytes info info_length) (the m) blocks rem [1..<Suc blocks] [] DIGEST_MAX_LENGTH [] w2 = (SA_STATUS_OK, out, w3)"
    and k: "create_derived r0 (hdr_rights (sk_header p)) key_length out w3 = (SA_STATUS_OK, Some k, w')"
    using r by (rule hkdf_steps)
  note kd = known_digest [OF small]
  let ?T = "hkdf_T cr alg (the m) (given_bytes info info_length)"
  have T: "length (?T j) = unat (digest_length alg)" if "1 \<le> j" for j
    using doc kd that unfolding digests_documented_def by (cases j) auto
  have "out = concat (map (\<lambda>j. take (if j = blocks \<and> rem \<noteq> 0 then rem else unat (digest_length alg)) (?T j)) [1..<Suc blocks])"
    using hkdf_expand_blocks [OF exp, of 0] by (simp del: upt_Suc)
  also have "\<dots> = take (unat key_length) (concat (map ?T [1..<Suc (unat key_length)]))"
    unfolding rem by (rule take_blocks [OF T _ blocks [unfolded rem]]) (use kd in simp_all)
  finally show ?thesis
    using create_derived_OK [OF k] hmac_internal_OK [OF prk] r0 by (simp add: rfc5869_def Let_def del: upt_Suc)
qed

text \<open>
  C30: HKDF as the code computes it is RFC 5869: when a key is derived, its bytes are the first
  \<open>key_length\<close> bytes of the output of the reference for the parent's bytes, for every hash, salt, info
  and length, and its rights are those that were asked for as the parent's restrict them.
\<close>

theorem hkdf_is_rfc5869:
  assumes doc: "digests_documented cr"
    and r: "kdf_hkdf_hmac cr rights alg salt salt_length info info_length key_length (Some p) w = (SA_STATUS_OK, Some k, w')"
  shows "sk_key k = rfc5869 cr alg (map_option (take salt_length) salt) (sk_key p) (given_bytes info info_length) (unat key_length) \<and>
    (\<exists>r0. rights = Some r0 \<and> hdr_rights (sk_header k) = restrict_child_rights r0 (Some (hdr_rights (sk_header p))))"
  by (rule hkdf_computes [OF assms])

lemma one_step_steps:
  assumes "kdf_one_step cr order rights alg info info_length key_length (Some p) w = (SA_STATUS_OK, Some k, w')"
  obtains r0 w2 out w3 blocks rem where "rights = Some r0" "\<not> digest_length alg > DIGEST_MAX_LENGTH"
    "rem = unat key_length mod unat (digest_length alg)"
    "blocks = unat key_length div unat (digest_length alg) + (if rem \<noteq> 0 then 1 else 0)" "blocks \<le> 255"
    "digest_expand cr alg (\<lambda>counter. order counter (sk_key p) (given_bytes info info_length)) blocks rem [1..<Suc blocks]
      (digest_length alg) [] w2 = (SA_STATUS_OK, out, w3)"
    "create_derived r0 (hdr_rights (sk_header p)) key_length out w3 = (SA_STATUS_OK, Some k, w')"
proof -
  obtain r0 where r0: "rights = Some r0" using assms by (cases rights) (simp_all add: kdf_one_step_def)
  obtain b w2 where d: "draws 2 w = (b, w2)" by fastforce
  define rem where "rem = unat key_length mod unat (digest_length alg)"
  define blocks where "blocks = unat key_length div unat (digest_length alg) + (if rem \<noteq> 0 then 1 else 0)"
  obtain s2 out w3 where e: "digest_expand cr alg (\<lambda>counter. order counter (sk_key p) (given_bytes info info_length)) blocks rem
      [1..<Suc blocks] (digest_length alg) [] w2 = (s2, out, w3)"
    using prod_cases3 by blast
  have "\<not> digest_length alg > DIGEST_MAX_LENGTH \<and> s2 = SA_STATUS_OK \<and> blocks \<le> 255 \<and>
    create_derived r0 (hdr_rights (sk_header p)) key_length out w3 = (SA_STATUS_OK, Some k, w')"
    using assms r0 e unfolding kdf_one_step_def Let_def rem_def [symmetric] blocks_def [symmetric] d
    by (simp add: Let_def rem_def [symmetric] blocks_def [symmetric] d del: upt_Suc One_nat_def split: if_splits)
  then show ?thesis using that [OF r0 _ rem_def blocks_def] e by simp
qed

lemma one_step_bytes:
  assumes doc: "digests_documented cr"
    and r: "kdf_one_step cr order rights alg info info_length key_length (Some p) w = (SA_STATUS_OK, Some k, w')"
  shows "sk_key k = take (unat key_length) (concat (map (\<lambda>i. digest_function cr alg
    (case order (be_bytes 4 i) (sk_key p) (given_bytes info info_length) of (a, b, c) \<Rightarrow> a @ b @ c)) [1..<Suc (unat key_length)]))"
    (is "_ = take _ (concat (map ?f _))")
proof -
  obtain r0 w2 out w3 blocks rem where small: "\<not> digest_length alg > DIGEST_MAX_LENGTH"
    and rem: "rem = unat key_length mod unat (digest_length alg)"
    and blocks: "blocks = unat key_length div unat (digest_length alg) + (if rem \<noteq> 0 then 1 else 0)" "blocks \<le> 255"
    and e: "digest_expand cr alg (\<lambda>counter. order counter (sk_key p) (given_bytes info info_length)) blocks rem [1..<Suc blocks]
      (digest_length alg) [] w2 = (SA_STATUS_OK, out, w3)"
    and k: "create_derived r0 (hdr_rights (sk_header p)) key_length out w3 = (SA_STATUS_OK, Some k, w')"
    using r by (rule one_step_steps)
  note kd = known_digest [OF small]
  have "j < 256" if "j \<in> set [1..<Suc blocks]" for j using that blocks(2) by auto
  then have "out = concat (map (\<lambda>j. take (if j = blocks \<and> rem \<noteq> 0 then rem else unat (digest_length alg)) (?f j)) [1..<Suc blocks])"
    unfolding digest_expand_blocks [OF e] append_Nil
    by (intro arg_cong [where f = concat] map_cong refl) (simp add: be_bytes_small del: be_bytes.simps set_upt upt_Suc)
  also have "\<dots> = take (unat key_length) (concat (map ?f [1..<Suc (unat key_length)]))"
    unfolding rem by (rule take_blocks [OF _ _ blocks(1) [unfolded rem]]) (use kd doc in \<open>auto simp: digests_documented_def\<close>)
  finally show ?thesis using create_derived_OK [OF k] by simp
qed

text \<open>
  C31: The one-step functions, as the code computes them, are those of their references: a key that is derived has the
  first \<open>key_length\<close> bytes of the digests of counter, parent and information, respectively of parent, counter and
  information, with the counter in four bytes, big-endian.
\<close>

theorem one_step_is_reference:
  assumes "digests_documented cr"
  shows "(kdf_concat_kdf cr rights alg info info_length key_length (Some p) w = (SA_STATUS_OK, Some k, w') \<longrightarrow>
      sk_key k = concat_reference cr alg (sk_key p) (given_bytes info info_length) (unat key_length)) \<and>
    (kdf_ansi_x963 cr rights alg info info_length key_length (Some p) w = (SA_STATUS_OK, Some k, w') \<longrightarrow>
      sk_key k = x963_reference cr alg (sk_key p) (given_bytes info info_length) (unat key_length))"
  unfolding kdf_concat_kdf_def kdf_ansi_x963_def concat_reference_def x963_reference_def
  using one_step_bytes [OF assms] by (simp del: upt_Suc)

text \<open>
  A length that needs more than 255 blocks is refused by the one-step functions, and not by HKDF:
  it stops with the status of the last call that succeeded, so the caller is told \<open>SA_STATUS_OK\<close> and there is no key.
\<close>

theorem hkdf_too_long_reports_success:
  assumes long: "unat key_length div unat (digest_length alg) \<ge> 256" and alg: "digest_string alg \<noteq> None"
    and faults: "w_faults w = []"
  shows "kdf_hkdf_hmac cr (Some r0) alg (Some salt) salt_length (Some info) info_length key_length (Some p) w = (SA_STATUS_OK, None, w) \<and>
    kdf_concat_kdf cr (Some r0) alg (Some info) info_length key_length (Some p) w = (SA_STATUS_INTERNAL_ERROR, None, w)"
proof -
  have small: "\<not> digest_length alg > DIGEST_MAX_LENGTH" "digest_length alg \<noteq> - 1" using alg by (cases alg; simp add: DIGEST_MAX_LENGTH_def)+
  have "hmac_internal cr True (Some DIGEST_MAX_LENGTH) alg (sk_key p) [] [] (Some (take salt_length salt)) w =
      (SA_STATUS_OK, Some (hmac_function cr alg (take salt_length salt) (sk_key p)), Some (digest_length alg), w)"
    using small faults by (simp add: hmac_internal_def Let_def)
  then show ?thesis
    using long small faults by (simp add: kdf_hkdf_hmac_def kdf_concat_kdf_def kdf_one_step_def Let_def del: upt_Suc)
qed

end
