(* ===== verification/Ta_Witnesses.thy ===== *)
theory Ta_Witnesses
  imports Context_Witnesses Mac_Session Ta_Cipher_Errors Demo_Ta Kdf
begin

text \<open>Concrete instances of the properties of the commands and of the key derivations.\<close>

section \<open>A session with a key\<close>

definition demo_client :: "wrapped_key typed_store \<Rightarrow> cipher typed_store \<Rightarrow> mac typed_store \<Rightarrow> symmetric_context heap \<Rightarrow> client" where
  "demo_client ks cs ms sh = \<lparr>client_key_store = ks, client_cipher_store = cs, client_mac_store = ms, client_svp_store = demo_store,
     client_hmacs = empty_heap, client_cmacs = empty_heap, client_symmetrics = sh\<rparr>"

lemma demo_client [simp]:
  "client_key_store (demo_client ks cs ms sh) = ks" "client_cipher_store (demo_client ks cs ms sh) = cs"
  "client_mac_store (demo_client ks cs ms sh) = ms" "client_symmetrics (demo_client ks cs ms sh) = sh"
  "client_cmacs (demo_client ks cs ms sh) = empty_heap"
  "client_svp_store (demo_client ks cs ms sh) = demo_store"
  by (simp_all add: demo_client_def)

lemma demo_held_key:
  obtains wk where "keys_ok demo_crypto (w_root_key demo_world) (demo_used 0 wk)"
    "wraps demo_crypto (w_root_key demo_world) wk demo_key"
    "key_store_unwrap demo_crypto True (demo_used 0 wk) 31 (Some demo_uuid) demo_world = (SA_STATUS_OK, Some demo_key, demo_used 0 wk, demo_world)"
proof (rule demo_wrapped)
  fix wk w1
  assume r: "wrapped_key_create demo_crypto (Some (apply_mixin DEFAULT_MIXIN)) (Some demo_key) demo_world = (Some wk, None, w1)"
  have wr: "wraps demo_crypto (w_root_key demo_world) wk demo_key"
    using wraps_create [OF r demo_world(5) demo_key apply_mixin_ok] by (simp add: DEFAULT_MIXIN_def)
  note ok = typed_add_keys_ok [OF demo_keys_ok demo_uuid demo_used_added wr]
  have run: "ts_running (demo_used 0 wk)" by (rule typed_add_quiet(2) [OF demo_used_added demo_world(1) demo_store(2)])
  have use: "may_use (hdr_rights (wk_header wk)) demo_uuid demo_world"
    using demo_rights_may_use wr by (simp add: wraps_def demo_key_def)
  have "ts_entries (demo_used 0 wk) (unat (31 :: u64)) = Some (Suc 0, 0, demo_uuid)" by simp
  from key_store_unwrap_succeeds [OF ok run demo_uuid demo_crypto demo_world(5,1) this _ wr use]
  obtain ts2 where u: "key_store_unwrap demo_crypto True (demo_used 0 wk) 31 (Some demo_uuid) demo_world = (SA_STATUS_OK, Some demo_key, ts2, demo_world)"
    by auto
  moreover have "ts2 = demo_used 0 wk"
    using u wraps_unwrap [OF wr demo_crypto demo_world(5,1)] by (auto simp: key_store_unwrap_def key_store_release_key_def demo_used_def Let_def split: if_splits option.splits prod.splits)
  ultimately show ?thesis using ok wr that by blast
qed

text \<open>The steps of a MAC computation, evaluated.\<close>

definition demo_mac :: mac where
  "demo_mac = \<lparr>lock_depth = 0, mac_algorithm = SA_MAC_ALGORITHM_CMAC, hmac_context = NULL, cmac_context = Suc 0\<rparr>"

definition demo_cmacs :: "cmac_context \<Rightarrow> cmac_context heap" where
  "demo_cmacs x = \<lparr>next_addr = 2, cells = [Suc 0 \<mapsto> x]\<rparr>"

lemma demo_cmac_context:
  "cmac_context_create (Some demo_key) demo_world = (Some demo_cc, demo_world)"
  "Mac_Context.cmac_context_update (Some demo_cc) (Some [1, 2]) (Suc (Suc 0)) demo_world = (SA_STATUS_OK, Some (demo_cc\<lparr>cc_data := [1, 2]\<rparr>), demo_world)"
  "cmac_context_compute demo_crypto True (Some (demo_cc\<lparr>cc_data := [1, 2]\<rparr>)) demo_world =
    (SA_STATUS_OK, Some (replicate 16 5), Some (demo_cc\<lparr>cc_data := [1, 2], cc_done := True\<rparr>), demo_world)"
  using demo_contexts by (simp_all add: Mac_Context.cmac_context_update_def demo_cc_def)

lemma demo_added_mac:
  "mac_store_add_cmac_context True demo_store (Suc 0) (Some demo_uuid) demo_world =
    (SA_STATUS_OK, 31, [], demo_used 0 demo_mac, demo_world)"
  using demo_used_added [of demo_mac] by (simp add: mac_store_add_cmac_context_def mac_allocate_def demo_mac_def Let_def)

lemma demo_may_sign: "rights_allowed_sign (Some demo_rights) demo_world"
  by (simp add: rights_allowed_sign_def demo_rights_def all_ones_bit within_validity_def)

theorem mac_session_computes_witness:
  "\<exists>wk h t1 t2 t3. ta_sa_crypto_mac_init demo_crypto True SA_MAC_ALGORITHM_CMAC 31 None
      (demo_session 0 (demo_client (demo_used 0 wk) demo_store demo_store empty_heap)) 31 (Some demo_uuid) demo_world =
      Some (SA_STATUS_OK, h, t1, demo_world) \<and>
    mac_feed demo_crypto h [Data [1, 2]] t1 31 demo_uuid demo_world = Some (SA_STATUS_OK, t2, demo_world) \<and>
    ta_sa_crypto_mac_compute demo_crypto True (Some 16) h t2 31 (Some demo_uuid) demo_world =
      Some (SA_STATUS_OK, (Some (replicate 16 5), 16), t3, demo_world) \<and>
    (\<exists>(sk :: stored_key) bs. replicate 16 5 = cmac_function demo_crypto (sk_key sk) bs)"
proof (rule demo_held_key)
  fix wk
  assume wk: "keys_ok demo_crypto (w_root_key demo_world) (demo_used 0 wk)"
    "wraps demo_crypto (w_root_key demo_world) wk demo_key"
    "key_store_unwrap demo_crypto True (demo_used 0 wk) 31 (Some demo_uuid) demo_world = (SA_STATUS_OK, Some demo_key, demo_used 0 wk, demo_world)"
  define c0 where "c0 = demo_client (demo_used 0 wk) demo_store demo_store empty_heap"
  define c1 where "c1 = (\<lambda>x. c0\<lparr>client_mac_store := demo_used 0 demo_mac, client_cmacs := demo_cmacs x\<rparr>)"
  note steps = with_object_def cmac_context_done_def mac_process_body_def mac_compute_body_def the_cmac_def put_cmac_def mac_get_algorithm_def mac_get_cmac_context_def
    demo_mac_def demo_cmacs_def heap_write_def demo_cc_def AES_BLOCK_SIZE_def Let_def
  have i: "ta_sa_crypto_mac_init demo_crypto True SA_MAC_ALGORITHM_CMAC 31 None (demo_session 0 c0) 31 (Some demo_uuid) demo_world =
      Some (SA_STATUS_OK, 31, demo_session 0 (c1 demo_cc), demo_world)"
    unfolding ta_sa_crypto_mac_init_def using wk(3) demo_cmac_context(1) demo_may_sign
    by (subst demo_with_client) (auto simp: ta_sa_crypto_mac_init_cmac_def c0_def c1_def demo_key_def stored_key_get_header_def Let_def
      key_type_supports_aes_def valid_aes_size_def SYM_128_KEY_SIZE_def heap_alloc_def empty_heap_def demo_added_mac demo_cmacs_def)
  have "with_mac () (mac_process_body (Some [1, 2]) (Suc (Suc 0))) 31 (Some demo_uuid) (c1 demo_cc) demo_world =
      (SA_STATUS_OK, (), c1 (demo_cc\<lparr>cc_data := [1, 2]\<rparr>), demo_world)"
    using demo_cmac_context(2) by (simp add: steps c1_def)
  then have f: "mac_feed demo_crypto 31 [Data [1, 2]] (demo_session 0 (c1 demo_cc)) 31 demo_uuid demo_world =
      Some (SA_STATUS_OK, demo_session 0 (c1 (demo_cc\<lparr>cc_data := [1, 2]\<rparr>)), demo_world)"
    by (simp add: mac_feed_part_def ta_sa_crypto_mac_process_def demo_with_client)
  have "with_mac (None, 16) (mac_compute_body demo_crypto True 16) 31 (Some demo_uuid) (c1 (demo_cc\<lparr>cc_data := [1, 2]\<rparr>)) demo_world =
      (SA_STATUS_OK, (Some (replicate 16 5), 16), c1 (demo_cc\<lparr>cc_data := [1, 2], cc_done := True\<rparr>), demo_world)"
    using demo_cmac_context(3) by (simp add: steps c1_def)
  then have co: "ta_sa_crypto_mac_compute demo_crypto True (Some 16) 31 (demo_session 0 (c1 (demo_cc\<lparr>cc_data := [1, 2]\<rparr>))) 31 (Some demo_uuid) demo_world =
      Some (SA_STATUS_OK, (Some (replicate 16 5), 16), demo_session 0 (c1 (demo_cc\<lparr>cc_data := [1, 2], cc_done := True\<rparr>)), demo_world)"
    by (simp add: ta_sa_crypto_mac_compute_def demo_with_client)
  have m: "macs_ok c0"
    by (simp add: macs_ok_def c0_def mac_at_def demo_client_def empty_heap_def heap_ok_def)
  have s: "session (demo_session 0 c0) (unat (31 :: u64)) = Some (demo_uuid, c0)" by simp
  have k: "keys_ok demo_crypto (w_root_key demo_world) (client_key_store c0)" using wk(1) by (simp add: c0_def)
  from mac_session_computes [OF demo_session(1) s m demo_uuid k demo_crypto demo_world(5) i f co]
  obtain sk :: stored_key and bss where "Some (replicate 16 5) = Some (if SA_MAC_ALGORITHM_CMAC = SA_MAC_ALGORITHM_HMAC
      then hmac_function demo_crypto (the None) (sk_key sk) (concat bss) else cmac_function demo_crypto (sk_key sk) (concat bss))"
    by blast
  then have "replicate 16 5 = cmac_function demo_crypto (sk_key sk) (concat bss)" by simp
  then have "\<exists>(sk :: stored_key) bs. replicate 16 5 = cmac_function demo_crypto (sk_key sk) bs" by blast
  with i f co show ?thesis unfolding c0_def by blast
qed

section \<open>Cipher commands\<close>

definition demo_cipher :: cipher where
  "demo_cipher = \<lparr>lock_depth = 0, cipher_algorithm = SA_CIPHER_ALGORITHM_AES_CTR, cipher_mode = SA_CIPHER_MODE_ENCRYPT,
     symmetric_context = Suc 0, cipher_stored_key = Some demo_key, oaep_digest_algorithm = SA_DIGEST_ALGORITHM_SHA1,
     oaep_mgf1_digest_algorithm = SA_DIGEST_ALGORITHM_SHA1, oaep_label = None, oaep_label_length = 0\<rparr>"

lemma demo_algorithm: "cipher_algorithm demo_cipher = SA_CIPHER_ALGORITHM_AES_CTR"
  by (simp add: demo_cipher_def)

definition demo_ctr :: symmetric_context where
  "demo_ctr = \<lparr>sc_algorithm = SA_CIPHER_ALGORITHM_AES_CTR, sc_mode = SA_CIPHER_MODE_ENCRYPT, sc_calls = [EVP_Init EVP_aes_ctr SA_CIPHER_MODE_ENCRYPT (replicate 16 5) (replicate 16 0) False]\<rparr>"

definition demo_cipher_client :: client where
  "demo_cipher_client = demo_client demo_store (demo_used 0 demo_cipher) demo_store \<lparr>next_addr = 2, cells = [Suc 0 \<mapsto> demo_ctr]\<rparr>"

lemma demo_cipher_ta [simp]: "ta_ok (demo_session 0 demo_cipher_client)"
  by (auto simp: ta_ok_def stores_ok_def demo_cipher_client_def split: if_splits)

lemma demo_may_encrypt: "rights_allowed_encrypt (Some demo_rights) SA_KEY_TYPE_SYMMETRIC demo_world" "rights_allowed_clear (Some demo_rights)"
  using demo_rights_may_use
  by (auto simp: rights_allowed_encrypt_def rights_allowed_clear_def validate_video_output_state_def may_use_def
      rights_allowed_video_output_state_iff) (simp_all add: demo_rights_def all_ones_bit within_validity_def)

abbreviation "demo_in \<equiv> Clear_Buffer 0x2000 16 0"
abbreviation "demo_out \<equiv> Clear_Buffer 0x1000 16 0"

definition demo_world' :: world where
  "demo_world' = demo_world\<lparr>w_mem := mem_write (w_mem demo_world) 0x1000 [1]\<rparr>"

lemma demo_world' [simp]: "w_faults demo_world' = []" "w_mem demo_world' 0x1000 = 1" "w_mem demo_world' \<noteq> w_mem demo_world"
proof -
  show "w_faults demo_world' = []" by (simp add: demo_world'_def)
  show m: "w_mem demo_world' 0x1000 = 1" by (simp add: demo_world'_def mem_write_def)
  show "w_mem demo_world' \<noteq> w_mem demo_world"
  proof
    assume "w_mem demo_world' = w_mem demo_world"
    then have "w_mem demo_world' 0x1000 = w_mem demo_world 0x1000" by simp
    with m show False by (simp add: demo_world_def)
  qed
qed

text \<open>The session after one call has been made on the context.\<close>

definition demo_processed :: client where
  "demo_processed = demo_client demo_store (demo_used 0 demo_cipher) demo_store
     \<lparr>next_addr = 2, cells = [Suc 0 \<mapsto> demo_ctr\<lparr>sc_calls := sc_calls demo_ctr @ [EVP_Update [1]]\<rparr>]\<rparr>"

lemma demo_process:
  "process_algorithm demo_crypto 0x1000 1 (demo_cipher\<lparr>lock_depth := Suc 0\<rparr>) 0x2000 1 (Some demo_uuid)
    (demo_cipher_client\<lparr>client_cipher_store := s\<rparr>) demo_world =
    (SA_STATUS_OK, 1, demo_processed\<lparr>client_cipher_store := s\<rparr>, demo_world')"
  using demo_may_encrypt(1)
  by (simp add: process_algorithm_def symmetric_algorithm_def ta_sa_crypto_cipher_process_symmetric_def cipher_get_symmetric_context_def
      cipher_get_key_rights_def demo_cipher_def demo_key_def stored_key_get_header_def mem_read_def demo_world_def
      the_symmetric_def put_symmetric_def demo_cipher_client_def demo_processed_def demo_client_def demo_ctr_def symmetric_context_encrypt_def
      evp_step_def demo_output stream_algorithm_def store_bytes_def heap_write_def demo_world'_def Let_def)

lemma demo_buffers:
  "convert_buffer (Some demo_out) 1 c (Some demo_uuid) w = (SA_STATUS_OK, 0x1000, NULL, c, w)"
  "convert_buffer (Some demo_in) 1 c (Some demo_uuid) w = (SA_STATUS_OK, 0x2000, NULL, c, w)"
  by (simp_all add: convert_buffer_def add_overflow_def memory_is_valid_clear_def)

text \<open>A command on the session whose work, for one byte, is done by a given function.\<close>

lemma demo_command:
  assumes "run 0x1000 0x2000 1 (demo_cipher_client\<lparr>client_cipher_store := demo_used 1 (demo_cipher\<lparr>lock_depth := Suc 0\<rparr>)\<rparr>) demo_world =
    (SA_STATUS_OK, 1, r, c'\<lparr>client_cipher_store := demo_used 1 (demo_cipher\<lparr>lock_depth := Suc 0\<rparr>)\<rparr>, demo_world')"
    and c': "c'\<lparr>client_cipher_store := demo_used 0 demo_cipher\<rparr> = c'"
    and work: "work (demo_cipher\<lparr>lock_depth := Suc 0\<rparr>) = cipher_work run 1 (Some demo_out) demo_in 1 (Some demo_uuid) (demo_cipher\<lparr>lock_depth := Suc 0\<rparr>)"
  shows "\<exists>res. with_client_leaving no (with_cipher_buffers report work 31 1 (Some demo_out) demo_in (Some demo_uuid))
    (demo_session 0 demo_cipher_client) 31 (Some demo_uuid) demo_world = Some (SA_STATUS_OK, res, demo_session 0 c', demo_world')"
proof -
  have cs: "client_cipher_store demo_cipher_client = demo_used 0 demo_cipher" "lock_depth demo_cipher = 0"
    by (simp_all add: demo_cipher_client_def demo_cipher_def)
  have "\<exists>res. with_cipher_buffers report work 31 1 (Some demo_out) demo_in (Some demo_uuid) demo_cipher_client demo_world =
      (False, SA_STATUS_OK, res, c', demo_world')"
    using assms cs demo_may_encrypt(2)
    by (simp add: with_cipher_buffers_def cipher_store_acquire_exclusive_def cipher_store_release_exclusive_def cipher_work_def demo_buffers
        release_buffer_def cipher_get_key_rights_def stored_key_get_header_def demo_cipher_def demo_key_def authenticated_or_asymmetric_def
        Let_def)
  then show ?thesis by (auto simp: with_client_leaving_def Let_def)
qed


definition demo_finished :: client where
  "demo_finished = demo_client demo_store (demo_used 0 demo_cipher) demo_store
     \<lparr>next_addr = 2, cells = [Suc 0 \<mapsto> demo_ctr\<lparr>sc_calls := sc_calls demo_ctr @ [EVP_Update [1], EVP_Final]\<rparr>]\<rparr>"

lemma demo_process_last:
  "process_last_algorithm demo_crypto 0x1000 1 (demo_cipher\<lparr>lock_depth := Suc 0\<rparr>) 0x2000 1 None (Some demo_uuid)
    (demo_cipher_client\<lparr>client_cipher_store := s\<rparr>) demo_world =
    (SA_STATUS_OK, 1, None, demo_finished\<lparr>client_cipher_store := s\<rparr>, demo_world')"
  using demo_may_encrypt(1)
  by (simp add: process_last_algorithm_def ta_sa_crypto_cipher_process_last_aes_ctr_def encrypt_last_def cipher_get_symmetric_context_def
      cipher_get_key_rights_def demo_cipher_def demo_key_def stored_key_get_header_def mem_read_def demo_world_def
      the_symmetric_def put_symmetric_def demo_cipher_client_def demo_finished_def demo_client_def demo_ctr_def symmetric_context_encrypt_last_def
      evp_step_def evp_last_def demo_output stream_algorithm_def store_bytes_def heap_write_def demo_world'_def Let_def)


lemma demo_running [simp]: "ts_running (demo_used r v)"
  by (simp add: ts_running_def demo_entry_def)


section \<open>Key derivation\<close>

lemma demo_digests: "digests_documented demo_crypto"
  unfolding digests_documented_def
proof (intro conjI allI impI)
  fix alg k d
  assume "digest_string alg \<noteq> None"
  then show "length (hmac_function demo_crypto alg k d) = unat (digest_length alg)"
    "length (digest_function demo_crypto alg d) = unat (digest_length alg)"
    by (cases alg; simp add: demo_crypto_def)+
qed (simp add: demo_crypto_def)

text \<open>Forty bytes from a key, the second block cut.\<close>

lemma demo_two_blocks: "unat (40 :: u64) div unat (32 :: u64) + 1 = 2" "unat (40 :: u64) mod unat (32 :: u64) = 8" "[1..<Suc 2] = [1, 2]"
  by (simp_all add: upt_rec)

lemma demo_derived:
  "\<exists>k. create_derived demo_rights demo_rights 40 bytes demo_world = (SA_STATUS_OK, Some k, demo_world)"
proof -
  have "rights_validate_format (Some demo_rights)" by (simp add: demo_rights_def rights_validate_format_def strnlen_def)
  then show ?thesis
    by (simp add: create_derived_def stored_key_create_def key_type_supports_any_def key_type_supports_hmac_def valid_hmac_size_def
        SYM_128_KEY_SIZE_def SYM_MAX_KEY_SIZE_def Let_def)
qed

lemma demo_hmac_value:
  "\<not> l < 32 \<Longrightarrow> hmac_internal demo_crypto True (Some l) SA_DIGEST_ALGORITHM_SHA256 a b c k demo_world =
    (SA_STATUS_OK, Some (hmac_function demo_crypto SA_DIGEST_ALGORITHM_SHA256 (case k of None \<Rightarrow> [0] | Some k \<Rightarrow> k) (a @ b @ c)), Some 32, demo_world)"
  by (simp add: hmac_internal_def Let_def)

lemma demo_digest_value:
  "digest_sha demo_crypto True (Some 32) SA_DIGEST_ALGORITHM_SHA256 a b c demo_world =
    (SA_STATUS_OK, Some (digest_function demo_crypto SA_DIGEST_ALGORITHM_SHA256 (a @ b @ c)), Some 32, demo_world)"
  by (simp add: digest_sha_def Let_def)

lemma demo_hkdf:
  "\<exists>k. kdf_hkdf_hmac demo_crypto (Some demo_rights) SA_DIGEST_ALGORITHM_SHA256 None 0 (Some [7]) 1 40 (Some demo_key) demo_world =
    (SA_STATUS_OK, Some k, demo_world)"
  using demo_derived
  by (simp add: kdf_hkdf_hmac_def DIGEST_MAX_LENGTH_def demo_hmac_value demo_two_blocks Let_def demo_key_def upt_rec)

theorem hkdf_is_rfc5869_witness:
  "\<exists>k. kdf_hkdf_hmac demo_crypto (Some demo_rights) SA_DIGEST_ALGORITHM_SHA256 None 0 (Some [7]) 1 40 (Some demo_key) demo_world =
      (SA_STATUS_OK, Some k, demo_world) \<and>
    sk_key k = rfc5869 demo_crypto SA_DIGEST_ALGORITHM_SHA256 None (replicate 16 5) [7] 40"
proof -
  obtain k where k: "kdf_hkdf_hmac demo_crypto (Some demo_rights) SA_DIGEST_ALGORITHM_SHA256 None 0 (Some [7]) 1 40 (Some demo_key) demo_world =
    (SA_STATUS_OK, Some k, demo_world)" using demo_hkdf by blast
  moreover have "sk_key k = rfc5869 demo_crypto SA_DIGEST_ALGORITHM_SHA256 None (replicate 16 5) [7] 40"
    using conjunct1 [OF hkdf_is_rfc5869 [OF demo_digests k]] by (simp add: given_bytes_def demo_key_def del: upt_Suc)
  ultimately show ?thesis by blast
qed

theorem one_step_is_reference_witness:
  "\<exists>k. kdf_ansi_x963 demo_crypto (Some demo_rights) SA_DIGEST_ALGORITHM_SHA256 (Some [7]) 1 40 (Some demo_key) demo_world =
      (SA_STATUS_OK, Some k, demo_world) \<and>
    sk_key k = x963_reference demo_crypto SA_DIGEST_ALGORITHM_SHA256 (replicate 16 5) [7] 40"
proof -
  have "\<exists>k. kdf_ansi_x963 demo_crypto (Some demo_rights) SA_DIGEST_ALGORITHM_SHA256 (Some [7]) 1 40 (Some demo_key) demo_world =
      (SA_STATUS_OK, Some k, demo_world)"
    using demo_derived
    by (simp add: kdf_ansi_x963_def kdf_one_step_def DIGEST_MAX_LENGTH_def demo_digest_value demo_two_blocks Let_def demo_key_def upt_rec)
  then obtain k where k: "kdf_ansi_x963 demo_crypto (Some demo_rights) SA_DIGEST_ALGORITHM_SHA256 (Some [7]) 1 40 (Some demo_key) demo_world =
      (SA_STATUS_OK, Some k, demo_world)" by blast
  moreover from one_step_is_reference [OF demo_digests] k
  have "sk_key k = x963_reference demo_crypto SA_DIGEST_ALGORITHM_SHA256 (sk_key demo_key) (given_bytes (Some [7]) 1) (unat (40 :: u64))"
    by blast
  then have "sk_key k = x963_reference demo_crypto SA_DIGEST_ALGORITHM_SHA256 (replicate 16 5) [7] 40"
    by (simp add: given_bytes_def demo_key_def)
  ultimately show ?thesis by blast
qed

theorem hkdf_too_long_reports_success_witness:
  "kdf_hkdf_hmac demo_crypto (Some demo_rights) SA_DIGEST_ALGORITHM_SHA1 (Some [1]) 1 (Some [7]) 1 5120 (Some demo_key) demo_world =
    (SA_STATUS_OK, None, demo_world)"
  using hkdf_too_long_reports_success [of 5120 SA_DIGEST_ALGORITHM_SHA1 demo_world demo_crypto demo_rights "[1]" 1 "[7]" 1 demo_key] by simp

end
