(* ===== verification/Ta_Keys.thy ===== *)
theory Ta_Keys
  imports Ta_Mac Kdf
begin

text \<open>
  What the commands that make keys share: they unwrap a key of the caller, check what its rights allow, make
  a key and import it. \<open>keys_grow\<close> is what a session's key store may go through in such a command:
  the keys that were there stay, and only the caller gets new ones.
\<close>

section \<open>The frame\<close>

text \<open>
  Unwrapping the key under a handle and checking its rights; the key is there when the status is success. The header of
  an unwrapped key is never NULL. In the combinator \<open>with_key\<close>, \<open>body\<close> runs on the key.
\<close>

definition open_key ::
  "crypto \<Rightarrow> (sa_rights option \<Rightarrow> world \<Rightarrow> bool) \<Rightarrow> u64 \<Rightarrow> sa_uuid option \<Rightarrow> client \<Rightarrow> world \<Rightarrow>
   sa_status \<times> stored_key option \<times> client \<times> world" where
  "open_key cr allowed key caller_uuid c w =
     (let (status, stored_key, store, w) = key_store_unwrap cr True (client_key_store c) key caller_uuid w;
          c = c\<lparr>client_key_store := store\<rparr> in
      if status \<noteq> SA_STATUS_OK then (status, None, c, w)
      else (case stored_key of None \<Rightarrow> (SA_STATUS_NULL_PARAMETER, None, c, w)
      | Some k \<Rightarrow>
          if \<not> allowed (Some (hdr_rights (sk_header k))) w then (SA_STATUS_OPERATION_NOT_ALLOWED, None, c, w)
          else (SA_STATUS_OK, Some k, c, w)))"

definition with_key ::
  "crypto \<Rightarrow> (sa_rights option \<Rightarrow> world \<Rightarrow> bool) \<Rightarrow> u64 \<Rightarrow> 'a \<Rightarrow> (stored_key \<Rightarrow> client \<Rightarrow> world \<Rightarrow> sa_status \<times> 'a \<times> client \<times> world) \<Rightarrow>
   sa_uuid option \<Rightarrow> client \<Rightarrow> world \<Rightarrow> sa_status \<times> 'a \<times> client \<times> world" where
  "with_key cr allowed key no_output body caller_uuid c w =
     (let (status, stored_key, c, w) = open_key cr allowed key caller_uuid c w in
      if status \<noteq> SA_STATUS_OK then (status, no_output, c, w) else body (the stored_key) c w)"

definition import_made_key ::
  "crypto \<Rightarrow> stored_key option \<Rightarrow> sa_uuid option \<Rightarrow> client \<Rightarrow> world \<Rightarrow> sa_status \<times> u64 \<times> client \<times> world" where
  "import_made_key cr stored_key caller_uuid c w =
     (let (status, n, store, w) = key_store_import_stored_key cr True (client_key_store c) stored_key caller_uuid w in
      (status, n, c\<lparr>client_key_store := store\<rparr>, w))"

section \<open>What happens to the keys\<close>

definition keys_grow ::
  "crypto \<Rightarrow> u8 list \<Rightarrow> sa_uuid \<Rightarrow> wrapped_key typed_store \<Rightarrow> wrapped_key typed_store \<Rightarrow> bool" where
  "keys_grow cr root u ts ts' \<longleftrightarrow> keys_ok cr root ts' \<and>
     (\<forall>n v sk. owns_key cr root ts n v sk \<longrightarrow> owns_key cr root ts' n v sk) \<and>
     (\<forall>n v sk. v \<noteq> u \<longrightarrow> owns_key cr root ts' n v sk \<longrightarrow> owns_key cr root ts n v sk)"

named_theorems grows \<open>steps of a key store, as introduction rules\<close>

lemma keys_grow_refl [simp]: "keys_ok cr root ts \<Longrightarrow> keys_grow cr root u ts ts"
  by (simp add: keys_grow_def)

lemma keys_grow_trans [trans]:
  "keys_grow cr root u a b \<Longrightarrow> keys_grow cr root u b c \<Longrightarrow> keys_grow cr root u a c"
  unfolding keys_grow_def by blast

lemma keys_growD:
  assumes "keys_grow cr root u ts ts'"
  shows "keys_ok cr root ts'" "owns_key cr root ts n v sk \<Longrightarrow> owns_key cr root ts' n v sk"
  using assms unfolding keys_grow_def by blast+

lemma same_keys_sym: "same_keys ts ts' \<Longrightarrow> ts_ok ts \<Longrightarrow> same_keys ts' ts"
  by (simp add: same_keys_def)

lemma same_keys_grow: "same_keys ts ts' \<Longrightarrow> keys_ok cr root ts \<Longrightarrow> keys_grow cr root u ts ts'"
  using owns_key_same [of ts ts'] owns_key_same [OF same_keys_sym, of ts ts'] same_keys_ok [of ts ts'] keys_okD(1) [of cr root ts]
  unfolding keys_grow_def by blast

lemma open_key_result:
  assumes keys: "keys_ok cr (w_root_key w) (client_key_store c)" "crypto_ok cr" "provisioned w" and u: "uuid_ok u"
    and r: "open_key cr allowed key (Some u) c w = (s, sk, c', w')"
  obtains ks where "c' = c\<lparr>client_key_store := ks\<rparr>" "same_keys (client_key_store c) ks" "same_device w w'"
    "s \<noteq> SA_STATUS_OK \<or> (\<exists>k. sk = Some k \<and> owns_key cr (w_root_key w) (client_key_store c) key u k \<and>
       may_use (hdr_rights (sk_header k)) u w \<and> allowed (Some (hdr_rights (sk_header k))) w')"
proof -
  obtain s1 k1 ks w1 where un: "key_store_unwrap cr True (client_key_store c) key (Some u) w = (s1, k1, ks, w1)"
    using prod_cases4 by blast
  note same = key_store_unwrap_same [OF keys_okD(1) [OF keys(1)] u un] and dev = key_store_unwrap_device [OF un]
  have c': "c' = c\<lparr>client_key_store := ks\<rparr>" "w' = w1" using r un by (auto simp: open_key_def Let_def split: if_splits option.splits)
  show ?thesis
  proof (cases "s = SA_STATUS_OK")
    case True
    then have "s1 = SA_STATUS_OK" using r un by (auto simp: open_key_def Let_def split: if_splits)
    then obtain k where k: "k1 = Some k" "owns_key cr (w_root_key w) (client_key_store c) key u k" "may_use (hdr_rights (sk_header k)) u w"
      using key_store_unwrap_owner [OF keys(1) u keys(2,3)] un by blast
    then have "sk = Some k \<and> allowed (Some (hdr_rights (sk_header k))) w1" using r un True \<open>s1 = SA_STATUS_OK\<close>
      by (auto simp: open_key_def Let_def split: if_splits)
    with c' same dev k show ?thesis by (intro that [of ks]) auto
  next
    case False
    with c' same dev show ?thesis by (intro that [of ks]) auto
  qed
qed

lemma with_key_result:
  assumes keys: "keys_ok cr (w_root_key w) (client_key_store c)" "crypto_ok cr" "provisioned w" and u: "uuid_ok u"
    and r: "with_key cr allowed key no body (Some u) c w = (s, out, c', w')"
  obtains (refused) ks where "s \<noteq> SA_STATUS_OK" "out = no" "c' = c\<lparr>client_key_store := ks\<rparr>"
      "same_keys (client_key_store c) ks" "same_device w w'"
  | (ran) k ks w1 where "owns_key cr (w_root_key w) (client_key_store c) key u k" "may_use (hdr_rights (sk_header k)) u w"
      "allowed (Some (hdr_rights (sk_header k))) w1" "same_keys (client_key_store c) ks" "same_device w w1"
      "body k (c\<lparr>client_key_store := ks\<rparr>) w1 = (s, out, c', w')"
proof -
  obtain s1 k1 c1 w1 where o: "open_key cr allowed key (Some u) c w = (s1, k1, c1, w1)" using prod_cases4 by blast
  show ?thesis
  proof (rule open_key_result [OF keys u o], goal_cases)
    case (1 ks)
    show ?case
    proof (cases "s1 = SA_STATUS_OK")
      case True
      then show ?thesis using 1 r o that(2) by (auto simp: with_key_def Let_def)
    next
      case False
      then show ?thesis using 1 r o by (intro that(1) [of ks]) (auto simp: with_key_def Let_def)
    qed
  qed
qed

text \<open>An added object is a key of its owner and nobody else's.\<close>

lemma typed_add_grows:
  assumes ok: "keys_ok cr root ts" and u: "uuid_ok u" and add: "typed_add ts wk u w = (SA_STATUS_OK, n, ts', w')"
    and wr: "wraps cr root wk sk"
  shows "keys_grow cr root u ts ts' \<and> owns_key cr root ts' n u sk \<and> (\<forall>v sk. \<not> owns_key cr root ts n v sk)"
  using keys_okD(1) [OF ok] u add
proof (rule typed_add_result)
  fix a
  assume r: "ts_ok ts'" "ts_entries ts (unat n) = None" "ts_entries ts' = (ts_entries ts)(unat n \<mapsto> (a, 0, u))"
    "cells (ts_heap ts') a = Some wk" "\<And>b. b \<noteq> a \<Longrightarrow> cells (ts_heap ts') b = cells (ts_heap ts) b"
  have fresh: "b \<noteq> a" if "ts_entries ts m = Some (b, k, v)" for m b k v
    using that r(1-3) unfolding ts_ok_def reg.coherent_def by (metis fun_upd_apply option.distinct(1))
  have old: "owns_key cr root ts' m v sk' \<longleftrightarrow> owns_key cr root ts m v sk'" if "unat m \<noteq> unat n" for m v sk'
    unfolding owns_key_def r(3) using that r(5) fresh by (auto split: if_splits)
  have none: "\<not> owns_key cr root ts n v sk'" for v sk' using r(2) by (simp add: owns_key_def)
  have other: "owns_key cr root ts m v sk'" if "v \<noteq> u" "owns_key cr root ts' m v sk'" for m v sk'
  proof (cases "unat m = unat n")
    case True
    with that r(3) show ?thesis by (auto simp: owns_key_def)
  next
    case False
    with that old show ?thesis by blast
  qed
  have keep: "owns_key cr root ts' m v sk'" if "owns_key cr root ts m v sk'" for m v sk'
    using that none old [of m v sk'] by (metis word_unat_eq_iff)
  have "owns_key cr root ts' n u sk" using r(3,4) wr by (auto simp: owns_key_def)
  then show ?thesis using typed_add_keys_ok [OF ok u add wr] keep other none unfolding keys_grow_def by blast
qed simp

lemma import_grows:
  assumes keys: "keys_ok cr (w_root_key w) ts" "crypto_ok cr" "provisioned w" and u: "uuid_ok u"
    and wf: "header_wf (sk_header sk)" "length (sk_key sk) < 2 ^ 32"
    and r: "key_store_import_stored_key cr True ts (Some sk) (Some u) w = (s, n, ts', w')"
  shows "keys_grow cr (w_root_key w) u ts ts' \<and>
    (if s = SA_STATUS_OK then owns_key cr (w_root_key w) ts' n u sk \<and> (\<forall>v sk. \<not> owns_key cr (w_root_key w) ts n v sk)
     else n = INVALID_HANDLE)"
proof (cases "s = SA_STATUS_OK")
  case True
  then have "sk_valid sk"
    using r wf by (auto simp: sk_valid_def key_store_import_stored_key_def stored_key_get_header_def split: if_splits)
  show ?thesis
    by (rule import_stored_key_success [OF r [unfolded True] keys(3) \<open>sk_valid sk\<close> keys(2)])
      (use typed_add_grows [OF keys(1) u] True in auto)
next
  case False
  note e = import_stored_key_error [OF r False keys(1) u]
  have "cells (ts_heap ts') = cells (ts_heap ts)"
  proof (cases "ts' = ts")
    case False
    then obtain wk w1 where "typed_add ts wk u w1 = (s, n, ts', w')"
      using r by (auto simp: key_store_import_stored_key_def Let_def split: if_splits option.splits prod.splits)
    from keys_okD(1) [OF keys(1)] u this show ?thesis by (rule typed_add_result) (use \<open>s \<noteq> SA_STATUS_OK\<close> in auto)
  qed simp
  with e False show ?thesis unfolding keys_grow_def owns_key_def by auto
qed

lemma import_device [device]:
  "key_store_import_stored_key cr g ts sk c w = (s, n, ts', w') \<Longrightarrow> same_device w w'"
  by (cases sk) (auto simp: key_store_import_stored_key_def Let_def dest!: device intro: same_device_trans
      split: if_splits option.splits prod.splits)

text \<open>The end of a command that makes a key: the caller owns it under a fresh handle, or nothing changed.\<close>

lemma import_made_key_result:
  assumes keys: "keys_ok cr (w_root_key w) (client_key_store c)" "crypto_ok cr" "provisioned w" and u: "uuid_ok u"
    and wf: "\<And>k. sk = Some k \<Longrightarrow> header_wf (sk_header k) \<and> length (sk_key k) < 2 ^ 32"
    and r: "import_made_key cr sk (Some u) c w = (s, n, c', w')"
  obtains ks where "c' = c\<lparr>client_key_store := ks\<rparr>" "keys_grow cr (w_root_key w) u (client_key_store c) ks" "same_device w w'"
    "s = SA_STATUS_OK \<Longrightarrow> \<exists>k. sk = Some k \<and> owns_key cr (w_root_key w) ks n u k"
    "s \<noteq> SA_STATUS_OK \<Longrightarrow> n = INVALID_HANDLE"
proof (cases sk)
  case None
  then show ?thesis
    using r keys(1) by (intro that [of "client_key_store c"]) (auto simp: import_made_key_def key_store_import_stored_key_def split: if_splits)
next
  case (Some k)
  obtain s1 n1 ks w1 where i: "key_store_import_stored_key cr True (client_key_store c) (Some k) (Some u) w = (s1, n1, ks, w1)"
    using prod_cases4 by blast
  have "c' = c\<lparr>client_key_store := ks\<rparr>" "s1 = s" "n1 = n" "w1 = w'" using r i Some by (auto simp: import_made_key_def)
  with import_grows [OF keys u _ _ i] wf [OF Some] import_device [OF i] Some show ?thesis
    by (intro that [of ks]) (auto split: if_splits)
qed

section \<open>Making keys\<close>

text \<open>Chains of calls, for the device.\<close>

lemma chain3: "same_device a b \<Longrightarrow> same_device b c \<Longrightarrow> same_device c d \<Longrightarrow> same_device a d"
  by (meson same_device_trans)

lemma chain4: "same_device a b \<Longrightarrow> same_device b c \<Longrightarrow> same_device c d \<Longrightarrow> same_device d e \<Longrightarrow> same_device a e"
  by (meson same_device_trans)

text \<open>A key the TA owns, may use now and has this usage flag.\<close>

definition held_key ::
  "crypto \<Rightarrow> world \<Rightarrow> wrapped_key typed_store \<Rightarrow> sa_uuid \<Rightarrow> sa_usage_flag \<Rightarrow> u64 \<Rightarrow> stored_key \<Rightarrow> bool" where
  "held_key cr w ts u f n p \<longleftrightarrow> owns_key cr (w_root_key w) ts n u p \<and> may_use (hdr_rights (sk_header p)) u w \<and>
     f \<in> usage_flag_set (usage_flags (hdr_rights (sk_header p)))"

text \<open>A made key can be stored: its header has the sizes of the C struct.\<close>

definition proper_key :: "stored_key \<Rightarrow> bool" where
  "proper_key k \<longleftrightarrow> header_wf (sk_header k) \<and> length (sk_key k) < 2 ^ 32"

lemma restrict_wf: "rights_wf r \<Longrightarrow> rights_wf (restrict_child_rights r p)"
  by (auto simp: rights_wf_def restrict_child_rights_def Let_def split: option.split)

lemma stored_key_create_proper:
  assumes "stored_key_create g (Some r) p t tp n (Some bs) w = (SA_STATUS_OK, Some k, w')"
    "rights_wf r" "length bs < 2 ^ 32" "length tp = TYPE_PARAMETERS_SIZE" "\<And>x. t \<noteq> SA_KEY_TYPE_OTHER x"
  shows "proper_key k"
  using assms restrict_wf [OF assms(2)]
  by (auto simp: stored_key_create_def proper_key_def header_wf_def MAGIC_def Let_def split: if_splits prod.splits)

text \<open>What a key-making body does to the session.\<close>

definition makes_key ::
  "crypto \<Rightarrow> sa_uuid \<Rightarrow> (stored_key \<Rightarrow> bool) \<Rightarrow> client \<Rightarrow> world \<Rightarrow> sa_status \<times> u64 \<times> client \<times> world \<Rightarrow> bool" where
  "makes_key cr u made c w r \<longleftrightarrow> (case r of (s, n, c', w') \<Rightarrow> (\<exists>ks. c' = c\<lparr>client_key_store := ks\<rparr> \<and>
     keys_grow cr (w_root_key w) u (client_key_store c) ks \<and> same_device w w' \<and>
     (if s = SA_STATUS_OK then \<exists>k. made k \<and> owns_key cr (w_root_key w) ks n u k else n = INVALID_HANDLE)))"

lemma makes_keyI:
  assumes "c' = c\<lparr>client_key_store := ks\<rparr>" "keys_grow cr (w_root_key w) u (client_key_store c) ks" "same_device w w'"
    "s = SA_STATUS_OK \<Longrightarrow> \<exists>k. made k \<and> owns_key cr (w_root_key w) ks n u k" "s \<noteq> SA_STATUS_OK \<Longrightarrow> n = INVALID_HANDLE"
  shows "makes_key cr u made c w (s, n, c', w')"
  unfolding makes_key_def prod.case using assms by (intro exI [of _ ks]) simp

lemma makes_keyE:
  assumes "makes_key cr u made c w (s, n, c', w')"
  obtains ks where "c' = c\<lparr>client_key_store := ks\<rparr>" "keys_grow cr (w_root_key w) u (client_key_store c) ks" "same_device w w'"
    "s = SA_STATUS_OK \<Longrightarrow> \<exists>k. made k \<and> owns_key cr (w_root_key w) ks n u k" "s \<noteq> SA_STATUS_OK \<Longrightarrow> n = INVALID_HANDLE"
  using assms unfolding makes_key_def prod.case by (elim exE conjE) (metis (full_types))

lemma makes_key_error:
  "keys_ok cr (w_root_key w) (client_key_store c) \<Longrightarrow> s \<noteq> SA_STATUS_OK \<Longrightarrow> same_device w w' \<Longrightarrow>
    makes_key cr u made c w (s, INVALID_HANDLE, c, w')"
  by (auto simp: makes_key_def intro!: exI [of _ "client_key_store c"])

lemma makes_key_import:
  assumes keys: "keys_ok cr (w_root_key w) (client_key_store c)" "crypto_ok cr" "provisioned w" "uuid_ok u"
    and w1: "same_device w w1" and k: "\<And>k. sk = Some k \<Longrightarrow> proper_key k \<and> made k"
  shows "makes_key cr u made c w (import_made_key cr sk (Some u) c w1)"
proof -
  obtain s n c' w' where r: "import_made_key cr sk (Some u) c w1 = (s, n, c', w')" using prod_cases4 by blast
  have root: "w_root_key w1 = w_root_key w" "provisioned w1" using same_deviceD [OF w1] keys(3) by auto
  show ?thesis
    unfolding r
  proof (rule import_made_key_result [OF keys(1) [folded root(1)] keys(2) root(2) keys(4) _ r], goal_cases)
    case (1 x)
    then show ?case using k unfolding proper_key_def by blast
  next
    case (2 ks)
    then show ?case using k w1 by (intro makes_keyI [of _ ks]) (auto simp: root(1) intro: same_device_trans)
  qed
qed

lemma makes_key_with_key:
  assumes keys: "keys_ok cr (w_root_key w) (client_key_store c)" "crypto_ok cr" "provisioned w" "uuid_ok u"
    and body: "\<And>p ks w1. owns_key cr (w_root_key w) (client_key_store c) key u p \<Longrightarrow> may_use (hdr_rights (sk_header p)) u w \<Longrightarrow>
      allowed (Some (hdr_rights (sk_header p))) w1 \<Longrightarrow> same_keys (client_key_store c) ks \<Longrightarrow> same_device w w1 \<Longrightarrow>
      makes_key cr u made (c\<lparr>client_key_store := ks\<rparr>) w1 (body p (c\<lparr>client_key_store := ks\<rparr>) w1)"
  shows "makes_key cr u made c w (with_key cr allowed key INVALID_HANDLE body (Some u) c w)"
proof -
  obtain s n c' w' where r: "with_key cr allowed key INVALID_HANDLE body (Some u) c w = (s, n, c', w')" using prod_cases4 by blast
  from keys(1-4) r show ?thesis
  proof (cases rule: with_key_result)
    case (refused ks)
    with r same_keys_grow [OF refused(4) keys(1)] show ?thesis by (auto intro: makes_keyI)
  next
    case (ran p ks w1)
    note root = same_deviceD(3) [OF ran(5) keys(3)]
    from body [OF ran(1-5)] ran(6) have m: "makes_key cr u made (c\<lparr>client_key_store := ks\<rparr>) w1 (s, n, c', w')" by simp
    show ?thesis
      unfolding r
    proof (rule makes_keyE [OF m], goal_cases)
      case (1 ks')
      then show ?case using same_keys_grow [OF ran(4) keys(1)] ran(5)
        by (intro makes_keyI [of _ ks']) (auto simp: root intro: keys_grow_trans same_device_trans)
    qed
  qed
qed

end
