(* ===== verification/Ta_Derive.thy ===== *)
theory Ta_Derive
  imports Ta_Keys
begin

text \<open>
  The command that derives keys, \<^verbatim>\<open>reference/src/taimpl/src/ta_sa_key_derive.c\<close>, and what a TA gets from it. The static
  functions are called with an acquired session and with pointers the command has checked. The parameters, a
  \<open>void*\<close> the code casts as the algorithm says, are one value for both; the handle is the invalid
  one where the code leaves \<open>*key\<close> alone.
\<close>

datatype sa_kdf_parameters =
    Kdf_Root_Key_Ladder "u8 list option" "u8 list option" "u8 list option" "u8 list option"
  | Kdf_Common_Root_Key_Ladder "u8 list option" "u8 list option" "u8 list option" "u8 list option"
  | Kdf_Hkdf u64 sa_digest_algorithm u64 "u8 list option" nat "u8 list option" nat
  | Kdf_Concat u64 sa_digest_algorithm u64 "u8 list option" nat
  | Kdf_Ansi_X963 u64 sa_digest_algorithm u64 "u8 list option" nat
  | Kdf_Cmac u64 u64 "u8 list option" nat u8
  | Kdf_Netflix u64 u64
  | Kdf_Other u32

definition ladder_input_check :: "u8 list option \<Rightarrow> sa_status" where
  "ladder_input_check x = (case x of None \<Rightarrow> SA_STATUS_NULL_PARAMETER
     | Some bs \<Rightarrow> if length bs \<noteq> unat SYM_128_KEY_SIZE then SA_STATUS_INVALID_PARAMETER else SA_STATUS_OK)"

definition ta_sa_key_derive_root_key_ladder ::
  "crypto \<Rightarrow> sa_root_key_type \<Rightarrow> sa_rights \<Rightarrow> u8 list option \<Rightarrow> u8 list option \<Rightarrow> u8 list option \<Rightarrow> u8 list option \<Rightarrow>
   sa_uuid option \<Rightarrow> client \<Rightarrow> world \<Rightarrow> sa_status \<times> u64 \<times> client \<times> world" where
  "ta_sa_key_derive_root_key_ladder cr root_key_type rights c1 c2 c3 c4 caller_uuid c w =
     (if ladder_input_check c1 \<noteq> SA_STATUS_OK then (ladder_input_check c1, INVALID_HANDLE, c, w)
      else if ladder_input_check c2 \<noteq> SA_STATUS_OK then (ladder_input_check c2, INVALID_HANDLE, c, w)
      else if ladder_input_check c3 \<noteq> SA_STATUS_OK then (ladder_input_check c3, INVALID_HANDLE, c, w)
      else if ladder_input_check c4 \<noteq> SA_STATUS_OK then (ladder_input_check c4, INVALID_HANDLE, c, w)
      else let (status, derived, w) = otp_root_key_ladder cr True (Some rights) root_key_type c1 c2 c3 c4 w in
        if status \<noteq> SA_STATUS_OK then (status, INVALID_HANDLE, c, w)
        else import_made_key cr derived caller_uuid c w)"

definition sha_algorithm :: "sa_digest_algorithm \<Rightarrow> bool" where
  "sha_algorithm alg \<longleftrightarrow> alg = SA_DIGEST_ALGORITHM_SHA1 \<or> alg = SA_DIGEST_ALGORITHM_SHA256 \<or>
     alg = SA_DIGEST_ALGORITHM_SHA384 \<or> alg = SA_DIGEST_ALGORITHM_SHA512"

text \<open>What follows the check of the rights in the functions that derive from one key.\<close>

definition derive_from ::
  "crypto \<Rightarrow> (stored_key \<Rightarrow> bool) \<Rightarrow> (stored_key option \<Rightarrow> world \<Rightarrow> sa_status \<times> stored_key option \<times> world) \<Rightarrow> u64 \<Rightarrow>
   sa_uuid option \<Rightarrow> client \<Rightarrow> world \<Rightarrow> sa_status \<times> u64 \<times> client \<times> world" where
  "derive_from cr suitable kdf parent caller_uuid c w =
     with_key cr rights_allowed_derive parent INVALID_HANDLE
       (\<lambda>p c w.
         if hdr_type (sk_header p) \<noteq> SA_KEY_TYPE_SYMMETRIC then (SA_STATUS_INVALID_KEY_TYPE, INVALID_HANDLE, c, w)
         else if \<not> suitable p then (SA_STATUS_INVALID_KEY_TYPE, INVALID_HANDLE, c, w)
         else let (status, derived, w) = kdf (Some p) w in
           if status \<noteq> SA_STATUS_OK then (status, INVALID_HANDLE, c, w)
           else import_made_key cr derived caller_uuid c w)
       caller_uuid c w"

definition ta_sa_key_derive_ansi_x963 ::
  "crypto \<Rightarrow> sa_rights \<Rightarrow> u64 \<Rightarrow> sa_digest_algorithm \<Rightarrow> u64 \<Rightarrow> u8 list option \<Rightarrow> nat \<Rightarrow> sa_uuid option \<Rightarrow> client \<Rightarrow> world \<Rightarrow>
   sa_status \<times> u64 \<times> client \<times> world" where
  "ta_sa_key_derive_ansi_x963 cr rights key_length alg parent info info_length caller_uuid c w =
     (if info = None \<and> info_length > 0 then (SA_STATUS_NULL_PARAMETER, INVALID_HANDLE, c, w)
      else if key_length > SYM_MAX_KEY_SIZE then (SA_STATUS_INVALID_PARAMETER, INVALID_HANDLE, c, w)
      else if \<not> sha_algorithm alg then (SA_STATUS_INVALID_PARAMETER, INVALID_HANDLE, c, w)
      else derive_from cr (\<lambda>_. True) (kdf_ansi_x963 cr (Some rights) alg info info_length key_length) parent caller_uuid c w)"

definition ta_sa_key_derive_cmac ::
  "crypto \<Rightarrow> sa_rights \<Rightarrow> u64 \<Rightarrow> u64 \<Rightarrow> u8 list option \<Rightarrow> nat \<Rightarrow> u8 \<Rightarrow> sa_uuid option \<Rightarrow> client \<Rightarrow> world \<Rightarrow>
   sa_status \<times> u64 \<times> client \<times> world" where
  "ta_sa_key_derive_cmac cr rights key_length parent other_data other_data_length counter caller_uuid c w =
     (if other_data = None \<and> other_data_length > 0 then (SA_STATUS_NULL_PARAMETER, INVALID_HANDLE, c, w)
      else if counter < 1 \<or> counter > 4 then (SA_STATUS_INVALID_PARAMETER, INVALID_HANDLE, c, w)
      else if unat key_length mod unat SYM_128_KEY_SIZE \<noteq> 0 then (SA_STATUS_INVALID_PARAMETER, INVALID_HANDLE, c, w)
      else if unat key_length div unat SYM_128_KEY_SIZE > 5 - unat counter then (SA_STATUS_INVALID_PARAMETER, INVALID_HANDLE, c, w)
      else derive_from cr (\<lambda>p. key_type_supports_aes (hdr_type (sk_header p)) (ucast (hdr_size (sk_header p))))
        (kdf_ctr_cmac cr (Some rights) other_data other_data_length counter key_length) parent caller_uuid c w)"

definition ta_sa_key_derive_concat ::
  "crypto \<Rightarrow> sa_rights \<Rightarrow> u64 \<Rightarrow> sa_digest_algorithm \<Rightarrow> u64 \<Rightarrow> u8 list option \<Rightarrow> nat \<Rightarrow> sa_uuid option \<Rightarrow> client \<Rightarrow> world \<Rightarrow>
   sa_status \<times> u64 \<times> client \<times> world" where
  "ta_sa_key_derive_concat cr rights key_length alg parent info info_length caller_uuid c w =
     (if info = None \<and> info_length > 0 then (SA_STATUS_NULL_PARAMETER, INVALID_HANDLE, c, w)
      else if key_length > SYM_MAX_KEY_SIZE then (SA_STATUS_INVALID_PARAMETER, INVALID_HANDLE, c, w)
      else if \<not> sha_algorithm alg then (SA_STATUS_INVALID_PARAMETER, INVALID_HANDLE, c, w)
      else derive_from cr (\<lambda>_. True) (kdf_concat_kdf cr (Some rights) alg info info_length key_length) parent caller_uuid c w)"

definition ta_sa_key_derive_hkdf ::
  "crypto \<Rightarrow> sa_rights \<Rightarrow> u64 \<Rightarrow> sa_digest_algorithm \<Rightarrow> u64 \<Rightarrow> u8 list option \<Rightarrow> nat \<Rightarrow> u8 list option \<Rightarrow> nat \<Rightarrow> sa_uuid option \<Rightarrow>
   client \<Rightarrow> world \<Rightarrow> sa_status \<times> u64 \<times> client \<times> world" where
  "ta_sa_key_derive_hkdf cr rights key_length alg parent salt salt_length info info_length caller_uuid c w =
     (if info = None \<and> info_length > 0 then (SA_STATUS_NULL_PARAMETER, INVALID_HANDLE, c, w)
      else if salt = None \<and> salt_length > 0 then (SA_STATUS_NULL_PARAMETER, INVALID_HANDLE, c, w)
      else if key_length > SYM_MAX_KEY_SIZE then (SA_STATUS_INVALID_PARAMETER, INVALID_HANDLE, c, w)
      else if \<not> sha_algorithm alg then (SA_STATUS_INVALID_PARAMETER, INVALID_HANDLE, c, w)
      else derive_from cr (\<lambda>p. key_type_supports_hmac (hdr_type (sk_header p)) (ucast (hdr_size (sk_header p))))
        (kdf_hkdf_hmac cr (Some rights) alg salt salt_length info info_length key_length) parent caller_uuid c w)"

definition ta_sa_key_derive_netflix ::
  "crypto \<Rightarrow> sa_rights \<Rightarrow> u64 \<Rightarrow> u64 \<Rightarrow> sa_uuid option \<Rightarrow> client \<Rightarrow> world \<Rightarrow> sa_status \<times> u64 \<times> client \<times> world" where
  "ta_sa_key_derive_netflix cr rights kenc khmac caller_uuid c w =
     with_key cr rights_allowed_derive kenc INVALID_HANDLE
       (\<lambda>enc c w.
         if hdr_type (sk_header enc) \<noteq> SA_KEY_TYPE_SYMMETRIC then (SA_STATUS_INVALID_KEY_TYPE, INVALID_HANDLE, c, w)
         else with_key cr rights_allowed_derive khmac INVALID_HANDLE
           (\<lambda>mac c w.
             if hdr_type (sk_header mac) \<noteq> SA_KEY_TYPE_SYMMETRIC then (SA_STATUS_INVALID_KEY_TYPE, INVALID_HANDLE, c, w)
             else let (status, derived, w) = kdf_netflix_wrapping cr (Some rights) (Some (hdr_rights (sk_header enc))) (Some enc) (Some mac) w in
               if status \<noteq> SA_STATUS_OK then (status, INVALID_HANDLE, c, w)
               else import_made_key cr derived caller_uuid c w)
           caller_uuid c w)
       caller_uuid c w"

definition key_derive_body ::
  "crypto \<Rightarrow> sa_rights \<Rightarrow> sa_kdf_parameters \<Rightarrow> sa_uuid option \<Rightarrow> client \<Rightarrow> world \<Rightarrow> sa_status \<times> u64 \<times> client \<times> world" where
  "key_derive_body cr rights parameters caller_uuid c w = (case parameters of
      Kdf_Root_Key_Ladder c1 c2 c3 c4 \<Rightarrow> ta_sa_key_derive_root_key_ladder cr UNIQUE rights c1 c2 c3 c4 caller_uuid c w
    | Kdf_Common_Root_Key_Ladder c1 c2 c3 c4 \<Rightarrow> ta_sa_key_derive_root_key_ladder cr COMMON rights c1 c2 c3 c4 caller_uuid c w
    | Kdf_Hkdf n alg parent salt sl info il \<Rightarrow> ta_sa_key_derive_hkdf cr rights n alg parent salt sl info il caller_uuid c w
    | Kdf_Concat n alg parent info il \<Rightarrow> ta_sa_key_derive_concat cr rights n alg parent info il caller_uuid c w
    | Kdf_Ansi_X963 n alg parent info il \<Rightarrow> ta_sa_key_derive_ansi_x963 cr rights n alg parent info il caller_uuid c w
    | Kdf_Cmac n parent other ol counter \<Rightarrow> ta_sa_key_derive_cmac cr rights n parent other ol counter caller_uuid c w
    | Kdf_Netflix kenc khmac \<Rightarrow> ta_sa_key_derive_netflix cr rights kenc khmac caller_uuid c w
    | Kdf_Other _ \<Rightarrow> (SA_STATUS_INVALID_PARAMETER, INVALID_HANDLE, c, w))"

definition ta_sa_key_derive ::
  "crypto \<Rightarrow> bool \<Rightarrow> sa_rights option \<Rightarrow> sa_kdf_parameters option \<Rightarrow> ta \<Rightarrow> u64 \<Rightarrow> sa_uuid option \<Rightarrow> world \<Rightarrow>
   (sa_status \<times> u64 \<times> ta \<times> world) option" where
  "ta_sa_key_derive cr key_given rights parameters t client_slot caller_uuid w =
     (if caller_uuid = None then Some (SA_STATUS_NULL_PARAMETER, INVALID_HANDLE, t, w)
      else if \<not> key_given then Some (SA_STATUS_NULL_PARAMETER, INVALID_HANDLE, t, w)
      else (case rights of None \<Rightarrow> Some (SA_STATUS_NULL_PARAMETER, INVALID_HANDLE, t, w)
      | Some r \<Rightarrow> (case parameters of None \<Rightarrow> Some (SA_STATUS_NULL_PARAMETER, INVALID_HANDLE, t, w)
      | Some ps \<Rightarrow> with_client INVALID_HANDLE (\<lambda>c w. Some (key_derive_body cr r ps caller_uuid c w)) t client_slot caller_uuid w)))"

section \<open>What is derived\<close>

text \<open>The counter mode: the MACs for the counters up to 4, from the given one, cut to the length.\<close>

definition cmac_reference :: "crypto \<Rightarrow> u8 list \<Rightarrow> u8 list \<Rightarrow> u8 \<Rightarrow> nat \<Rightarrow> u8 list" where
  "cmac_reference cr key data counter n = take n (concat (map (\<lambda>i. cmac_function cr key (of_nat i # data)) [unat counter..<5]))"

text \<open>
  A key \<open>k\<close> that is derived with the parameters, when \<open>source\<close> says which handle gives which key. The
  common root key's ladder is described by the rights alone.
\<close>

fun derived ::
  "crypto \<Rightarrow> u8 list \<Rightarrow> (u64 \<Rightarrow> stored_key \<Rightarrow> bool) \<Rightarrow> sa_rights \<Rightarrow> sa_kdf_parameters \<Rightarrow> stored_key \<Rightarrow> bool" where
  "derived cr root source r (Kdf_Root_Key_Ladder c1 c2 c3 c4) k \<longleftrightarrow>
     sk_key k = aes_ecb_decrypt cr (ladder_key cr root \<lparr>kl_c1 = the c1, kl_c2 = the c2, kl_c3 = the c3\<rparr>) (the c4) \<and>
     hdr_rights (sk_header k) = r"
| "derived cr root source r (Kdf_Common_Root_Key_Ladder c1 c2 c3 c4) k \<longleftrightarrow> hdr_rights (sk_header k) = r"
| "derived cr root source r (Kdf_Hkdf n alg parent salt sl info il) k \<longleftrightarrow> (\<exists>p. source parent p \<and>
     sk_key k = rfc5869 cr alg (map_option (take sl) salt) (sk_key p) (given_bytes info il) (unat n) \<and>
     hdr_rights (sk_header k) = restrict_child_rights r (Some (hdr_rights (sk_header p))))"
| "derived cr root source r (Kdf_Concat n alg parent info il) k \<longleftrightarrow> (\<exists>p. source parent p \<and>
     sk_key k = concat_reference cr alg (sk_key p) (given_bytes info il) (unat n) \<and>
     hdr_rights (sk_header k) = restrict_child_rights r (Some (hdr_rights (sk_header p))))"
| "derived cr root source r (Kdf_Ansi_X963 n alg parent info il) k \<longleftrightarrow> (\<exists>p. source parent p \<and>
     sk_key k = x963_reference cr alg (sk_key p) (given_bytes info il) (unat n) \<and>
     hdr_rights (sk_header k) = restrict_child_rights r (Some (hdr_rights (sk_header p))))"
| "derived cr root source r (Kdf_Cmac n parent other ol counter) k \<longleftrightarrow> (\<exists>p. source parent p \<and>
     sk_key k = cmac_reference cr (sk_key p) (given_bytes other ol) counter (unat n) \<and>
     hdr_rights (sk_header k) = restrict_child_rights r (Some (hdr_rights (sk_header p))))"
| "derived cr root source r (Kdf_Netflix kenc khmac) k \<longleftrightarrow> (\<exists>enc mac. source kenc enc \<and> source khmac mac \<and>
     sk_key k = take 16 (hmac_function cr SA_DIGEST_ALGORITHM_SHA256
       (hmac_function cr SA_DIGEST_ALGORITHM_SHA256 NETFLIX_SALT (sk_key enc @ sk_key mac)) NETFLIX_INFO) \<and>
     hdr_rights (sk_header k) = restrict_child_rights r (Some (hdr_rights (sk_header enc))))"
| "derived cr root source r (Kdf_Other x) k \<longleftrightarrow> False"

section \<open>The derivations keep the device and make proper keys\<close>

lemma hash_device [device]:
  "hmac_internal cr g l alg a b c k w = (s, m, n, w') \<Longrightarrow> same_device w w'"
  "digest_sha cr g l alg a b c w = (s, m, n, w') \<Longrightarrow> same_device w w'"
  "cmac cr g a b c sk w = (s, m, w') \<Longrightarrow> same_device w w'"
  by (auto simp: hmac_internal_def digest_sha_def cmac_def Let_def simp del: filter.simps dest!: draw_device draws_device
      split: if_splits option.splits prod.splits) (meson same_device_trans)+

lemma expand_device [device]:
  "hkdf_expand cr alg info prk r rem is tag l d w = (s, out, w') \<Longrightarrow> same_device w w'"
  "digest_expand cr alg ins r rem is hl d w = (s, out, w') \<Longrightarrow> same_device w w'"
  "cmac_blocks cr other p is f w = (s, out, w') \<Longrightarrow> same_device w w'"
proof -
  show "hkdf_expand cr alg info prk r rem is tag l d w = (s, out, w') \<Longrightarrow> same_device w w'"
    by (induction "is" arbitrary: tag l d w) (auto simp: Let_def dest!: hash_device intro: same_device_trans split: if_splits prod.splits)
  show "digest_expand cr alg ins r rem is hl d w = (s, out, w') \<Longrightarrow> same_device w w'"
    by (induction "is" arbitrary: hl d w) (auto simp: Let_def dest!: hash_device intro: same_device_trans split: if_splits prod.splits)
  show "cmac_blocks cr other p is f w = (s, out, w') \<Longrightarrow> same_device w w'"
    by (induction "is" arbitrary: f w) (auto simp: Let_def dest!: hash_device intro: same_device_trans split: if_splits prod.splits)
qed

lemma create_derived_device [device]: "create_derived r rp n bs w = (s, k, w') \<Longrightarrow> same_device w w'"
  by (auto simp: create_derived_def dest!: stored_key_create_device)

lemma kdf_device [device]:
  "kdf_hkdf_hmac cr rights alg salt sl info il n parent w = (s, k, w') \<Longrightarrow> same_device w w'"
  "kdf_one_step cr order rights alg info il n parent w = (s, k, w') \<Longrightarrow> same_device w w'"
  "kdf_ctr_cmac cr rights other ol counter n parent w = (s, k, w') \<Longrightarrow> same_device w w'"
  "kdf_netflix_wrapping cr rights rp enc mac w = (s, k, w') \<Longrightarrow> same_device w w'"
  by (auto simp: kdf_hkdf_hmac_def kdf_one_step_def kdf_ctr_cmac_def kdf_netflix_wrapping_def Let_def simp del: upt_Suc
      dest!: draws_device hash_device expand_device create_derived_device intro: same_device_trans chain3 chain4
      split: if_splits option.splits prod.splits)

lemma root_ladder_device [device]: "otp_root_key_ladder cr g r t c1 c2 c3 c4 w = (s, k, w') \<Longrightarrow> same_device w w'"
  by (auto simp: otp_root_key_ladder_def Let_def dest!: draw_device ladder_device ecb_device stored_key_create_device
      split: if_splits prod.splits) (meson same_device_trans)+

lemma create_derived_proper:
  assumes "create_derived r rp n bs w = (SA_STATUS_OK, Some k, w')" "rights_wf r" "length bs < 2 ^ 32"
  shows "proper_key k"
  by (rule stored_key_create_proper [OF assms(1) [unfolded create_derived_def] assms(2,3)])
    (simp_all add: no_parameters_def)

section \<open>The command\<close>

text \<open>The key a TA derives from.\<close>

abbreviation parent_key ::
  "crypto \<Rightarrow> world \<Rightarrow> wrapped_key typed_store \<Rightarrow> sa_uuid \<Rightarrow> u64 \<Rightarrow> stored_key \<Rightarrow> bool" where
  "parent_key cr w ts u \<equiv> held_key cr w ts u SA_USAGE_FLAG_DERIVE"

lemma derive_from_makes:
  assumes keys: "keys_ok cr (w_root_key w) (client_key_store c)" "crypto_ok cr" "provisioned w" "uuid_ok u"
    and dev: "\<And>p w s k w'. kdf (Some p) w = (s, k, w') \<Longrightarrow> same_device w w'"
    and made: "\<And>p w1 k w'. parent_key cr w (client_key_store c) u parent p \<Longrightarrow> kdf (Some p) w1 = (SA_STATUS_OK, Some k, w') \<Longrightarrow>
      proper_key k \<and> made k"
  shows "makes_key cr u made c w (derive_from cr suitable kdf parent (Some u) c w)"
  unfolding derive_from_def
proof (rule makes_key_with_key [OF keys], goal_cases)
  case (1 p ks w1)
  have parent: "parent_key cr w (client_key_store c) u parent p"
    using 1(1-3) by (simp add: held_key_def rights_allowed_derive_iff)
  have keys1: "keys_ok cr (w_root_key w1) (client_key_store (c\<lparr>client_key_store := ks\<rparr>))" "provisioned w1"
    using same_keys_ok [OF 1(4) keys(1)] same_deviceD(3,4) [OF 1(5) keys(3)] by simp_all
  obtain s k w2 where k: "kdf (Some p) w1 = (s, k, w2)" using prod_cases3 by blast
  note d = dev [OF k]
  have "makes_key cr u made (c\<lparr>client_key_store := ks\<rparr>) w1 (import_made_key cr k (Some u) (c\<lparr>client_key_store := ks\<rparr>) w2)"
    if "s = SA_STATUS_OK"
    by (rule makes_key_import [OF keys1(1) keys(2) keys1(2) keys(4) d]) (use made [OF parent] k that in auto)
  then show ?case using makes_key_error [OF keys1(1)] k d by simp
qed

lemma hkdf_proper:
  assumes "digests_documented cr" "rights_wf r0" "\<not> key_length > SYM_MAX_KEY_SIZE"
    and r: "kdf_hkdf_hmac cr (Some r0) alg salt sl info il key_length (Some p) w = (SA_STATUS_OK, Some k, w')"
  shows "proper_key k"
proof -
  obtain r1 out w3 where k: "Some r0 = Some r1" "create_derived r1 (hdr_rights (sk_header p)) key_length out w3 = (SA_STATUS_OK, Some k, w')"
    using r by (rule hkdf_steps) blast
  have "sk_key k = rfc5869 cr alg (map_option (take sl) salt) (sk_key p) (given_bytes info il) (unat key_length)"
    using hkdf_computes [OF assms(1) r] by simp
  then have "length out \<le> unat key_length" using create_derived_OK(1) [OF k(2)] by (simp add: rfc5869_def Let_def del: upt_Suc)
  moreover have "unat key_length \<le> 512" using assms(3) by (simp add: SYM_MAX_KEY_SIZE_def word_le_nat_alt not_less)
  ultimately show ?thesis using create_derived_proper [OF k(2)] assms(2) k(1) by simp
qed

lemma one_step_proper:
  assumes "digests_documented cr" "rights_wf r0" "\<not> key_length > SYM_MAX_KEY_SIZE"
    and r: "kdf_one_step cr order (Some r0) alg info il key_length (Some p) w = (SA_STATUS_OK, Some k, w')"
  shows "proper_key k" "hdr_rights (sk_header k) = restrict_child_rights r0 (Some (hdr_rights (sk_header p)))"
proof -
  obtain r1 out w3 where k: "Some r0 = Some r1" "create_derived r1 (hdr_rights (sk_header p)) key_length out w3 = (SA_STATUS_OK, Some k, w')"
    using r by (rule one_step_steps) blast
  have "length (sk_key k) \<le> unat key_length" unfolding one_step_bytes [OF assms(1) r] by (simp del: upt_Suc)
  then have "length out \<le> unat key_length" using create_derived_OK(1) [OF k(2)] by simp
  moreover have "unat key_length \<le> 512" using assms(3) by (simp add: SYM_MAX_KEY_SIZE_def word_le_nat_alt not_less)
  ultimately show "proper_key k" using create_derived_proper [OF k(2)] assms(2) k(1) by simp
  show "hdr_rights (sk_header k) = restrict_child_rights r0 (Some (hdr_rights (sk_header p)))"
    using create_derived_OK(2) [OF k(2)] k(1) by simp
qed

lemma cmac_blocks_OK:
  "cmac_blocks cr data p is f w = (SA_STATUS_OK, out, w') \<Longrightarrow>
    out = f @ concat (map (\<lambda>i. cmac_function cr (sk_key p) (of_nat i # data)) is)"
proof (induction "is" arbitrary: f w)
  case (Cons i "is")
  obtain s m w1 where c: "cmac cr True [of_nat i] data [] (Some p) w = (s, m, w1)" using prod_cases3 by blast
  have "s = SA_STATUS_OK" using Cons.prems c by (simp split: if_splits)
  moreover from this c have "m = Some (cmac_function cr (sk_key p) (of_nat i # data))"
    by (auto simp: cmac_def stored_key_get_key_def Let_def simp del: filter.simps split: if_splits prod.splits)
  ultimately show ?case using Cons.prems c Cons.IH [of "f @ the m" w1] by simp
qed simp

lemma ctr_cmac_result:
  assumes doc: "digests_documented cr" and wf: "rights_wf r0"
    and r: "kdf_ctr_cmac cr (Some r0) other ol counter key_length (Some p) w = (SA_STATUS_OK, Some k, w')"
  shows "proper_key k" "sk_key k = cmac_reference cr (sk_key p) (given_bytes other ol) counter (unat key_length)"
    "hdr_rights (sk_header k) = restrict_child_rights r0 (Some (hdr_rights (sk_header p)))"
proof -
  let ?f = "\<lambda>i :: nat. cmac_function cr (sk_key p) (of_nat i # given_bytes other ol)"
  obtain b w1 where d: "draws 2 w = (b, w1)" by fastforce
  obtain s out w2 where bl: "cmac_blocks cr (given_bytes other ol) p [1, 2, 3, 4] [] w1 = (s, out, w2)" using prod_cases3 by blast
  have c: "\<not> (counter < 1 \<or> counter > 4)" and s: "s = SA_STATUS_OK"
    and k: "create_derived r0 (hdr_rights (sk_header p)) key_length (take (unat key_length) (drop ((unat counter - 1) * AES_BLOCK_SIZE) out)) w2
      = (SA_STATUS_OK, Some k, w')"
    using r d bl by (auto simp: kdf_ctr_cmac_def Let_def simp del: cmac_blocks.simps split: if_splits)
  have f: "length (cmac_function cr (sk_key p) x) = 16" for x using doc by (simp add: digests_documented_def)
  have out: "out = concat (map ?f [1, 2, 3, 4])" using cmac_blocks_OK [OF bl [unfolded s]] by simp
  have "unat counter \<in> {1, 2, 3, 4}"
    using c by (auto simp: word_le_nat_alt word_less_nat_alt not_less)
  then have "drop ((unat counter - 1) * AES_BLOCK_SIZE) out = concat (map ?f [unat counter..<5])"
    unfolding out AES_BLOCK_SIZE_def using f by (elim insertE emptyE) (simp_all add: upt_rec)
  then show key: "sk_key k = cmac_reference cr (sk_key p) (given_bytes other ol) counter (unat key_length)"
    using create_derived_OK(1) [OF k] by (simp add: cmac_reference_def)
  show "hdr_rights (sk_header k) = restrict_child_rights r0 (Some (hdr_rights (sk_header p)))"
    by (rule create_derived_OK(2) [OF k])
  have "length out = 64" using out f by simp
  then show "proper_key k" by (intro create_derived_proper [OF k wf]) simp
qed

lemma netflix_wrapping_result:
  assumes wf: "rights_wf r0"
    and r: "kdf_netflix_wrapping cr (Some r0) (Some rp) (Some enc) (Some mac) w = (SA_STATUS_OK, Some k, w')"
  shows "proper_key k" "sk_key k = take 16 (hmac_function cr SA_DIGEST_ALGORITHM_SHA256
      (hmac_function cr SA_DIGEST_ALGORITHM_SHA256 NETFLIX_SALT (sk_key enc @ sk_key mac)) NETFLIX_INFO)"
    "hdr_rights (sk_header k) = restrict_child_rights r0 (Some rp)"
proof -
  obtain b w1 where d: "draws 2 w = (b, w1)" by fastforce
  obtain s t l w2 where h: "hmac_internal cr True (Some SYM_256_KEY_SIZE) SA_DIGEST_ALGORITHM_SHA256 (sk_key enc) (sk_key mac) []
      (Some NETFLIX_SALT) w1 = (s, t, l, w2)" using prod_cases4 by blast
  obtain s' t' l' w3 where h': "hmac_internal cr True (Some (of_nat SHA256_DIGEST_LENGTH)) SA_DIGEST_ALGORITHM_SHA256 NETFLIX_INFO [] [] t w2
      = (s', t', l', w3)" using prod_cases4 by blast
  have s: "s = SA_STATUS_OK" "s' = SA_STATUS_OK"
    and k: "create_derived r0 rp (of_nat AES_BLOCK_SIZE) (take AES_BLOCK_SIZE (the t')) w3 = (SA_STATUS_OK, Some k, w')"
    using r d h h' by (auto simp: kdf_netflix_wrapping_def Let_def split: if_splits)
  note t = hmac_internal_OK [OF h [unfolded s]] hmac_internal_OK [OF h' [unfolded s]]
  show "sk_key k = take 16 (hmac_function cr SA_DIGEST_ALGORITHM_SHA256
      (hmac_function cr SA_DIGEST_ALGORITHM_SHA256 NETFLIX_SALT (sk_key enc @ sk_key mac)) NETFLIX_INFO)"
    using create_derived_OK(1) [OF k] t by (simp add: AES_BLOCK_SIZE_def)
  show "hdr_rights (sk_header k) = restrict_child_rights r0 (Some rp)" by (rule create_derived_OK(2) [OF k])
  show "proper_key k" by (rule create_derived_proper [OF k wf]) (simp add: AES_BLOCK_SIZE_def)
qed

lemma root_ladder_result:
  assumes wf: "rights_wf r0" and cr: "crypto_ok cr"
    and r: "otp_root_key_ladder cr True (Some r0) t c1 c2 c3 (Some c4) w = (SA_STATUS_OK, Some k, w')" and c4: "length c4 = 16"
  shows "proper_key k" "hdr_rights (sk_header k) = r0"
    "t = UNIQUE \<Longrightarrow> provisioned w \<Longrightarrow> sk_key k = aes_ecb_decrypt cr
      (ladder_key cr (w_root_key w) \<lparr>kl_c1 = the c1, kl_c2 = the c2, kl_c3 = the c3\<rparr>) c4"
proof -
  obtain b1 w1 where d1: "draw w = (b1, w1)" by fastforce
  obtain b2 w2 where d2: "draw w1 = (b2, w2)" by fastforce
  obtain s k3 w3 where l: "otp_hw_key_ladder cr True t c1 c2 c3 w2 = (s, k3, w3)" using prod_cases3 by blast
  obtain s' d w4 where e: "unwrap_aes_ecb_internal cr True (Some c4) k3 w3 = (s', d, w4)" using prod_cases3 by blast
  have c: "c1 \<noteq> None" "c2 \<noteq> None" "c3 \<noteq> None" "s = SA_STATUS_OK" "s' = SA_STATUS_OK"
    and k: "stored_key_create True (Some r0) None SA_KEY_TYPE_SYMMETRIC no_parameters (of_nat AES_BLOCK_SIZE) d w4 = (SA_STATUS_OK, Some k, w')"
    using r d1 d2 l e by (auto simp: otp_root_key_ladder_def Let_def split: if_splits)
  obtain key where k3: "k3 = Some key" "d = Some (aes_ecb_decrypt cr key c4)"
    using e c(5) by (cases k3) (auto simp: unwrap_aes_ecb_internal_def Let_def split: if_splits prod.splits)
  show "proper_key k"
    by (rule stored_key_create_proper [OF k [unfolded k3] wf]) (use cr c4 in \<open>simp_all add: crypto_ok_def no_parameters_def\<close>)
  show "hdr_rights (sk_header k) = r0"
    using k by (auto simp: k3 stored_key_create_def restrict_child_rights_def Let_def split: if_splits prod.splits)
  assume t: "t = UNIQUE" and pr: "provisioned w"
  have w2: "w_root_key w2 = w_root_key w" "provisioned w2"
    using same_deviceD(3,4) [OF same_device_trans [OF draw_device [OF d1] draw_device [OF d2]] pr] by simp_all
  have "otp_hw_key_ladder cr True UNIQUE (Some (the c1)) (Some (the c2)) (Some (the c3)) w2 = (SA_STATUS_OK, k3, w3)"
    using l t c by simp
  then have "k3 = Some (ladder_key cr (w_root_key w) \<lparr>kl_c1 = the c1, kl_c2 = the c2, kl_c3 = the c3\<rparr>)"
    using ladder_success [of cr "\<lparr>kl_c1 = the c1, kl_c2 = the c2, kl_c3 = the c3\<rparr>" w2 k3 w3] w2 by simp
  moreover have "sk_key k = the d"
    using k by (auto simp: k3 stored_key_create_def Let_def split: if_splits prod.splits)
  ultimately show "sk_key k = aes_ecb_decrypt cr (ladder_key cr (w_root_key w) \<lparr>kl_c1 = the c1, kl_c2 = the c2, kl_c3 = the c3\<rparr>) c4"
    using k3 by simp
qed

lemma netflix_makes:
  assumes keys: "keys_ok cr (w_root_key w) (client_key_store c)" "crypto_ok cr" "provisioned w" "uuid_ok u" and wf: "rights_wf r"
  shows "makes_key cr u (derived cr (w_root_key w) (parent_key cr w (client_key_store c) u) r (Kdf_Netflix kenc khmac)) c w
    (ta_sa_key_derive_netflix cr r kenc khmac (Some u) c w)"
  unfolding ta_sa_key_derive_netflix_def
proof (rule makes_key_with_key [OF keys], goal_cases)
  case (1 enc ks w1)
  let ?c = "c\<lparr>client_key_store := ks\<rparr>"
  have enc: "parent_key cr w (client_key_store c) u kenc enc" using 1(1-3) by (simp add: held_key_def rights_allowed_derive_iff)
  have keys1: "keys_ok cr (w_root_key w1) (client_key_store ?c)" "provisioned w1"
    using same_keys_ok [OF 1(4) keys(1)] same_deviceD(3,4) [OF 1(5) keys(3)] by simp_all
  have inner: "makes_key cr u (derived cr (w_root_key w) (parent_key cr w (client_key_store c) u) r (Kdf_Netflix kenc khmac)) ?c w1
    (with_key cr rights_allowed_derive khmac INVALID_HANDLE
           (\<lambda>mac c w.
             if hdr_type (sk_header mac) \<noteq> SA_KEY_TYPE_SYMMETRIC then (SA_STATUS_INVALID_KEY_TYPE, INVALID_HANDLE, c, w)
             else let (status, derived, w) = kdf_netflix_wrapping cr (Some r) (Some (hdr_rights (sk_header enc))) (Some enc) (Some mac) w in
               if status \<noteq> SA_STATUS_OK then (status, INVALID_HANDLE, c, w)
               else import_made_key cr derived (Some u) c w) (Some u) ?c w1)"
  proof (rule makes_key_with_key [OF keys1(1) keys(2) keys1(2) keys(4)], goal_cases)
    case inner: (1 mac ks2 w2)
    let ?c2 = "?c\<lparr>client_key_store := ks2\<rparr>"
    have "owns_key cr (w_root_key w) (client_key_store c) khmac u mac"
      using inner(1) owns_key_same [OF same_keys_sym [OF 1(4) keys_okD(1) [OF keys(1)]]] same_deviceD(3) [OF 1(5) keys(3)] by simp
    moreover have "may_use (hdr_rights (sk_header mac)) u w" using inner(2) same_deviceD(1,2) [OF 1(5)] by (simp add: may_use_def)
    ultimately have mac: "parent_key cr w (client_key_store c) u khmac mac"
      using inner(3) by (simp add: held_key_def rights_allowed_derive_iff)
    have keys2: "keys_ok cr (w_root_key w2) (client_key_store ?c2)" "provisioned w2"
      using same_keys_ok [OF inner(4) keys1(1)] same_deviceD(3,4) [OF inner(5) keys1(2)] by simp_all
    obtain s k w3 where k: "kdf_netflix_wrapping cr (Some r) (Some (hdr_rights (sk_header enc))) (Some enc) (Some mac) w2 = (s, k, w3)"
      using prod_cases3 by blast
    note d = kdf_device(4) [OF k]
    have "makes_key cr u (derived cr (w_root_key w) (parent_key cr w (client_key_store c) u) r (Kdf_Netflix kenc khmac)) ?c2 w2
        (import_made_key cr k (Some u) ?c2 w3)" if "s = SA_STATUS_OK"
      by (rule makes_key_import [OF keys2(1) keys(2) keys2(2) keys(4) d])
        (use netflix_wrapping_result [OF wf] k that enc mac in auto)
    then show ?case using makes_key_error [OF keys2(1)] k d by simp
  qed
  then show ?case using makes_key_error [OF keys1(1)] by simp
qed

lemma root_ladder_makes:
  assumes keys: "keys_ok cr (w_root_key w) (client_key_store c)" "crypto_ok cr" "provisioned w" "uuid_ok u" and wf: "rights_wf r"
    and t: "ps = (if t = UNIQUE then Kdf_Root_Key_Ladder else Kdf_Common_Root_Key_Ladder) c1 c2 c3 c4"
  shows "makes_key cr u (derived cr (w_root_key w) source r ps) c w (ta_sa_key_derive_root_key_ladder cr t r c1 c2 c3 c4 (Some u) c w)"
proof -
  obtain s k w1 where k: "otp_root_key_ladder cr True (Some r) t c1 c2 c3 c4 w = (s, k, w1)" using prod_cases3 by blast
  note d = root_ladder_device [OF k]
  have "makes_key cr u (derived cr (w_root_key w) source r ps) c w (import_made_key cr k (Some u) c w1)"
    if s: "s = SA_STATUS_OK" and c4: "ladder_input_check c4 = SA_STATUS_OK"
  proof (rule makes_key_import [OF keys d])
    fix x assume "k = Some x"
    moreover obtain b where "c4 = Some b" "length b = 16"
      using c4 by (auto simp: ladder_input_check_def SYM_128_KEY_SIZE_def split: option.splits if_splits)
    ultimately show "proper_key x \<and> derived cr (w_root_key w) source r ps x"
      using root_ladder_result [OF wf keys(2), of t c1 c2 c3 b w x w1] k s keys(3) t by auto
  qed
  moreover have "ladder_input_check x \<noteq> SA_STATUS_OK \<Longrightarrow> makes_key cr u made c w (ladder_input_check x, INVALID_HANDLE, c, w)" for made x
    using makes_key_error [OF keys(1)] by simp
  ultimately show ?thesis
    using makes_key_error [OF keys(1)] k d by (simp add: ta_sa_key_derive_root_key_ladder_def)
qed

lemma key_derive_body_makes:
  assumes keys: "keys_ok cr (w_root_key w) (client_key_store c)" "crypto_ok cr" "provisioned w" "uuid_ok u"
    and doc: "digests_documented cr" and wf: "rights_wf r"
  shows "makes_key cr u (derived cr (w_root_key w) (parent_key cr w (client_key_store c) u) r ps) c w
    (key_derive_body cr r ps (Some u) c w)"
proof (cases ps)
  case (Kdf_Hkdf n alg parent salt sl info il)
  have "makes_key cr u (derived cr (w_root_key w) (parent_key cr w (client_key_store c) u) r ps) c w
      (derive_from cr suitable (kdf_hkdf_hmac cr (Some r) alg salt sl info il n) parent (Some u) c w)" if "\<not> n > SYM_MAX_KEY_SIZE" for suitable
  proof (rule derive_from_makes [OF keys kdf_device(1)])
    fix p w1 k w'
    assume 1: "parent_key cr w (client_key_store c) u parent p" "kdf_hkdf_hmac cr (Some r) alg salt sl info il n (Some p) w1 = (SA_STATUS_OK, Some k, w')"
    show "proper_key k \<and> derived cr (w_root_key w) (parent_key cr w (client_key_store c) u) r ps k"
      unfolding Kdf_Hkdf derived.simps using 1(1) hkdf_proper [OF doc wf that 1(2)] hkdf_computes [OF doc 1(2)] by blast
  qed
  then show ?thesis using makes_key_error [OF keys(1)] by (auto simp: Kdf_Hkdf key_derive_body_def  ta_sa_key_derive_hkdf_def simp del: derived.simps)
next
  case (Kdf_Concat n alg parent info il)
  have "makes_key cr u (derived cr (w_root_key w) (parent_key cr w (client_key_store c) u) r ps) c w
      (derive_from cr suitable (kdf_concat_kdf cr (Some r) alg info il n) parent (Some u) c w)" if "\<not> n > SYM_MAX_KEY_SIZE" for suitable
    unfolding kdf_concat_kdf_def
  proof (rule derive_from_makes [OF keys kdf_device(2)])
    fix p w1 k w'
    assume 1: "parent_key cr w (client_key_store c) u parent p" "kdf_one_step cr (\<lambda>counter key info. (counter, key, info)) (Some r) alg info il n (Some p) w1 = (SA_STATUS_OK, Some k, w')"
    have "sk_key k = concat_reference cr alg (sk_key p) (given_bytes info il) (unat n)"
      using one_step_bytes [OF doc 1(2)] by (simp add: concat_reference_def del: upt_Suc)
    then show "proper_key k \<and> derived cr (w_root_key w) (parent_key cr w (client_key_store c) u) r ps k"
      unfolding Kdf_Concat derived.simps using 1(1) one_step_proper [OF doc wf that 1(2)] by blast
  qed
  then show ?thesis using makes_key_error [OF keys(1)] by (auto simp: Kdf_Concat key_derive_body_def  ta_sa_key_derive_concat_def simp del: derived.simps)
next
  case (Kdf_Ansi_X963 n alg parent info il)
  have "makes_key cr u (derived cr (w_root_key w) (parent_key cr w (client_key_store c) u) r ps) c w
      (derive_from cr suitable (kdf_ansi_x963 cr (Some r) alg info il n) parent (Some u) c w)" if "\<not> n > SYM_MAX_KEY_SIZE" for suitable
    unfolding kdf_ansi_x963_def
  proof (rule derive_from_makes [OF keys kdf_device(2)])
    fix p w1 k w'
    assume 1: "parent_key cr w (client_key_store c) u parent p" "kdf_one_step cr (\<lambda>counter key info. (key, counter, info)) (Some r) alg info il n (Some p) w1 = (SA_STATUS_OK, Some k, w')"
    have "sk_key k = x963_reference cr alg (sk_key p) (given_bytes info il) (unat n)"
      using one_step_bytes [OF doc 1(2)] by (simp add: x963_reference_def del: upt_Suc)
    then show "proper_key k \<and> derived cr (w_root_key w) (parent_key cr w (client_key_store c) u) r ps k"
      unfolding Kdf_Ansi_X963 derived.simps using 1(1) one_step_proper [OF doc wf that 1(2)] by blast
  qed
  then show ?thesis using makes_key_error [OF keys(1)] by (auto simp: Kdf_Ansi_X963 key_derive_body_def  ta_sa_key_derive_ansi_x963_def simp del: derived.simps)
next
  case (Kdf_Cmac n parent other ol counter)
  have "makes_key cr u (derived cr (w_root_key w) (parent_key cr w (client_key_store c) u) r ps) c w
      (derive_from cr suitable (kdf_ctr_cmac cr (Some r) other ol counter n) parent (Some u) c w)" for suitable
  proof (rule derive_from_makes [OF keys kdf_device(3)])
    fix p w1 k w'
    assume 1: "parent_key cr w (client_key_store c) u parent p" "kdf_ctr_cmac cr (Some r) other ol counter n (Some p) w1 = (SA_STATUS_OK, Some k, w')"
    show "proper_key k \<and> derived cr (w_root_key w) (parent_key cr w (client_key_store c) u) r ps k" unfolding Kdf_Cmac derived.simps using 1(1) ctr_cmac_result [OF doc wf 1(2)] by blast
  qed
  then show ?thesis using makes_key_error [OF keys(1)] by (auto simp: Kdf_Cmac key_derive_body_def  ta_sa_key_derive_cmac_def simp del: derived.simps)
next
  case (Kdf_Root_Key_Ladder c1 c2 c3 c4)
  then show ?thesis using root_ladder_makes [OF keys wf, of ps UNIQUE] by (simp add: key_derive_body_def)
next
  case (Kdf_Common_Root_Key_Ladder c1 c2 c3 c4)
  then show ?thesis using root_ladder_makes [OF keys wf, of ps COMMON] by (simp add: key_derive_body_def)
next
  case (Kdf_Netflix kenc khmac)
  then show ?thesis using netflix_makes [OF keys wf] by (simp add: key_derive_body_def del: derived.simps)
next
  case (Kdf_Other x)
  then show ?thesis using makes_key_error [OF keys(1)] by (simp add: key_derive_body_def)
qed

text \<open>
  C20: what a TA gets from a derivation. If its session is in order and the command succeeds, then every key it named
  is one it owns, may use now and may derive with; the new key, which it alone owns under the returned handle, has the
  bytes the reference of the algorithm gives and the rights it asked for, restricted by the parent's; and all keys that were
  in the session are still there.
\<close>

theorem key_derive_computes:
  assumes t: "sessions_ok t" "session t (unat slot) = Some (u, c)" "uuid_ok u"
    and keys: "keys_ok cr (w_root_key w) (client_key_store c)" "crypto_ok cr" "digests_documented cr" "provisioned w" and wf: "rights_wf r"
    and run: "ta_sa_key_derive cr True (Some r) (Some ps) t slot (Some u) w = Some (SA_STATUS_OK, h, t', w')"
  shows "\<exists>c' k. session t' = (session t)(unat slot \<mapsto> (u, c')) \<and>
    derived cr (w_root_key w) (parent_key cr w (client_key_store c) u) r ps k \<and>
    owns_key cr (w_root_key w) (client_key_store c') h u k \<and> keys_grow cr (w_root_key w) u (client_key_store c) (client_key_store c')"
proof -
  have "with_client INVALID_HANDLE (\<lambda>c w. Some (key_derive_body cr r ps (Some u) c w)) t slot (Some u) w = Some (SA_STATUS_OK, h, t', w')"
    using run by (simp add: ta_sa_key_derive_def)
  from t(1,3) this show ?thesis
  proof (cases rule: with_client_session)
    case (ran c0 c' w1 w2)
    have c0: "c0 = c" using ran(1) t(2) by simp
    have w1: "w_root_key w1 = w_root_key w" "provisioned w1" "held_key cr w1 = held_key cr w"
      using same_deviceD [OF ran(3)] keys(4) by (auto simp: held_key_def may_use_def fun_eq_iff)
    have "makes_key cr u (derived cr (w_root_key w) (parent_key cr w (client_key_store c) u) r ps) c w1 (SA_STATUS_OK, h, c', w2)"
      using key_derive_body_makes [OF keys(1) [folded w1(1)] keys(2) w1(2) t(3) keys(3) wf, of ps] ran(2) c0 w1(1,3) by simp
    then obtain ks k where "c' = c\<lparr>client_key_store := ks\<rparr>" "keys_grow cr (w_root_key w) u (client_key_store c) ks"
      "derived cr (w_root_key w) (parent_key cr w (client_key_store c) u) r ps k" "owns_key cr (w_root_key w) ks h u k"
      by (rule makes_keyE) (use w1(1) in auto)
    with ran(6) show ?thesis by (intro exI [of _ c'] exI [of _ k]) simp
  qed simp
qed

end
