(* ===== verification/Unwrap.thy ===== *)
theory Unwrap
  imports Public_Key Symmetric
begin

text \<open>
  The unwrapping of keys, \<^verbatim>\<open>reference/src/taimpl/src/internal/unwrap.c\<close>. Every function decrypts a buffer with
  the wrapping key and makes a key of it, with the rights that the wrapping key's rights leave. The result is \<open>None\<close> where
  the code reads in front of its buffer: the check of the padding takes the last 16 bytes, also of an
  empty one.
\<close>

section \<open>The code\<close>

type_synonym unwrap_result = "(sa_status \<times> stored_key option \<times> world) option"

text \<open>The type parameters of an elliptic-curve key are its curve, one pointer to a struct.\<close>

definition import_key ::
  "crypto \<Rightarrow> sa_rights option \<Rightarrow> sa_rights option \<Rightarrow> sa_key_type \<Rightarrow> sa_elliptic_curve option \<Rightarrow> u8 list option \<Rightarrow> world \<Rightarrow>
   sa_status \<times> stored_key option \<times> world" where
  "import_key cr rights wrapping_key_rights key_type ec_parameters input w =
     (if rights = None then (SA_STATUS_NULL_PARAMETER, None, w)
      else if wrapping_key_rights = None then (SA_STATUS_NULL_PARAMETER, None, w)
      else if key_type \<noteq> SA_KEY_TYPE_EC \<and> key_type \<noteq> SA_KEY_TYPE_SYMMETRIC \<and> key_type \<noteq> SA_KEY_TYPE_RSA
      then (SA_STATUS_INVALID_PARAMETER, None, w)
      else if key_type = SA_KEY_TYPE_EC \<and> ec_parameters = None then (SA_STATUS_NULL_PARAMETER, None, w)
      else (case input of None \<Rightarrow> (SA_STATUS_NULL_PARAMETER, None, w)
      | Some bytes \<Rightarrow>
          if key_type = SA_KEY_TYPE_EC then
            let curve = the ec_parameters; (key_size, w) = ec_validate_private cr curve input w in
            if key_size = 0 then (SA_STATUS_INTERNAL_ERROR, None, w)
            else stored_key_create True rights wrapping_key_rights key_type (curve_parameters curve) key_size input w
          else if key_type = SA_KEY_TYPE_RSA then
            let (key_size, w) = rsa_validate_private cr input w in
            if key_size = 0 then (SA_STATUS_INTERNAL_ERROR, None, w)
            else stored_key_create True rights wrapping_key_rights key_type no_parameters key_size input w
          else stored_key_create True rights wrapping_key_rights key_type no_parameters (of_nat (length bytes)) input w))"

text \<open>What every function checks first, and its buffer for the decrypted bytes.\<close>

definition unwrapping ::
  "u8 list option \<Rightarrow> sa_rights option \<Rightarrow> stored_key option \<Rightarrow> (u8 list \<Rightarrow> stored_key \<Rightarrow> world \<Rightarrow> unwrap_result) \<Rightarrow> world \<Rightarrow> unwrap_result" where
  "unwrapping input rights stored_key_wrapping body w = (case input of
      None \<Rightarrow> Some (SA_STATUS_NULL_PARAMETER, None, w)
    | Some bytes \<Rightarrow>
        if rights = None then Some (SA_STATUS_NULL_PARAMETER, None, w)
        else (case stored_key_wrapping of None \<Rightarrow> Some (SA_STATUS_NULL_PARAMETER, None, w)
        | Some k \<Rightarrow>
            let (memory_ok, w) = draw w in
            if \<not> memory_ok then Some (SA_STATUS_INTERNAL_ERROR, None, w) else body bytes k w))"

text \<open>The end of the functions for block ciphers; the decrypted bytes fill the buffer.\<close>

definition import_padded ::
  "crypto \<Rightarrow> bool \<Rightarrow> sa_rights option \<Rightarrow> sa_key_type \<Rightarrow> sa_elliptic_curve option \<Rightarrow> stored_key \<Rightarrow> u8 list \<Rightarrow> world \<Rightarrow> unwrap_result" where
  "import_padded cr padded rights key_type ec_parameters k clear w =
     (if padded then
        if length clear < AES_BLOCK_SIZE then None
        else let (ok, pad_value) = pad_check_pkcs7 True (Some (drop (length clear - AES_BLOCK_SIZE) clear)) in
          if \<not> ok then Some (SA_STATUS_INVALID_KEY_FORMAT, None, w)
          else Some (import_key cr rights (Some (hdr_rights (sk_header k))) key_type ec_parameters
            (Some (take (length clear - unat (the pad_value)) clear)) w)
      else Some (import_key cr rights (Some (hdr_rights (sk_header k))) key_type ec_parameters (Some clear) w))"

definition unwrap_aes_ecb ::
  "crypto \<Rightarrow> u8 list option \<Rightarrow> sa_rights option \<Rightarrow> sa_key_type \<Rightarrow> sa_elliptic_curve option \<Rightarrow> bool \<Rightarrow> stored_key option \<Rightarrow> world \<Rightarrow>
   unwrap_result" where
  "unwrap_aes_ecb cr input rights key_type ec_parameters padded stored_key_wrapping w =
     unwrapping input rights stored_key_wrapping (\<lambda>bytes k w.
       let (status, clear, w) = unwrap_aes_ecb_internal cr True (Some bytes) (Some (sk_key k)) w in
       if status \<noteq> SA_STATUS_OK then Some (status, None, w)
       else import_padded cr padded rights key_type ec_parameters k (the clear) w) w"

definition unwrap_aes_cbc ::
  "crypto \<Rightarrow> u8 list option \<Rightarrow> sa_rights option \<Rightarrow> sa_key_type \<Rightarrow> sa_elliptic_curve option \<Rightarrow> bool \<Rightarrow> u8 list option \<Rightarrow>
   stored_key option \<Rightarrow> world \<Rightarrow> unwrap_result" where
  "unwrap_aes_cbc cr input rights key_type ec_parameters padded iv stored_key_wrapping w =
     (if iv = None then Some (SA_STATUS_NULL_PARAMETER, None, w)
      else unwrapping input rights stored_key_wrapping (\<lambda>bytes k w.
        let (status, clear, w) = unwrap_aes_cbc_internal cr True (Some bytes) iv (Some (sk_key k)) w in
        if status \<noteq> SA_STATUS_OK then Some (status, None, w)
        else import_padded cr padded rights key_type ec_parameters k (the clear) w) w)"

text \<open>
  Calls on a fresh OpenSSL context that has been set up: what each of them delivers, or a failure. The
  set-up is one entry of the list and so many calls that can fail.
\<close>

fun evp_chain :: "crypto \<Rightarrow> evp_call list \<Rightarrow> evp_call list \<Rightarrow> world \<Rightarrow> u8 list list option \<times> world" where
  "evp_chain cr made [] w = (Some [], w)"
| "evp_chain cr made (call # calls) w =
     (let (ok, w) = draw w in
      case (if ok then evp_output cr (made @ [call]) else None) of
        None \<Rightarrow> (None, w)
      | Some out \<Rightarrow> (case evp_chain cr (made @ [call]) calls w of
          (None, w) \<Rightarrow> (None, w) | (Some outs, w) \<Rightarrow> (Some (out # outs), w)))"

definition import_decrypted ::
  "crypto \<Rightarrow> nat \<Rightarrow> evp_call list \<Rightarrow> evp_call list \<Rightarrow> sa_rights option \<Rightarrow> sa_key_type \<Rightarrow> sa_elliptic_curve option \<Rightarrow> stored_key \<Rightarrow>
   world \<Rightarrow> unwrap_result" where
  "import_decrypted cr steps init calls rights key_type ec_parameters k w =
     (let (ok, w) = draws steps w in
      if \<not> ok then Some (SA_STATUS_INTERNAL_ERROR, None, w)
      else (case evp_chain cr init calls w of
          (None, w) \<Rightarrow> Some (SA_STATUS_INTERNAL_ERROR, None, w)
        | (Some outs, w) \<Rightarrow>
            Some (import_key cr rights (Some (hdr_rights (sk_header k))) key_type ec_parameters (Some (hd outs)) w)))"

definition unwrap_aes_ctr ::
  "crypto \<Rightarrow> u8 list option \<Rightarrow> sa_rights option \<Rightarrow> sa_key_type \<Rightarrow> sa_elliptic_curve option \<Rightarrow> u8 list option \<Rightarrow> stored_key option \<Rightarrow>
   world \<Rightarrow> unwrap_result" where
  "unwrap_aes_ctr cr input rights key_type ec_parameters ctr stored_key_wrapping w =
     (if ctr = None then Some (SA_STATUS_NULL_PARAMETER, None, w)
      else unwrapping input rights stored_key_wrapping (\<lambda>bytes k w.
        import_decrypted cr 4 [EVP_Init EVP_aes_ctr SA_CIPHER_MODE_DECRYPT (sk_key k) (the ctr) False] [EVP_Update bytes]
          rights key_type ec_parameters k w) w)"

definition unwrap_aes_gcm ::
  "crypto \<Rightarrow> u8 list option \<Rightarrow> sa_rights option \<Rightarrow> sa_key_type \<Rightarrow> sa_elliptic_curve option \<Rightarrow>
   (u8 list option \<times> u8 list option \<times> nat \<times> u8 list option) option \<Rightarrow> stored_key option \<Rightarrow> world \<Rightarrow> unwrap_result" where
  "unwrap_aes_gcm cr input rights key_type ec_parameters algorithm_parameters stored_key_wrapping w =
     (case algorithm_parameters of None \<Rightarrow> Some (SA_STATUS_NULL_PARAMETER, None, w)
      | Some (iv, aad, aad_length, tag) \<Rightarrow> unwrapping input rights stored_key_wrapping (\<lambda>bytes k w.
          let (status, clear, w) = unwrap_aes_gcm_internal cr True (Some bytes) iv aad aad_length tag (Some (sk_key k)) w in
          if status \<noteq> SA_STATUS_OK then Some (status, None, w)
          else Some (import_key cr rights (Some (hdr_rights (sk_header k))) key_type ec_parameters clear w)) w)"

text \<open>The caller has checked the lengths of the counter and of the nonce; \<open>iv\<close> has room for exactly these.\<close>

definition unwrap_chacha20 ::
  "crypto \<Rightarrow> u8 list option \<Rightarrow> sa_rights option \<Rightarrow> sa_key_type \<Rightarrow> sa_elliptic_curve option \<Rightarrow> (u8 list \<times> u8 list) option \<Rightarrow>
   stored_key option \<Rightarrow> world \<Rightarrow> unwrap_result" where
  "unwrap_chacha20 cr input rights key_type ec_parameters algorithm_parameters stored_key_wrapping w =
     (case algorithm_parameters of None \<Rightarrow> Some (SA_STATUS_NULL_PARAMETER, None, w)
      | Some (counter, nonce) \<Rightarrow> unwrapping input rights stored_key_wrapping (\<lambda>bytes k w.
          import_decrypted cr 4 [EVP_Init EVP_chacha20 SA_CIPHER_MODE_DECRYPT (sk_key k) (counter @ nonce) False] [EVP_Update bytes]
            rights key_type ec_parameters k w) w)"

definition unwrap_chacha20_poly1305 ::
  "crypto \<Rightarrow> u8 list option \<Rightarrow> sa_rights option \<Rightarrow> sa_key_type \<Rightarrow> sa_elliptic_curve option \<Rightarrow>
   (u8 list \<times> u8 list option \<times> nat \<times> u8 list) option \<Rightarrow> stored_key option \<Rightarrow> world \<Rightarrow> unwrap_result" where
  "unwrap_chacha20_poly1305 cr input rights key_type ec_parameters algorithm_parameters stored_key_wrapping w =
     (case algorithm_parameters of None \<Rightarrow> Some (SA_STATUS_NULL_PARAMETER, None, w)
      | Some (nonce, aad, aad_length, tag) \<Rightarrow> unwrapping input rights stored_key_wrapping (\<lambda>bytes k w.
          import_decrypted cr (6 + aad_steps aad)
            (EVP_Init EVP_chacha20_poly1305 SA_CIPHER_MODE_DECRYPT (sk_key k) nonce False # aad_calls aad aad_length)
            [EVP_Update bytes, EVP_Set_Tag tag, EVP_Final] rights key_type ec_parameters k w) w)"

text \<open>
  The parameters for OAEP: the digests, the label and its length. The refusal of the label returns without
  freeing the buffer.
\<close>

definition unwrap_rsa ::
  "crypto \<Rightarrow> u8 list option \<Rightarrow> sa_rights option \<Rightarrow> bool \<Rightarrow> (sa_digest_algorithm \<times> sa_digest_algorithm \<times> u8 list option \<times> u64) option \<Rightarrow>
   stored_key option \<Rightarrow> world \<Rightarrow> unwrap_result" where
  "unwrap_rsa cr input rights oaep algorithm_parameters stored_key_wrapping w =
     unwrapping input rights stored_key_wrapping (\<lambda>bytes k w.
       let finish = (\<lambda>(status, clear, w).
         if status \<noteq> SA_STATUS_OK then Some (status, None, w)
         else Some (import_key cr rights (Some (hdr_rights (sk_header k))) SA_KEY_TYPE_SYMMETRIC None clear w)) in
       if oaep then (case algorithm_parameters of None \<Rightarrow> Some (SA_STATUS_INVALID_PARAMETER, None, w)
         | Some (digest, mgf1_digest, label, label_length) \<Rightarrow>
             if label = None \<and> label_length \<noteq> 0 then Some (SA_STATUS_INVALID_PARAMETER, None, w)
             else finish (rsa_decrypt_oaep cr True (Some (of_nat (length bytes))) (Some k) digest mgf1_digest label label_length (Some bytes) w))
       else finish (rsa_decrypt_pkcs1v15 cr True (Some (of_nat (length bytes))) (Some k) (Some bytes) w)) w"

text \<open>Offset and length of the key within the decrypted point; the checks come before the buffer.\<close>

definition unwrap_ec ::
  "crypto \<Rightarrow> u8 list option \<Rightarrow> sa_rights option \<Rightarrow> u64 \<Rightarrow> u64 \<Rightarrow> stored_key option \<Rightarrow> world \<Rightarrow> unwrap_result" where
  "unwrap_ec cr input rights offset key_length stored_key_wrapping w = (case input of
      None \<Rightarrow> Some (SA_STATUS_NULL_PARAMETER, None, w)
    | Some bytes \<Rightarrow>
        if rights = None then Some (SA_STATUS_NULL_PARAMETER, None, w)
        else (case stored_key_wrapping of None \<Rightarrow> Some (SA_STATUS_NULL_PARAMETER, None, w)
        | Some k \<Rightarrow>
            let header = sk_header k; size = ec_key_size_from_curve (tp_curve (hdr_type_parameters header)) in
            if size = 0 then Some (SA_STATUS_OPERATION_NOT_SUPPORTED, None, w)
            else if key_length < SYM_128_KEY_SIZE then Some (SA_STATUS_INVALID_PARAMETER, None, w)
            else let (overflow, total_length) = add_overflow offset key_length in
              if overflow then Some (SA_STATUS_INVALID_PARAMETER, None, w)
              else if total_length > size then Some (SA_STATUS_INVALID_PARAMETER, None, w)
              else if length bytes \<noteq> unat size * 4 then Some (SA_STATUS_INVALID_PARAMETER, None, w)
              else let (memory_ok, w) = draw w in
                if \<not> memory_ok then Some (SA_STATUS_INTERNAL_ERROR, None, w)
                else let (status, clear, written, w) = ec_decrypt_elgamal cr True (Some size) (Some k) (Some bytes) w in
                  if status \<noteq> SA_STATUS_OK then Some (status, None, w)
                  else if written \<noteq> Some size then Some (SA_STATUS_INTERNAL_ERROR, None, w)
                  else Some (import_key cr rights (Some (hdr_rights header)) SA_KEY_TYPE_SYMMETRIC None
                    (Some (take (unat key_length) (drop (unat offset) (the clear)))) w)))"

end
