(* ===== verification/Ta_Unwrap.thy ===== *)
theory Ta_Unwrap
  imports Ta_Keys Unwrap Ta_Cipher_Laws
begin

text \<open>
  The command that unwraps keys, \<^verbatim>\<open>reference/src/taimpl/src/ta_sa_key_unwrap.c\<close>, and what a TA gets from it. The static
  functions are called with an acquired session and with the pointers the command has checked. The algorithm and its
  parameters, a \<open>void*\<close> the code casts as the algorithm says, are one value; \<open>None\<close> is the NULL pointer.
\<close>

section \<open>The code\<close>

text \<open>The flag of the AES modes and of RSA says whether there is PKCS7 padding, or whether it is OAEP.\<close>

datatype sa_unwrap_parameters =
    Unwrap_Aes_Ecb bool
  | Unwrap_Aes_Cbc bool "u8 list option option"
  | Unwrap_Aes_Ctr "u8 list option option"
  | Unwrap_Aes_Gcm "(u8 list option \<times> u8 list option \<times> nat \<times> u8 list option) option"
  | Unwrap_Chacha20 "(u8 list option \<times> u8 list option) option"
  | Unwrap_Chacha20_Poly1305 "(u8 list option \<times> u8 list option \<times> nat \<times> u8 list option) option"
  | Unwrap_Rsa bool "(sa_digest_algorithm \<times> sa_digest_algorithm \<times> u8 list option \<times> u64) option"
  | Unwrap_Ec "(u64 \<times> u64) option"
  | Unwrap_Other u32

type_synonym unwrap_command = "(sa_status \<times> u64 \<times> client \<times> world) option"

abbreviation refuse :: "sa_status \<Rightarrow> client \<Rightarrow> world \<Rightarrow> unwrap_command" where
  "refuse s c w \<equiv> Some (s, INVALID_HANDLE, c, w)"

text \<open>
  What follows the checks of the parameters: the wrapping key with the check of its rights, further
  checks of it, the unwrapping and the import.
\<close>

definition unwrap_under ::
  "crypto \<Rightarrow> (sa_rights option \<Rightarrow> world \<Rightarrow> bool) \<Rightarrow> (sa_header \<Rightarrow> world \<Rightarrow> sa_status) \<Rightarrow> (stored_key option \<Rightarrow> world \<Rightarrow> unwrap_result) \<Rightarrow>
   u64 \<Rightarrow> sa_uuid option \<Rightarrow> client \<Rightarrow> world \<Rightarrow> unwrap_command" where
  "unwrap_under cr allowed suitable unwrap wrapping_key caller_uuid c w =
     (let (status, wrapping, c, w) = open_key cr allowed wrapping_key caller_uuid c w in
      if status \<noteq> SA_STATUS_OK then refuse status c w
      else let checked = suitable (sk_header (the wrapping)) w in
        if checked \<noteq> SA_STATUS_OK then refuse checked c w
        else (case unwrap wrapping w of None \<Rightarrow> None
        | Some (status, unwrapped, w) \<Rightarrow>
            if status \<noteq> SA_STATUS_OK then refuse status c w
            else Some (import_made_key cr unwrapped caller_uuid c w)))"

definition suits :: "(sa_key_type \<Rightarrow> u64 \<Rightarrow> bool) \<Rightarrow> sa_header \<Rightarrow> world \<Rightarrow> sa_status" where
  "suits supports header w = (if \<not> supports (hdr_type header) (ucast (hdr_size header)) then SA_STATUS_INVALID_KEY_TYPE else SA_STATUS_OK)"

definition ta_sa_key_unwrap_aes_ecb ::
  "crypto \<Rightarrow> sa_rights \<Rightarrow> sa_key_type \<Rightarrow> sa_elliptic_curve option \<Rightarrow> bool \<Rightarrow> u64 \<Rightarrow> u8 list \<Rightarrow> sa_uuid option \<Rightarrow> client \<Rightarrow> world \<Rightarrow> unwrap_command" where
  "ta_sa_key_unwrap_aes_ecb cr rights key_type type_parameters padded wrapping_key input caller_uuid c w =
     (if length input mod AES_BLOCK_SIZE \<noteq> 0 then refuse SA_STATUS_INVALID_PARAMETER c w
      else unwrap_under cr rights_allowed_unwrap (suits key_type_supports_aes)
        (unwrap_aes_ecb cr (Some input) (Some rights) key_type type_parameters padded) wrapping_key caller_uuid c w)"

definition ta_sa_key_unwrap_aes_cbc ::
  "crypto \<Rightarrow> sa_rights \<Rightarrow> sa_key_type \<Rightarrow> sa_elliptic_curve option \<Rightarrow> bool \<Rightarrow> u8 list option option \<Rightarrow> u64 \<Rightarrow> u8 list \<Rightarrow> sa_uuid option \<Rightarrow>
   client \<Rightarrow> world \<Rightarrow> unwrap_command" where
  "ta_sa_key_unwrap_aes_cbc cr rights key_type type_parameters padded algorithm_parameters wrapping_key input caller_uuid c w =
     (case algorithm_parameters of None \<Rightarrow> refuse SA_STATUS_NULL_PARAMETER c w
      | Some iv \<Rightarrow> (case iv of None \<Rightarrow> refuse SA_STATUS_NULL_PARAMETER c w
        | Some v \<Rightarrow>
            if length v \<noteq> AES_BLOCK_SIZE then refuse SA_STATUS_INVALID_PARAMETER c w
            else if length input mod AES_BLOCK_SIZE \<noteq> 0 then refuse SA_STATUS_INVALID_PARAMETER c w
            else unwrap_under cr rights_allowed_unwrap (suits key_type_supports_aes)
              (unwrap_aes_cbc cr (Some input) (Some rights) key_type type_parameters padded iv) wrapping_key caller_uuid c w))"

definition ta_sa_key_unwrap_aes_ctr ::
  "crypto \<Rightarrow> sa_rights \<Rightarrow> sa_key_type \<Rightarrow> sa_elliptic_curve option \<Rightarrow> u8 list option option \<Rightarrow> u64 \<Rightarrow> u8 list \<Rightarrow> sa_uuid option \<Rightarrow>
   client \<Rightarrow> world \<Rightarrow> unwrap_command" where
  "ta_sa_key_unwrap_aes_ctr cr rights key_type type_parameters algorithm_parameters wrapping_key input caller_uuid c w =
     (case algorithm_parameters of None \<Rightarrow> refuse SA_STATUS_NULL_PARAMETER c w
      | Some ctr \<Rightarrow> (case ctr of None \<Rightarrow> refuse SA_STATUS_NULL_PARAMETER c w
        | Some v \<Rightarrow>
            if length v \<noteq> AES_BLOCK_SIZE then refuse SA_STATUS_INVALID_PARAMETER c w
            else unwrap_under cr rights_allowed_unwrap (suits key_type_supports_aes)
              (unwrap_aes_ctr cr (Some input) (Some rights) key_type type_parameters ctr) wrapping_key caller_uuid c w))"

definition ta_sa_key_unwrap_aes_gcm ::
  "crypto \<Rightarrow> sa_rights \<Rightarrow> sa_key_type \<Rightarrow> sa_elliptic_curve option \<Rightarrow> (u8 list option \<times> u8 list option \<times> nat \<times> u8 list option) option \<Rightarrow>
   u64 \<Rightarrow> u8 list \<Rightarrow> sa_uuid option \<Rightarrow> client \<Rightarrow> world \<Rightarrow> unwrap_command" where
  "ta_sa_key_unwrap_aes_gcm cr rights key_type type_parameters algorithm_parameters wrapping_key input caller_uuid c w =
     (case algorithm_parameters of None \<Rightarrow> refuse SA_STATUS_NULL_PARAMETER c w
      | Some (iv, aad, aad_length, tag) \<Rightarrow> (case iv of None \<Rightarrow> refuse SA_STATUS_NULL_PARAMETER c w
        | Some v \<Rightarrow>
            if length v \<noteq> GCM_IV_LENGTH then refuse SA_STATUS_INVALID_PARAMETER c w
            else if aad = None \<and> aad_length > 0 then refuse SA_STATUS_NULL_PARAMETER c w
            else (case tag of None \<Rightarrow> refuse SA_STATUS_NULL_PARAMETER c w
            | Some t \<Rightarrow>
                if length t > AES_BLOCK_SIZE then refuse SA_STATUS_INVALID_PARAMETER c w
                else unwrap_under cr rights_allowed_unwrap (suits key_type_supports_aes)
                  (unwrap_aes_gcm cr (Some input) (Some rights) key_type type_parameters algorithm_parameters) wrapping_key caller_uuid c w)))"

definition ta_sa_key_unwrap_chacha20 ::
  "crypto \<Rightarrow> sa_rights \<Rightarrow> sa_key_type \<Rightarrow> sa_elliptic_curve option \<Rightarrow> (u8 list option \<times> u8 list option) option \<Rightarrow>
   u64 \<Rightarrow> u8 list \<Rightarrow> sa_uuid option \<Rightarrow> client \<Rightarrow> world \<Rightarrow> unwrap_command" where
  "ta_sa_key_unwrap_chacha20 cr rights key_type type_parameters algorithm_parameters wrapping_key input caller_uuid c w =
     (case algorithm_parameters of None \<Rightarrow> refuse SA_STATUS_NULL_PARAMETER c w
      | Some (counter, nonce) \<Rightarrow> (case counter of None \<Rightarrow> refuse SA_STATUS_NULL_PARAMETER c w
        | Some ctr \<Rightarrow>
            if length ctr \<noteq> CHACHA20_COUNTER_LENGTH then refuse SA_STATUS_INVALID_PARAMETER c w
            else (case nonce of None \<Rightarrow> refuse SA_STATUS_NULL_PARAMETER c w
            | Some n \<Rightarrow>
                if length n \<noteq> CHACHA20_NONCE_LENGTH then refuse SA_STATUS_INVALID_PARAMETER c w
                else unwrap_under cr rights_allowed_unwrap (suits key_type_supports_chacha20)
                  (unwrap_chacha20 cr (Some input) (Some rights) key_type type_parameters (Some (ctr, n))) wrapping_key caller_uuid c w)))"

definition ta_sa_key_unwrap_chacha20_poly1305 ::
  "crypto \<Rightarrow> sa_rights \<Rightarrow> sa_key_type \<Rightarrow> sa_elliptic_curve option \<Rightarrow> (u8 list option \<times> u8 list option \<times> nat \<times> u8 list option) option \<Rightarrow>
   u64 \<Rightarrow> u8 list \<Rightarrow> sa_uuid option \<Rightarrow> client \<Rightarrow> world \<Rightarrow> unwrap_command" where
  "ta_sa_key_unwrap_chacha20_poly1305 cr rights key_type type_parameters algorithm_parameters wrapping_key input caller_uuid c w =
     (case algorithm_parameters of None \<Rightarrow> refuse SA_STATUS_NULL_PARAMETER c w
      | Some (nonce, aad, aad_length, tag) \<Rightarrow> (case nonce of None \<Rightarrow> refuse SA_STATUS_NULL_PARAMETER c w
        | Some n \<Rightarrow>
            if length n \<noteq> CHACHA20_NONCE_LENGTH then refuse SA_STATUS_INVALID_PARAMETER c w
            else if aad = None \<and> aad_length > 0 then refuse SA_STATUS_NULL_PARAMETER c w
            else (case tag of None \<Rightarrow> refuse SA_STATUS_NULL_PARAMETER c w
            | Some t \<Rightarrow>
                if length t \<noteq> CHACHA20_TAG_LENGTH then refuse SA_STATUS_INVALID_PARAMETER c w
                else unwrap_under cr rights_allowed_unwrap (suits key_type_supports_chacha20)
                  (unwrap_chacha20_poly1305 cr (Some input) (Some rights) key_type type_parameters (Some (n, aad, aad_length, t)))
                  wrapping_key caller_uuid c w)))"

text \<open>Here the type of the key is checked before its rights.\<close>

definition ta_sa_key_unwrap_rsa ::
  "crypto \<Rightarrow> sa_rights \<Rightarrow> sa_key_type \<Rightarrow> bool \<Rightarrow> (sa_digest_algorithm \<times> sa_digest_algorithm \<times> u8 list option \<times> u64) option \<Rightarrow>
   u64 \<Rightarrow> u8 list \<Rightarrow> sa_uuid option \<Rightarrow> client \<Rightarrow> world \<Rightarrow> unwrap_command" where
  "ta_sa_key_unwrap_rsa cr rights key_type oaep algorithm_parameters wrapping_key input caller_uuid c w =
     (if key_type \<noteq> SA_KEY_TYPE_SYMMETRIC then refuse SA_STATUS_INVALID_PARAMETER c w
      else unwrap_under cr (\<lambda>_ _. True)
        (\<lambda>header w.
          if \<not> key_type_supports_rsa (hdr_type header) (ucast (hdr_size header)) then SA_STATUS_INVALID_KEY_TYPE
          else if \<not> rights_allowed_unwrap (Some (hdr_rights header)) w then SA_STATUS_OPERATION_NOT_ALLOWED
          else if length input \<noteq> unat (hdr_size header) then SA_STATUS_INVALID_PARAMETER
          else SA_STATUS_OK)
        (unwrap_rsa cr (Some input) (Some rights) oaep algorithm_parameters) wrapping_key caller_uuid c w)"

definition ta_sa_key_unwrap_ec ::
  "crypto \<Rightarrow> sa_rights \<Rightarrow> sa_key_type \<Rightarrow> (u64 \<times> u64) option \<Rightarrow> u64 \<Rightarrow> u8 list \<Rightarrow> sa_uuid option \<Rightarrow> client \<Rightarrow> world \<Rightarrow> unwrap_command" where
  "ta_sa_key_unwrap_ec cr rights key_type algorithm_parameters wrapping_key input caller_uuid c w =
     (if key_type \<noteq> SA_KEY_TYPE_SYMMETRIC then refuse SA_STATUS_INVALID_PARAMETER c w
      else (case algorithm_parameters of None \<Rightarrow> refuse SA_STATUS_NULL_PARAMETER c w
      | Some (offset, key_length) \<Rightarrow> unwrap_under cr rights_allowed_unwrap
          (\<lambda>header w.
            if \<not> key_type_supports_ec (hdr_type header) (tp_curve (hdr_type_parameters header)) (ucast (hdr_size header))
            then SA_STATUS_INVALID_KEY_TYPE else SA_STATUS_OK)
          (unwrap_ec cr (Some input) (Some rights) offset key_length) wrapping_key caller_uuid c w))"

definition key_unwrap_body ::
  "crypto \<Rightarrow> sa_rights \<Rightarrow> sa_key_type \<Rightarrow> sa_elliptic_curve option \<Rightarrow> sa_unwrap_parameters \<Rightarrow> u64 \<Rightarrow> u8 list \<Rightarrow> sa_uuid option \<Rightarrow>
   client \<Rightarrow> world \<Rightarrow> unwrap_command" where
  "key_unwrap_body cr rights key_type type_parameters parameters wrapping_key input caller_uuid c w = (case parameters of
      Unwrap_Aes_Ecb padded \<Rightarrow> ta_sa_key_unwrap_aes_ecb cr rights key_type type_parameters padded wrapping_key input caller_uuid c w
    | Unwrap_Aes_Cbc padded ps \<Rightarrow> ta_sa_key_unwrap_aes_cbc cr rights key_type type_parameters padded ps wrapping_key input caller_uuid c w
    | Unwrap_Aes_Ctr ps \<Rightarrow> ta_sa_key_unwrap_aes_ctr cr rights key_type type_parameters ps wrapping_key input caller_uuid c w
    | Unwrap_Aes_Gcm ps \<Rightarrow> ta_sa_key_unwrap_aes_gcm cr rights key_type type_parameters ps wrapping_key input caller_uuid c w
    | Unwrap_Chacha20 ps \<Rightarrow> ta_sa_key_unwrap_chacha20 cr rights key_type type_parameters ps wrapping_key input caller_uuid c w
    | Unwrap_Chacha20_Poly1305 ps \<Rightarrow>
        ta_sa_key_unwrap_chacha20_poly1305 cr rights key_type type_parameters ps wrapping_key input caller_uuid c w
    | Unwrap_Rsa oaep ps \<Rightarrow> ta_sa_key_unwrap_rsa cr rights key_type oaep ps wrapping_key input caller_uuid c w
    | Unwrap_Ec ps \<Rightarrow> ta_sa_key_unwrap_ec cr rights key_type ps wrapping_key input caller_uuid c w
    | Unwrap_Other _ \<Rightarrow> refuse SA_STATUS_INVALID_PARAMETER c w)"

definition ta_sa_key_unwrap ::
  "crypto \<Rightarrow> bool \<Rightarrow> sa_rights option \<Rightarrow> sa_key_type \<Rightarrow> sa_elliptic_curve option \<Rightarrow> sa_unwrap_parameters \<Rightarrow> u64 \<Rightarrow> u8 list option \<Rightarrow>
   ta \<Rightarrow> u64 \<Rightarrow> sa_uuid option \<Rightarrow> world \<Rightarrow> (sa_status \<times> u64 \<times> ta \<times> world) option" where
  "ta_sa_key_unwrap cr key_given rights key_type type_parameters parameters wrapping_key input t client_slot caller_uuid w =
     (if caller_uuid = None then Some (SA_STATUS_NULL_PARAMETER, INVALID_HANDLE, t, w)
      else if \<not> key_given then Some (SA_STATUS_NULL_PARAMETER, INVALID_HANDLE, t, w)
      else (case rights of None \<Rightarrow> Some (SA_STATUS_NULL_PARAMETER, INVALID_HANDLE, t, w)
      | Some r \<Rightarrow> (case input of None \<Rightarrow> Some (SA_STATUS_NULL_PARAMETER, INVALID_HANDLE, t, w)
        | Some bytes \<Rightarrow> with_client INVALID_HANDLE (key_unwrap_body cr r key_type type_parameters parameters wrapping_key bytes caller_uuid)
            t client_slot caller_uuid w)))"

section \<open>What is unwrapped\<close>

text \<open>
  The bytes \<open>key\<close> that the input holds under a wrapping key, for parameters the commands accept. An
  authenticated cipher has checked its tag.
\<close>

fun clear_text :: "crypto \<Rightarrow> sa_unwrap_parameters \<Rightarrow> stored_key \<Rightarrow> u8 list \<Rightarrow> u8 list \<Rightarrow> bool" where
  "clear_text cr (Unwrap_Aes_Ecb padded) p bs key \<longleftrightarrow> aes_ecb_decrypt cr (sk_key p) bs = (if padded then pkcs7 key else key)"
| "clear_text cr (Unwrap_Aes_Cbc padded ps) p bs key \<longleftrightarrow>
     (\<exists>iv. ps = Some (Some iv) \<and> aes_cbc_decrypt cr (sk_key p) iv bs = (if padded then pkcs7 key else key))"
| "clear_text cr (Unwrap_Aes_Ctr ps) p bs key \<longleftrightarrow>
     (\<exists>ctr. ps = Some (Some ctr) \<and> evp_output cr [EVP_Init EVP_aes_ctr SA_CIPHER_MODE_DECRYPT (sk_key p) ctr False, EVP_Update bs] = Some key)"
| "clear_text cr (Unwrap_Aes_Gcm ps) p bs key \<longleftrightarrow> (\<exists>iv aad n tag. ps = Some (Some iv, aad, n, Some tag) \<and>
     key = aes_gcm_decrypt cr (sk_key p) iv (given_bytes aad n) bs \<and>
     take (length tag) (aes_gcm_tag cr (sk_key p) iv (given_bytes aad n) bs) = tag)"
| "clear_text cr (Unwrap_Chacha20 ps) p bs key \<longleftrightarrow> (\<exists>ctr nonce. ps = Some (Some ctr, Some nonce) \<and>
     evp_output cr [EVP_Init EVP_chacha20 SA_CIPHER_MODE_DECRYPT (sk_key p) (ctr @ nonce) False, EVP_Update bs] = Some key)"
| "clear_text cr (Unwrap_Chacha20_Poly1305 ps) p bs key \<longleftrightarrow> (\<exists>nonce aad n tag. ps = Some (Some nonce, aad, n, Some tag) \<and>
     (let init = EVP_Init EVP_chacha20_poly1305 SA_CIPHER_MODE_DECRYPT (sk_key p) nonce False # aad_calls aad n in
      evp_output cr (init @ [EVP_Update bs]) = Some key \<and>
      evp_output cr (init @ [EVP_Update bs, EVP_Set_Tag tag, EVP_Final]) \<noteq> None))"
| "clear_text cr (Unwrap_Rsa oaep ps) p bs key \<longleftrightarrow>
     (if oaep then \<exists>d m label n. ps = Some (d, m, label, n) \<and> rsa_oaep_plain cr (sk_key p) d m (given_bytes label (unat n)) bs = Some key
      else rsa_pkcs1v15_plain cr (sk_key p) bs = Some key)"
| "clear_text cr (Unwrap_Ec ps) p bs key \<longleftrightarrow> (\<exists>offset n. ps = Some (offset, n) \<and>
     (let size = unat (hdr_size (sk_header p)) in
      key = take (unat n) (drop (unat offset) (take size (ec_difference cr (tp_curve (hdr_type_parameters (sk_header p))) (sk_key p)
        (take (size * 2) bs) (drop (size * 2) bs))))))"
| "clear_text cr (Unwrap_Other x) p bs key \<longleftrightarrow> False"

text \<open>The library writes no more than there is room for.\<close>

definition decryption_documented :: "crypto \<Rightarrow> bool" where
  "decryption_documented cr \<longleftrightarrow>
     (\<forall>k d. length (aes_ecb_decrypt cr k d) = length d) \<and>
     (\<forall>k v d. length (aes_cbc_decrypt cr k v d) = length d) \<and>
     (\<forall>k v a d. length (aes_gcm_decrypt cr k v a d) = length d) \<and>
     (\<forall>calls d out. evp_output cr (calls @ [EVP_Update d]) = Some out \<longrightarrow> length out \<le> length d + 16) \<and>
     (\<forall>k d out. rsa_pkcs1v15_plain cr k d = Some out \<longrightarrow> length out \<le> length d) \<and>
     (\<forall>k a b l d out. rsa_oaep_plain cr k a b l d = Some out \<longrightarrow> length out \<le> length d)"

text \<open>The key \<open>k\<close> that is made of the bytes \<open>key\<close> under \<open>p\<close>.\<close>

definition child_of :: "sa_rights \<Rightarrow> sa_key_type \<Rightarrow> stored_key \<Rightarrow> u8 list \<Rightarrow> stored_key \<Rightarrow> bool" where
  "child_of r key_type p key k \<longleftrightarrow> sk_key k = key \<and> hdr_type (sk_header k) = key_type \<and>
     hdr_rights (sk_header k) = restrict_child_rights r (Some (hdr_rights (sk_header p)))"

lemma import_key_device [device]: "import_key cr r rp kt ec bs w = (s, k, w') \<Longrightarrow> same_device w w'"
  by (auto simp: import_key_def ec_validate_private_def rsa_validate_private_def Let_def dest!: device intro: same_device_trans chain3
      split: if_splits option.splits prod.splits)

lemma length_curve_parameters [simp]: "length (curve_parameters c) = TYPE_PARAMETERS_SIZE"
  by (simp add: curve_parameters_def TYPE_PARAMETERS_SIZE_def)

lemma create_child:
  assumes "stored_key_create True (Some r) (Some (hdr_rights (sk_header p))) kt tp n (Some bs) w = (SA_STATUS_OK, Some k, w')"
    "rights_wf r" "length bs < 2 ^ 32" "length tp = TYPE_PARAMETERS_SIZE" "\<And>x. kt \<noteq> SA_KEY_TYPE_OTHER x"
  shows "child_of r kt p bs k \<and> proper_key k"
  using stored_key_create_proper [OF assms] assms(1)
  by (auto simp: child_of_def stored_key_create_def Let_def split: if_splits prod.splits)

lemma import_key_OK:
  assumes r: "import_key cr (Some r) (Some (hdr_rights (sk_header p))) kt ec (Some bs) w = (SA_STATUS_OK, Some k, w')"
    and "rights_wf r" "length bs < 2 ^ 32"
  shows "child_of r kt p bs k \<and> proper_key k"
proof -
  have "length no_parameters = TYPE_PARAMETERS_SIZE" by (simp add: no_parameters_def)
  then show ?thesis
    using r by (auto simp: import_key_def Let_def dest: create_child [OF _ assms(2,3)] split: if_splits prod.splits)
qed

text \<open>What an unwrapping does: on success the key is the child of the wrapping key with some good bytes.\<close>

definition unwraps ::
  "sa_rights \<Rightarrow> sa_key_type \<Rightarrow> stored_key \<Rightarrow> (u8 list \<Rightarrow> bool) \<Rightarrow> world \<Rightarrow> unwrap_result \<Rightarrow> bool" where
  "unwraps r kt p good w res \<longleftrightarrow> (\<forall>s k w'. res = Some (s, k, w') \<longrightarrow> same_device w w' \<and>
     (\<forall>x. s = SA_STATUS_OK \<longrightarrow> k = Some x \<longrightarrow> (\<exists>key. good key \<and> child_of r kt p key x) \<and> proper_key x))"

named_theorems unwrapping_rules \<open>unwraps, as introduction rules\<close>

lemma unwraps_simple [unwrapping_rules]:
  "unwraps r kt p good w None"
  "s \<noteq> SA_STATUS_OK \<Longrightarrow> same_device w w' \<Longrightarrow> unwraps r kt p good w (Some (s, k, w'))"
  by (simp_all add: unwraps_def)

lemma unwraps_import [unwrapping_rules]:
  assumes "rights_wf r" "good key" "length key < 2 ^ 32" "same_device w w1"
  shows "unwraps r kt p good w (Some (import_key cr (Some r) (Some (hdr_rights (sk_header p))) kt ec (Some key) w1))"
  unfolding unwraps_def
proof (intro allI impI conjI)
  fix s k w' assume "Some (import_key cr (Some r) (Some (hdr_rights (sk_header p))) kt ec (Some key) w1) = Some (s, k, w')"
  then have i: "import_key cr (Some r) (Some (hdr_rights (sk_header p))) kt ec (Some key) w1 = (s, k, w')" by simp
  show "same_device w w'" using assms(4) import_key_device [OF i] by (rule same_device_trans)
  fix x assume "s = SA_STATUS_OK" "k = Some x"
  then have "child_of r kt p key x \<and> proper_key x" using import_key_OK [of cr r p kt ec key w1 x w'] i assms(1,3) by simp
  then show "\<exists>key. good key \<and> child_of r kt p key x" "proper_key x" using assms(2) by blast+
qed

lemma unwraps_if [unwrapping_rules]:
  "(b \<Longrightarrow> unwraps r kt p good w x) \<Longrightarrow> (\<not> b \<Longrightarrow> unwraps r kt p good w y) \<Longrightarrow> unwraps r kt p good w (if b then x else y)"
  by simp

lemma unwraps_start:
  assumes "\<And>w1. same_device w w1 \<Longrightarrow> unwraps r kt p good w (body bs p w1)"
  shows "unwraps r kt p good w (unwrapping (Some bs) (Some r) (Some p) body w)"
  using assms by (auto simp: unwrapping_def Let_def intro!: unwraps_simple dest: draw_device split: prod.split)

lemma pad_stripped:
  assumes n: "length bs mod 16 = 0" "16 \<le> length bs" and p: "pad_check_pkcs7 True (Some (drop (length bs - 16) bs)) = (True, Some v)"
  shows "pkcs7 (take (length bs - unat v) bs) = bs"
proof -
  let ?n = "length bs - unat v"
  have v: "1 \<le> unat v" "unat v \<le> 16" and b: "\<forall>i < unat v. drop (length bs - 16) bs ! (16 - unat v + i) = v"
    using p unfolding pad_check_pkcs7_iff pad_check_loop_iff by auto
  have "drop ?n bs = replicate (unat v) v"
  proof (rule nth_equalityI)
    fix i assume "i < length (drop ?n bs)"
    then have "i < unat v" using n v by simp
    moreover have "length bs - 16 + (16 - unat v + i) = ?n + i" using n v by simp
    ultimately show "drop ?n bs ! i = replicate (unat v) v ! i" using b n v by (auto simp: nth_drop)
  qed (use n v in simp)
  moreover have "pad_len ?n = unat v"
  proof -
    obtain k where k: "length bs = 16 * k" using n(1) by (auto simp: mod_eq_0_iff_dvd)
    have "?n = (16 - unat v) + 16 * (k - 1)" using k n(2) v by simp
    then have "?n mod 16 = (16 - unat v) mod 16" by simp
    then show ?thesis using v by (simp add: pad_len_def)
  qed
  ultimately show ?thesis using n v by (simp add: pkcs7_def) (metis append_take_drop_id)
qed

lemma unwraps_padded [unwrapping_rules]:
  assumes wf: "rights_wf r" and n: "length clear mod 16 = 0" "length clear < 2 ^ 32" and w: "same_device w w1"
    and good: "\<And>key. clear = (if padded then pkcs7 key else key) \<Longrightarrow> good key"
  shows "unwraps r kt p good w (import_padded cr padded (Some r) kt ec p clear w1)"
proof (cases padded)
  case True
  have "unwraps r kt p good w (Some (import_key cr (Some r) (Some (hdr_rights (sk_header p))) kt ec (Some (take (length clear - unat v) clear)) w1))"
    if "16 \<le> length clear" "pad_check_pkcs7 True (Some (drop (length clear - 16) clear)) = (True, Some v)" for v
    by (rule unwraps_import [OF wf good _ w]) (use pad_stripped [OF n(1) that] True n(2) in auto)
  moreover have "\<exists>v. pad_check_pkcs7 True (Some b) = (x, Some v)" if "pad_check_pkcs7 True (Some b) = (x, y)" for b x y
    using that by (auto simp: pad_check_pkcs7_def Let_def split: if_splits)
  ultimately show ?thesis using True w
    by (auto simp: import_padded_def AES_BLOCK_SIZE_def intro!: unwraps_simple split: prod.split)
next
  case False
  then show ?thesis using unwraps_import [OF wf good n(2) w] by (simp add: import_padded_def)
qed

lemma internal_device [device]:
  "unwrap_aes_cbc_internal cr g d v k w = (s, out, w') \<Longrightarrow> same_device w w'"
  "unwrap_aes_gcm_internal cr g d v a n t k w = (s, out, w') \<Longrightarrow> same_device w w'"
  by (auto simp: unwrap_aes_cbc_internal_def unwrap_aes_gcm_internal_def Let_def dest!: draw_device draws_device intro: same_device_trans
      split: if_splits option.splits prod.splits)

lemma evp_chain_device [device]: "evp_chain cr made calls w = (outs, w') \<Longrightarrow> same_device w w'"
proof (induction calls arbitrary: made w outs w')
  case (Cons call calls)
  show ?case
    using Cons.prems Cons.IH by (fastforce simp: Let_def dest: draw_device intro: same_device_trans split: prod.splits if_splits option.splits)
qed simp

text \<open>A chain that succeeds has made each call.\<close>

lemma evp_chain_OK:
  "evp_chain cr made calls w = (Some outs, w') \<Longrightarrow> length outs = length calls \<and>
    (\<forall>i < length calls. evp_output cr (made @ take (Suc i) calls) = Some (outs ! i))"
proof (induction calls arbitrary: made w outs)
  case (Cons call calls)
  obtain b w1 where d: "draw w = (b, w1)" by fastforce
  obtain out rest where o: "evp_output cr (made @ [call]) = Some out" "evp_chain cr (made @ [call]) calls w1 = (Some rest, w')" "outs = out # rest"
    using Cons.prems d by (auto split: if_splits option.splits prod.splits)
  from Cons.IH [OF o(2)] o(1,3) show ?case by (auto simp: nth_Cons split: nat.split)
qed simp

lemma unwraps_decrypted [unwrapping_rules]:
  assumes wf: "rights_wf r" and w: "same_device w w1" and calls: "calls \<noteq> []"
    and good: "\<And>key. evp_output cr (init @ [hd calls]) = Some key \<Longrightarrow> evp_output cr (init @ calls) \<noteq> None \<Longrightarrow> good key \<and> length key < 2 ^ 32"
  shows "unwraps r kt p good w (import_decrypted cr steps init calls (Some r) kt ec p w1)"
proof -
  have "unwraps r kt p good w (Some (import_key cr (Some r) (Some (hdr_rights (sk_header p))) kt ec (Some (hd outs)) w3))"
    if "same_device w w2" "evp_chain cr init calls w2 = (Some outs, w3)" for w2 outs w3
  proof -
    have o: "length outs = length calls" "\<And>i. i < length calls \<Longrightarrow> evp_output cr (init @ take (Suc i) calls) = Some (outs ! i)"
      using evp_chain_OK [OF that(2)] by blast+
    have "good (hd outs) \<and> length (hd outs) < 2 ^ 32"
    proof (rule good)
      show "evp_output cr (init @ [hd calls]) = Some (hd outs)"
        using o(2) [of 0] o(1) calls by (cases calls; cases outs) auto
      show "evp_output cr (init @ calls) \<noteq> None" using o(2) [of "length calls - 1"] calls by simp
    qed
    then show ?thesis using unwraps_import [OF wf] same_device_trans [OF that(1) evp_chain_device [OF that(2)]] by blast
  qed
  note run = this
  obtain b w2 where d: "draws steps w1 = (b, w2)" by fastforce
  obtain outs w3 where e: "evp_chain cr init calls w2 = (outs, w3)" by fastforce
  have "same_device w w2" "same_device w w3"
    using same_device_trans [OF w draws_device [OF d]] evp_chain_device [OF e] by (auto intro: same_device_trans)
  with run e d show ?thesis by (cases outs) (auto simp: import_decrypted_def Let_def intro!: unwraps_simple)
qed

text \<open>The functions, on what the commands pass them.\<close>

lemma clear_lengths:
  assumes "decryption_documented cr"
  shows "length (aes_ecb_decrypt cr k d) = length d" "length (aes_cbc_decrypt cr k v d) = length d"
    "length (aes_gcm_decrypt cr k v a d) = length d"
    "evp_output cr (calls @ [EVP_Update d]) = Some out \<Longrightarrow> length out \<le> length d + 16"
    "rsa_pkcs1v15_plain cr k d = Some out \<Longrightarrow> length out \<le> length d"
    "rsa_oaep_plain cr k da ma l d = Some out \<Longrightarrow> length out \<le> length d"
  using assms by (auto simp: decryption_documented_def)

lemma unwrap_ecb:
  assumes "decryption_documented cr" "rights_wf r" "length bs < 2 ^ 31"
  shows "unwraps r kt p (clear_text cr (Unwrap_Aes_Ecb padded) p bs) w (unwrap_aes_ecb cr (Some bs) (Some r) kt ec padded (Some p) w)"
  unfolding unwrap_aes_ecb_def
proof (rule unwraps_start, goal_cases)
  case (1 w1)
  obtain s c w2 where u: "unwrap_aes_ecb_internal cr True (Some bs) (Some (sk_key p)) w1 = (s, c, w2)" using prod_cases3 by blast
  have "s = SA_STATUS_OK \<Longrightarrow> c = Some (aes_ecb_decrypt cr (sk_key p) bs) \<and> length bs mod 16 = 0"
    using u by (auto simp: unwrap_aes_ecb_internal_def AES_BLOCK_SIZE_def Let_def split: if_splits prod.splits)
  then show ?case using same_device_trans [OF 1 ecb_device [OF u]] u assms clear_lengths(1) [OF assms(1)]
    by (auto intro!: unwrapping_rules)
qed

lemma unwrap_cbc:
  assumes "decryption_documented cr" "rights_wf r" "length bs < 2 ^ 31"
  shows "unwraps r kt p (clear_text cr (Unwrap_Aes_Cbc padded (Some (Some iv))) p bs) w
    (unwrap_aes_cbc cr (Some bs) (Some r) kt ec padded (Some iv) (Some p) w)"
  unfolding unwrap_aes_cbc_def if_not_P [OF option.distinct(2)]
proof (rule unwraps_start, goal_cases)
  case (1 w1)
  obtain s c w2 where u: "unwrap_aes_cbc_internal cr True (Some bs) (Some iv) (Some (sk_key p)) w1 = (s, c, w2)" using prod_cases3 by blast
  have "s = SA_STATUS_OK \<Longrightarrow> c = Some (aes_cbc_decrypt cr (sk_key p) iv bs) \<and> length bs mod 16 = 0"
    using u by (auto simp: unwrap_aes_cbc_internal_def AES_BLOCK_SIZE_def Let_def split: if_splits prod.splits)
  then show ?case using same_device_trans [OF 1 internal_device(1) [OF u]] u assms clear_lengths(2) [OF assms(1)]
    by (auto intro!: unwrapping_rules)
qed

lemma unwrap_gcm:
  assumes "decryption_documented cr" "rights_wf r" "length bs < 2 ^ 31"
  shows "unwraps r kt p (clear_text cr (Unwrap_Aes_Gcm (Some (Some iv, aad, n, Some tag))) p bs) w
    (unwrap_aes_gcm cr (Some bs) (Some r) kt ec (Some (Some iv, aad, n, Some tag)) (Some p) w)"
  unfolding unwrap_aes_gcm_def option.case prod.case
proof (rule unwraps_start, goal_cases)
  case (1 w1)
  obtain s c w2 where u: "unwrap_aes_gcm_internal cr True (Some bs) (Some iv) aad n (Some tag) (Some (sk_key p)) w1 = (s, c, w2)"
    using prod_cases3 by blast
  have "s = SA_STATUS_OK \<Longrightarrow> c = Some (aes_gcm_decrypt cr (sk_key p) iv (given_bytes aad n) bs) \<and>
      take (length tag) (aes_gcm_tag cr (sk_key p) iv (given_bytes aad n) bs) = tag"
    using u by (auto simp: unwrap_aes_gcm_internal_def given_bytes_def Let_def split: if_splits prod.splits option.splits)
  then show ?case using same_device_trans [OF 1 internal_device(2) [OF u]] u assms clear_lengths(3) [OF assms(1)]
    by (auto intro!: unwrapping_rules)
qed

text \<open>Stream ciphers: the last of the calls that matter is the update, whose output is the key.\<close>

lemma unwrap_stream:
  assumes doc: "decryption_documented cr" and wf: "rights_wf r" and bs: "length bs < 2 ^ 31"
    and good: "\<And>key. evp_output cr (init @ [EVP_Update bs]) = Some key \<Longrightarrow> evp_output cr (init @ EVP_Update bs # calls) \<noteq> None \<Longrightarrow> good key"
    and w: "same_device w w1"
  shows "unwraps r kt p good w (import_decrypted cr steps init (EVP_Update bs # calls) (Some r) kt ec p w1)"
proof (rule unwraps_decrypted [OF wf w])
  fix key assume k: "evp_output cr (init @ [hd (EVP_Update bs # calls)]) = Some key" "evp_output cr (init @ EVP_Update bs # calls) \<noteq> None"
  then have "length key \<le> length bs + 16" using clear_lengths(4) [OF doc] by simp
  with k good bs show "good key \<and> length key < 2 ^ 32" by simp
qed simp

lemma unwrap_streams:
  assumes "decryption_documented cr" "rights_wf r" "length bs < 2 ^ 31"
  shows "unwraps r kt p (clear_text cr (Unwrap_Aes_Ctr (Some (Some ctr))) p bs) w
      (unwrap_aes_ctr cr (Some bs) (Some r) kt ec (Some ctr) (Some p) w)" (is ?ctr)
    and "unwraps r kt p (clear_text cr (Unwrap_Chacha20 (Some (Some ctr, Some n))) p bs) w
      (unwrap_chacha20 cr (Some bs) (Some r) kt ec (Some (ctr, n)) (Some p) w)" (is ?chacha)
    and "unwraps r kt p (clear_text cr (Unwrap_Chacha20_Poly1305 (Some (Some n, aad, al, Some tag))) p bs) w
      (unwrap_chacha20_poly1305 cr (Some bs) (Some r) kt ec (Some (n, aad, al, tag)) (Some p) w)" (is ?poly)
proof -
  note rules = unwraps_start unwrap_stream [OF assms]
  show ?ctr unfolding unwrap_aes_ctr_def if_not_P [OF option.distinct(2)] by (intro rules) simp_all
  show ?chacha unfolding unwrap_chacha20_def option.case prod.case by (intro rules) simp_all
  show ?poly unfolding unwrap_chacha20_poly1305_def option.case prod.case by (intro rules) (simp_all add: Let_def)
qed

lemma rsa_decrypt_with_OK:
  "rsa_decrypt_with cr n plain key len m w = (SA_STATUS_OK, out, w') \<Longrightarrow> out = plain \<and> plain \<noteq> None"
  by (auto simp: rsa_decrypt_with_def Let_def split: if_splits option.splits prod.splits)

lemma unwrap_rsa_result:
  assumes "decryption_documented cr" "rights_wf r" "length bs < 2 ^ 31"
  shows "unwraps r SA_KEY_TYPE_SYMMETRIC p (clear_text cr (Unwrap_Rsa oaep ps) p bs) w (unwrap_rsa cr (Some bs) (Some r) oaep ps (Some p) w)"
  unfolding unwrap_rsa_def
proof (rule unwraps_start, goal_cases)
  case (1 w1)
  have fin: "unwraps r SA_KEY_TYPE_SYMMETRIC p good w ((\<lambda>(status, clear, w).
         if status \<noteq> SA_STATUS_OK then Some (status, None, w)
         else Some (import_key cr (Some r) (Some (hdr_rights (sk_header p))) SA_KEY_TYPE_SYMMETRIC None clear w)) (s, out, w2))"
    if "same_device w1 w2" "s = SA_STATUS_OK \<Longrightarrow> \<exists>key. out = Some key \<and> good key \<and> length key \<le> length bs" for good s out w2
    using that same_device_trans [OF 1 that(1)] assms by (auto intro!: unwrapping_rules)
  obtain s out w2 where p1: "rsa_decrypt_pkcs1v15 cr True (Some (of_nat (length bs))) (Some p) (Some bs) w1 = (s, out, w2)" using prod_cases3 by blast
  have f1: "s = SA_STATUS_OK \<Longrightarrow> \<exists>key. out = Some key \<and> rsa_pkcs1v15_plain cr (sk_key p) bs = Some key \<and> length key \<le> length bs"
    using p1 clear_lengths(5) [OF assms(1)] by (auto simp: rsa_decrypt_pkcs1v15_def dest!: rsa_decrypt_with_OK)
  show ?case
  proof (cases "oaep \<and> ps \<noteq> None")
    case True
    then obtain d m label n where ps: "ps = Some (d, m, label, n)" by (cases ps) auto
    obtain s' out' w3 where p2: "rsa_decrypt_oaep cr True (Some (of_nat (length bs))) (Some p) d m label n (Some bs) w1 = (s', out', w3)"
      using prod_cases3 by blast
    have "s' = SA_STATUS_OK \<Longrightarrow> \<exists>key. out' = Some key \<and> rsa_oaep_plain cr (sk_key p) d m (given_bytes label (unat n)) bs = Some key \<and>
        length key \<le> length bs"
      using p2 clear_lengths(6) [OF assms(1)] by (auto simp: rsa_decrypt_oaep_def given_bytes_def Let_def dest!: rsa_decrypt_with_OK)
    then have "unwraps r SA_KEY_TYPE_SYMMETRIC p (clear_text cr (Unwrap_Rsa oaep ps) p bs) w ((\<lambda>(status, clear, w).
         if status \<noteq> SA_STATUS_OK then Some (status, None, w)
         else Some (import_key cr (Some r) (Some (hdr_rights (sk_header p))) SA_KEY_TYPE_SYMMETRIC None clear w)) (s', out', w3))"
      by (intro fin public_decrypt_device(2) [OF p2]) (use True ps in auto)
    with True 1 show ?thesis by (simp add: ps p2 Let_def unwraps_simple)
  next
    case False
    then show ?thesis using fin [OF public_decrypt_device(1) [OF p1]] f1 1 by (cases ps) (auto simp: p1 Let_def unwraps_simple)
  qed
qed

lemma unwrap_ec_result:
  assumes "rights_wf r" "length bs < 2 ^ 31"
  shows "unwraps r SA_KEY_TYPE_SYMMETRIC p (clear_text cr (Unwrap_Ec (Some (off, n))) p bs) w
    (unwrap_ec cr (Some bs) (Some r) off n (Some p) w)"
proof -
  let ?size = "ec_key_size_from_curve (tp_curve (hdr_type_parameters (sk_header p)))"
  obtain b w1 where d: "draw w = (b, w1)" by fastforce
  obtain s out m w2 where e: "ec_decrypt_elgamal cr True (Some ?size) (Some p) (Some bs) w1 = (s, out, m, w2)" using prod_cases4 by blast
  have w2: "same_device w w1" "same_device w w2"
    using draw_device [OF d] same_device_trans [OF draw_device [OF d] elgamal_device [OF e]] by simp_all
  have out: "s = SA_STATUS_OK \<Longrightarrow> out = Some (take (unat (hdr_size (sk_header p))) (ec_difference cr (tp_curve (hdr_type_parameters (sk_header p)))
        (sk_key p) (take (unat (hdr_size (sk_header p)) * 2) bs) (drop (unat (hdr_size (sk_header p)) * 2) bs)))"
    using e by (auto simp: ec_decrypt_elgamal_def Let_def split: if_splits option.splits prod.splits)
  let ?good = "clear_text cr (Unwrap_Ec (Some (off, n))) p bs"
  have "unwraps r SA_KEY_TYPE_SYMMETRIC p ?good w (Some (import_key cr (Some r) (Some (hdr_rights (sk_header p))) SA_KEY_TYPE_SYMMETRIC None
      (Some (take (unat n) (drop (unat off) (the out)))) w2))" if "s = SA_STATUS_OK"
    by (rule unwraps_import [OF assms(1) _ _ w2(2)])
      (use out [OF that] unsigned_less [where ?'a = nat, of "hdr_size (sk_header p)"] in \<open>simp_all add: Let_def\<close>)
  note ok = this
  show ?thesis
    unfolding unwrap_ec_def option.case if_not_P [OF option.distinct(2)] Let_def d e prod.case split_beta fst_conv snd_conv
    by (intro unwraps_if unwraps_simple w2 same_device_refl) (simp_all add: ok)
qed

section \<open>The command\<close>

text \<open>A key that was unwrapped from \<open>bs\<close> with the key under the handle \<open>n\<close>.\<close>

definition unwrapped_child ::
  "crypto \<Rightarrow> world \<Rightarrow> wrapped_key typed_store \<Rightarrow> sa_uuid \<Rightarrow> u64 \<Rightarrow> sa_rights \<Rightarrow> sa_key_type \<Rightarrow> sa_unwrap_parameters \<Rightarrow> u8 list \<Rightarrow>
   stored_key \<Rightarrow> bool" where
  "unwrapped_child cr w ts u n r kt ps bs k \<longleftrightarrow> (\<exists>p key. held_key cr w ts u SA_USAGE_FLAG_UNWRAP n p \<and> clear_text cr ps p bs key \<and>
     child_of r kt p key k)"

lemma unwrap_under_makes:
  assumes keys: "keys_ok cr (w_root_key w) (client_key_store c)" "crypto_ok cr" "provisioned w" "uuid_ok u"
    and rights: "\<And>(p :: stored_key) w1. same_device w w1 \<Longrightarrow> allowed (Some (hdr_rights (sk_header p))) w1 \<Longrightarrow> suitable (sk_header (p :: stored_key)) w1 = SA_STATUS_OK \<Longrightarrow>
      SA_USAGE_FLAG_UNWRAP \<in> usage_flag_set (usage_flags (hdr_rights (sk_header p)))"
    and un: "\<And>p w1. unwraps r kt p (clear_text cr ps p bs) w1 (unwrap (Some p) w1)"
    and run: "unwrap_under cr allowed suitable unwrap n (Some u) c w = Some res"
  shows "makes_key cr u (unwrapped_child cr w (client_key_store c) u n r kt ps bs) c w res" (is "makes_key cr u ?made c w res")
proof -
  obtain s p c1 w1 where o: "open_key cr allowed n (Some u) c w = (s, p, c1, w1)" using prod_cases4 by blast
  from keys(1-4) o obtain ks where ks: "c1 = c\<lparr>client_key_store := ks\<rparr>" "same_keys (client_key_store c) ks" and dev: "same_device w w1"
    and p: "s \<noteq> SA_STATUS_OK \<or> (\<exists>k. p = Some k \<and> owns_key cr (w_root_key w) (client_key_store c) n u k \<and>
       may_use (hdr_rights (sk_header k)) u w \<and> allowed (Some (hdr_rights (sk_header k))) w1)" by (rule open_key_result)
  note grow = same_keys_grow [OF ks(2) keys(1)]
  have keys1: "keys_ok cr (w_root_key w1) (client_key_store c1)" "provisioned w1" "w_root_key w1 = w_root_key w"
    using same_keys_ok [OF ks(2) keys(1)] same_deviceD(3,4) [OF dev keys(3)] ks(1) by simp_all
  have inner: "makes_key cr u ?made c1 w1 res \<Longrightarrow> ?thesis"
  proof (cases res)
    case (fields s2 n2 c2 w2)
    assume m: "makes_key cr u ?made c1 w1 res"
    show ?thesis
      unfolding fields
      by (rule makes_keyE [OF m [unfolded fields]], rule makes_keyI)
        (use ks(1) grow dev keys1(3) in \<open>auto intro: keys_grow_trans same_device_trans\<close>)
  qed
  have refused: "makes_key cr u ?made c1 w1 (s', INVALID_HANDLE, c1, w')" if "s' \<noteq> SA_STATUS_OK" "same_device w1 w'" for s' w'
    using makes_key_error [OF keys1(1)] that by blast
  show ?thesis
  proof (cases "s = SA_STATUS_OK \<and> suitable (sk_header (the p)) w1 = SA_STATUS_OK")
    case False
    then show ?thesis using run o refused inner by (auto simp: unwrap_under_def Let_def split: if_splits)
  next
    case True
    with p obtain k where k: "p = Some k" "owns_key cr (w_root_key w) (client_key_store c) n u k" "may_use (hdr_rights (sk_header k)) u w"
      "allowed (Some (hdr_rights (sk_header k))) w1" by blast
    then have held: "held_key cr w (client_key_store c) u SA_USAGE_FLAG_UNWRAP n k"
      using rights [OF dev k(4)] True unfolding held_key_def by simp
    obtain s2 x w2 where x: "unwrap p w1 = Some (s2, x, w2)"
      using run o True by (auto simp: unwrap_under_def Let_def split: option.splits)
    from un [of k w1] x k(1) have d2: "same_device w1 w2"
      and made: "s2 = SA_STATUS_OK \<Longrightarrow> x = Some y \<Longrightarrow> proper_key y \<and> ?made y" for y
      using held unfolding unwraps_def unwrapped_child_def by blast+
    show ?thesis
    proof (cases "s2 = SA_STATUS_OK")
      case False
      then have "res = (s2, INVALID_HANDLE, c1, w2)" using run o True x by (simp add: unwrap_under_def Let_def)
      then show ?thesis using refused [OF False d2] inner by simp
    next
      case ok: True
      have "makes_key cr u ?made c1 w1 (import_made_key cr x (Some u) c1 w2)"
        by (rule makes_key_import [OF keys1(1) keys(2) keys1(2) keys(4) d2]) (use made ok in blast)
      moreover have "res = import_made_key cr x (Some u) c1 w2" using run o True x ok by (simp add: unwrap_under_def Let_def)
      ultimately show ?thesis using inner by simp
    qed
  qed
qed

lemma key_unwrap_body_makes:
  assumes keys: "keys_ok cr (w_root_key w) (client_key_store c)" "crypto_ok cr" "provisioned w" "uuid_ok u"
    and doc: "decryption_documented cr" and wf: "rights_wf r" and bs: "length bs < 2 ^ 31"
    and run: "key_unwrap_body cr r kt ec ps n bs (Some u) c w = Some res"
  shows "makes_key cr u (unwrapped_child cr w (client_key_store c) u n r kt ps bs) c w res"
proof -
  have err: "makes_key cr u made c w (s, INVALID_HANDLE, c, w)" if "s \<noteq> SA_STATUS_OK" for s made
    using makes_key_error [OF keys(1) that] by simp
  note under = unwrap_under_makes [OF keys, rotated 2]
  show ?thesis
  proof (cases ps)
    case (Unwrap_Aes_Ecb padded)
    show ?thesis
      using run unwrap_ecb [OF doc wf bs] err unfolding Unwrap_Aes_Ecb key_unwrap_body_def ta_sa_key_unwrap_aes_ecb_def sa_unwrap_parameters.case
      by (auto simp: rights_allowed_unwrap_iff simp del: clear_text.simps elim!: under split: if_splits)
  next
    case (Unwrap_Aes_Cbc padded x)
    show ?thesis
      using run unwrap_cbc [OF doc wf bs] err unfolding Unwrap_Aes_Cbc key_unwrap_body_def ta_sa_key_unwrap_aes_cbc_def sa_unwrap_parameters.case
      by (auto simp: rights_allowed_unwrap_iff simp del: clear_text.simps elim!: under split: if_splits option.splits)
  next
    case (Unwrap_Aes_Ctr x)
    show ?thesis
      using run unwrap_streams(1) [OF doc wf bs] err unfolding Unwrap_Aes_Ctr key_unwrap_body_def ta_sa_key_unwrap_aes_ctr_def sa_unwrap_parameters.case
      by (auto simp: rights_allowed_unwrap_iff simp del: clear_text.simps elim!: under split: if_splits option.splits)
  next
    case (Unwrap_Aes_Gcm x)
    show ?thesis
      using run unwrap_gcm [OF doc wf bs] err unfolding Unwrap_Aes_Gcm key_unwrap_body_def ta_sa_key_unwrap_aes_gcm_def sa_unwrap_parameters.case
      by (auto simp: rights_allowed_unwrap_iff simp del: clear_text.simps elim!: under split: if_splits option.splits)
  next
    case (Unwrap_Chacha20 x)
    show ?thesis
      using run unwrap_streams(2) [OF doc wf bs] err unfolding Unwrap_Chacha20 key_unwrap_body_def ta_sa_key_unwrap_chacha20_def sa_unwrap_parameters.case
      by (auto simp: rights_allowed_unwrap_iff simp del: clear_text.simps elim!: under split: if_splits option.splits)
  next
    case (Unwrap_Chacha20_Poly1305 x)
    show ?thesis
      using run unwrap_streams(3) [OF doc wf bs] err
      unfolding Unwrap_Chacha20_Poly1305 key_unwrap_body_def ta_sa_key_unwrap_chacha20_poly1305_def sa_unwrap_parameters.case
      by (auto simp: rights_allowed_unwrap_iff simp del: clear_text.simps elim!: under split: if_splits option.splits)
  next
    case (Unwrap_Rsa oaep x)
    show ?thesis
      using run unwrap_rsa_result [OF doc wf bs] err unfolding Unwrap_Rsa key_unwrap_body_def ta_sa_key_unwrap_rsa_def sa_unwrap_parameters.case
      by (auto simp: rights_allowed_unwrap_iff simp del: clear_text.simps elim!: under split: if_splits option.splits)
  next
    case (Unwrap_Ec x)
    show ?thesis
      using run unwrap_ec_result [OF wf bs] err unfolding Unwrap_Ec key_unwrap_body_def ta_sa_key_unwrap_ec_def sa_unwrap_parameters.case
      by (auto simp: rights_allowed_unwrap_iff simp del: clear_text.simps elim!: under split: if_splits option.splits)
  next
    case (Unwrap_Other x)
    with run err show ?thesis by (auto simp: key_unwrap_body_def)
  qed
qed

text \<open>
  C19: what a TA gets from an unwrapping. If its session is in order and the command succeeds, then it owns the wrapping
  key, may use it now and may unwrap with it; the new key, which it alone owns under the returned handle, is what the input
  holds under that key (with a checked tag for the authenticated ciphers, without its padding for the padded ones), with
  the requested type and with the requested rights, restricted by those of the wrapping key; and all keys that were in the
  session are still there.
\<close>

theorem key_unwrap_computes:
  assumes t: "sessions_ok t" "session t (unat slot) = Some (u, c)" "uuid_ok u"
    and keys: "keys_ok cr (w_root_key w) (client_key_store c)" "crypto_ok cr" "decryption_documented cr" "provisioned w"
    and wf: "rights_wf r" and bs: "length bs < 2 ^ 31"
    and run: "ta_sa_key_unwrap cr True (Some r) kt ec ps n (Some bs) t slot (Some u) w = Some (SA_STATUS_OK, h, t', w')"
  shows "\<exists>c' p key k. session t' = (session t)(unat slot \<mapsto> (u, c')) \<and>
    held_key cr w (client_key_store c) u SA_USAGE_FLAG_UNWRAP n p \<and> clear_text cr ps p bs key \<and> child_of r kt p key k \<and>
    owns_key cr (w_root_key w) (client_key_store c') h u k \<and> keys_grow cr (w_root_key w) u (client_key_store c) (client_key_store c')"
proof -
  have "with_client INVALID_HANDLE (key_unwrap_body cr r kt ec ps n bs (Some u)) t slot (Some u) w = Some (SA_STATUS_OK, h, t', w')"
    using run by (simp add: ta_sa_key_unwrap_def)
  from t(1,3) this show ?thesis
  proof (cases rule: with_client_session)
    case (ran c0 c' w1 w2)
    have c0: "c0 = c" using ran(1) t(2) by simp
    have w1: "w_root_key w1 = w_root_key w" "provisioned w1" "held_key cr w1 = held_key cr w"
      using same_deviceD [OF ran(3)] keys(4) by (auto simp: held_key_def may_use_def fun_eq_iff)
    from key_unwrap_body_makes [OF keys(1) [folded w1(1)] keys(2) w1(2) t(3) keys(3) wf bs ran(2) [unfolded c0]]
    obtain ks k p key where "c' = c\<lparr>client_key_store := ks\<rparr>" "keys_grow cr (w_root_key w) u (client_key_store c) ks"
      "held_key cr w (client_key_store c) u SA_USAGE_FLAG_UNWRAP n p" "clear_text cr ps p bs key" "child_of r kt p key k"
      "owns_key cr (w_root_key w) ks h u k"
      unfolding unwrapped_child_def by (rule makes_keyE) (use w1(1,3) in auto)
    with ran(6) show ?thesis by (intro exI [of _ c'] exI [of _ p] exI [of _ key] exI [of _ k]) simp
  qed simp
qed

end
