(* ===== verification/Ta_Key_Witnesses.thy ===== *)
theory Ta_Key_Witnesses
  imports Ta_Witnesses Ta_Derive Ta_Unwrap
begin

text \<open>Concrete instances of the properties of the commands that make keys.\<close>

section \<open>Derivation\<close>

lemma demo_used_room [simp]: "ts_room (demo_used r v)"
proof -
  have "0 < unat (object_store_size (ts_store (demo_used r v)))" by (simp add: object_store_size_def demo_entry_def)
  then show ?thesis unfolding ts_room_def by (intro conjI exI [of _ 0]) simp_all
qed

lemma demo_may_derive: "rights_allowed_derive (Some demo_rights) demo_world"
  by (simp add: rights_allowed_derive_def demo_rights_def all_ones_bit within_validity_def)

text \<open>The demo session, which holds one key under the handle 31.\<close>

definition demo_key_client :: "wrapped_key \<Rightarrow> client" where
  "demo_key_client wk = demo_client (demo_used 0 wk) demo_store demo_store empty_heap"

lemma demo_key_client [simp]: "client_key_store (demo_key_client wk) = demo_used 0 wk"
  by (simp add: demo_key_client_def)

text \<open>A made key is imported.\<close>

lemma demo_imports_made:
  assumes "sk_valid k"
  shows "\<exists>n c' w'. import_made_key demo_crypto (Some k) (Some demo_uuid) (demo_key_client wk) demo_world = (SA_STATUS_OK, n, c', w') \<and> w_faults w' = []"
proof -
  obtain n ts' w' where "key_store_import_stored_key demo_crypto True (demo_used 0 wk) (Some k) (Some demo_uuid) demo_world = (SA_STATUS_OK, n, ts', w')"
    "w_faults w' = []"
    using import_stored_key_succeeds [OF demo_used_ok demo_used_room demo_world(1,5) assms demo_crypto] by metis
  then show ?thesis by (simp add: import_made_key_def)
qed

lemma demo_open:
  assumes "key_store_unwrap demo_crypto True (demo_used 0 wk) 31 (Some demo_uuid) demo_world = (SA_STATUS_OK, Some demo_key, demo_used 0 wk, demo_world)"
    and "allowed (Some demo_rights) demo_world"
  shows "open_key demo_crypto allowed 31 (Some demo_uuid) (demo_key_client wk) demo_world = (SA_STATUS_OK, Some demo_key, demo_key_client wk, demo_world)"
proof -
  have "(demo_key_client wk)\<lparr>client_key_store := demo_used 0 wk\<rparr> = demo_key_client wk" by (simp add: demo_key_client_def demo_client_def)
  then show ?thesis using assms by (simp add: open_key_def) (simp add: demo_key_def)
qed

lemma demo_wf: "rights_wf demo_rights"
  using demo_header_wf by (simp add: header_wf_def demo_key_def)

text \<open>Symmetric keys made with the demo rights are valid.\<close>

lemma demo_created_valid:
  assumes "stored_key_create True (Some demo_rights) (Some demo_rights) SA_KEY_TYPE_SYMMETRIC no_parameters n (Some bytes) w0 = (SA_STATUS_OK, Some k, w)"
    "length bytes = unat n" "n \<le> 512"
  shows "sk_valid k"
proof -
  have n: "length bytes \<le> 512" using assms(2,3) by (simp add: word_le_nat_alt)
  have p: "proper_key k" by (rule stored_key_create_proper [OF assms(1) demo_wf]) (use n in \<open>simp_all add: no_parameters_def\<close>)
  have u: "ucast (ucast n :: u16) = n"
    using assms(3) by (simp add: word_unat_eq_iff unsigned_ucast_eq unsigned_take_bit_eq take_bit_nat_eq_self word_le_nat_alt)
  show ?thesis
    using p assms(1,2) u
    by (auto simp: sk_valid_def proper_key_def validate_header_iff stored_key_create_def Let_def restrict_child_format
        supports_any_iff MAGIC_def split: if_splits prod.splits)
qed

abbreviation "demo_kdf \<equiv> Kdf_Hkdf 40 SA_DIGEST_ALGORITHM_SHA256 31 None 0 (Some [7]) 1"

lemma demo_hkdf_result:
  obtains k where "kdf_hkdf_hmac demo_crypto (Some demo_rights) SA_DIGEST_ALGORITHM_SHA256 None 0 (Some [7]) 1 40 (Some demo_key) demo_world =
    (SA_STATUS_OK, Some k, demo_world)" "sk_valid k"
proof -
  obtain k where k: "kdf_hkdf_hmac demo_crypto (Some demo_rights) SA_DIGEST_ALGORITHM_SHA256 None 0 (Some [7]) 1 40 (Some demo_key) demo_world =
    (SA_STATUS_OK, Some k, demo_world)" using demo_hkdf by blast
  obtain r1 out w3 where c: "Some demo_rights = Some r1" "create_derived r1 (hdr_rights (sk_header demo_key)) 40 out w3 = (SA_STATUS_OK, Some k, demo_world)"
    using k by (rule hkdf_steps) blast
  have T: "length (hkdf_T demo_crypto SA_DIGEST_ALGORITHM_SHA256 prk x (Suc i)) = 32" for prk x i
    using demo_digests by (simp add: digests_documented_def)
  have l: "[Suc 0..<41] = Suc 0 # Suc (Suc 0) # [3..<41]" by (simp add: upt_rec)
  have "length (sk_key k) = 40"
    unfolding conjunct1 [OF hkdf_computes [OF demo_digests k]] using T
    by (simp add: rfc5869_def Let_def l del: upt_Suc hkdf_T.simps)
  then have "sk_valid k" using demo_created_valid [of 40 out] c create_derived_OK(1) [OF c(2)] by (simp add: demo_key_def create_derived_def)
  with k that show ?thesis by blast
qed

theorem key_derive_computes_witness:
  "\<exists>wk h t' w'. ta_sa_key_derive demo_crypto True (Some demo_rights) (Some demo_kdf) (demo_session 0 (demo_key_client wk)) 31
      (Some demo_uuid) demo_world = Some (SA_STATUS_OK, h, t', w') \<and>
    (\<exists>c' k. session t' = [31 \<mapsto> (demo_uuid, c')] \<and> owns_key demo_crypto (w_root_key demo_world) (client_key_store c') h demo_uuid k)"
proof (rule demo_held_key)
  fix wk
  assume wk: "keys_ok demo_crypto (w_root_key demo_world) (demo_used 0 wk)"
    "wraps demo_crypto (w_root_key demo_world) wk demo_key"
    "key_store_unwrap demo_crypto True (demo_used 0 wk) 31 (Some demo_uuid) demo_world = (SA_STATUS_OK, Some demo_key, demo_used 0 wk, demo_world)"
  let ?c = "demo_key_client wk"
  obtain k where k: "kdf_hkdf_hmac demo_crypto (Some demo_rights) SA_DIGEST_ALGORITHM_SHA256 None 0 (Some [7]) 1 40 (Some demo_key) demo_world =
    (SA_STATUS_OK, Some k, demo_world)" "sk_valid k" by (rule demo_hkdf_result)
  obtain n c' w' where i: "import_made_key demo_crypto (Some k) (Some demo_uuid) ?c demo_world = (SA_STATUS_OK, n, c', w')" "w_faults w' = []"
    using demo_imports_made [OF k(2)] by blast
  note o = demo_open [OF wk(3), of rights_allowed_derive, OF demo_may_derive]
  have "\<not> 40 > SYM_MAX_KEY_SIZE" "sha_algorithm SA_DIGEST_ALGORITHM_SHA256" "hdr_type (sk_header demo_key) = SA_KEY_TYPE_SYMMETRIC"
    "key_type_supports_hmac (hdr_type (sk_header demo_key)) (ucast (hdr_size (sk_header demo_key)))"
    by (simp_all add: SYM_MAX_KEY_SIZE_def sha_algorithm_def demo_key_def key_type_supports_hmac_def valid_hmac_size_def SYM_128_KEY_SIZE_def)
  then have "key_derive_body demo_crypto demo_rights demo_kdf (Some demo_uuid) ?c demo_world = (SA_STATUS_OK, n, c', w')"
    using k(1) i(1) by (simp add: key_derive_body_def ta_sa_key_derive_hkdf_def derive_from_def with_key_def o)
  then have r: "ta_sa_key_derive demo_crypto True (Some demo_rights) (Some demo_kdf) (demo_session 0 ?c) 31
      (Some demo_uuid) demo_world = Some (SA_STATUS_OK, n, demo_session 0 c', w')"
    using demo_with_client [OF demo_world(1), of "\<lambda>c w. Some (key_derive_body demo_crypto demo_rights demo_kdf (Some demo_uuid) c w)"] i(2)
    by (simp add: ta_sa_key_derive_def)
  have s: "session (demo_session 0 ?c) (unat (31 :: u64)) = Some (demo_uuid, ?c)" by simp
  have keys: "keys_ok demo_crypto (w_root_key demo_world) (client_key_store ?c)" using wk(1) by simp
  from key_derive_computes [OF demo_session(1) s demo_uuid keys demo_crypto demo_digests demo_world(5) demo_wf r] obtain c2 k2 where
    "session (demo_session 0 c') = (session (demo_session 0 ?c))(unat (31 :: u64) \<mapsto> (demo_uuid, c2))"
    "owns_key demo_crypto (w_root_key demo_world) (client_key_store c2) n demo_uuid k2" by blast
  with r show ?thesis by (intro exI [of _ wk] exI [of _ n] exI [of _ "demo_session 0 c'"] exI [of _ w']) auto
qed

section \<open>Unwrapping\<close>

lemma demo_decryption: "decryption_documented demo_crypto"
  by (auto simp: decryption_documented_def demo_crypto_def)

lemma demo_may_unwrap: "rights_allowed_unwrap (Some demo_rights) demo_world"
  by (simp add: rights_allowed_unwrap_def demo_rights_def all_ones_bit within_validity_def)

lemma demo_unwrapped:
  obtains k where "unwrap_aes_ecb demo_crypto (Some (replicate 16 7)) (Some demo_rights) SA_KEY_TYPE_SYMMETRIC None False (Some demo_key) demo_world =
    Some (SA_STATUS_OK, Some k, demo_world)" "sk_valid k"
proof -
  let ?create = "stored_key_create True (Some demo_rights) (Some demo_rights) SA_KEY_TYPE_SYMMETRIC no_parameters 16 (Some (replicate 16 7)) demo_world"
  have "rights_validate_format (Some demo_rights)" by (simp add: demo_rights_def rights_validate_format_def strnlen_def)
  then obtain k where k: "?create = (SA_STATUS_OK, Some k, demo_world)"
    by (auto simp: stored_key_create_def key_type_supports_any_def key_type_supports_hmac_def valid_hmac_size_def
        SYM_128_KEY_SIZE_def SYM_MAX_KEY_SIZE_def Let_def)
  have "sk_valid k" by (rule demo_created_valid [OF k]) simp_all
  moreover have "aes_ecb_decrypt demo_crypto a b = b" for a b by (simp add: demo_crypto_def)
  then have "unwrap_aes_ecb demo_crypto (Some (replicate 16 7)) (Some demo_rights) SA_KEY_TYPE_SYMMETRIC None False (Some demo_key) demo_world =
      Some (SA_STATUS_OK, Some k, demo_world)"
    using k by (simp add: unwrap_aes_ecb_def unwrapping_def unwrap_aes_ecb_internal_def import_padded_def import_key_def
        AES_BLOCK_SIZE_def demo_key_def valid_ladder_key_iff Let_def)
  ultimately show ?thesis using that by blast
qed

theorem key_unwrap_computes_witness:
  "\<exists>wk h t' w'. ta_sa_key_unwrap demo_crypto True (Some demo_rights) SA_KEY_TYPE_SYMMETRIC None (Unwrap_Aes_Ecb False) 31 (Some (replicate 16 7))
      (demo_session 0 (demo_key_client wk)) 31 (Some demo_uuid) demo_world = Some (SA_STATUS_OK, h, t', w') \<and>
    (\<exists>c' k. session t' = [31 \<mapsto> (demo_uuid, c')] \<and> owns_key demo_crypto (w_root_key demo_world) (client_key_store c') h demo_uuid k \<and>
      sk_key k = replicate 16 7)"
proof (rule demo_held_key)
  fix wk
  assume wk: "keys_ok demo_crypto (w_root_key demo_world) (demo_used 0 wk)"
    "wraps demo_crypto (w_root_key demo_world) wk demo_key"
    "key_store_unwrap demo_crypto True (demo_used 0 wk) 31 (Some demo_uuid) demo_world = (SA_STATUS_OK, Some demo_key, demo_used 0 wk, demo_world)"
  let ?c = "demo_key_client wk" and ?in = "replicate 16 (7 :: u8)"
  obtain k where k: "unwrap_aes_ecb demo_crypto (Some ?in) (Some demo_rights) SA_KEY_TYPE_SYMMETRIC None False (Some demo_key) demo_world =
    Some (SA_STATUS_OK, Some k, demo_world)" "sk_valid k" by (rule demo_unwrapped)
  obtain n c' w' where i: "import_made_key demo_crypto (Some k) (Some demo_uuid) ?c demo_world = (SA_STATUS_OK, n, c', w')" "w_faults w' = []"
    using demo_imports_made [OF k(2)] by blast
  have "suits key_type_supports_aes (sk_header demo_key) demo_world = SA_STATUS_OK"
    by (simp add: suits_def demo_key_def key_type_supports_aes_def valid_aes_size_def SYM_128_KEY_SIZE_def)
  then have "key_unwrap_body demo_crypto demo_rights SA_KEY_TYPE_SYMMETRIC None (Unwrap_Aes_Ecb False) 31 ?in (Some demo_uuid) ?c demo_world =
      Some (SA_STATUS_OK, n, c', w')"
    using k(1) i(1) demo_open [OF wk(3), of rights_allowed_unwrap, OF demo_may_unwrap]
    by (simp add: key_unwrap_body_def ta_sa_key_unwrap_aes_ecb_def unwrap_under_def AES_BLOCK_SIZE_def)
  then have r: "ta_sa_key_unwrap demo_crypto True (Some demo_rights) SA_KEY_TYPE_SYMMETRIC None (Unwrap_Aes_Ecb False) 31 (Some ?in)
      (demo_session 0 ?c) 31 (Some demo_uuid) demo_world = Some (SA_STATUS_OK, n, demo_session 0 c', w')"
    using demo_with_client [OF demo_world(1) _ i(2)] by (simp add: ta_sa_key_unwrap_def)
  have s: "session (demo_session 0 ?c) (unat (31 :: u64)) = Some (demo_uuid, ?c)" by simp
  have keys: "keys_ok demo_crypto (w_root_key demo_world) (client_key_store ?c)" using wk(1) by simp
  have bs: "length ?in < 2 ^ 31" by simp
  from key_unwrap_computes [OF demo_session(1) s demo_uuid keys demo_crypto demo_decryption demo_world(5) demo_wf bs r] obtain c2 p key k2 where
    c2: "session (demo_session 0 c') = (session (demo_session 0 ?c))(unat (31 :: u64) \<mapsto> (demo_uuid, c2))"
    "clear_text demo_crypto (Unwrap_Aes_Ecb False) p ?in key" "child_of demo_rights SA_KEY_TYPE_SYMMETRIC p key k2"
    "owns_key demo_crypto (w_root_key demo_world) (client_key_store c2) n demo_uuid k2" by blast
  have "sk_key k2 = ?in" using c2(2,3) by (simp add: child_of_def demo_crypto_def)
  with r c2(1,4) show ?thesis by (intro exI [of _ wk] exI [of _ n] exI [of _ "demo_session 0 c'"] exI [of _ w']) auto
qed

end
