(* ===== verification/Cenc_Witnesses.thy ===== *)
theory Cenc_Witnesses
  imports Cenc_Samples Ta_Key_Witnesses
begin

text \<open>Concrete instances of the properties of common encryption.\<close>

definition demo_sample :: sa_sample where
  "demo_sample = \<lparr>sample_iv = Some (replicate 16 255), crypt_byte_block = 1, skip_byte_block = 1, subsample_lengths = Some [(4, 48)],
     sample_context = 31, sample_out = Some (Clear_Buffer 0x2000 64 0), sample_in = Some (Clear_Buffer 0x1000 64 8)\<rparr>"

theorem common_encryption_returns_witness:
  "\<exists>status samples' t' w'. ta_sa_process_common_encryption demo_crypto (Some [demo_sample])
     (demo_session 0 (demo_client demo_store demo_store demo_store empty_heap)) 31 (Some demo_uuid) demo_world = Some (status, samples', t', w')"
  by (rule common_encryption_returns) (simp_all add: demo_sample_def)

section \<open>A library with counter mode\<close>

definition demo_stream :: "u8 list \<Rightarrow> u8 list" where
  "demo_stream b = take 16 (b @ replicate 16 0)"

fun demo_position :: "evp_call list \<Rightarrow> nat \<Rightarrow> u8 list" where
  "demo_position (EVP_Update d # cs) n = demo_position cs (n + length d)"
| "demo_position (EVP_Set_Iv v # cs) n = add128 v (n div 16)"
| "demo_position cs n = []"

definition demo_ctr :: "evp_call list \<Rightarrow> u8 list option" where
  "demo_ctr calls = (case rev calls of EVP_Update d # cs \<Rightarrow> Some (under_stream add128 demo_stream (demo_position cs 0) d) | _ \<Rightarrow> None)"

definition demo_ctr_crypto :: crypto where
  "demo_ctr_crypto = demo_crypto\<lparr>evp_output := demo_ctr\<rparr>"

definition demo_ctr_context :: symmetric_context where
  "demo_ctr_context = \<lparr>sc_algorithm = SA_CIPHER_ALGORITHM_AES_CTR, sc_mode = SA_CIPHER_MODE_DECRYPT, sc_calls = []\<rparr>"

definition demo_ctr_cipher :: cipher where
  "demo_ctr_cipher = \<lparr>lock_depth = 1, cipher_algorithm = SA_CIPHER_ALGORITHM_AES_CTR, cipher_mode = SA_CIPHER_MODE_DECRYPT,
     symmetric_context = Suc 0, cipher_stored_key = Some demo_key, oaep_digest_algorithm = SA_DIGEST_ALGORITHM_SHA1,
     oaep_mgf1_digest_algorithm = SA_DIGEST_ALGORITHM_SHA1, oaep_label = None, oaep_label_length = 0\<rparr>"

definition demo_ctr_client :: client where
  "demo_ctr_client = demo_client demo_store demo_store demo_store \<lparr>next_addr = 2, cells = [Suc 0 \<mapsto> demo_ctr_context]\<rparr>"

lemma demo_position_updates: "demo_position (rev (map EVP_Update ds) @ EVP_Set_Iv v # cs) n = add128 v ((n + length (concat ds)) div 16)"
  by (induction ds arbitrary: n rule: rev_induct) (simp_all add: ac_simps)

lemma demo_ctr_documented: "ctr_documented demo_ctr_crypto demo_stream demo_ctr_context"
  by (auto simp: ctr_documented_def demo_ctr_crypto_def demo_ctr_def demo_stream_def demo_ctr_context_def demo_position_updates)

lemma demo_sample_buffers:
  "convert_buffer (sample_out demo_sample) 52 demo_ctr_client (Some demo_uuid) demo_world = (SA_STATUS_OK, 0x2000, NULL, demo_ctr_client, demo_world)"
  "convert_buffer (sample_in demo_sample) 52 demo_ctr_client (Some demo_uuid) demo_world = (SA_STATUS_OK, 0x1008, NULL, demo_ctr_client, demo_world)"
  by (simp_all add: convert_buffer_def demo_sample_def add_overflow_def memory_is_valid_clear_def)

lemma demo_length: "52 = cenc_get_required_length [(4, 48)]"
  by (simp add: cenc_get_required_length_def add_overflow_def)


end
