(* ===== verification/Json.thy ===== *)
theory Json
  imports Rights
begin

text \<open>
  The JSON parser, \<^verbatim>\<open>reference/src/taimpl/src/internal/json.c\<close>: a stack machine driven by the callbacks of the library
  yajl, the accessors of the values it builds, and the decoding of base64. The library's lexer is a parameter: the
  events it delivers for a text and whether it accepts the text. Where the code follows a NULL pointer, the result is \<open>None\<close>.
\<close>

section \<open>Values\<close>

text \<open>
  A value without a C object is JSON's null. A map is the linked list of the code with its first entry, which has no key;
  the list of an array is without that entry, whose value is never set. Doubles are their bits.
\<close>

datatype json_value =
    JSON_BOOL bool
  | JSON_DOUBLE u64
  | JSON_ARRAY "json_value option list"
  | JSON_MAP "(u8 list option \<times> u64 \<times> json_value option) list"
  | JSON_INT "64 word"
  | JSON_NUMBER "u8 list"
  | JSON_STRING "u8 list"

type_synonym json_map = "(u8 list option \<times> u64 \<times> json_value option) list"

datatype json_type =
    JSON_TYPE_BOOL | JSON_TYPE_DOUBLE | JSON_TYPE_ARRAY | JSON_TYPE_MAP | JSON_TYPE_INT | JSON_TYPE_NUMBER | JSON_TYPE_STRING

fun json_value_type :: "json_value \<Rightarrow> json_type" where
  "json_value_type (JSON_BOOL b) = JSON_TYPE_BOOL"
| "json_value_type (JSON_DOUBLE d) = JSON_TYPE_DOUBLE"
| "json_value_type (JSON_ARRAY vs) = JSON_TYPE_ARRAY"
| "json_value_type (JSON_MAP es) = JSON_TYPE_MAP"
| "json_value_type (JSON_INT i) = JSON_TYPE_INT"
| "json_value_type (JSON_NUMBER s) = JSON_TYPE_NUMBER"
| "json_value_type (JSON_STRING s) = JSON_TYPE_STRING"

definition MAX_KEY_LENGTH :: nat where
  "MAX_KEY_LENGTH = 255"

text \<open>What the library does with a text: the callbacks it makes, while they answer 1, and whether it accepts the text.\<close>

datatype json_event =
    Null_Event
  | Bool_Event bool
  | Double_Event u64
  | Integer_Event "64 word"
  | String_Event "u8 list"
  | Start_Map
  | Map_Key "u8 list"
  | End_Map
  | Start_Array
  | End_Array

text \<open>
  The libraries of this part: the events of yajl; what the base64 filter of OpenSSL reads from a text into so many bytes,
  \<open>None\<close> for an error; what so many bytes of memory hold when \<open>malloc\<close> returns them.
\<close>

record json_library =
  yajl_events :: "u8 list \<Rightarrow> json_event list \<times> bool"
  base64_read :: "u8 list \<Rightarrow> nat \<Rightarrow> u8 list option"
  fresh_memory :: "nat \<Rightarrow> u8 list"

section \<open>Linked lists\<close>

definition json_map_new :: "world \<Rightarrow> json_map option \<times> world" where
  "json_map_new w = (let (ok, w) = draw w in (if ok then Some [(None, 0, None)] else None, w))"

fun json_map_size :: "json_map \<Rightarrow> nat" where
  "json_map_size [] = 0"
| "json_map_size [e] = 0"
| "json_map_size (e # f # es) = 1 + json_map_size (f # es)"

definition json_map_add_key_value :: "json_map \<Rightarrow> world \<Rightarrow> json_map option \<times> world" where
  "json_map_add_key_value es w = (let (key_value, w) = json_map_new w in
     case key_value of None \<Rightarrow> (None, w) | Some new \<Rightarrow> (Some (es @ new), w))"

fun json_map_set_last_key :: "json_map \<Rightarrow> u8 list option \<Rightarrow> u64 \<Rightarrow> json_map" where
  "json_map_set_last_key [] key key_length = []"
| "json_map_set_last_key [(_, _, v)] key key_length = [(key, key_length, v)]"
| "json_map_set_last_key (e # f # es) key key_length = e # json_map_set_last_key (f # es) key key_length"

fun json_map_set_last_value :: "json_map \<Rightarrow> json_value option \<Rightarrow> json_map" where
  "json_map_set_last_value [] v = []"
| "json_map_set_last_value [(k, l, _)] v = [(k, l, v)]"
| "json_map_set_last_value (e # f # es) v = e # json_map_set_last_value (f # es) v"

text \<open>A failed allocation of the array's entry is not noticed: the value is lost.\<close>

definition json_array_add :: "json_value option list \<Rightarrow> json_value option \<Rightarrow> world \<Rightarrow> json_value option list \<times> world" where
  "json_array_add array value w = (let (ok, w) = draw w in (if ok then array @ [value] else array, w))"

section \<open>The context of a parse\<close>

record json_parse_context =
  jc_stack :: "json_value list"
  jc_root :: "json_value option"

text \<open>The values are made of two allocations, the payload's and their own.\<close>

definition json_value_new :: "json_value \<Rightarrow> world \<Rightarrow> json_value option \<times> world" where
  "json_value_new value w = (let (ok, w) = draw w in (if ok then Some value else None, w))"

definition json_value_new_with :: "json_value \<Rightarrow> world \<Rightarrow> json_value option \<times> world" where
  "json_value_new_with value w = (let (ok, w) = draw w in if ok then json_value_new value w else (None, w))"

definition json_parse_context_push :: "json_parse_context \<Rightarrow> json_value \<Rightarrow> world \<Rightarrow> bool \<times> json_parse_context \<times> world" where
  "json_parse_context_push context value w = (let (ok, w) = draw w in
     if ok then (True, context\<lparr>jc_stack := value # jc_stack context\<rparr>, w) else (False, context, w))"

definition json_parse_context_set_value :: "json_parse_context \<Rightarrow> json_value option \<Rightarrow> world \<Rightarrow> json_parse_context \<times> world" where
  "json_parse_context_set_value context value w = (case jc_stack context of
      [] \<Rightarrow> (context\<lparr>jc_root := value\<rparr>, w)
    | current # rest \<Rightarrow> (case current of
        JSON_MAP es \<Rightarrow> (context\<lparr>jc_stack := JSON_MAP (json_map_set_last_value es value) # rest\<rparr>, w)
      | JSON_ARRAY vs \<Rightarrow> let (vs, w) = json_array_add vs value w in (context\<lparr>jc_stack := JSON_ARRAY vs # rest\<rparr>, w)
      | _ \<Rightarrow> (context, w)))"

definition json_parse_context_pop :: "json_parse_context \<Rightarrow> world \<Rightarrow> json_parse_context \<times> world" where
  "json_parse_context_pop context w = (case jc_stack context of
      [] \<Rightarrow> (context, w)
    | current # rest \<Rightarrow> json_parse_context_set_value (context\<lparr>jc_stack := rest\<rparr>) (Some current) w)"

section \<open>The callbacks\<close>

text \<open>A callback for a simple value, which answers whether to go on.\<close>

definition value_callback :: "json_value \<Rightarrow> json_parse_context \<Rightarrow> world \<Rightarrow> bool \<times> json_parse_context \<times> world" where
  "value_callback value context w = (let (v, w) = json_value_new_with value w in
     case v of None \<Rightarrow> (False, context, w)
     | Some v \<Rightarrow> let (context, w) = json_parse_context_set_value context (Some v) w in (True, context, w))"

definition map_key_callback :: "u8 list \<Rightarrow> json_parse_context \<Rightarrow> world \<Rightarrow> bool \<times> json_parse_context \<times> world" where
  "map_key_callback key context w = (case jc_stack context of
      [] \<Rightarrow> (False, context, w)
    | current # rest \<Rightarrow> (case current of
        JSON_MAP es \<Rightarrow>
          if length key > MAX_KEY_LENGTH then (False, context, w)
          else let (new, w) = json_map_add_key_value es w in
            (case new of None \<Rightarrow> (False, context, w)
             | Some es \<Rightarrow> let (ok, w) = draw w in
                 (True, context\<lparr>jc_stack := JSON_MAP (json_map_set_last_key es (if ok then Some key else None) (of_nat (length key))) # rest\<rparr>, w))
      | _ \<Rightarrow> (False, context, w)))"

definition start_callback :: "json_value \<Rightarrow> json_parse_context \<Rightarrow> world \<Rightarrow> bool \<times> json_parse_context \<times> world" where
  "start_callback value context w = (let (v, w) = json_value_new_with value w in
     case v of None \<Rightarrow> (False, context, w) | Some v \<Rightarrow> json_parse_context_push context v w)"

fun json_callback :: "json_event \<Rightarrow> json_parse_context \<Rightarrow> world \<Rightarrow> bool \<times> json_parse_context \<times> world" where
  "json_callback Null_Event context w = (let (context, w) = json_parse_context_set_value context None w in (True, context, w))"
| "json_callback (Bool_Event b) context w = value_callback (JSON_BOOL b) context w"
| "json_callback (Double_Event d) context w = value_callback (JSON_DOUBLE d) context w"
| "json_callback (Integer_Event i) context w = value_callback (JSON_INT i) context w"
| "json_callback (String_Event s) context w = value_callback (JSON_STRING s) context w"
| "json_callback Start_Map context w = start_callback (JSON_MAP [(None, 0, None)]) context w"
| "json_callback (Map_Key key) context w = map_key_callback key context w"
| "json_callback End_Map context w = (let (context, w) = json_parse_context_pop context w in (True, context, w))"
| "json_callback Start_Array context w = start_callback (JSON_ARRAY []) context w"
| "json_callback End_Array context w = (let (context, w) = json_parse_context_pop context w in (True, context, w))"

text \<open>The library calls back until an answer is 0.\<close>

fun json_callbacks :: "json_event list \<Rightarrow> json_parse_context \<Rightarrow> world \<Rightarrow> bool \<times> json_parse_context \<times> world" where
  "json_callbacks [] context w = (True, context, w)"
| "json_callbacks (e # es) context w =
     (let (go_on, context, w) = json_callback e context w in if go_on then json_callbacks es context w else (False, context, w))"

definition json_parse_context_new :: "world \<Rightarrow> json_parse_context option \<times> world" where
  "json_parse_context_new w = (let (ok, w) = draws 2 w in (if ok then Some \<lparr>jc_stack = [], jc_root = None\<rparr> else None, w))"

definition json_parse_bytes :: "json_library \<Rightarrow> u8 list option \<Rightarrow> world \<Rightarrow> json_value option \<times> world" where
  "json_parse_bytes lib input w = (case input of None \<Rightarrow> (None, w)
    | Some text \<Rightarrow> let (context, w) = json_parse_context_new w in
        (case context of None \<Rightarrow> (None, w)
         | Some context \<Rightarrow>
             let (events, accepted) = yajl_events lib text;
                 (ok, context, w) = json_callbacks events context w in
             if \<not> ok \<or> \<not> accepted then (None, w) else (jc_root context, w)))"

section \<open>Accessors\<close>

definition json_value_get_type :: "json_value option \<Rightarrow> json_type option" where
  "json_value_get_type value = map_option json_value_type value"

definition json_value_as_bool :: "json_value option \<Rightarrow> bool" where
  "json_value_as_bool value = (case value of Some (JSON_BOOL b) \<Rightarrow> b | _ \<Rightarrow> False)"

definition json_value_as_double :: "json_value option \<Rightarrow> u64" where
  "json_value_as_double value = (case value of Some (JSON_DOUBLE d) \<Rightarrow> d | _ \<Rightarrow> 0)"

definition json_value_as_integer :: "json_value option \<Rightarrow> 64 word" where
  "json_value_as_integer value = (case value of Some (JSON_INT i) \<Rightarrow> i | _ \<Rightarrow> 0)"

definition json_value_as_string :: "json_value option \<Rightarrow> u8 list option" where
  "json_value_as_string value = (case value of Some (JSON_STRING s) \<Rightarrow> Some s | _ \<Rightarrow> None)"

definition json_value_as_number :: "json_value option \<Rightarrow> u8 list option" where
  "json_value_as_number value = (case value of Some (JSON_NUMBER s) \<Rightarrow> Some s | _ \<Rightarrow> None)"

text \<open>
  The arrays of pointers. The result of the allocation is not checked: without memory, the first entry is written to NULL,
  if there is one. The inner \<open>None\<close> is the NULL the function returns; it has not set the count, unless the value is an empty one.
\<close>

definition pointers :: "'a list \<Rightarrow> world \<Rightarrow> ('a list option \<times> world) option" where
  "pointers xs w = (let (ok, w) = draw w in if ok then Some (Some xs, w) else if xs = [] then Some (None, w) else None)"

definition json_value_as_array :: "json_value option \<Rightarrow> world \<Rightarrow> (json_value option list option \<times> world) option" where
  "json_value_as_array value w = (case value of Some (JSON_ARRAY vs) \<Rightarrow> pointers vs w | _ \<Rightarrow> Some (None, w))"

definition json_value_as_map :: "json_value option \<Rightarrow> world \<Rightarrow> (json_map option \<times> world) option" where
  "json_value_as_map value w = (case value of Some (JSON_MAP es) \<Rightarrow> pointers (tl es) w | _ \<Rightarrow> Some (None, w))"

text \<open>
  The search compares the lengths, then so many characters; a key that was not allocated is NULL. The key searched is a string
  constant of the code; as it has no 0 the comparison is that of the lists.
\<close>

fun key_values_find :: "u8 list \<Rightarrow> json_map \<Rightarrow> (json_value option) option option" where
  "key_values_find key [] = Some None"
| "key_values_find key ((k, l, v) # rest) =
     (if of_nat (length key) = l then (case k of None \<Rightarrow> None
        | Some k \<Rightarrow> if k = key then Some (Some v) else key_values_find key rest)
      else key_values_find key rest)"

definition json_key_value_find :: "u8 list option \<Rightarrow> json_map option \<Rightarrow> (json_value option) option option" where
  "json_key_value_find key key_values = (case key of None \<Rightarrow> Some None
    | Some key \<Rightarrow> if strnlen key (MAX_KEY_LENGTH + 1) = MAX_KEY_LENGTH + 1 then Some None
        else (case key_values of None \<Rightarrow> Some None | Some es \<Rightarrow> key_values_find key es))"

section \<open>Base64\<close>

definition b64_decoded_length :: "nat \<Rightarrow> nat" where
  "b64_decoded_length x = (x div 4 + (if x mod 4 > 0 then 1 else 0)) * 3"

definition url_character :: "u8 \<Rightarrow> u8" where
  "url_character c = (if c = 0x2D then 0x2B else if c = 0x5F then 0x2F else c)"

text \<open>
  The output has the length the caller allocated. Without \<open>url_decode\<close>, the bytes that fill the last group of four are what
  the memory held.
\<close>

definition b64_data :: "json_library \<Rightarrow> bool \<Rightarrow> u8 list \<Rightarrow> u8 list" where
  "b64_data lib url_decode text =
     (let data_length = (length text div 4 + (if length text mod 4 > 0 then 1 else 0)) * 4 in
      if url_decode then map url_character text @ replicate (data_length - length text) 0x3D
      else text @ drop (length text) (fresh_memory lib data_length))"

definition b64_decode :: "json_library \<Rightarrow> bool \<Rightarrow> nat \<Rightarrow> u8 list option \<Rightarrow> bool \<Rightarrow> world \<Rightarrow> u8 list option \<times> world" where
  "b64_decode lib out_given out_length input url_decode w =
     (if \<not> out_given then (None, w)
      else (case input of None \<Rightarrow> (None, w)
      | Some text \<Rightarrow>
          let in_length = length text;
              data_length = (in_length div 4 + (if in_length mod 4 > 0 then 1 else 0)) * 4 in
          if out_length \<noteq> data_length * 3 div 4 then (None, w)
          else let (data_ok, w) = draw w in
            if \<not> data_ok then (None, w)
            else let (bio_ok, w) = draws 2 w in
              if \<not> bio_ok then (None, w)
              else let (read_ok, w) = draw w in
                (if read_ok then base64_read lib (b64_data lib url_decode text) out_length else None, w)))"

definition string_to_lowercase :: "u8 list \<Rightarrow> u8 list" where
  "string_to_lowercase = map (\<lambda>c. if 0x41 \<le> c \<and> c \<le> 0x5A then c + 32 else c)"

end
