(* ===== verification/Typej.thy ===== *)
theory Typej
  imports Json Unwrap
begin

text \<open>
  TYPE-J key containers, \<^verbatim>\<open>reference/src/taimpl/src/internal/typej.c\<close>: a JSON web token whose payload has a wrapped
  content key and the rights on it. The result is \<open>None\<close> where the behaviour of the code is undefined: it frees a buffer twice after a
  failed decoding, follows NULL after a failed allocation, and reads variables it has not set.
\<close>

section \<open>Text\<close>

definition ascii :: "string \<Rightarrow> u8 list" where
  "ascii s = map of_char s"

text \<open>\<open>strncpy\<close> into the 64 bytes of the identifier.\<close>

definition strncpy_id :: "u8 list \<Rightarrow> u8 list" where
  "strncpy_id s = (let t = take 64 (takeWhile (\<lambda>c. c \<noteq> 0) s) in t @ replicate (64 - length t) 0)"

section \<open>Times\<close>

text \<open>
  The C library's \<open>strptime\<close> for the format of the code. Numbers may follow white space and have fewer digits than
  their field; a digit is read as long as ten times the value so far is within the range.
\<close>

definition is_space :: "u8 \<Rightarrow> bool" where
  "is_space c \<longleftrightarrow> c = 0x20 \<or> 9 \<le> c \<and> c \<le> 13"

definition is_digit :: "u8 \<Rightarrow> bool" where
  "is_digit c \<longleftrightarrow> 0x30 \<le> c \<and> c \<le> 0x39"

fun read_digits :: "nat \<Rightarrow> nat \<Rightarrow> nat \<Rightarrow> u8 list \<Rightarrow> nat \<times> u8 list" where
  "read_digits 0 limit val s = (val, s)"
| "read_digits (Suc n) limit val [] = (val, [])"
| "read_digits (Suc n) limit val (c # s) =
     (if val * 10 \<le> limit \<and> is_digit c then read_digits n limit (val * 10 + unat (c - 0x30)) s else (val, c # s))"

definition read_number :: "nat \<Rightarrow> nat \<Rightarrow> nat \<Rightarrow> u8 list \<Rightarrow> (nat \<times> u8 list) option" where
  "read_number from limit n s = (case dropWhile is_space s of
      [] \<Rightarrow> None
    | c # s \<Rightarrow> if \<not> is_digit c then None
        else let (val, rest) = read_digits n limit 0 (c # s) in if val < from \<or> limit < val then None else Some (val, rest))"

definition read_char :: "u8 \<Rightarrow> u8 list \<Rightarrow> u8 list option" where
  "read_char c s = (case s of [] \<Rightarrow> None | d # rest \<Rightarrow> if d = c then Some rest else None)"

record tm =
  tm_year :: nat
  tm_mon :: nat
  tm_mday :: nat
  tm_hour :: nat
  tm_min :: nat
  tm_sec :: nat

text \<open>The fields are those of the text; the code's \<open>tm\<close> counts years from 1900 and months from 0.\<close>

definition strptime :: "u8 list \<Rightarrow> (tm \<times> u8 list) option" where
  "strptime s =
     Option.bind (read_number 0 9999 4 s) (\<lambda>(year, s).
     Option.bind (read_char 0x2D s) (\<lambda>s.
     Option.bind (read_number 1 12 2 s) (\<lambda>(mon, s).
     Option.bind (read_char 0x2D s) (\<lambda>s.
     Option.bind (read_number 1 31 2 s) (\<lambda>(mday, s).
     Option.bind (read_char 0x54 s) (\<lambda>s.
     Option.bind (read_number 0 23 2 s) (\<lambda>(hour, s).
     Option.bind (read_char 0x3A s) (\<lambda>s.
     Option.bind (read_number 0 59 2 s) (\<lambda>(minute, s).
     Option.bind (read_char 0x3A s) (\<lambda>s.
     Option.bind (read_number 0 61 2 s) (\<lambda>(sec, s).
       Some (\<lparr>tm_year = year, tm_mon = mon, tm_mday = mday, tm_hour = hour, tm_min = minute, tm_sec = sec\<rparr>, s))))))))))))"

definition leap_year :: "nat \<Rightarrow> bool" where
  "leap_year y \<longleftrightarrow> y mod 4 = 0 \<and> y mod 100 \<noteq> 0 \<or> y mod 400 = 0"

text \<open>The leap years before a year, and the days before a month.\<close>

definition leap_years_before :: "nat \<Rightarrow> int" where
  "leap_years_before y = (int y - 1) div 4 - (int y - 1) div 100 + (int y - 1) div 400"

definition days_before_month :: "nat \<Rightarrow> nat \<Rightarrow> nat" where
  "days_before_month y m = [0, 31, 59, 90, 120, 151, 181, 212, 243, 273, 304, 334] ! (m - 1) + (if leap_year y \<and> 2 < m then 1 else 0)"

definition timegm :: "tm \<Rightarrow> int" where
  "timegm t =
     (((365 * (int (tm_year t) - 1970) + leap_years_before (tm_year t) - leap_years_before 1970 +
       int (days_before_month (tm_year t) (tm_mon t)) + int (tm_mday t) - 1) * 24 + int (tm_hour t)) * 60 + int (tm_min t)) * 60 + int (tm_sec t)"

definition iso8601_to_epoch_time :: "u8 list option \<Rightarrow> u64 option" where
  "iso8601_to_epoch_time iso8601 = (case iso8601 of None \<Rightarrow> None
    | Some s \<Rightarrow>
        if length s \<noteq> 20 then None
        else (case strptime (s @ [0]) of None \<Rightarrow> None
          | Some (t, rest) \<Rightarrow>
              if rest = [] \<or> hd rest \<noteq> 0x5A then None
              else let temp_time = timegm t in
                if temp_time < 0 \<and> temp_time \<noteq> - 1 then None else Some (of_int temp_time)))"

section \<open>The token\<close>

record typej_unpacked =
  header_b64 :: "u8 list"
  payload_b64 :: "u8 list"
  unpacked_payload :: "u8 list"
  unpacked_mac :: "u8 list"

text \<open>
  A buffer for what a text decodes to, and the decoding. A buffer whose decoding fails is freed here and again by the caller's
  clean-up, which is undefined unless it is NULL.
\<close>

definition decode_buffer :: "json_library \<Rightarrow> u8 list \<Rightarrow> bool \<Rightarrow> world \<Rightarrow> (u8 list option \<times> world) option" where
  "decode_buffer lib text url_decode w =
     (let (buffer_ok, w) = draw w;
          (decoded, w) = b64_decode lib buffer_ok (b64_decoded_length (length text)) (Some text) url_decode w in
      if decoded = None \<and> buffer_ok then None else Some (decoded, w))"

definition split_dot :: "u8 list \<Rightarrow> (u8 list \<times> u8 list) option" where
  "split_dot s = (let before = takeWhile (\<lambda>c. c \<noteq> 0x2E) s in
     if before = s then None else Some (before, drop (length before + 1) s))"

definition unpack_typej :: "json_library \<Rightarrow> u8 list option \<Rightarrow> world \<Rightarrow> (typej_unpacked option \<times> world) option" where
  "unpack_typej lib input w = (case input of None \<Rightarrow> Some (None, w)
    | Some text \<Rightarrow>
        let (unpacked_ok, w) = draw w in
        if \<not> unpacked_ok then None
        else (case split_dot text of None \<Rightarrow> Some (None, w)
        | Some (header, rest) \<Rightarrow>
            if rest = [] then Some (None, w)
            else (case split_dot rest of None \<Rightarrow> Some (None, w)
            | Some (payload, mac) \<Rightarrow>
                if mac = [] then Some (None, w)
                else Option.bind (decode_buffer lib header True w) (\<lambda>(decoded_header, w).
                  if decoded_header = None then Some (None, w)
                  else Option.bind (decode_buffer lib payload True w) (\<lambda>(decoded_payload, w).
                    if decoded_payload = None then Some (None, w)
                    else Option.bind (decode_buffer lib mac True w) (\<lambda>(decoded_mac, w).
                      if decoded_mac = None then Some (None, w)
                      else Some (Some \<lparr>header_b64 = header, payload_b64 = payload, unpacked_payload = the decoded_payload,
                        unpacked_mac = the decoded_mac\<rparr>, w)))))))"

definition verify_mac ::
  "crypto \<Rightarrow> u8 list option \<Rightarrow> u8 list option \<Rightarrow> u8 list option \<Rightarrow> stored_key option \<Rightarrow> world \<Rightarrow> sa_status \<times> world" where
  "verify_mac cr header payload mac stored_key w = (case header of None \<Rightarrow> (SA_STATUS_NULL_PARAMETER, w)
    | Some header \<Rightarrow> (case payload of None \<Rightarrow> (SA_STATUS_NULL_PARAMETER, w)
      | Some payload \<Rightarrow> (case mac of None \<Rightarrow> (SA_STATUS_NULL_PARAMETER, w)
        | Some mac \<Rightarrow>
            if length mac \<noteq> SHA256_DIGEST_LENGTH then (SA_STATUS_INVALID_PARAMETER, w)
            else if stored_key = None then (SA_STATUS_NULL_PARAMETER, w)
            else let (status, computed_mac, _, w) = hmac cr True (Some 32) SA_DIGEST_ALGORITHM_SHA256 header [0x2E] payload stored_key w in
              if status \<noteq> SA_STATUS_OK then (status, w)
              else if memory_memcmp_constant (the computed_mac) mac (length mac) \<noteq> 0 then (SA_STATUS_INVALID_PARAMETER, w)
              else (SA_STATUS_OK, w))))"

section \<open>Rights\<close>

definition TYPEJ_RIGHT_NOT_SET :: u8 where "TYPEJ_RIGHT_NOT_SET = 0"
definition TYPEJ_RIGHT_SVP_REQUIRED :: u8 where "TYPEJ_RIGHT_SVP_REQUIRED = 1"
definition TYPEJ_RIGHT_DIGITAL_OPL_DTCP_ALLOWED :: u8 where "TYPEJ_RIGHT_DIGITAL_OPL_DTCP_ALLOWED = 2"
definition TYPEJ_RIGHT_DIGITAL_OPL_HDCP_1_4_ALLOWED :: u8 where "TYPEJ_RIGHT_DIGITAL_OPL_HDCP_1_4_ALLOWED = 3"
definition TYPEJ_RIGHT_DIGITAL_OPL_HDCP_2_2_ALLOWED :: u8 where "TYPEJ_RIGHT_DIGITAL_OPL_HDCP_2_2_ALLOWED = 4"
definition TYPEJ_RIGHT_ANALOG_OUTPUT_ALLOWED :: u8 where "TYPEJ_RIGHT_ANALOG_OUTPUT_ALLOWED = 5"
definition TYPEJ_RIGHT_CGMSA_REQUIRED :: u8 where "TYPEJ_RIGHT_CGMSA_REQUIRED = 8"

text \<open>The loop over the rights, with \<open>cgmsa_required\<close> and \<open>analog_allowed\<close>.\<close>

fun content_key_rights_loop :: "u64 \<Rightarrow> bool \<Rightarrow> bool \<Rightarrow> u8 list \<Rightarrow> sa_status \<times> u64" where
  "content_key_rights_loop flags cgmsa_required analog_allowed [] = (SA_STATUS_OK, flags)"
| "content_key_rights_loop flags cgmsa_required analog_allowed (b # bs) =
     (if b = TYPEJ_RIGHT_NOT_SET then content_key_rights_loop flags cgmsa_required analog_allowed bs
      else if b = TYPEJ_RIGHT_SVP_REQUIRED
      then content_key_rights_loop (SA_USAGE_BIT_CLEAR flags SA_USAGE_FLAG_SVP_OPTIONAL) cgmsa_required analog_allowed bs
      else if b = TYPEJ_RIGHT_DIGITAL_OPL_DTCP_ALLOWED
      then content_key_rights_loop (SA_USAGE_BIT_SET flags SA_USAGE_FLAG_ALLOWED_DIGITAL_DTCP) cgmsa_required analog_allowed bs
      else if b = TYPEJ_RIGHT_DIGITAL_OPL_HDCP_1_4_ALLOWED
      then content_key_rights_loop (SA_USAGE_BIT_SET flags SA_USAGE_FLAG_ALLOWED_DIGITAL_HDCP14) cgmsa_required analog_allowed bs
      else if b = TYPEJ_RIGHT_DIGITAL_OPL_HDCP_2_2_ALLOWED
      then content_key_rights_loop (SA_USAGE_BIT_SET flags SA_USAGE_FLAG_ALLOWED_DIGITAL_HDCP22) cgmsa_required analog_allowed bs
      else if b = TYPEJ_RIGHT_ANALOG_OUTPUT_ALLOWED
      then content_key_rights_loop (SA_USAGE_BIT_SET (if cgmsa_required then SA_USAGE_BIT_CLEAR flags SA_USAGE_FLAG_ALLOWED_ANALOG_UNPROTECTED
          else SA_USAGE_BIT_SET flags SA_USAGE_FLAG_ALLOWED_ANALOG_UNPROTECTED) SA_USAGE_FLAG_ALLOWED_ANALOG_CGMSA) cgmsa_required True bs
      else if b = TYPEJ_RIGHT_CGMSA_REQUIRED
      then content_key_rights_loop (if analog_allowed
          then SA_USAGE_BIT_SET (SA_USAGE_BIT_CLEAR flags SA_USAGE_FLAG_ALLOWED_ANALOG_UNPROTECTED) SA_USAGE_FLAG_ALLOWED_ANALOG_CGMSA
          else flags) True analog_allowed bs
      else (SA_STATUS_INVALID_KEY_FORMAT, flags))"

definition content_key_rights_to_usage_flags :: "u64 option \<Rightarrow> u8 list option \<Rightarrow> sa_status \<times> u64 option" where
  "content_key_rights_to_usage_flags flags0 content_key_rights = (case flags0 of None \<Rightarrow> (SA_STATUS_NULL_PARAMETER, None)
    | Some flags \<Rightarrow> (case content_key_rights of None \<Rightarrow> (SA_STATUS_NULL_PARAMETER, Some flags)
      | Some bs \<Rightarrow>
          let (status, flags) = content_key_rights_loop
            (SA_USAGE_BIT_SET (flags AND NOT SA_USAGE_OUTPUT_PROTECTIONS_MASK) SA_USAGE_FLAG_SVP_OPTIONAL) False False bs in
          (status, Some flags)))"

text \<open>Steps that fill in the rights: a status, the rights so far and the world.\<close>

type_synonym rights_step = "sa_rights \<Rightarrow> world \<Rightarrow> (sa_status \<times> sa_rights \<times> world) option"

definition and_then :: "rights_step \<Rightarrow> rights_step \<Rightarrow> rights_step" where
  "and_then f g rights w = Option.bind (f rights w) (\<lambda>(status, rights, w).
     if status \<noteq> SA_STATUS_OK then Some (status, rights, w) else g rights w)"

definition with_field :: "string \<Rightarrow> json_map \<Rightarrow> 'r \<Rightarrow> (json_value option \<Rightarrow> 'r option) \<Rightarrow> 'r option" where
  "with_field name kvs missing found = Option.bind (json_key_value_find (Some (ascii name)) (Some kvs))
     (\<lambda>field. case field of None \<Rightarrow> Some missing | Some v \<Rightarrow> found v)"

definition with_string :: "string \<Rightarrow> json_map \<Rightarrow> 'r \<Rightarrow> (u8 list \<Rightarrow> 'r option) \<Rightarrow> 'r option" where
  "with_string name kvs missing found = with_field name kvs missing
     (\<lambda>v. case json_value_as_string v of None \<Rightarrow> Some missing | Some s \<Rightarrow> found s)"

definition read_id :: "json_map \<Rightarrow> rights_step" where
  "read_id kvs rights w = with_string ''contentKeyId'' kvs (SA_STATUS_INVALID_KEY_FORMAT, rights, w) (\<lambda>s.
     if length s > 63 then Some (SA_STATUS_INVALID_KEY_FORMAT, rights, w)
     else Some (SA_STATUS_OK, rights\<lparr>rights_id := strncpy_id s\<rparr>, w))"

definition read_rights :: "json_library \<Rightarrow> json_map \<Rightarrow> rights_step" where
  "read_rights lib kvs rights w = with_string ''contentKeyRights'' kvs (SA_STATUS_INVALID_KEY_FORMAT, rights, w) (\<lambda>s.
     let (bytes_ok, w) = draw w;
         (decoded, w) = b64_decode lib bytes_ok (b64_decoded_length (length s)) (Some s) False w in
     case decoded of None \<Rightarrow> Some (SA_STATUS_INVALID_KEY_FORMAT, rights, w)
     | Some bytes \<Rightarrow> let (status, flags) = content_key_rights_to_usage_flags (Some (usage_flags rights)) (Some bytes) in
         Some (status, rights\<lparr>usage_flags := the flags\<rparr>, w))"

definition read_usage :: "json_map \<Rightarrow> rights_step" where
  "read_usage kvs rights w = with_field ''contentKeyUsage'' kvs (SA_STATUS_INVALID_KEY_FORMAT, rights, w) (\<lambda>v.
     let (status, flags) = key_usage_to_usage_flags (Some (usage_flags rights)) (sint (json_value_as_integer v)) SA_KEY_TYPE_SYMMETRIC AES_SUBTYPE in
     Some (status, rights\<lparr>usage_flags := the flags\<rparr>, w))"

definition read_time :: "string \<Rightarrow> (u64 \<Rightarrow> sa_rights \<Rightarrow> sa_rights) \<Rightarrow> json_map \<Rightarrow> rights_step" where
  "read_time name set_time kvs rights w = with_string name kvs (SA_STATUS_INVALID_KEY_FORMAT, rights, w) (\<lambda>s.
     case iso8601_to_epoch_time (Some s) of None \<Rightarrow> Some (SA_STATUS_INVALID_KEY_FORMAT, rights, w)
     | Some t \<Rightarrow> Some (SA_STATUS_OK, set_time t rights, w))"

definition read_cacheable :: "json_map \<Rightarrow> rights_step" where
  "read_cacheable kvs rights w = with_field ''contentKeyCacheable'' kvs (SA_STATUS_INVALID_KEY_FORMAT, rights, w) (\<lambda>v.
     Some (SA_STATUS_OK, (if json_value_as_bool v
       then rights\<lparr>usage_flags := SA_USAGE_BIT_SET (usage_flags rights) SA_USAGE_FLAG_CACHEABLE\<rparr> else rights), w))"

text \<open>
  The loop over the identifiers of the TAs. An element that is no string leaves its length unset; the result of the conversion is
  not checked. A field that is no array leaves the number of its elements unset.
\<close>

fun read_ta_ids :: "nat \<Rightarrow> json_value option list \<Rightarrow> sa_uuid list \<Rightarrow> (sa_status \<times> sa_uuid list) option" where
  "read_ta_ids i [] tas = Some (SA_STATUS_OK, tas)"
| "read_ta_ids i (v # vs) tas = (case json_value_as_string v of None \<Rightarrow> None
    | Some ta_id \<Rightarrow>
        if length ta_id \<noteq> UUID_LENGTH then Some (SA_STATUS_INVALID_KEY_FORMAT, tas)
        else read_ta_ids (i + 1) vs (tas[i := snd (convert_uuid ta_id (tas ! i))]))"

definition read_tas :: "json_map \<Rightarrow> rights_step" where
  "read_tas kvs rights w = with_field ''entitledTaIds'' kvs
     (SA_STATUS_OK, rights\<lparr>allowed_tas := (allowed_tas rights)[0 := ALL_MATCH]\<rparr>, w) (\<lambda>v.
     Option.bind (json_value_as_array v w) (\<lambda>(ids, w). case ids of
        None \<Rightarrow> (if v = Some (JSON_ARRAY []) then Some (SA_STATUS_OK, rights, w) else None)
      | Some ids \<Rightarrow>
          if length ids > MAX_NUM_ALLOWED_TA_IDS then Some (SA_STATUS_INVALID_KEY_FORMAT, rights, w)
          else map_option (\<lambda>(status, tas). (status, rights\<lparr>allowed_tas := tas\<rparr>, w)) (read_ta_ids 0 ids (allowed_tas rights))))"

definition zero_rights :: sa_rights where
  "zero_rights = \<lparr>rights_id = replicate 64 0, usage_flags = 0, child_usage_flags = 0, not_before = 0, not_on_or_after = 0,
     allowed_tas = replicate MAX_NUM_ALLOWED_TA_IDS (replicate 16 0)\<rparr>"

definition fields_to_rights :: "json_library \<Rightarrow> json_map option \<Rightarrow> world \<Rightarrow> (sa_status \<times> sa_rights \<times> world) option" where
  "fields_to_rights lib kvs w = (case kvs of None \<Rightarrow> Some (SA_STATUS_NULL_PARAMETER, zero_rights, w)
    | Some kvs \<Rightarrow>
        and_then (read_id kvs) (and_then (read_rights lib kvs) (and_then (read_usage kvs)
          (and_then (read_time ''contentKeyNotBefore'' (\<lambda>t. not_before_update (\<lambda>_. t)) kvs)
          (and_then (read_time ''contentKeyNotOnOrAfter'' (\<lambda>t. not_on_or_after_update (\<lambda>_. t)) kvs)
          (and_then (read_cacheable kvs) (read_tas kvs)))))) zero_rights w)"

section \<open>The key\<close>

definition unwrap_key_v1 ::
  "crypto \<Rightarrow> json_library \<Rightarrow> json_map option \<Rightarrow> sa_rights option \<Rightarrow> stored_key option \<Rightarrow> world \<Rightarrow> unwrap_result" where
  "unwrap_key_v1 cr lib kvs rights stored_key_encryption w = (case kvs of None \<Rightarrow> Some (SA_STATUS_NULL_PARAMETER, None, w)
    | Some kvs \<Rightarrow>
        if stored_key_encryption = None then Some (SA_STATUS_NULL_PARAMETER, None, w)
        else with_string ''contentKey'' kvs (SA_STATUS_INVALID_KEY_FORMAT, None, w) (\<lambda>s.
          Option.bind (decode_buffer lib s False w) (\<lambda>(content_key, w). case content_key of
              None \<Rightarrow> Some (SA_STATUS_INVALID_KEY_FORMAT, None, w)
            | Some bytes \<Rightarrow>
                if length bytes mod unat SYM_128_KEY_SIZE \<noteq> 0 then Some (SA_STATUS_INVALID_KEY_FORMAT, None, w)
                else unwrap_aes_ecb cr (Some bytes) rights SA_KEY_TYPE_SYMMETRIC None False stored_key_encryption w)))"

text \<open>The result \<open>-1\<close> of the code is \<open>None\<close>.\<close>

definition parse_cipher_algorithm :: "u8 list option \<Rightarrow> sa_cipher_algorithm option" where
  "parse_cipher_algorithm algorithm = (case algorithm of None \<Rightarrow> None
    | Some s \<Rightarrow>
        if s = ascii ''aesEcbNone'' then Some SA_CIPHER_ALGORITHM_AES_ECB
        else if s = ascii ''aesEcbPkcs5'' then Some SA_CIPHER_ALGORITHM_AES_ECB_PKCS7
        else if s = ascii ''aesCbcNone'' then Some SA_CIPHER_ALGORITHM_AES_CBC
        else if s = ascii ''aesCbcPkcs5'' then Some SA_CIPHER_ALGORITHM_AES_CBC_PKCS7
        else None)"

text \<open>The end of \<open>unwrap_key_v2\<close>: a key of another length than announced is an error, but the caller has the key.\<close>

definition check_key_length :: "u64 \<Rightarrow> unwrap_result \<Rightarrow> unwrap_result" where
  "check_key_length content_key_length r = map_option (\<lambda>(status, key, w).
     if status = SA_STATUS_OK \<and> of_nat (stored_key_get_length key) \<noteq> content_key_length then (SA_STATUS_INVALID_KEY_FORMAT, key, w)
     else (status, key, w)) r"

definition unwrap_key_v2 ::
  "crypto \<Rightarrow> json_library \<Rightarrow> json_map option \<Rightarrow> sa_rights option \<Rightarrow> stored_key option \<Rightarrow> world \<Rightarrow> unwrap_result" where
  "unwrap_key_v2 cr lib kvs rights stored_key_encryption w = (case kvs of None \<Rightarrow> Some (SA_STATUS_NULL_PARAMETER, None, w)
    | Some kvs \<Rightarrow>
        let invalid = (\<lambda>w. (SA_STATUS_INVALID_KEY_FORMAT, None, w)) in
        if rights = None then Some (SA_STATUS_NULL_PARAMETER, None, w)
        else if stored_key_encryption = None then Some (SA_STATUS_NULL_PARAMETER, None, w)
        else with_field ''contentKeyTransportAlgorithm'' kvs (invalid w) (\<lambda>v.
          let algorithm = parse_cipher_algorithm (json_value_as_string v) in
          with_string ''contentKey'' kvs (invalid w) (\<lambda>s.
            Option.bind (decode_buffer lib s False w) (\<lambda>(content_key, w). case content_key of
                None \<Rightarrow> Some (invalid w)
              | Some bytes \<Rightarrow> with_field ''contentKeyLength'' kvs (invalid w) (\<lambda>v.
                  let content_key_length = json_value_as_integer v in
                  case algorithm of None \<Rightarrow> Some (invalid w)
                  | Some algorithm \<Rightarrow>
                      if algorithm = SA_CIPHER_ALGORITHM_AES_ECB \<or> algorithm = SA_CIPHER_ALGORITHM_AES_ECB_PKCS7
                      then check_key_length content_key_length (unwrap_aes_ecb cr (Some bytes) rights SA_KEY_TYPE_SYMMETRIC None
                        (algorithm = SA_CIPHER_ALGORITHM_AES_ECB_PKCS7) stored_key_encryption w)
                      else with_string ''contentKeyTransportIv'' kvs (invalid w) (\<lambda>s.
                        Option.bind (decode_buffer lib s False w) (\<lambda>(iv, w). case iv of
                            None \<Rightarrow> Some (invalid w)
                          | Some iv \<Rightarrow>
                              if length iv \<noteq> unat SYM_128_KEY_SIZE then None
                              else check_key_length content_key_length (map_option (\<lambda>(status, key, w).
                                (if status \<noteq> SA_STATUS_OK then SA_STATUS_INTERNAL_ERROR else SA_STATUS_OK, key, w))
                                (unwrap_aes_cbc cr (Some bytes) rights SA_KEY_TYPE_SYMMETRIC None
                                  (algorithm = SA_CIPHER_ALGORITHM_AES_CBC_PKCS7) (Some iv) stored_key_encryption w)))))))))"

definition unwrap_key_v3 ::
  "crypto \<Rightarrow> json_library \<Rightarrow> json_map option \<Rightarrow> sa_rights option \<Rightarrow> stored_key option \<Rightarrow> world \<Rightarrow> unwrap_result" where
  "unwrap_key_v3 cr lib kvs rights stored_key_encryption w = unwrap_key_v2 cr lib kvs rights stored_key_encryption w"

definition typej_unwrap ::
  "crypto \<Rightarrow> json_library \<Rightarrow> bool \<Rightarrow> u8 list option \<Rightarrow> stored_key option \<Rightarrow> stored_key option \<Rightarrow> world \<Rightarrow> unwrap_result" where
  "typej_unwrap cr lib stored_key_given input stored_key_mac stored_key_encryption w =
     (if \<not> stored_key_given then Some (SA_STATUS_NULL_PARAMETER, None, w)
      else if input = None then Some (SA_STATUS_NULL_PARAMETER, None, w)
      else if stored_key_mac = None then Some (SA_STATUS_NULL_PARAMETER, None, w)
      else if stored_key_encryption = None then Some (SA_STATUS_NULL_PARAMETER, None, w)
      else Option.bind (unpack_typej lib input w) (\<lambda>(unpacked, w). case unpacked of
          None \<Rightarrow> Some (SA_STATUS_INVALID_KEY_FORMAT, None, w)
        | Some t \<Rightarrow>
            let (status, w) = verify_mac cr (Some (header_b64 t)) (Some (payload_b64 t)) (Some (unpacked_mac t)) stored_key_mac w in
            if status \<noteq> SA_STATUS_OK then Some (SA_STATUS_INVALID_KEY_FORMAT, None, w)
            else let (json_value, w) = json_parse_bytes lib (Some (unpacked_payload t)) w in
              if json_value = None then Some (SA_STATUS_INVALID_KEY_FORMAT, None, w)
              else Option.bind (json_value_as_map json_value w) (\<lambda>(kvs, w). case kvs of
                  None \<Rightarrow> Some (SA_STATUS_INVALID_KEY_FORMAT, None, w)
                | Some es \<Rightarrow> Option.bind (fields_to_rights lib kvs w) (\<lambda>(status, rights, w).
                    if status \<noteq> SA_STATUS_OK then Some (status, None, w)
                    else Option.bind (json_key_value_find (Some (ascii ''contentKeyContainerVersion'')) kvs) (\<lambda>version_field.
                      let version = (case version_field of None \<Rightarrow> 1 | Some v \<Rightarrow> json_value_as_integer v) in
                      if version = 1 then unwrap_key_v1 cr lib kvs (Some rights) stored_key_encryption w
                      else if version = 2 then unwrap_key_v2 cr lib kvs (Some rights) stored_key_encryption w
                      else if version = 3 then unwrap_key_v3 cr lib kvs (Some rights) stored_key_encryption w
                      else Some (SA_STATUS_INVALID_KEY_FORMAT, None, w))))))"

end
