(* ===== verification/Json_Laws.thy ===== *)
theory Json_Laws
  imports Json
begin

text \<open>
  What the JSON parser builds: for the events of a JSON value it builds that value, keys of at most 255 bytes provided; its
  stack has arrays and maps only, whatever allocations fail; the search of a key finds the first entry. A failed allocation
  can lose an element of an array.
\<close>

section \<open>Values and their events\<close>

datatype json =
    Json_Null
  | Json_Bool bool
  | Json_Double u64
  | Json_Int "64 word"
  | Json_String "u8 list"
  | Json_Array "json list"
  | Json_Object "(u8 list \<times> json) list"

fun events_of :: "json \<Rightarrow> json_event list" where
  "events_of Json_Null = [Null_Event]"
| "events_of (Json_Bool b) = [Bool_Event b]"
| "events_of (Json_Double d) = [Double_Event d]"
| "events_of (Json_Int i) = [Integer_Event i]"
| "events_of (Json_String s) = [String_Event s]"
| "events_of (Json_Array vs) = Start_Array # concat (map events_of vs) @ [End_Array]"
| "events_of (Json_Object es) = Start_Map # concat (map (\<lambda>(k, v). Map_Key k # events_of v) es) @ [End_Map]"

fun built :: "json \<Rightarrow> json_value option" where
  "built Json_Null = None"
| "built (Json_Bool b) = Some (JSON_BOOL b)"
| "built (Json_Double d) = Some (JSON_DOUBLE d)"
| "built (Json_Int i) = Some (JSON_INT i)"
| "built (Json_String s) = Some (JSON_STRING s)"
| "built (Json_Array vs) = Some (JSON_ARRAY (map built vs))"
| "built (Json_Object es) = Some (JSON_MAP ((None, 0, None) # map (\<lambda>(k, v). (Some k, of_nat (length k), built v)) es))"

fun keys_short :: "json \<Rightarrow> bool" where
  "keys_short (Json_Array vs) = list_all keys_short vs"
| "keys_short (Json_Object es) = list_all (\<lambda>(k, v). length k \<le> MAX_KEY_LENGTH \<and> keys_short v) es"
| "keys_short v = True"

section \<open>The machine without failing allocations\<close>

lemma last_key [simp]: "json_map_set_last_key (es @ [(k, l, v)]) key n = es @ [(key, n, v)]"
  by (induction es rule: induct_list012) (auto simp: neq_Nil_conv)

lemma last_value [simp]: "json_map_set_last_value (es @ [(k, l, v)]) x = es @ [(k, l, x)]"
  by (induction es rule: induct_list012) (auto simp: neq_Nil_conv)

definition put_value :: "json_parse_context \<Rightarrow> json_value option \<Rightarrow> json_parse_context" where
  "put_value ctx v = fst (json_parse_context_set_value ctx v \<lparr>w_faults = [], w_rand = [], w_time = 0, w_video = None, w_root_key = [], w_common_root_key = [], w_device_id = 0, w_mem = (\<lambda>_. 0)\<rparr>)"

lemma set_value_calm [simp]: "w_faults w = [] \<Longrightarrow> json_parse_context_set_value ctx v w = (put_value ctx v, w)"
  by (auto simp: put_value_def json_parse_context_set_value_def json_array_add_def draw_def Let_def split: list.split json_value.split)

lemma put_value_simps [simp]:
  "put_value (ctx\<lparr>jc_stack := JSON_ARRAY vs # st\<rparr>) v = ctx\<lparr>jc_stack := JSON_ARRAY (vs @ [v]) # st\<rparr>"
  "put_value (ctx\<lparr>jc_stack := JSON_MAP (es @ [(k, l, x)]) # st\<rparr>) v = ctx\<lparr>jc_stack := JSON_MAP (es @ [(k, l, v)]) # st\<rparr>"
  "put_value \<lparr>jc_stack = [], jc_root = r\<rparr> v = \<lparr>jc_stack = [], jc_root = v\<rparr>"
  by (simp_all add: put_value_def json_parse_context_set_value_def json_array_add_def draw_def)

lemma new_calm [simp]: "w_faults w = [] \<Longrightarrow> json_value_new_with v w = (Some v, w)"
  by (simp add: json_value_new_with_def json_value_new_def)

lemma callbacks_append:
  "json_callbacks (es @ fs) ctx w = (let (ok, ctx, w) = json_callbacks es ctx w in
     if ok then json_callbacks fs ctx w else (False, ctx, w))"
  by (induction es arbitrary: ctx w) (auto simp: Let_def split: prod.split)

lemma callbacks_array:
  assumes "w_faults w = []"
    and "\<And>v ctx. v \<in> set vs \<Longrightarrow> json_callbacks (events_of v) ctx w = (True, put_value ctx (built v), w)"
  shows "json_callbacks (concat (map events_of vs)) (ctx\<lparr>jc_stack := JSON_ARRAY acc # st\<rparr>) w =
    (True, ctx\<lparr>jc_stack := JSON_ARRAY (acc @ map built vs) # st\<rparr>, w)"
  using assms(2) by (induction vs arbitrary: acc) (simp_all add: callbacks_append)

lemma callbacks_object:
  assumes "w_faults w = []"
    and "\<And>k v ctx. (k, v) \<in> set es \<Longrightarrow> length k \<le> MAX_KEY_LENGTH \<and> json_callbacks (events_of v) ctx w = (True, put_value ctx (built v), w)"
  shows "json_callbacks (concat (map (\<lambda>(k, v). Map_Key k # events_of v) es)) (ctx\<lparr>jc_stack := JSON_MAP acc # st\<rparr>) w =
    (True, ctx\<lparr>jc_stack := JSON_MAP (acc @ map (\<lambda>(k, v). (Some k, of_nat (length k), built v)) es) # st\<rparr>, w)"
  using assms(2)
proof (induction es arbitrary: acc)
  case (Cons e es)
  obtain k v where e: "e = (k, v)" by fastforce
  with Cons.prems [of k v] have "length k \<le> MAX_KEY_LENGTH" "\<And>ctx. json_callbacks (events_of v) ctx w = (True, put_value ctx (built v), w)"
    by simp_all
  moreover have "json_callbacks (concat (map (\<lambda>(k, v). Map_Key k # events_of v) es)) (ctx\<lparr>jc_stack := JSON_MAP acc' # st\<rparr>) w =
      (True, ctx\<lparr>jc_stack := JSON_MAP (acc' @ map (\<lambda>(k, v). (Some k, of_nat (length k), built v)) es) # st\<rparr>, w)" for acc'
    by (rule Cons.IH) (use Cons.prems in auto)
  ultimately show ?case using e assms(1)
    by (simp add: callbacks_append map_key_callback_def json_map_add_key_value_def json_map_new_def)
qed simp

lemma callbacks_build:
  assumes "w_faults w = []"
  shows "keys_short v \<Longrightarrow> json_callbacks (events_of v) ctx w = (True, put_value ctx (built v), w)"
proof (induction v arbitrary: ctx rule: built.induct)
  case (6 vs)
  note list = callbacks_array [OF assms, of vs]
  show ?case
    using assms list [where ctx = ctx and acc = "[]" and st = "jc_stack ctx"] 6
    by (simp add: callbacks_append start_callback_def json_parse_context_push_def json_parse_context_pop_def list_all_iff)
next
  case (7 es)
  note list = callbacks_object [OF assms, of es]
  show ?case
    using assms list [where ctx = ctx and acc = "[(None, 0, None)]" and st = "jc_stack ctx"] 7
    by (force simp: callbacks_append start_callback_def json_parse_context_push_def json_parse_context_pop_def list_all_iff)
qed (use assms in \<open>simp_all add: value_callback_def\<close>)

lemma stop_append:
  "\<not> fst (json_callbacks es ctx w) \<Longrightarrow> \<not> fst (json_callbacks (es @ fs) ctx w)"
  "json_callbacks es ctx w = (True, c, w') \<Longrightarrow> \<not> fst (json_callbacks fs c w') \<Longrightarrow> \<not> fst (json_callbacks (es @ fs) ctx w)"
  by (auto simp: callbacks_append split: prod.split)

lemma callbacks_start:
  assumes "w_faults w = []"
  shows "json_callbacks (Start_Array # es) ctx w = json_callbacks es (ctx\<lparr>jc_stack := JSON_ARRAY [] # jc_stack ctx\<rparr>) w"
    "json_callbacks (Start_Map # es) ctx w = json_callbacks es (ctx\<lparr>jc_stack := JSON_MAP [(None, 0, None)] # jc_stack ctx\<rparr>) w"
  using assms by (simp_all add: start_callback_def json_parse_context_push_def)

lemma callbacks_stop:
  assumes "w_faults w = []"
  shows "\<not> keys_short v \<Longrightarrow> \<not> fst (json_callbacks (events_of v) ctx w)"
proof (induction v arbitrary: ctx rule: built.induct)
  case (6 vs)
  then obtain vs1 v vs2 where vs: "vs = vs1 @ v # vs2" "list_all keys_short vs1" "\<not> keys_short v"
    using split_list_first_prop [of vs "\<lambda>v. \<not> keys_short v"] by (auto simp: list_all_iff)
  have one: "json_callbacks (concat (map events_of vs1)) (ctx\<lparr>jc_stack := JSON_ARRAY [] # jc_stack ctx\<rparr>) w =
      (True, ctx\<lparr>jc_stack := JSON_ARRAY ([] @ map built vs1) # jc_stack ctx\<rparr>, w)"
    by (rule callbacks_array [OF assms]) (use vs callbacks_build [OF assms] in \<open>simp add: list_all_iff\<close>)
  have two: "\<not> fst (json_callbacks (events_of v) c w)" for c using 6 vs by simp
  have "events_of (Json_Array vs) = Start_Array # concat (map events_of vs1) @ events_of v @ concat (map events_of vs2) @ [End_Array]"
    by (simp add: vs)
  then show ?case using stop_append(2) [OF one stop_append(1) [OF two]] callbacks_start(1) [OF assms] by simp
next
  case (7 es)
  let ?ok = "\<lambda>(k, v). length k \<le> MAX_KEY_LENGTH \<and> keys_short v" and ?f = "\<lambda>(k, v). Map_Key k # events_of v"
  obtain es1 e es2 where es: "es = es1 @ e # es2" "\<not> ?ok e" "list_all ?ok es1"
    using 7 split_list_first_prop [of es "\<lambda>e. \<not> ?ok e"] by (auto simp: list_all_iff)
  obtain k v where e: "e = (k, v)" by fastforce
  let ?st = "jc_stack ctx"
  have one: "json_callbacks (concat (map ?f es1)) (ctx\<lparr>jc_stack := JSON_MAP [(None, 0, None)] # ?st\<rparr>) w =
      (True, ctx\<lparr>jc_stack := JSON_MAP ([(None, 0, None)] @ map (\<lambda>(k, v). (Some k, of_nat (length k), built v)) es1) # ?st\<rparr>, w)"
    by (rule callbacks_object [OF assms]) (use es callbacks_build [OF assms] in \<open>auto simp: list_all_iff\<close>)
  have two: "\<not> fst (json_callbacks (Map_Key k # events_of v) (ctx\<lparr>jc_stack := JSON_MAP acc # st\<rparr>) w)" for acc st
  proof (cases "length k \<le> MAX_KEY_LENGTH")
    case True
    then have "\<not> keys_short v" using es e by simp
    then have "\<not> fst (json_callbacks (events_of v) c w)" for c using 7(1) [of e] es e by simp
    then show ?thesis using assms True
      by (auto simp: map_key_callback_def json_map_add_key_value_def json_map_new_def Let_def split: prod.split)
  qed (simp add: map_key_callback_def)
  have "events_of (Json_Object es) = Start_Map # concat (map ?f es1) @ (Map_Key k # events_of v) @ concat (map ?f es2) @ [End_Map]"
    by (simp add: es e)
  then show ?case using stop_append(2) [OF one stop_append(1) [OF two]] callbacks_start(2) [OF assms] by (simp only: not_False_eq_True)
qed simp_all

lemma callback_keeps_calm: "json_callback e ctx w = (ok, ctx', w') \<Longrightarrow> w_faults w = [] \<Longrightarrow> w' = w"
  by (cases e) (auto simp: value_callback_def start_callback_def map_key_callback_def json_map_add_key_value_def json_map_new_def
    json_parse_context_push_def json_parse_context_pop_def split: list.splits json_value.splits if_splits)

lemma callbacks_keep_calm: "json_callbacks es ctx w = (ok, ctx', w') \<Longrightarrow> w_faults w = [] \<Longrightarrow> w' = w"
proof (induction es arbitrary: ctx)
  case (Cons e es)
  obtain go_on c w1 where e: "json_callback e ctx w = (go_on, c, w1)" using prod_cases3 by blast
  then have "w1 = w" by (rule callback_keeps_calm) (rule Cons.prems)
  with Cons e show ?case by (auto split: if_splits)
qed simp

lemma json_parse_result:
  assumes "yajl_events lib text = (events_of v, True)" "w_faults w = []"
  shows "json_parse_bytes lib (Some text) w = (if keys_short v then built v else None, w)"
proof -
  let ?new = "\<lparr>jc_stack = [], jc_root = None\<rparr>"
  obtain ok ctx w1 where r: "json_callbacks (events_of v) ?new w = (ok, ctx, w1)" using prod_cases3 by blast
  have "json_parse_bytes lib (Some text) w = (if \<not> ok then (None, w1) else (jc_root ctx, w1))"
    using assms r by (simp add: json_parse_bytes_def json_parse_context_new_def)
  moreover have "ok \<longleftrightarrow> keys_short v" "keys_short v \<Longrightarrow> ctx = put_value ?new (built v)"
    using callbacks_build [OF assms(2), of v ?new] callbacks_stop [OF assms(2), of v ?new] r by auto
  moreover have "w1 = w" using callbacks_keep_calm [OF r assms(2)] .
  ultimately show ?thesis by simp
qed

text \<open>
  C25: the parser builds the value of the text. When the library delivers the events of a JSON value and accepts the text, and no
  allocation fails, the result is that value, unless a key somewhere in it has more than 255 bytes, which is an error.
\<close>

theorem json_parse_builds:
  assumes "yajl_events lib text = (events_of v, True)" "w_faults w = []"
  shows "json_parse_bytes lib (Some text) w = (if keys_short v then built v else None, w)"
  by (rule json_parse_result [OF assms])

section \<open>The stack in every world\<close>

text \<open>The contexts a parse can reach, with any events and whatever allocations fail.\<close>

inductive parsing :: "json_parse_context \<Rightarrow> bool" where
  start: "parsing \<lparr>jc_stack = [], jc_root = None\<rparr>"
| callback: "parsing ctx \<Longrightarrow> json_callback e ctx w = (True, ctx', w') \<Longrightarrow> parsing ctx'"

definition open_value :: "json_value \<Rightarrow> bool" where
  "open_value v \<longleftrightarrow> (case v of JSON_ARRAY vs \<Rightarrow> True | JSON_MAP es \<Rightarrow> es \<noteq> [] | _ \<Rightarrow> False)"

lemma open_value_simps [simp]: "open_value (JSON_ARRAY vs)" "open_value (JSON_MAP es) \<longleftrightarrow> es \<noteq> []"
  by (simp_all add: open_value_def)

lemma set_last_nonempty [simp]: "json_map_set_last_value es v = [] \<longleftrightarrow> es = []" "json_map_set_last_key es k n = [] \<longleftrightarrow> es = []"
  by (cases es rule: remdups_adj.cases; force)+

definition stack_open :: "json_parse_context \<Rightarrow> bool" where
  "stack_open ctx \<longleftrightarrow> list_all open_value (jc_stack ctx)"

lemma set_value_open: "stack_open ctx \<Longrightarrow> json_parse_context_set_value ctx x w = (ctx', w') \<Longrightarrow> stack_open ctx'"
  by (auto simp: stack_open_def json_parse_context_set_value_def Let_def split: list.splits json_value.splits prod.splits)

lemma value_callback_open: "stack_open ctx \<Longrightarrow> value_callback v ctx w = (ok, ctx', w') \<Longrightarrow> stack_open ctx'"
  using set_value_open by (auto simp: value_callback_def split: prod.splits option.splits)

lemma start_callback_open: "stack_open ctx \<Longrightarrow> open_value v \<Longrightarrow> start_callback v ctx w = (ok, ctx', w') \<Longrightarrow> stack_open ctx'"
  by (auto simp: stack_open_def start_callback_def json_value_new_with_def json_value_new_def json_parse_context_push_def Let_def
    split: prod.splits if_splits)

lemma pop_open: "stack_open ctx \<Longrightarrow> json_parse_context_pop ctx w = (ctx', w') \<Longrightarrow> stack_open ctx'"
  using set_value_open [of "ctx\<lparr>jc_stack := tl (jc_stack ctx)\<rparr>"]
  by (cases "jc_stack ctx") (auto simp: stack_open_def json_parse_context_pop_def)

lemma map_key_open: "stack_open ctx \<Longrightarrow> map_key_callback key ctx w = (ok, ctx', w') \<Longrightarrow> stack_open ctx'"
  by (auto simp: stack_open_def map_key_callback_def json_map_add_key_value_def json_map_new_def Let_def
    split: list.splits json_value.splits if_splits prod.splits option.splits)

lemma callback_open:
  assumes "stack_open ctx" "json_callback e ctx w = (ok, ctx', w')"
  shows "stack_open ctx'"
proof -
  have pop: "stack_open ctx'" if "(let (ctx, w) = json_parse_context_pop ctx w in (True, ctx, w)) = (ok, ctx', w')"
    using that pop_open [OF assms(1), of w] by (cases "json_parse_context_pop ctx w") simp
  have null: "stack_open ctx'" if "(let (ctx, w) = json_parse_context_set_value ctx None w in (True, ctx, w)) = (ok, ctx', w')"
    using that set_value_open [OF assms(1), of None w] by (cases "json_parse_context_set_value ctx None w") simp
  show ?thesis
    using assms(2)
    by (cases e) (simp_all only: json_callback.simps pop null value_callback_open [OF assms(1)] map_key_open [OF assms(1)]
      start_callback_open [OF assms(1) open_value_simps(1)] start_callback_open [OF assms(1) open_value_simps(2) [THEN iffD2, OF list.simps(3)]])
qed


section \<open>Looking up fields\<close>

definition built_entries :: "(u8 list \<times> json) list \<Rightarrow> json_map" where
  "built_entries es = map (\<lambda>(k, v). (Some k, of_nat (length k), built v)) es"

lemma strnlen_short: "length s \<le> MAX_KEY_LENGTH \<Longrightarrow> strnlen s (MAX_KEY_LENGTH + 1) \<noteq> MAX_KEY_LENGTH + 1"
  using length_takeWhile_le [of "\<lambda>c. c \<noteq> 0" s] by (simp add: strnlen_def)

lemma find_built:
  assumes "length key \<le> MAX_KEY_LENGTH"
  shows "json_key_value_find (Some key) (Some (built_entries es)) = Some (map_of (map (\<lambda>(k, v). (k, built v)) es) key)"
proof -
  have "key_values_find key (built_entries es) = Some (map_of (map (\<lambda>(k, v). (k, built v)) es) key)"
    by (induction es) (auto simp: built_entries_def)
  then show ?thesis using strnlen_short [OF assms] by (simp add: json_key_value_find_def)
qed

text \<open>
  C27: the fields of a parsed object are found. For the events of an object whose keys are short and without failing calls, the parse, the
  array of its entries and the search of a key give the value of the first entry with that key, and nothing if there is none.
\<close>

theorem json_lookup_finds:
  assumes "yajl_events lib text = (events_of (Json_Object es), True)" "keys_short (Json_Object es)" "w_faults w = []" "length key \<le> MAX_KEY_LENGTH"
  shows "\<exists>v kvs. json_parse_bytes lib (Some text) w = (v, w) \<and> json_value_as_map v w = Some (Some kvs, w) \<and>
    json_key_value_find (Some key) (Some kvs) = Some (map_of (map (\<lambda>(k, v). (k, built v)) es) key)"
proof -
  have "json_parse_bytes lib (Some text) w = (built (Json_Object es), w)"
    using json_parse_result [OF assms(1,3)] assms(2) by simp
  moreover have "json_value_as_map (built (Json_Object es)) w = Some (Some (built_entries es), w)"
    using assms(3) by (simp add: json_value_as_map_def pointers_def built_entries_def)
  ultimately show ?thesis using find_built [OF assms(4)] by blast
qed

section \<open>Lost elements\<close>

text \<open>
  The allocation of an array's entry fails after that of its value: the parse of the array of true and false reports success, without the
  first element.
\<close>

lemma json_array_element_lost:
  assumes "yajl_events lib text = (events_of (Json_Array [Json_Bool True, Json_Bool False]), True)"
    and "w_faults w = [True, True, True, True, True, True, True, False]"
  shows "fst (json_parse_bytes lib (Some text) w) = Some (JSON_ARRAY [Some (JSON_BOOL False)])"
  using assms
  by (simp add: json_parse_bytes_def json_parse_context_new_def draw_def numeral_2_eq_2 start_callback_def json_value_new_with_def json_value_new_def
    json_parse_context_push_def value_callback_def json_parse_context_set_value_def json_array_add_def json_parse_context_pop_def)

end
