(* ===== verification/Typej_Laws.thy ===== *)
theory Typej_Laws
  imports Typej Json_Laws Ta_Unwrap
begin

text \<open>
  What a TYPE-J container means: the times and the output rights it states, and that an accepted container was authenticated with
  the MAC key and holds the key and the rights that come out.
\<close>

section \<open>Output rights\<close>

lemma output_codes:
  "flag_code SA_USAGE_FLAG_ALLOWED_ANALOG_UNPROTECTED = 6" "flag_code SA_USAGE_FLAG_ALLOWED_ANALOG_CGMSA = 7"
  "flag_code SA_USAGE_FLAG_ALLOWED_DIGITAL_UNPROTECTED = 8" "flag_code SA_USAGE_FLAG_ALLOWED_DIGITAL_HDCP14 = 9"
  "flag_code SA_USAGE_FLAG_ALLOWED_DIGITAL_HDCP22 = 10" "flag_code SA_USAGE_FLAG_ALLOWED_DIGITAL_DTCP = 11"
  "flag_code SA_USAGE_FLAG_SVP_OPTIONAL = 12"
  by simp_all

lemmas typej_rights = TYPEJ_RIGHT_NOT_SET_def TYPEJ_RIGHT_SVP_REQUIRED_def TYPEJ_RIGHT_DIGITAL_OPL_DTCP_ALLOWED_def
  TYPEJ_RIGHT_DIGITAL_OPL_HDCP_1_4_ALLOWED_def TYPEJ_RIGHT_DIGITAL_OPL_HDCP_2_2_ALLOWED_def TYPEJ_RIGHT_ANALOG_OUTPUT_ALLOWED_def
  TYPEJ_RIGHT_CGMSA_REQUIRED_def

text \<open>The loop, with the rights seen so far as a set.\<close>

definition rights_state :: "u64 \<Rightarrow> u8 set \<Rightarrow> u64 \<Rightarrow> bool" where
  "rights_state flags0 seen flags \<longleftrightarrow>
     (\<forall>n. bit flags n \<longleftrightarrow> (if n = 6 then 5 \<in> seen \<and> 8 \<notin> seen else if n = 7 then 5 \<in> seen else if n = 8 then False
       else if n = 9 then 3 \<in> seen else if n = 10 then 4 \<in> seen else if n = 11 then 2 \<in> seen else if n = 12 then 1 \<notin> seen else bit flags0 n))"

lemma rights_loop_state:
  assumes "rights_state flags0 seen flags" "cgmsa = (8 \<in> seen)" "analog = (5 \<in> seen)"
    and "content_key_rights_loop flags cgmsa analog bs = (SA_STATUS_OK, flags')"
  shows "rights_state flags0 (seen \<union> set bs) flags' \<and> set bs \<subseteq> {0, 1, 2, 3, 4, 5, 8}"
  using assms
proof (induction bs arbitrary: seen flags cgmsa analog)
  case (Cons b bs)
  note r = Cons.prems(4) [unfolded content_key_rights_loop.simps typej_rights]
  consider "b = 0" | "b = 1" | "b = 2" | "b = 3" | "b = 4" | "b = 5" | "b = 8" using r by (auto split: if_splits)
  then have "\<exists>f c a. content_key_rights_loop f c a bs = (SA_STATUS_OK, flags') \<and> rights_state flags0 (insert b seen) f \<and>
      c = (8 \<in> insert b seen) \<and> a = (5 \<in> insert b seen)"
    by cases (rule exI, rule exI, rule exI, rule conjI, use r in \<open>simp; fail\<close>, use Cons.prems(1-3) in \<open>force simp: rights_state_def\<close>)+
  then have "rights_state flags0 (insert b seen \<union> set bs) flags' \<and> set bs \<subseteq> {0, 1, 2, 3, 4, 5, 8}"
    using Cons.IH by blast
  moreover have "b \<in> {0, 1, 2, 3, 4, 5, 8}" using r by (auto split: if_splits)
  ultimately show ?case by simp
qed simp

text \<open>
  C28: the output rights of a container are those it lists, in any order: protection for SVP is optional unless required, the digital
  outputs are allowed if listed, the analog output with CGMS-A if the analog output is listed, and without it if CGMS-A is not required;
  the other usage flags are not touched. A list with any other right is refused.
\<close>

theorem content_key_rights_exact:
  assumes "content_key_rights_to_usage_flags (Some flags0) (Some bs) = (SA_STATUS_OK, Some flags)"
  shows "set bs \<subseteq> {0, 1, 2, 3, 4, 5, 8} \<and> (\<forall>f. f \<in> usage_flag_set flags \<longleftrightarrow> (case f of
        SA_USAGE_FLAG_ALLOWED_ANALOG_UNPROTECTED \<Rightarrow> TYPEJ_RIGHT_ANALOG_OUTPUT_ALLOWED \<in> set bs \<and> TYPEJ_RIGHT_CGMSA_REQUIRED \<notin> set bs
      | SA_USAGE_FLAG_ALLOWED_ANALOG_CGMSA \<Rightarrow> TYPEJ_RIGHT_ANALOG_OUTPUT_ALLOWED \<in> set bs
      | SA_USAGE_FLAG_ALLOWED_DIGITAL_UNPROTECTED \<Rightarrow> False
      | SA_USAGE_FLAG_ALLOWED_DIGITAL_HDCP14 \<Rightarrow> TYPEJ_RIGHT_DIGITAL_OPL_HDCP_1_4_ALLOWED \<in> set bs
      | SA_USAGE_FLAG_ALLOWED_DIGITAL_HDCP22 \<Rightarrow> TYPEJ_RIGHT_DIGITAL_OPL_HDCP_2_2_ALLOWED \<in> set bs
      | SA_USAGE_FLAG_ALLOWED_DIGITAL_DTCP \<Rightarrow> TYPEJ_RIGHT_DIGITAL_OPL_DTCP_ALLOWED \<in> set bs
      | SA_USAGE_FLAG_SVP_OPTIONAL \<Rightarrow> TYPEJ_RIGHT_SVP_REQUIRED \<notin> set bs
      | _ \<Rightarrow> f \<in> usage_flag_set flags0))"
proof -
  have start: "rights_state flags0 {} (SA_USAGE_BIT_SET (flags0 AND NOT SA_USAGE_OUTPUT_PROTECTIONS_MASK) SA_USAGE_FLAG_SVP_OPTIONAL)"
    by (auto simp: rights_state_def bit_and_iff bit_not_iff possible_bit_def dest: bit_imp_le_length)
  have r: "content_key_rights_loop (SA_USAGE_BIT_SET (flags0 AND NOT SA_USAGE_OUTPUT_PROTECTIONS_MASK) SA_USAGE_FLAG_SVP_OPTIONAL) False False bs =
      (SA_STATUS_OK, flags)"
    using assms by (auto simp: content_key_rights_to_usage_flags_def split: prod.splits)
  note s = rights_loop_state [OF start _ _ r]
  have "rights_state flags0 (set bs) flags" using s by simp
  then have "f \<in> usage_flag_set flags \<longleftrightarrow> (case f of
        SA_USAGE_FLAG_ALLOWED_ANALOG_UNPROTECTED \<Rightarrow> 5 \<in> set bs \<and> 8 \<notin> set bs | SA_USAGE_FLAG_ALLOWED_ANALOG_CGMSA \<Rightarrow> 5 \<in> set bs
      | SA_USAGE_FLAG_ALLOWED_DIGITAL_UNPROTECTED \<Rightarrow> False | SA_USAGE_FLAG_ALLOWED_DIGITAL_HDCP14 \<Rightarrow> 3 \<in> set bs
      | SA_USAGE_FLAG_ALLOWED_DIGITAL_HDCP22 \<Rightarrow> 4 \<in> set bs | SA_USAGE_FLAG_ALLOWED_DIGITAL_DTCP \<Rightarrow> 2 \<in> set bs
      | SA_USAGE_FLAG_SVP_OPTIONAL \<Rightarrow> 1 \<notin> set bs | _ \<Rightarrow> f \<in> usage_flag_set flags0)" for f
    by (cases f) (simp_all add: rights_state_def)
  with s show ?thesis unfolding typej_rights by simp
qed

section \<open>Times\<close>

text \<open>The text of a time, and the seconds since the start of 1970 as sums over years and months.\<close>

definition digit :: "nat \<Rightarrow> u8" where
  "digit k = of_nat (48 + k)"

definition two_digits :: "nat \<Rightarrow> u8 list" where
  "two_digits n = [digit (n div 10), digit (n mod 10)]"

definition iso_text :: "nat \<Rightarrow> nat \<Rightarrow> nat \<Rightarrow> nat \<Rightarrow> nat \<Rightarrow> nat \<Rightarrow> u8 list" where
  "iso_text y mo d h mi s = two_digits (y div 100) @ two_digits (y mod 100) @ [0x2D] @ two_digits mo @ [0x2D] @ two_digits d @ [0x54] @
     two_digits h @ [0x3A] @ two_digits mi @ [0x3A] @ two_digits s @ [0x5A]"

definition month_length :: "nat \<Rightarrow> nat \<Rightarrow> nat" where
  "month_length y m = (if m = 2 then (if leap_year y then 29 else 28) else if m \<in> {4, 6, 9, 11} then 30 else 31)"

definition days_until :: "nat \<Rightarrow> nat \<Rightarrow> nat \<Rightarrow> nat" where
  "days_until y m d = (\<Sum>z = 1970..<y. if leap_year z then 366 else 365) + (\<Sum>k = 1..<m. month_length y k) + (d - 1)"

lemma digit [simp]:
  assumes "k < 10"
  shows "is_digit (digit k)" "unat (digit k - 0x30) = k" "\<not> is_space (digit k)"
proof -
  have "k \<in> {0, 1, 2, 3, 4, 5, 6, 7, 8, 9}" using assms by auto
  then show "is_digit (digit k)" "unat (digit k - 0x30) = k" "\<not> is_space (digit k)"
    by (auto simp: digit_def is_digit_def is_space_def)
qed

lemma read_two [simp]:
  assumes "n < 100" "a \<le> n" "n \<le> b"
  shows "read_number a b 2 (two_digits n @ s) = Some (n, s)"
proof -
  have "n div 10 < 10" "n mod 10 < 10" "n div 10 * 10 \<le> b" using assms by auto
  then show ?thesis using assms by (simp add: read_number_def two_digits_def numeral_2_eq_2)
qed

lemma read_four [simp]:
  assumes "n < 10000" "n \<le> b"
  shows "read_number 0 b 4 (two_digits (n div 100) @ two_digits (n mod 100) @ s) = Some (n, s)"
proof -
  have four: "4 = Suc (Suc (Suc (Suc 0)))" by simp
  define x where "x = n div 100"
  define z where "z = n mod 100"
  have n: "n = x * 100 + z" "x < 100" "z < 100" using assms by (simp_all add: x_def z_def)
  have parts: "x div 10 * 10 + x mod 10 = x" "z div 10 * 10 + z mod 10 = z" by simp_all
  have "x div 10 < 10" "x mod 10 < 10" "z div 10 < 10" "z mod 10 < 10" using n by simp_all
  moreover have "x div 10 * 10 \<le> b" "x * 10 \<le> b" using n(1) assms(2) div_times_less_eq_dividend [of x 10] by linarith+
  moreover have "(x * 10 + z div 10) * 10 \<le> b" "(x * 10 + z div 10) * 10 + z mod 10 = n"
    using n(1) assms(2) parts(2) unfolding distrib_right by linarith+
  ultimately show ?thesis
    using assms unfolding x_def [symmetric] z_def [symmetric] four by (simp add: read_number_def two_digits_def parts)
qed

lemma read_char_Cons [simp]: "read_char c (c # s) = Some s"
  by (simp add: read_char_def)

lemma leap_years_Suc: "leap_years_before (Suc y) = leap_years_before y + (if leap_year y then 1 else 0)"
proof -
  have step: "int y div k = (int y - 1) div k + (if int y mod k = 0 then 1 else 0)" if k: "0 < k" for k
  proof -
    let ?q = "int y div k" and ?r = "int y mod k"
    have y: "int y = k * ?q + ?r" "0 \<le> ?r" "?r < k" using k by simp_all
    show ?thesis
    proof (cases "?r = 0")
      case True
      have "(int y - 1) div k = ?q - 1"
        by (rule int_div_pos_eq [where r = "k - 1"]) (use y(1) True k in \<open>simp_all add: algebra_simps\<close>)
      then show ?thesis using True by simp
    next
      case False
      have "(int y - 1) div k = ?q" by (rule int_div_pos_eq [where r = "?r - 1"]) (use y False in linarith)+
      then show ?thesis using False by simp
    qed
  qed
  define a b c where "a = (int y - 1) div 4" and "b = (int y - 1) div 100" and "c = (int y - 1) div 400"
  have m: "int y mod 4 = int (y mod 4)" "int y mod 100 = int (y mod 100)" "int y mod 400 = int (y mod 400)" by (simp_all add: zmod_int)
  have r: "int y div 4 = a + (if y mod 4 = 0 then 1 else 0)" "int y div 100 = b + (if y mod 100 = 0 then 1 else 0)"
    "int y div 400 = c + (if y mod 400 = 0 then 1 else 0)"
    using step [of 4] step [of 100] step [of 400] unfolding m a_def b_def c_def of_nat_eq_0_iff by (simp_all only: zero_less_numeral simp_thms)
  have "400 dvd y \<Longrightarrow> 100 dvd y" "100 dvd y \<Longrightarrow> 4 dvd y" by (rule dvd_trans [rotated], assumption, simp)+
  then have i: "y mod 400 = 0 \<Longrightarrow> y mod 100 = 0" "y mod 100 = 0 \<Longrightarrow> y mod 4 = 0" by (simp_all add: mod_eq_0_iff_dvd)
  have l: "leap_years_before (Suc y) = int y div 4 - int y div 100 + int y div 400" "leap_years_before y = a - b + c"
    by (simp_all add: leap_years_before_def a_def b_def c_def)
  show ?thesis unfolding l r leap_year_def using i
    by (cases "y mod 4 = 0"; cases "y mod 100 = 0"; cases "y mod 400 = 0") simp_all
qed

lemma days_of_years:
  "1970 \<le> y \<Longrightarrow> int (\<Sum>z = 1970..<y. if leap_year z then 366 else 365) = 365 * (int y - 1970) + leap_years_before y - leap_years_before 1970"
proof (induction y rule: dec_induct)
  case (step y)
  then show ?case by (simp add: leap_years_Suc)
qed simp

lemma days_of_months:
  assumes "1 \<le> m" "m \<le> 12"
  shows "days_before_month y m = (\<Sum>k = 1..<m. month_length y k)"
proof -
  have "m = 1 \<or> m = 2 \<or> m = 3 \<or> m = 4 \<or> m = 5 \<or> m = 6 \<or> m = 7 \<or> m = 8 \<or> m = 9 \<or> m = 10 \<or> m = 11 \<or> m = 12"
    using assms by presburger
  then show ?thesis by (auto simp: days_before_month_def month_length_def numeral_eq_Suc)
qed

definition valid_time :: "nat \<Rightarrow> nat \<Rightarrow> nat \<Rightarrow> nat \<Rightarrow> nat \<Rightarrow> nat \<Rightarrow> bool" where
  "valid_time y mo d h mi s \<longleftrightarrow> 1970 \<le> y \<and> y < 10000 \<and> 1 \<le> mo \<and> mo \<le> 12 \<and> 1 \<le> d \<and> d \<le> month_length y mo \<and> h < 24 \<and> mi < 60 \<and> s < 60"

lemma strptime_iso:
  assumes "valid_time y mo d h mi s"
  shows "strptime (iso_text y mo d h mi s @ rest) =
    Some (\<lparr>tm_year = y, tm_mon = mo, tm_mday = d, tm_hour = h, tm_min = mi, tm_sec = s\<rparr>, 0x5A # rest)"
proof -
  have d: "d \<le> 31" using assms by (auto simp: valid_time_def month_length_def split: if_splits)
  then show ?thesis using assms unfolding valid_time_def iso_text_def append_assoc strptime_def
    by (simp del: append_assoc add: append_assoc)
qed

lemma iso8601_of_valid:
  assumes "valid_time y mo d h mi s"
  shows "iso8601_to_epoch_time (Some (iso_text y mo d h mi s)) = Some (of_nat (((days_until y mo d * 24 + h) * 60 + mi) * 60 + s))"
proof -
  let ?t = "\<lparr>tm_year = y, tm_mon = mo, tm_mday = d, tm_hour = h, tm_min = mi, tm_sec = s\<rparr>"
  have v: "1970 \<le> y" "1 \<le> mo" "mo \<le> 12" "1 \<le> d" using assms by (simp_all add: valid_time_def)
  have e: "timegm ?t = int (((days_until y mo d * 24 + h) * 60 + mi) * 60 + s)"
    using days_of_years [OF v(1)] days_of_months [OF v(2,3), of y] v(4) by (simp add: timegm_def days_until_def of_nat_diff)
  have l: "length (iso_text y mo d h mi s) = 20" by (simp add: iso_text_def two_digits_def)
  have nonneg: "\<not> int (((days_until y mo d * 24 + h) * 60 + mi) * 60 + s) < 0" by linarith
  show ?thesis
    unfolding iso8601_to_epoch_time_def option.case strptime_iso [OF assms] prod.case Let_def e l
    using nonneg by (simp del: of_nat_add of_nat_mult)
qed

text \<open>
  C29: a time in a container is read as the number of seconds since the start of 1970. For the text of any time of the
  calendar from then on, of the form 2024-02-29T12:00:00Z, the result is the number of days, summed over years and months, in seconds,
  plus the time of the day.
\<close>

theorem iso8601_exact:
  assumes "valid_time y mo d h mi s"
  shows "iso8601_to_epoch_time (Some (iso_text y mo d h mi s)) = Some (of_nat (((days_until y mo d * 24 + h) * 60 + mi) * 60 + s))"
  by (rule iso8601_of_valid [OF assms])

text \<open>A second before 1970 is the largest time: the code takes \<open>-1\<close> for an error of \<open>timegm\<close> which it lets pass.\<close>

lemma last_second_of_1969: "iso8601_to_epoch_time (Some (ascii ''1969-12-31T23:59:59Z'')) = Some (- 1)"
  by code_simp

section \<open>Authentic containers\<close>

text \<open>The base64 filter's documentation: so many bytes at most, as an \<open>int\<close>.\<close>

definition base64_documented :: "json_library \<Rightarrow> bool" where
  "base64_documented lib \<longleftrightarrow> (\<forall>d n bs. base64_read lib d n = Some bs \<longrightarrow> length bs \<le> n \<and> length bs < 2 ^ 31)"

definition decodes :: "json_library \<Rightarrow> bool \<Rightarrow> u8 list \<Rightarrow> u8 list \<Rightarrow> bool" where
  "decodes lib url text bs \<longleftrightarrow> base64_read lib (b64_data lib url text) (b64_decoded_length (length text)) = Some bs"

lemma b64_decode_result:
  "b64_decode lib g (b64_decoded_length (length text)) (Some text) url w = (Some bs, w') \<Longrightarrow> decodes lib url text bs \<and> g"
  by (auto simp: b64_decode_def decodes_def Let_def split: if_splits prod.splits)

lemma b64_decode_device [device]:
  assumes "b64_decode lib g n input url w = (r, w')"
  shows "same_device w w'"
proof -
  obtain d1 w1 where d1: "draw w = (d1, w1)" by fastforce
  obtain d2 w2 where d2: "draws 2 w1 = (d2, w2)" by fastforce
  obtain d3 w3 where d3: "draw w2 = (d3, w3)" by fastforce
  have "same_device w w1" "same_device w w2" "same_device w w3"
    using draw_device [OF d1] draws_device [OF d2] draw_device [OF d3] by (blast intro: same_device_trans)+
  moreover have "w' \<in> {w, w1, w2, w3}" using assms d1 d2 d3 by (auto simp: b64_decode_def Let_def split: option.splits if_splits)
  ultimately show ?thesis by auto
qed

lemma decode_buffer_result:
  assumes "decode_buffer lib text url w = Some (r, w')"
  shows "same_device w w'" "r = Some bs \<Longrightarrow> decodes lib url text bs"
proof -
  obtain ok w1 where d: "draw w = (ok, w1)" by fastforce
  obtain r1 w2 where b: "b64_decode lib ok (b64_decoded_length (length text)) (Some text) url w1 = (r1, w2)" by fastforce
  have r: "r = r1" "w' = w2" using assms d b by (auto simp: decode_buffer_def split: if_splits)
  show "same_device w w'" using same_device_trans [OF draw_device [OF d] b64_decode_device [OF b]] r by simp
  show "decodes lib url text bs" if "r = Some bs" using b64_decode_result [of lib ok "text" url w1 bs w2] b r that by simp
qed

lemma split_dot_Some: "split_dot s = Some (a, b) \<Longrightarrow> s = a @ [0x2E] @ b \<and> 0x2E \<notin> set a"
proof -
  assume r: "split_dot s = Some (a, b)"
  then have a: "a = takeWhile (\<lambda>c. c \<noteq> 0x2E) s" "a \<noteq> s" "b = drop (length a + 1) s" by (auto simp: split_dot_def Let_def split: if_splits)
  have s: "s = a @ dropWhile (\<lambda>c. c \<noteq> 0x2E) s" by (simp add: a(1))
  then have "dropWhile (\<lambda>c. c \<noteq> 0x2E) s \<noteq> []" using a(1,2) by (metis append_Nil2 takeWhile_dropWhile_id)
  then obtain c r where c: "dropWhile (\<lambda>c. c \<noteq> 0x2E) s = c # r" by (cases "dropWhile (\<lambda>c. c \<noteq> 0x2E) s") auto
  then have "c = 0x2E" using hd_dropWhile [of "\<lambda>c. c \<noteq> 0x2E" s] by simp
  moreover have "b = r" using s c a(3) by (metis add.commute append_eq_conv_conj drop_Suc_Cons drop_append drop_drop drop0 plus_1_eq_Suc)
  moreover have "0x2E \<notin> set a" using a(1) by (auto dest: set_takeWhileD)
  ultimately show ?thesis using s c by simp
qed

text \<open>A field of the payload, and the key a payload holds for the encryption key \<open>p\<close>.\<close>

definition string_field :: "json_map \<Rightarrow> string \<Rightarrow> u8 list \<Rightarrow> bool" where
  "string_field kvs name s \<longleftrightarrow> json_key_value_find (Some (ascii name)) (Some kvs) = Some (Some (Some (JSON_STRING s)))"

definition payload_key :: "crypto \<Rightarrow> json_library \<Rightarrow> json_map \<Rightarrow> stored_key \<Rightarrow> u8 list \<Rightarrow> bool" where
  "payload_key cr lib kvs p key \<longleftrightarrow> (\<exists>s bs padded iv. string_field kvs ''contentKey'' s \<and> decodes lib False s bs \<and>
     (clear_text cr (Unwrap_Aes_Ecb padded) p bs key \<or> clear_text cr (Unwrap_Aes_Cbc padded (Some (Some iv))) p bs key))"

lemma unwraps_with_field [unwrapping_rules]:
  assumes "e \<noteq> SA_STATUS_OK" "same_device w w1"
    and "\<And>v. json_key_value_find (Some (ascii name)) (Some kvs) = Some (Some v) \<Longrightarrow> unwraps r kt p good w (found v)"
  shows "unwraps r kt p good w (with_field name kvs (e, None, w1) found)"
  using assms by (auto simp: with_field_def intro: unwraps_simple split: option.splits bind_splits)

lemma unwraps_with_string [unwrapping_rules]:
  assumes "e \<noteq> SA_STATUS_OK" "same_device w w1"
    and "\<And>s. string_field kvs name s \<Longrightarrow> unwraps r kt p good w (found s)"
  shows "unwraps r kt p good w (with_string name kvs (e, None, w1) found)"
  unfolding with_string_def
  by (rule unwraps_with_field [OF assms(1,2)])
    (use assms in \<open>auto simp: json_value_as_string_def string_field_def intro: unwraps_simple split: option.splits json_value.splits\<close>)

lemma unwraps_buffer [unwrapping_rules]:
  assumes "same_device w w1"
    and "\<And>w2. same_device w w2 \<Longrightarrow> unwraps r kt p good w (f (None, w2))"
    and "\<And>bs w2. same_device w w2 \<Longrightarrow> decodes lib url s bs \<Longrightarrow> unwraps r kt p good w (f (Some bs, w2))"
  shows "unwraps r kt p good w (Option.bind (decode_buffer lib s url w1) f)"
proof (cases "decode_buffer lib s url w1")
  case (Some x)
  obtain r1 w2 where x: "x = (r1, w2)" by fastforce
  note d = decode_buffer_result [OF Some [unfolded x]]
  have "same_device w w2" using same_device_trans [OF assms(1) d(1)] .
  with assms(2,3) d(2) show ?thesis by (cases r1) (auto simp: Some x)
qed (simp add: unwraps_simple)

lemma unwraps_trans: "same_device w w1 \<Longrightarrow> unwraps r kt p good w1 res \<Longrightarrow> unwraps r kt p good w res"
  unfolding unwraps_def by (blast intro: same_device_trans)

lemma unwraps_weaken: "unwraps r kt p good w res \<Longrightarrow> (\<And>key. good key \<Longrightarrow> good' key) \<Longrightarrow> unwraps r kt p good' w res"
  unfolding unwraps_def by blast

lemma unwraps_check_length:
  "unwraps r kt p good w res \<Longrightarrow> unwraps r kt p good w (check_key_length n res)"
  unfolding unwraps_def check_key_length_def by (auto split: if_splits)

lemma unwraps_status:
  "unwraps r kt p good w res \<Longrightarrow>
    unwraps r kt p good w (map_option (\<lambda>(status, y). (if status \<noteq> SA_STATUS_OK then SA_STATUS_INTERNAL_ERROR else SA_STATUS_OK, y)) res)"
  unfolding unwraps_def by (auto split: if_splits)

lemma unwrap_key_v1_unwraps:
  assumes doc: "decryption_documented cr" "base64_documented lib" and wf: "rights_wf r"
  shows "unwraps r SA_KEY_TYPE_SYMMETRIC p (payload_key cr lib kvs p) w (unwrap_key_v1 cr lib (Some kvs) (Some r) (Some p) w)"
  unfolding unwrap_key_v1_def option.case if_not_P [OF option.distinct(2)]
proof (intro unwraps_with_string unwraps_buffer same_device_refl; (simp add: unwraps_simple; fail)?)
  fix s bs w2
  assume s: "string_field kvs ''contentKey'' s" and w2: "same_device w w2" and bs: "decodes lib False s bs"
  have n: "length bs < 2 ^ 31" using doc(2) bs by (auto simp: base64_documented_def decodes_def)
  have "unwraps r SA_KEY_TYPE_SYMMETRIC p (payload_key cr lib kvs p) w
      (unwrap_aes_ecb cr (Some bs) (Some r) SA_KEY_TYPE_SYMMETRIC None False (Some p) w2)"
    by (rule unwraps_trans [OF w2], rule unwraps_weaken, rule unwrap_ecb [OF doc(1) wf n]) (use s bs in \<open>auto simp: payload_key_def\<close>)
  then show "unwraps r SA_KEY_TYPE_SYMMETRIC p (payload_key cr lib kvs p) w (case (Some bs, w2) of (content_key, w) \<Rightarrow>
      (case content_key of None \<Rightarrow> Some (SA_STATUS_INVALID_KEY_FORMAT, None, w)
        | Some bytes \<Rightarrow> if length bytes mod unat SYM_128_KEY_SIZE \<noteq> 0 then Some (SA_STATUS_INVALID_KEY_FORMAT, None, w)
          else unwrap_aes_ecb cr (Some bytes) (Some r) SA_KEY_TYPE_SYMMETRIC None False (Some p) w))"
    using w2 by (simp add: unwraps_simple)
qed

lemma unwrap_key_v2_unwraps:
  assumes doc: "decryption_documented cr" "base64_documented lib" and wf: "rights_wf r"
  shows "unwraps r SA_KEY_TYPE_SYMMETRIC p (payload_key cr lib kvs p) w (unwrap_key_v2 cr lib (Some kvs) (Some r) (Some p) w)"
proof -
  have small: "length bs < 2 ^ 31" if "decodes lib False s bs" for s bs
    using doc(2) that by (auto simp: base64_documented_def decodes_def)
  have ecb: "unwraps r SA_KEY_TYPE_SYMMETRIC p (payload_key cr lib kvs p) w
      (unwrap_aes_ecb cr (Some bs) (Some r) SA_KEY_TYPE_SYMMETRIC None padded (Some p) w2)"
    if "string_field kvs ''contentKey'' s" "decodes lib False s bs" "same_device w w2" for s bs w2 padded
    by (rule unwraps_trans [OF that(3)], rule unwraps_weaken, rule unwrap_ecb [OF doc(1) wf small [OF that(2)]])
      (use that in \<open>unfold payload_key_def, blast\<close>)
  have cbc: "unwraps r SA_KEY_TYPE_SYMMETRIC p (payload_key cr lib kvs p) w
      (unwrap_aes_cbc cr (Some bs) (Some r) SA_KEY_TYPE_SYMMETRIC None padded (Some iv) (Some p) w2)"
    if "string_field kvs ''contentKey'' s" "decodes lib False s bs" "same_device w w2" for s bs w2 padded iv
    by (rule unwraps_trans [OF that(3)], rule unwraps_weaken, rule unwrap_cbc [OF doc(1) wf small [OF that(2)]])
      (use that in \<open>unfold payload_key_def, blast\<close>)
  show ?thesis
    unfolding unwrap_key_v2_def option.case if_not_P [OF option.distinct(2)] Let_def
  proof (intro unwraps_with_field unwraps_with_string unwraps_buffer same_device_refl, simp_all add: unwraps_simple, goal_cases)
    case (1 v s bs w2)
    show ?case
    proof (intro unwraps_with_field 1, simp, goal_cases)
      case (1 v')
      show ?case
        using \<open>string_field kvs ''contentKey'' s\<close> \<open>decodes lib False s bs\<close> \<open>same_device w w2\<close>
        by (auto split: option.split intro!: unwraps_simple unwraps_check_length unwraps_status unwraps_with_string unwraps_buffer ecb cbc)
    qed
  qed
qed

lemma length_strncpy_id [simp]: "length (strncpy_id s) = 64"
  by (simp add: strncpy_id_def Let_def)

lemma length_convert_uuid: "length (snd (convert_uuid s u)) = length u"
proof -
  have "length (snd (convert_uuid_loop s i j u)) = length u" for i j
  proof (induction "16 - j" arbitrary: i j u rule: less_induct)
    case less
    have IH: "length (snd (convert_uuid_loop s i' (Suc j) u')) = length u'" if "j < 16" for i' u'
      by (rule less) (use that in simp)
    show ?case by (subst convert_uuid_loop.simps) (simp add: Let_def IH)
  qed
  then show ?thesis by (simp add: convert_uuid_def)
qed

lemma read_ta_ids_wf:
  "read_ta_ids i vs tas = Some (s, tas') \<Longrightarrow> i + length vs \<le> length tas \<Longrightarrow> \<forall>u \<in> set tas. uuid_ok u \<Longrightarrow> length tas' = length tas \<and> (\<forall>u \<in> set tas'. uuid_ok u)"
proof (induction i vs tas rule: read_ta_ids.induct)
  case (2 i v vs tas)
  have ok: "uuid_ok (snd (convert_uuid t (tas ! i)))" for t
    using 2(3,4) by (simp add: uuid_ok_def length_convert_uuid)
  then have "\<forall>u \<in> set (tas[i := snd (convert_uuid t (tas ! i))]). uuid_ok u" for t
    using 2(4) set_update_subset_insert [of tas i "snd (convert_uuid t (tas ! i))"] by blast
  with 2 show ?case by (auto split: option.splits if_splits)
qed simp

definition keeps_wf :: "rights_step \<Rightarrow> bool" where
  "keeps_wf f \<longleftrightarrow> (\<forall>r w s r' w'. rights_wf r \<longrightarrow> f r w = Some (s, r', w') \<longrightarrow> rights_wf r' \<and> same_device w w')"

lemma keeps_and_then:
  assumes f: "keeps_wf f" and g: "keeps_wf g"
  shows "keeps_wf (and_then f g)"
  unfolding keeps_wf_def
proof (intro allI impI)
  fix r w s r' w' assume wf: "rights_wf r" and run: "and_then f g r w = Some (s, r', w')"
  obtain s1 r1 w1 where one: "f r w = Some (s1, r1, w1)" using run by (cases "f r w") (auto simp: and_then_def)
  have k: "rights_wf r1" "same_device w w1" using f wf one unfolding keeps_wf_def by blast+
  show "rights_wf r' \<and> same_device w w'"
  proof (cases "s1 = SA_STATUS_OK")
    case True
    then have "g r1 w1 = Some (s, r', w')" using run one by (simp add: and_then_def)
    then have "rights_wf r' \<and> same_device w1 w'" using g k(1) unfolding keeps_wf_def by blast
    with k(2) show ?thesis using same_device_trans by blast
  qed (use run one k in \<open>simp add: and_then_def\<close>)
qed

lemma keeps_field:
  "e \<noteq> SA_STATUS_OK \<Longrightarrow> (\<And>v. keeps_wf (\<lambda>r w. f r w v)) \<Longrightarrow> keeps_wf (\<lambda>r w. with_field name kvs (e, r, w) (f r w))"
  unfolding keeps_wf_def with_field_def by (auto split: bind_splits option.splits)

lemma keeps_string:
  "e \<noteq> SA_STATUS_OK \<Longrightarrow> (\<And>v. keeps_wf (\<lambda>r w. f r w v)) \<Longrightarrow> keeps_wf (\<lambda>r w. with_string name kvs (e, r, w) (f r w))"
  unfolding with_string_def by (intro keeps_field) (auto simp: keeps_wf_def split: option.splits)

lemma keeps_flags: "rights_wf (r\<lparr>usage_flags := f\<rparr>) \<longleftrightarrow> rights_wf r" "rights_wf (r\<lparr>not_before := t\<rparr>) \<longleftrightarrow> rights_wf r"
    "rights_wf (r\<lparr>not_on_or_after := t\<rparr>) \<longleftrightarrow> rights_wf r"
  by (simp_all add: rights_wf_def)

lemma keeps_steps: "keeps_wf (read_id kvs)" "keeps_wf (read_rights lib kvs)" "keeps_wf (read_usage kvs)"
    "keeps_wf (read_time name (\<lambda>t. not_before_update (\<lambda>_. t)) kvs)" "keeps_wf (read_time name (\<lambda>t. not_on_or_after_update (\<lambda>_. t)) kvs)"
    "keeps_wf (read_cacheable kvs)"
proof -
  show "keeps_wf (read_id kvs)"
    unfolding read_id_def [abs_def] by (intro keeps_string) (auto simp: keeps_wf_def rights_wf_def)
  show "keeps_wf (read_usage kvs)"
    unfolding read_usage_def [abs_def] by (intro keeps_field) (auto simp: keeps_wf_def keeps_flags split: prod.splits)
  show "keeps_wf (read_time name (\<lambda>t. not_before_update (\<lambda>_. t)) kvs)" "keeps_wf (read_time name (\<lambda>t. not_on_or_after_update (\<lambda>_. t)) kvs)"
    unfolding read_time_def [abs_def] by (intro keeps_string; auto simp: keeps_wf_def keeps_flags split: option.splits)+
  show "keeps_wf (read_cacheable kvs)"
    unfolding read_cacheable_def [abs_def] by (intro keeps_field) (auto simp: keeps_wf_def keeps_flags)
  show "keeps_wf (read_rights lib kvs)"
    unfolding read_rights_def [abs_def]
  proof (intro keeps_string, simp)
    fix s
    show "keeps_wf (\<lambda>rights w. let (bytes_ok, w) = draw w;
         (decoded, w) = b64_decode lib bytes_ok (b64_decoded_length (length s)) (Some s) False w in
       case decoded of None \<Rightarrow> Some (SA_STATUS_INVALID_KEY_FORMAT, rights, w)
       | Some bytes \<Rightarrow> let (status, flags) = content_key_rights_to_usage_flags (Some (usage_flags rights)) (Some bytes) in
           Some (status, rights\<lparr>usage_flags := the flags\<rparr>, w))"
      unfolding keeps_wf_def Let_def
    proof (intro allI impI, goal_cases)
      case (1 r w st r' w')
      obtain ok w1 where d: "draw w = (ok, w1)" by fastforce
      obtain dec w2 where b: "b64_decode lib ok (b64_decoded_length (length s)) (Some s) False w1 = (dec, w2)" by fastforce
      have "same_device w w2" using same_device_trans [OF draw_device [OF d] b64_decode_device [OF b]] .
      with 1 d b show ?case by (auto simp: keeps_flags split: option.splits prod.splits)
    qed
  qed
qed

lemma keeps_tas: "keeps_wf (read_tas kvs)"
proof -
  have array: "same_device w w1 \<and> (r = Some ids \<longrightarrow> v = Some (JSON_ARRAY ids))" if "json_value_as_array v w = Some (r, w1)" for v r w w1 ids
    using that by (auto simp: json_value_as_array_def pointers_def dest: draw_device split: option.splits json_value.splits prod.splits if_splits)
  have one: "rights_wf (r\<lparr>allowed_tas := (allowed_tas r)[0 := ALL_MATCH]\<rparr>)" if "rights_wf r" for r
    using that set_update_subset_insert [of "allowed_tas r" 0 ALL_MATCH] by (auto simp: rights_wf_def ALL_MATCH_def uuid_ok_def)
  have ids: "rights_wf (r\<lparr>allowed_tas := tas\<rparr>)" if "rights_wf r" "length ids \<le> 32" "read_ta_ids 0 ids (allowed_tas r) = Some (s, tas)" for r ids s tas
    using read_ta_ids_wf [OF that(3)] that(1,2) by (simp add: rights_wf_def)
  show ?thesis
    unfolding read_tas_def [abs_def] with_field_def keeps_wf_def
  proof (intro allI impI)
    fix r w s r' w'
    assume wf: "rights_wf r" and run: "Option.bind (json_key_value_find (Some (ascii ''entitledTaIds'')) (Some kvs))
      (\<lambda>field. case field of None \<Rightarrow> Some (SA_STATUS_OK, r\<lparr>allowed_tas := (allowed_tas r)[0 := ALL_MATCH]\<rparr>, w)
        | Some v \<Rightarrow> Option.bind (json_value_as_array v w) (\<lambda>(ids, w). case ids of
            None \<Rightarrow> (if v = Some (JSON_ARRAY []) then Some (SA_STATUS_OK, r, w) else None)
          | Some ids \<Rightarrow> if length ids > MAX_NUM_ALLOWED_TA_IDS then Some (SA_STATUS_INVALID_KEY_FORMAT, r, w)
              else map_option (\<lambda>(status, tas). (status, r\<lparr>allowed_tas := tas\<rparr>, w)) (read_ta_ids 0 ids (allowed_tas r)))) = Some (s, r', w')"
    obtain field where f: "json_key_value_find (Some (ascii ''entitledTaIds'')) (Some kvs) = Some field"
      using run by (cases "json_key_value_find (Some (ascii ''entitledTaIds'')) (Some kvs)") auto
    show "rights_wf r' \<and> same_device w w'"
    proof (cases field)
      case None
      then show ?thesis using run f one [OF wf] by auto
    next
      case (Some v)
      obtain x w1 where a: "json_value_as_array v w = Some (x, w1)" using run f Some by (cases "json_value_as_array v w") auto
      have w1: "same_device w w1" using array [OF a] by simp
      show ?thesis
      proof (cases x)
        case None
        then show ?thesis using run f Some a w1 wf by (auto split: if_splits)
      next
        case ids': (Some ids)
        show ?thesis
        proof (cases "length ids > MAX_NUM_ALLOWED_TA_IDS")
          case False
          then obtain tas where "read_ta_ids 0 ids (allowed_tas r) = Some (s, tas)" "r' = r\<lparr>allowed_tas := tas\<rparr>" "w' = w1"
            using run f Some a ids' by auto
          moreover have "length ids \<le> 32" using False by (simp add: MAX_NUM_ALLOWED_TA_IDS_def)
          ultimately show ?thesis using ids [OF wf] w1 by blast
        qed (use run f Some a ids' w1 wf in auto)
      qed
    qed
  qed
qed

lemma fields_to_rights_wf:
  assumes "fields_to_rights lib kvs w = Some (s, r, w')"
  shows "rights_wf r \<and> same_device w w'"
proof (cases kvs)
  case (Some es)
  have "keeps_wf (and_then (read_id es) (and_then (read_rights lib es) (and_then (read_usage es)
      (and_then (read_time ''contentKeyNotBefore'' (\<lambda>t. not_before_update (\<lambda>_. t)) es)
      (and_then (read_time ''contentKeyNotOnOrAfter'' (\<lambda>t. not_on_or_after_update (\<lambda>_. t)) es)
      (and_then (read_cacheable es) (read_tas es)))))))"
    by (intro keeps_and_then keeps_steps keeps_tas)
  moreover have "rights_wf zero_rights" by (simp add: zero_rights_def rights_wf_def uuid_ok_def MAX_NUM_ALLOWED_TA_IDS_def)
  ultimately show ?thesis using assms unfolding Some fields_to_rights_def option.case keeps_wf_def by blast
qed (use assms in \<open>auto simp: fields_to_rights_def zero_rights_def rights_wf_def uuid_ok_def MAX_NUM_ALLOWED_TA_IDS_def\<close>)

lemma unpack_typej_result:
  assumes "unpack_typej lib (Some text) w = Some (Some t, w')"
  shows "same_device w w' \<and> (\<exists>mac_b64. text = header_b64 t @ [0x2E] @ payload_b64 t @ [0x2E] @ mac_b64 \<and>
    decodes lib True (payload_b64 t) (unpacked_payload t) \<and> decodes lib True mac_b64 (unpacked_mac t))"
proof -
  obtain ok w1 where d: "draw w = (ok, w1)" by fastforce
  obtain header rest where h: "split_dot text = Some (header, rest)" using assms d by (auto simp: unpack_typej_def split: option.splits if_splits)
  obtain payload mac where p: "split_dot rest = Some (payload, mac)"
    using assms d h by (auto simp: unpack_typej_def split: option.splits if_splits)
  obtain r1 w2 where h': "decode_buffer lib header True w1 = Some (r1, w2)"
    using assms d h p by (auto simp: unpack_typej_def split: if_splits bind_splits)
  obtain r2 w3 where p': "decode_buffer lib payload True w2 = Some (r2, w3)"
    using assms d h p h' by (auto simp: unpack_typej_def split: if_splits bind_splits)
  obtain r3 w4 where m': "decode_buffer lib mac True w3 = Some (r3, w4)"
    using assms d h p h' p' by (auto simp: unpack_typej_def split: if_splits bind_splits)
  have t: "\<exists>a b. r2 = Some a \<and> r3 = Some b \<and> t = \<lparr>header_b64 = header, payload_b64 = payload, unpacked_payload = a, unpacked_mac = b\<rparr> \<and> w' = w4"
    using assms d h p h' p' m' by (auto simp: unpack_typej_def split: if_splits)
  note dev = draw_device [OF d] decode_buffer_result(1) [OF h'] decode_buffer_result(1) [OF p'] decode_buffer_result(1) [OF m']
  have "same_device w w4" by (rule chain4 [OF dev])
  with t split_dot_Some [OF h] split_dot_Some [OF p] decode_buffer_result(2) [OF p'] decode_buffer_result(2) [OF m'] show ?thesis by auto
qed

lemma verify_mac_OK:
  assumes cr: "crypto_ok cr" and run: "verify_mac cr (Some h) (Some p) (Some m) (Some k) w = (SA_STATUS_OK, w')"
  shows "m = hmac_function cr SA_DIGEST_ALGORITHM_SHA256 (sk_key k) (h @ [0x2E] @ p)"
proof -
  obtain s mac l w1 where h: "hmac cr True (Some 32) SA_DIGEST_ALGORITHM_SHA256 h [0x2E] p (Some k) w = (s, mac, l, w1)" using prod_cases4 by blast
  have r: "s = SA_STATUS_OK" "length m = 32" "memory_memcmp_constant (the mac) m (length m) = 0"
    using run h by (auto simp: verify_mac_def SHA256_DIGEST_LENGTH_def split: if_splits)
  have "mac = Some (hmac_function cr SA_DIGEST_ALGORITHM_SHA256 (sk_key k) (h @ [0x2E] @ p))"
    using h r(1) by (auto simp: hmac_def dest: hmac_internal_success)
  moreover have "length (hmac_function cr SA_DIGEST_ALGORITHM_SHA256 (sk_key k) (h @ [0x2E] @ p)) = 32"
    using cr by (simp add: crypto_ok_def)
  ultimately show ?thesis using r(2,3) by (simp add: memcmp_eq_0_iff)
qed

lemma as_map_Some: "json_value_as_map v w = Some (Some kvs, w') \<Longrightarrow> \<exists>es. v = Some (JSON_MAP es) \<and> kvs = tl es"
  by (auto simp: json_value_as_map_def pointers_def split: option.splits json_value.splits prod.splits if_splits)


end
