(* ===== verification/Json_Witnesses.thy ===== *)
theory Json_Witnesses
  imports Typej_Laws Ta_Key_Witnesses
begin

text \<open>Concrete instances of the properties of the JSON parser and of the key containers.\<close>

section \<open>A container\<close>

lemma ascii_eq [simp]: "ascii s = ascii t \<longleftrightarrow> s = t"
proof -
  have "inj (of_char :: char \<Rightarrow> u8)"
  proof (rule injI)
    fix a b :: char assume "(of_char a :: u8) = of_char b"
    then have "(of_nat (of_char a :: nat) :: u8) = of_nat (of_char b :: nat)" by (simp only: of_nat_of_char)
    then have "unat (of_nat (of_char a :: nat) :: u8) = unat (of_nat (of_char b :: nat) :: u8)" by (rule arg_cong)
    moreover have "(of_char c :: nat) < 256" for c :: char by (rule nat_of_char_less_256)
    ultimately show "a = b" by (simp add: unat_of_nat take_bit_nat_eq_self)
  qed
  then show ?thesis by (simp add: ascii_def)
qed

lemma length_ascii [simp]: "length (ascii s) = length s"
  by (simp add: ascii_def)

definition demo_fields :: "(string \<times> json) list" where
  "demo_fields =
     [(''contentKeyId'', Json_String []), (''contentKeyRights'', Json_String []), (''contentKeyUsage'', Json_Int 1),
      (''contentKeyNotBefore'', Json_String (iso_text 2024 2 29 12 0 0)), (''contentKeyNotOnOrAfter'', Json_String (iso_text 2034 1 1 0 0 0)),
      (''contentKeyCacheable'', Json_Bool True), (''contentKey'', Json_String (replicate 24 0x41))]"

definition demo_object :: json where
  "demo_object = Json_Object (map (\<lambda>(n, v). (ascii n, v)) demo_fields)"

definition demo_token_mac :: "u8 list" where
  "demo_token_mac = replicate 16 5 @ [0x48, 0x2E, 0x50] @ replicate 13 0"

definition demo_library :: json_library where
  "demo_library = \<lparr>yajl_events = (\<lambda>text. (events_of demo_object, True)),
     base64_read = (\<lambda>d n. Some (take n (if length d = 44 then demo_token_mac else if length d = 24 then replicate 16 7 else []))),
     fresh_memory = (\<lambda>n. replicate n 0)\<rparr>"

definition demo_token :: "u8 list" where
  "demo_token = [0x48, 0x2E, 0x50, 0x2E] @ replicate 44 0x4D"

lemma demo_short: "keys_short demo_object"
  by (simp add: demo_object_def demo_fields_def MAX_KEY_LENGTH_def)

theorem json_parse_builds_witness: "json_parse_bytes demo_library (Some []) demo_world = (built demo_object, demo_world)"
  using json_parse_builds [of demo_library "[]" demo_object demo_world] demo_short by (simp add: demo_library_def)

theorem json_lookup_finds_witness:
  "\<exists>v kvs. json_parse_bytes demo_library (Some []) demo_world = (v, demo_world) \<and> json_value_as_map v demo_world = Some (Some kvs, demo_world) \<and>
    json_key_value_find (Some (ascii ''contentKeyUsage'')) (Some kvs) = Some (Some (Some (JSON_INT 1)))"
  using json_lookup_finds [of demo_library "[]" "map (\<lambda>(n, v). (ascii n, v)) demo_fields" demo_world "ascii ''contentKeyUsage''"] demo_short
  by (simp add: demo_library_def demo_object_def [symmetric] MAX_KEY_LENGTH_def) (simp add: demo_fields_def)


theorem content_key_rights_exact_witness:
  "\<exists>flags. content_key_rights_to_usage_flags (Some 0) (Some [5, 8]) = (SA_STATUS_OK, Some flags) \<and>
    SA_USAGE_FLAG_ALLOWED_ANALOG_UNPROTECTED \<notin> usage_flag_set flags \<and> SA_USAGE_FLAG_ALLOWED_ANALOG_CGMSA \<in> usage_flag_set flags"
proof -
  obtain flags where r: "content_key_rights_to_usage_flags (Some 0) (Some [5, 8]) = (SA_STATUS_OK, Some flags)"
    by (simp add: content_key_rights_to_usage_flags_def typej_rights)
  note exact = content_key_rights_exact [OF r, THEN conjunct2, rule_format]
  have "SA_USAGE_FLAG_ALLOWED_ANALOG_UNPROTECTED \<notin> usage_flag_set flags" "SA_USAGE_FLAG_ALLOWED_ANALOG_CGMSA \<in> usage_flag_set flags"
    unfolding exact sa_usage_flag.case typej_rights by simp_all
  with r show ?thesis by blast
qed

theorem iso8601_exact_witness: "iso8601_to_epoch_time (Some (ascii ''1972-03-01T12:00:00Z'')) = Some 68299200"
proof -
  have "valid_time 1972 3 1 12 0 0" by (simp add: valid_time_def month_length_def)
  from iso8601_exact [OF this] have "iso8601_to_epoch_time (Some (iso_text 1972 3 1 12 0 0)) =
      Some (of_nat (((days_until 1972 3 1 * 24 + 12) * 60 + 0) * 60 + 0))" .
  moreover have "{1970..<1972} = {1970, 1971 :: nat}" "{1..<3} = {1, 2 :: nat}" by auto
  then have "days_until 1972 3 1 = 790" unfolding days_until_def by (simp add: leap_year_def month_length_def)
  moreover have "iso_text 1972 3 1 12 0 0 = ascii ''1972-03-01T12:00:00Z''"
    by (simp add: iso_text_def two_digits_def digit_def ascii_def)
  ultimately show ?thesis by simp
qed

section \<open>Unwrapping the container\<close>

definition demo_kvs :: json_map where
  "demo_kvs = built_entries (map (\<lambda>(n, v). (ascii n, v)) demo_fields)"

lemma demo_find:
  assumes "length n \<le> 255"
  shows "json_key_value_find (Some (ascii n)) (Some demo_kvs) = Some (map_of (map (\<lambda>(n, v). (n, built v)) demo_fields) n)"
proof -
  have "map_of (map (\<lambda>(k, v). (k, built v)) (map (\<lambda>(n, v). (ascii n, v)) fs)) (ascii n) = map_of (map (\<lambda>(n, v). (n, built v)) fs) n" for fs
    by (induction fs) auto
  then show ?thesis using find_built [of "ascii n" "map (\<lambda>(n, v). (ascii n, v)) demo_fields"] assms
    by (simp add: demo_kvs_def MAX_KEY_LENGTH_def)
qed

lemmas demo_field = with_string_def with_field_def demo_find demo_fields_def json_value_as_string_def

lemma demo_b64: "b64_decode demo_library True (b64_decoded_length (length s)) (Some s) url demo_world =
    (base64_read demo_library (b64_data demo_library url s) (b64_decoded_length (length s)), demo_world)"
  by (simp add: b64_decode_def b64_decoded_length_def)

lemma demo_rights_steps:
  "read_id demo_kvs zero_rights demo_world = Some (SA_STATUS_OK, zero_rights, demo_world)"
  "\<exists>f. read_rights demo_library demo_kvs r demo_world = Some (SA_STATUS_OK, r\<lparr>usage_flags := f\<rparr>, demo_world)"
  "\<exists>f. read_usage demo_kvs r demo_world = Some (SA_STATUS_OK, r\<lparr>usage_flags := f\<rparr>, demo_world)"
  "\<exists>t. read_time ''contentKeyNotBefore'' (\<lambda>t. not_before_update (\<lambda>_. t)) demo_kvs r demo_world = Some (SA_STATUS_OK, r\<lparr>not_before := t\<rparr>, demo_world)"
  "\<exists>t. read_time ''contentKeyNotOnOrAfter'' (\<lambda>t. not_on_or_after_update (\<lambda>_. t)) demo_kvs r demo_world =
     Some (SA_STATUS_OK, r\<lparr>not_on_or_after := t\<rparr>, demo_world)"
  "\<exists>f. read_cacheable demo_kvs r demo_world = Some (SA_STATUS_OK, r\<lparr>usage_flags := f\<rparr>, demo_world)"
  "\<exists>tas. read_tas demo_kvs r demo_world = Some (SA_STATUS_OK, r\<lparr>allowed_tas := tas\<rparr>, demo_world)"
proof -
  show "read_id demo_kvs zero_rights demo_world = Some (SA_STATUS_OK, zero_rights, demo_world)"
    by (simp add: read_id_def demo_field zero_rights_def strncpy_id_def)
  have "b64_decode demo_library True 0 (Some []) False demo_world = (Some [], demo_world)"
    using demo_b64 [of "[]"] by (simp add: demo_library_def b64_decoded_length_def)
  then show "\<exists>f. read_rights demo_library demo_kvs r demo_world = Some (SA_STATUS_OK, r\<lparr>usage_flags := f\<rparr>, demo_world)"
    by (simp add: read_rights_def demo_field b64_decoded_length_def content_key_rights_to_usage_flags_def) (rule exI, rule refl)
  show "\<exists>f. read_usage demo_kvs r demo_world = Some (SA_STATUS_OK, r\<lparr>usage_flags := f\<rparr>, demo_world)"
    by (simp add: read_usage_def demo_field json_value_as_integer_def key_usage_to_usage_flags_def Let_def) (rule exI, rule refl)
  have "valid_time 2024 2 29 12 0 0" "valid_time 2034 1 1 0 0 0"
    by (simp_all add: valid_time_def month_length_def leap_year_def)
  then obtain a b where t: "iso8601_to_epoch_time (Some (iso_text 2024 2 29 12 0 0)) = Some a"
    "iso8601_to_epoch_time (Some (iso_text 2034 1 1 0 0 0)) = Some b" using iso8601_of_valid by blast
  note t = t [unfolded One_nat_def]
  show "\<exists>t. read_time ''contentKeyNotBefore'' (\<lambda>t. not_before_update (\<lambda>_. t)) demo_kvs r demo_world = Some (SA_STATUS_OK, r\<lparr>not_before := t\<rparr>, demo_world)"
    by (simp add: read_time_def demo_field t) (rule exI, rule refl)
  show "\<exists>t. read_time ''contentKeyNotOnOrAfter'' (\<lambda>t. not_on_or_after_update (\<lambda>_. t)) demo_kvs r demo_world =
     Some (SA_STATUS_OK, r\<lparr>not_on_or_after := t\<rparr>, demo_world)"
    by (simp add: read_time_def demo_field t) (rule exI, rule refl)
  show "\<exists>f. read_cacheable demo_kvs r demo_world = Some (SA_STATUS_OK, r\<lparr>usage_flags := f\<rparr>, demo_world)"
    by (simp add: read_cacheable_def demo_field json_value_as_bool_def) (rule exI, rule refl)
  show "\<exists>tas. read_tas demo_kvs r demo_world = Some (SA_STATUS_OK, r\<lparr>allowed_tas := tas\<rparr>, demo_world)"
    by (simp add: read_tas_def demo_field) (rule exI, rule refl)
qed

lemma demo_fields_rights:
  "\<exists>r. fields_to_rights demo_library (Some demo_kvs) demo_world = Some (SA_STATUS_OK, r, demo_world) \<and> rights_id r = replicate 64 0"
proof -
  note s = demo_rights_steps
  obtain f1 where 1: "read_rights demo_library demo_kvs zero_rights demo_world = Some (SA_STATUS_OK, zero_rights\<lparr>usage_flags := f1\<rparr>, demo_world)"
    using s(2) by blast
  define r1 where "r1 = zero_rights\<lparr>usage_flags := f1\<rparr>"
  obtain f2 where 2: "read_usage demo_kvs r1 demo_world = Some (SA_STATUS_OK, r1\<lparr>usage_flags := f2\<rparr>, demo_world)" using s(3) by blast
  define r2 where "r2 = r1\<lparr>usage_flags := f2\<rparr>"
  obtain t3 where 3: "read_time ''contentKeyNotBefore'' (\<lambda>t. not_before_update (\<lambda>_. t)) demo_kvs r2 demo_world =
      Some (SA_STATUS_OK, r2\<lparr>not_before := t3\<rparr>, demo_world)" using s(4) by blast
  define r3 where "r3 = r2\<lparr>not_before := t3\<rparr>"
  obtain t4 where 4: "read_time ''contentKeyNotOnOrAfter'' (\<lambda>t. not_on_or_after_update (\<lambda>_. t)) demo_kvs r3 demo_world =
      Some (SA_STATUS_OK, r3\<lparr>not_on_or_after := t4\<rparr>, demo_world)" using s(5) by blast
  define r4 where "r4 = r3\<lparr>not_on_or_after := t4\<rparr>"
  obtain f5 where 5: "read_cacheable demo_kvs r4 demo_world = Some (SA_STATUS_OK, r4\<lparr>usage_flags := f5\<rparr>, demo_world)" using s(6) by blast
  define r5 where "r5 = r4\<lparr>usage_flags := f5\<rparr>"
  obtain tas where 6: "read_tas demo_kvs r5 demo_world = Some (SA_STATUS_OK, r5\<lparr>allowed_tas := tas\<rparr>, demo_world)" using s(7) by blast
  have "fields_to_rights demo_library (Some demo_kvs) demo_world = Some (SA_STATUS_OK, r5\<lparr>allowed_tas := tas\<rparr>, demo_world)"
    by (simp add: fields_to_rights_def and_then_def s(1) 1 [folded r1_def] 2 [folded r2_def] 3 [folded r3_def] 4 [folded r4_def] 5 [folded r5_def] 6)
  moreover have "rights_id r5 = replicate 64 0" by (simp add: r5_def r4_def r3_def r2_def r1_def zero_rights_def)
  ultimately show ?thesis by simp
qed

lemma demo_unwraps_with:
  assumes "rights_id r = replicate 64 0"
  shows "\<exists>k. unwrap_aes_ecb demo_crypto (Some (replicate 16 7)) (Some r) SA_KEY_TYPE_SYMMETRIC None False (Some demo_key) demo_world =
    Some (SA_STATUS_OK, Some k, demo_world)"
proof -
  let ?create = "stored_key_create True (Some r) (Some demo_rights) SA_KEY_TYPE_SYMMETRIC no_parameters 16 (Some (replicate 16 7)) demo_world"
  have "rights_validate_format (Some r)" using assms by (simp add: rights_validate_format_def strnlen_def)
  then obtain k where k: "?create = (SA_STATUS_OK, Some k, demo_world)"
    by (auto simp: stored_key_create_def key_type_supports_any_def key_type_supports_hmac_def valid_hmac_size_def
        SYM_128_KEY_SIZE_def SYM_MAX_KEY_SIZE_def Let_def)
  have "aes_ecb_decrypt demo_crypto a b = b" for a b by (simp add: demo_crypto_def)
  then show ?thesis
    using k by (simp add: unwrap_aes_ecb_def unwrapping_def unwrap_aes_ecb_internal_def import_padded_def import_key_def
        AES_BLOCK_SIZE_def demo_key_def valid_ladder_key_iff Let_def)
qed

lemma demo_split:
  "split_dot demo_token = Some ([0x48], [0x50, 0x2E] @ replicate 44 0x4D)" "split_dot ([0x50, 0x2E] @ replicate 44 0x4D) = Some ([0x50], replicate 44 0x4D)"
  by (simp_all add: split_dot_def demo_token_def)

lemma demo_buffers_decoded:
  "decode_buffer demo_library [0x48] True demo_world = Some (Some [], demo_world)"
  "decode_buffer demo_library [0x50] True demo_world = Some (Some [], demo_world)"
  "decode_buffer demo_library (replicate 44 0x4D) True demo_world = Some (Some demo_token_mac, demo_world)"
  "decode_buffer demo_library (replicate 24 0x41) False demo_world = Some (Some (replicate 16 7), demo_world)"
  using demo_b64 [of "[0x48]" True] demo_b64 [of "[0x50]" True] demo_b64 [of "replicate 44 0x4D" True] demo_b64 [of "replicate 24 0x41" False]
  by (simp_all add: decode_buffer_def demo_library_def b64_data_def b64_decoded_length_def demo_token_mac_def)


end
