(* ===== verification/Spec2Isabelle.thy ===== *)
theory Spec2Isabelle
  imports Cenc_Witnesses Json_Witnesses
begin

text \<open>
  SecAPI (repository tasecureapi) is a reference implementation of a security processor's trusted
  application. The sources modelled here are those of \<^verbatim>\<open>src/reference/src/taimpl\<close>, the part that would run in
  a trusted execution environment, with the public types of \<^verbatim>\<open>client/include/sa_types.h\<close> and some helpers of \<^verbatim>\<open>util\<close>.
  A client opens a session; in the session it imports, derives, unwraps and exports keys, which it sees as handles only, and
  asks for encryption, authentication and decryption of media with them. The code must not let a client use a key it
  does not own, or use one against the rights the key carries (usages, validity period, TAs, video outputs).

  How the parts interact: a command (\<^verbatim>\<open>ta_sa_*.c\<close>) takes the session out of the client store (\<^verbatim>\<open>client_store.c\<close>), one of the
  object stores out of the session (\<^verbatim>\<open>key_store.c\<close>, \<^verbatim>\<open>cipher_store.c\<close>, \<^verbatim>\<open>mac_store.c\<close>, \<^verbatim>\<open>svp_store.c\<close>), an object out
  of that by its handle (all stores are an \<^verbatim>\<open>object_store.c\<close>, which takes its slots from \<^verbatim>\<open>slots.c\<close>), checks the rights of the key
  (\<^verbatim>\<open>rights.c\<close>), does its work in the cryptographic contexts (\<^verbatim>\<open>symmetric.c\<close>, \<^verbatim>\<open>hmac_context.c\<close>, \<^verbatim>\<open>cmac_context.c\<close>, \<^verbatim>\<open>kdf.c\<close>,
  \<^verbatim>\<open>unwrap.c\<close>, \<^verbatim>\<open>cenc.c\<close>, \<^verbatim>\<open>rsa.c\<close>, \<^verbatim>\<open>ec.c\<close>) on OpenSSL, and gives back what it took.
\<close>

section \<open>Conventions\<close>

text \<open>
  \<^item> The platform is a 64-bit little-endian one; the build is the one with \<^verbatim>\<open>ENABLE_SVP\<close>, OpenSSL 3 and version 2 of yajl.
  \<^item> Integers the code computes with at a fixed width are words (\<open>u8\<close> to \<open>u64\<close>), so that wrap-around is that of C. Lengths of
    byte lists are natural numbers where the code only compares them; lengths that a caller states are \<open>u64\<close>.
  \<^item> A pointer the code compares with NULL is an \<open>option\<close>, an output pointer a \<open>bool\<close> that says whether it is there; what is written
    through it is part of the result. Objects that are shared or freed live in a \<open>heap\<close> at addresses (\<open>SA_Base\<close>).
  \<^item> The calls that can fail (allocations, mutexes, calls of OpenSSL) draw their outcome from the script \<open>w_faults\<close> of the \<open>world\<close>;
    a theorem about every world is one about every pattern of failures. The world also has the clock, the video
    outputs, the random bytes, the cached root keys and the memory the TAs share.
  \<^item> What OpenSSL computes is the parameter \<open>crypto\<close> (\<open>Otp\<close>), what yajl and the Base64 reader give is the parameter \<open>json_library\<close>
    (\<open>Json\<close>). What the code relies on is a named hypothesis (\<open>crypto_ok\<close>, \<open>evp_documented\<close>, \<open>ctr_documented\<close>,
    \<open>decryption_documented\<close>, \<open>digests_documented\<close>, \<open>base64_documented\<close>), which the witnesses prove of a concrete library.
  \<^item> Errors are the constructors of \<open>sa_status\<close>. A result \<open>None\<close> of a command means that it does not return, or has run
    into behaviour C leaves undefined (a NULL dereference, a double free, a read out of bounds).
  \<^item> Waiting loops (\<open>Object_Store\<close>) run against a schedule of what other threads do between their attempts; theorems hold for
    every schedule, or for those in which every user releases what it holds. The only loop of a command that can run forever (\<open>pattern_loop\<close> of \<open>Cenc\<close>) is a
    \<open>partial_function\<close>, and exactly when it ends is a theorem. All other definitions are total; none uses fuel.
\<close>

section \<open>Theories\<close>

text \<open>
  \<^item> \<open>SA_Base\<close>, \<open>SA_Types\<close>, \<open>Header\<close>: words, status codes, world, heap, the types of \<^verbatim>\<open>sa_types.h\<close>, the bytes of a key header.
  \<^item> \<open>Slots\<close>, \<open>Object_Store\<close>, \<open>Registry\<close>, \<open>Typed_Store\<close>: the slot bit field, refined to a finite set; the reference-counted store with its waiting
    removal; the locale of a registry of owned objects and its interpretation; what the stores of one object type have in common.
  \<^item> \<open>Mac_Store\<close>, \<open>Cipher_Store\<close>, \<open>Svp\<close>, \<open>Svp_Store\<close>, \<open>Key_Store\<close> with \<open>Key_Store_Laws\<close> and \<open>Key_Export\<close>: the stores. A key rests wrapped
    under a ladder key and is handed out only to its owner within its rights; exported containers are authentic and import again.
  \<^item> \<open>Rights\<close>, \<open>Key_Type\<close>, \<open>Stored_Key\<close>, \<open>Pad\<close>, \<open>Otp\<close>: rights and their conversions, sizes of keys, the keys in the clear and the restriction
    of a child's rights, PKCS #7, the key ladder of \<^verbatim>\<open>otp.c\<close>.
  \<^item> \<open>Mac_Context\<close>, \<open>Symmetric\<close>, \<open>Kdf\<close>, \<open>Public_Key\<close>, \<open>Unwrap\<close>: the cryptographic contexts, where a context is the sequence of its calls to OpenSSL;
    streaming equals one-shot computation, decryption inverts encryption, and the derivations compute their standards.
  \<^item> \<open>Device\<close>, \<open>Client_Store\<close>, \<open>Exclusive\<close>, \<open>Buffer\<close>: what an operation leaves alone; sessions and the two frames of the handlers (the session, the object
    held exclusively); the buffers.
  \<^item> \<open>Ta_Mac\<close>, \<open>Mac_Session\<close>, \<open>Ta_Cipher_Init\<close>, \<open>Ta_Cipher\<close>, \<open>Ta_Cipher_Laws\<close>, \<open>Ta_Cipher_Errors\<close>, \<open>Ta_Keys\<close>, \<open>Ta_Derive\<close>, \<open>Ta_Unwrap\<close>: the commands and what
    a caller gets from them.
  \<^item> \<open>Cenc\<close>, \<open>Cenc_Laws\<close>, \<open>Cenc_Ctr\<close>, \<open>Cenc_Samples\<close>: common encryption of media samples; the loops over subsamples and stripes compute the
    decryption of the protected segments under one key stream whose counter has 64 bits.
  \<^item> \<open>Json\<close>, \<open>Json_Laws\<close>, \<open>Typej\<close>, \<open>Typej_Laws\<close>: the JSON parser and the key containers in it.
  \<^item> \<open>Demo\<close>, \<open>Demo_Ta\<close>, \<open>Witnesses\<close>, \<open>Context_Witnesses\<close>, \<open>Ta_Witnesses\<close>, \<open>Ta_Key_Witnesses\<close>, \<open>Cenc_Witnesses\<close>, \<open>Json_Witnesses\<close>: concrete values and the instances of the properties on them.
\<close>

section \<open>Not modelled\<close>

text \<open>
  The dispatcher \<^verbatim>\<open>ta.c\<close> and the client library copy parameters between two address spaces; the engine and the provider
  (\<^verbatim>\<open>client/src\<close>) adapt OpenSSL's interfaces to this one; transport, logging and the PKCS 12 files of the root keys are I/O.
\<close>

end
